(* ===== verification/Prelude.thy ===== *)
theory Prelude
  imports Main "HOL-Library.Finite_Map" "HOL-Library.List_Lexorder" "HOL-Library.Char_ord"
    "HOL-Library.Word" "HOL-Library.Monad_Syntax"
    "HOL-Library.Multiset"
begin

text \<open>
  Shared vocabulary of the development: how Go values are represented, the errors of the modelled
  code, and the generic lemmas on lists, options and finite maps that the components share.

  \<^item> A Go \<open>string\<close> is a \<^typ>\<open>string\<close>, a list of bytes; \<open>List_Lexorder\<close> and \<open>Char_ord\<close> give it
    the byte-wise lexicographic order that Go's \<open><\<close> on strings and \<open>sort.Strings\<close> use.
  \<^item> A Go map is a finite map; \<open>None\<close> is the nil map, which reads like the empty map but is told
    apart by \<open>m != nil\<close>.
  \<^item> A Go pointer is an \<open>option\<close>. A run-time panic (nil dereference, index out of range) is the
    result \<open>None\<close> of a function whose result type is an \<open>option\<close>.
  \<^item> A Go \<open>error\<close> result is \<open>Inl\<close> of an \<open>error\<close>; the constructors name the places of the
    source that build an error, \<open>Wrapped\<close> is \<open>fmt.Errorf("...: %w", err)\<close>.
\<close>

section \<open>Collections of facts\<close>

named_theorems go_defs \<open>definitions of small helpers that proofs unfold\<close>
named_theorems keeps_wf \<open>every operation keeps its component's invariant\<close>

section \<open>Go maps and slices\<close>

type_synonym ('k, 'v) gomap = "('k, 'v) fmap option"
type_synonym smap = "(string, string) gomap"

text \<open>What reading a possibly nil map sees.\<close>

definition entries :: "('k, 'v) gomap \<Rightarrow> ('k, 'v) fmap" where
  "entries m = (case m of None \<Rightarrow> fmempty | Some f \<Rightarrow> f)"

lemma entries_simps [simp]: "entries None = fmempty" "entries (Some f) = f"
  by (simp_all add: entries_def)

text \<open>\<open>sort.Strings\<close>: strings that compare equal are equal, so every sorting algorithm gives this.\<close>

definition sort_strings :: "string list \<Rightarrow> string list" where
  "sort_strings hosts = sort hosts"

lemma sort_strings_idem [simp]: "sort_strings (sort_strings xs) = sort_strings xs"
  by (simp add: sort_strings_def sorted_sort_id)

lemma set_sort_strings [simp]: "set (sort_strings xs) = set xs"
  by (simp add: sort_strings_def)

lemma length_sort_strings [simp]: "length (sort_strings xs) = length xs"
  by (simp add: sort_strings_def)

lemma sort_strings_Nil [simp]: "sort_strings [] = []"
  by (simp add: sort_strings_def)

lemma sort_strings_Nil_iff [simp]: "sort_strings xs = [] \<longleftrightarrow> xs = []"
  by (metis length_0_conv length_sort_strings)

lemma hd_sort_strings_le:
  assumes "x \<in> set xs"
  shows "hd (sort_strings xs) \<le> x"
proof -
  have "x \<in> set (sort_strings xs)" and "sorted (sort_strings xs)"
    using assms by (simp_all add: sort_strings_def)
  then show ?thesis by (cases "sort_strings xs") auto
qed

lemma hd_sort_strings_in: "xs \<noteq> [] \<Longrightarrow> hd (sort_strings xs) \<in> set xs"
  by (metis hd_in_set set_sort_strings sort_strings_Nil_iff)

section \<open>Strings\<close>

text \<open>\<open>strings.Split(s, sep)\<close> for a separator of one byte.\<close>

fun split_on :: "char \<Rightarrow> string \<Rightarrow> string list" where
  "split_on c [] = [[]]"
| "split_on c (x # xs) =
     (if x = c then [] # split_on c xs
      else (case split_on c xs of [] \<Rightarrow> [[x]] | p # ps \<Rightarrow> (x # p) # ps))"

lemma split_on_nonempty [simp]: "split_on c s \<noteq> []"
  by (induction s) (auto split: list.splits)

lemma split_on_no_sep: "c \<notin> set s \<Longrightarrow> split_on c s = [s]"
  by (induction s) (auto split: list.splits)

lemma split_on_append_sep: "c \<notin> set s \<Longrightarrow> split_on c (s @ c # t) = s # split_on c t"
  by (induction s) (auto split: list.splits)

lemma length_split_on: "length (split_on c s) = Suc (count_list s c)"
  by (induction s) (auto split: list.splits)

lemma split_on_parts_no_sep: "p \<in> set (split_on c s) \<Longrightarrow> c \<notin> set p"
proof (induction s arbitrary: p)
  case Nil
  then show ?case by simp
next
  case (Cons x xs)
  obtain q qs where q: "split_on c xs = q # qs"
    by (metis list.exhaust split_on_nonempty)
  with Cons show ?case by (cases "x = c") auto
qed

section \<open>Errors\<close>

text \<open>The reasons of Kubernetes API status errors that the code tells apart.\<close>

datatype status_reason = NotFound | AlreadyExists | Conflict | BadRequest | OtherReason string

datatype error =
    UnexpectedKeyFormat string          \<comment> \<open>\<open>cache.SplitMetaNamespaceKey\<close>\<close>
  | InvalidResourceKey string           \<comment> \<open>\<open>newState\<close> of the generated reconciler\<close>
  | YamlError string                    \<comment> \<open>\<open>yaml.Unmarshal\<close>\<close>
  | VisibilityEmpty string              \<comment> \<open>visibility must not be empty\<close>
  | UnrecognizedVisibility string
  | VisibilityMustSetClass string
  | MarshalError string                 \<comment> \<open>\<open>json.Marshal\<close>\<close>
  | RuleMissingHTTP                     \<comment> \<open>rule is missing HTTP block\<close>
  | NoGatewayPods                       \<comment> \<open>no gateway pods available\<close>
  | ClearTerminalCondition              \<comment> \<open>clearing terminal conditions not implemented\<close>
  | StatusError status_reason string    \<comment> \<open>an API status error about the named object\<close>
  | SkipKeyError string                 \<comment> \<open>\<open>controller.NewSkipKey\<close>\<close>
  | RequeueKeyError int                 \<comment> \<open>\<open>controller.NewRequeueAfter\<close>\<close>
  | PermanentError error                \<comment> \<open>\<open>controller.NewPermanentError\<close>\<close>
  | ReconcilerEvent string string string \<comment> \<open>event type, reason and message\<close>
  | Wrapped string error                \<comment> \<open>\<open>fmt.Errorf("...: %w", err)\<close>\<close>
  | OtherError string                   \<comment> \<open>an error from outside the modelled code\<close>

text \<open>\<open>apierrs.ReasonForError\<close>: \<open>errors.As\<close> walks the chain of wrapped errors.\<close>

fun reason_for_error :: "error \<Rightarrow> status_reason option" where
  "reason_for_error (StatusError r _) = Some r"
| "reason_for_error (Wrapped _ e) = reason_for_error e"
| "reason_for_error (PermanentError e) = reason_for_error e"
| "reason_for_error _ = None"

definition is_not_found :: "error \<Rightarrow> bool" where
  [go_defs]: "is_not_found e \<longleftrightarrow> reason_for_error e = Some NotFound"

definition is_conflict :: "error \<Rightarrow> bool" where
  [go_defs]: "is_conflict e \<longleftrightarrow> reason_for_error e = Some Conflict"

lemma is_not_found_simps [simp]:
  "is_not_found (StatusError r n) \<longleftrightarrow> r = NotFound"
  "is_not_found (Wrapped m e) = is_not_found e"
  "is_conflict (StatusError r n) \<longleftrightarrow> r = Conflict"
  "is_conflict (Wrapped m e) = is_conflict e"
  by (simp_all add: go_defs)

section \<open>Lists searched for the first match\<close>

lemma find_SomeD: "find P xs = Some x \<Longrightarrow> P x \<and> x \<in> set xs"
  by (induction xs) (auto split: if_splits)

lemma find_map_filter:
  "find P xs = (case filter P xs of [] \<Rightarrow> None | x # _ \<Rightarrow> Some x)"
  by (induction xs) auto

lemma find_distinct_Some_iff:
  assumes "distinct (map f xs)"
  shows "find (\<lambda>x. f x = k) xs = Some y \<longleftrightarrow> y \<in> set xs \<and> f y = k"
  using assms by (induction xs) (auto simp: image_iff)

lemma find_key_None_iff: "find (\<lambda>x. f x = k) xs = None \<longleftrightarrow> k \<notin> f ` set xs"
  by (induction xs) auto

end
