(* ===== verification/Meta.thy ===== *)
theory Meta
  imports Prelude
begin

text \<open>
  Object metadata and the helpers of the vendored Kubernetes and Knative packages that the
  controller calls on it: \<open>cache.SplitMetaNamespaceKey\<close> and \<open>cache.MetaNamespaceKeyFunc\<close>
  (k8s.io/client-go/tools/cache/store.go), \<open>kmeta.UnionMaps\<close> and \<open>kmeta.FilterMap\<close>
  (knative.dev/pkg/kmeta/map.go), owner references (apimachinery meta/v1/controller_ref.go) and
  \<open>IntOrString.IntValue\<close> (apimachinery util/intstr). Of \<open>metav1.ObjectMeta\<close> the record keeps the
  fields that the modelled code reads or writes.
\<close>

section \<open>Object metadata\<close>

record owner_reference =
  or_APIVersion :: string
  or_Kind :: string
  or_Name :: string
  or_UID :: string
  or_Controller :: "bool option"
  or_BlockOwnerDeletion :: "bool option"

record object_meta =
  om_Name :: string
  om_Namespace :: string
  om_UID :: string
  om_ResourceVersion :: string
  om_Generation :: int
  om_DeletionTimestamp :: "int option"
  om_Labels :: smap
  om_Annotations :: smap
  om_OwnerReferences :: "owner_reference list"
  om_Finalizers :: "string list"

definition empty_meta :: object_meta where
  "empty_meta = \<lparr>om_Name = '''', om_Namespace = '''', om_UID = '''', om_ResourceVersion = '''',
     om_Generation = 0, om_DeletionTimestamp = None, om_Labels = None, om_Annotations = None,
     om_OwnerReferences = [], om_Finalizers = []\<rparr>"

text \<open>\<open>types.NamespacedName\<close>: the namespace and the name.\<close>

type_synonym namespaced_name = "string \<times> string"

section \<open>Keys\<close>

text \<open>The three results of \<open>SplitMetaNamespaceKey\<close>: namespace, name and error.\<close>

definition SplitMetaNamespaceKey :: "string \<Rightarrow> string \<times> string \<times> error option" where
  "SplitMetaNamespaceKey key =
     (case split_on (CHR ''/'') key of
        [n] \<Rightarrow> ('''', n, None)
      | [ns, n] \<Rightarrow> (ns, n, None)
      | _ \<Rightarrow> ('''', '''', Some (UnexpectedKeyFormat key)))"

definition MetaNamespaceKey :: "object_meta \<Rightarrow> string" where
  "MetaNamespaceKey m =
     (if 0 < length (om_Namespace m) then om_Namespace m @ ''/'' @ om_Name m else om_Name m)"

lemma split_key_error_iff:
  "snd (snd (SplitMetaNamespaceKey key)) \<noteq> None \<longleftrightarrow> 2 \<le> count_list key (CHR ''/'')"
proof -
  obtain p ps where p: "split_on (CHR ''/'') key = p # ps"
    by (metis list.exhaust split_on_nonempty)
  have "length (p # ps) = Suc (count_list key (CHR ''/''))"
    by (metis length_split_on p)
  then show ?thesis
    by (auto simp: SplitMetaNamespaceKey_def p split: list.splits)
qed

lemma split_key_two:
  "CHR ''/'' \<notin> set ns \<Longrightarrow> CHR ''/'' \<notin> set n \<Longrightarrow>
   SplitMetaNamespaceKey (ns @ ''/'' @ n) = (ns, n, None)"
  by (simp add: SplitMetaNamespaceKey_def split_on_append_sep split_on_no_sep)

lemma split_key_one: "CHR ''/'' \<notin> set n \<Longrightarrow> SplitMetaNamespaceKey n = ('''', n, None)"
  by (simp add: SplitMetaNamespaceKey_def split_on_no_sep)

text \<open>Splitting undoes the encoding for every object whose name and namespace hold no slash.\<close>

lemma split_MetaNamespaceKey:
  assumes "CHR ''/'' \<notin> set (om_Namespace m)" and "CHR ''/'' \<notin> set (om_Name m)"
  shows "SplitMetaNamespaceKey (MetaNamespaceKey m) = (om_Namespace m, om_Name m, None)"
  using assms split_key_two split_key_one by (auto simp: MetaNamespaceKey_def)

section \<open>String maps\<close>

text \<open>
  \<open>UnionMaps\<close> copies the maps one after the other into a fresh map, so the last one wins; ranging
  over one map visits each key once and its order does not matter. The result is never nil.
\<close>

definition UnionMaps :: "smap list \<Rightarrow> smap" where
  "UnionMaps maps = Some (foldl (\<lambda>out m. out ++\<^sub>f entries m) fmempty maps)"

definition FilterMap :: "smap \<Rightarrow> (string \<Rightarrow> bool) option \<Rightarrow> smap" where
  "FilterMap m flt = Some (fmfilter (\<lambda>k. \<not> (case flt of None \<Rightarrow> False | Some f \<Rightarrow> f k)) (entries m))"

lemma UnionMaps_two [simp]:
  "entries (UnionMaps [a, b]) = entries a ++\<^sub>f entries b"
  by (simp add: UnionMaps_def)

lemma fmlookup_UnionMaps_two:
  "fmlookup (entries (UnionMaps [a, b])) k =
     (case fmlookup (entries b) k of Some v \<Rightarrow> Some v | None \<Rightarrow> fmlookup (entries a) k)"
  by (simp add: fmdom'_alt_def fmdom_notI split: option.splits)
     (metis fmdom_notD fmdom_notI option.discI)

lemma fmlookup_FilterMap:
  "fmlookup (entries (FilterMap m (Some f))) k = (if f k then None else fmlookup (entries m) k)"
  by (simp add: FilterMap_def)

section \<open>Controller references\<close>

definition NewControllerRef :: "object_meta \<Rightarrow> string \<Rightarrow> string \<Rightarrow> owner_reference" where
  "NewControllerRef owner apiVersion kind =
     \<lparr>or_APIVersion = apiVersion, or_Kind = kind, or_Name = om_Name owner, or_UID = om_UID owner,
      or_Controller = Some True, or_BlockOwnerDeletion = Some True\<rparr>"

definition GetControllerOf :: "object_meta \<Rightarrow> owner_reference option" where
  "GetControllerOf controllee =
     find (\<lambda>ref. or_Controller ref = Some True) (om_OwnerReferences controllee)"

definition IsControlledBy :: "object_meta \<Rightarrow> object_meta \<Rightarrow> bool" where
  "IsControlledBy obj owner =
     (case GetControllerOf obj of None \<Rightarrow> False | Some ref \<Rightarrow> or_UID ref = om_UID owner)"

section \<open>Integers that may be strings\<close>

type_synonym go_int = "64 word"
type_synonym go_int32 = "32 word"

datatype int_or_string_type = TypeInt | TypeString

record int_or_string =
  ios_Type :: int_or_string_type
  ios_IntVal :: go_int32
  ios_StrVal :: string

definition FromInt :: "go_int \<Rightarrow> int_or_string" where
  "FromInt val = \<lparr>ios_Type = TypeInt, ios_IntVal = ucast val, ios_StrVal = ''''\<rparr>"

datatype num_error = ErrSyntax | ErrRange

text \<open>
  The digit loop of \<open>strconv.ParseUint\<close> in base 10 for 64 bits: a byte that is not a digit is a
  syntax error, and the first overflow returns at once, before the rest of the string is read.
\<close>

fun parse_uint_loop :: "int \<Rightarrow> string \<Rightarrow> num_error + int" where
  "parse_uint_loop n [] = Inr n"
| "parse_uint_loop n (c # cs) =
     (let d = of_char c - (48 :: int) in
      if d < 0 \<or> 9 < d then Inl ErrSyntax
      else if 2 ^ 64 \<le> n * 10 + d then Inl ErrRange
      else parse_uint_loop (n * 10 + d) cs)"

definition parse_uint :: "string \<Rightarrow> num_error + int" where
  "parse_uint s = (if s = '''' then Inl ErrSyntax else parse_uint_loop 0 s)"

text \<open>
  The value \<open>strconv.Atoi\<close> returns beside its error: 0 on a syntax error, the nearest 64-bit bound
  on a range error.
\<close>

definition Atoi_value :: "string \<Rightarrow> int" where
  "Atoi_value s =
     (let neg = (s \<noteq> '''' \<and> hd s = CHR ''-'');
          digits = (if s \<noteq> '''' \<and> (hd s = CHR ''-'' \<or> hd s = CHR ''+'') then tl s else s)
      in case parse_uint digits of
           Inl ErrSyntax \<Rightarrow> 0
         | Inl ErrRange \<Rightarrow> if neg then - (2 ^ 63) else 2 ^ 63 - 1
         | Inr un \<Rightarrow>
             if \<not> neg \<and> 2 ^ 63 \<le> un then 2 ^ 63 - 1
             else if neg \<and> 2 ^ 63 < un then - (2 ^ 63)
             else if neg then - un else un)"

definition IntValue :: "int_or_string \<Rightarrow> go_int" where
  "IntValue v =
     (case ios_Type v of
        TypeString \<Rightarrow> word_of_int (Atoi_value (ios_StrVal v))
      | TypeInt \<Rightarrow> scast (ios_IntVal v))"

lemma parse_uint_loop_nonneg: "parse_uint_loop n s = Inr un \<Longrightarrow> 0 \<le> n \<Longrightarrow> 0 \<le> un"
  by (induction n s rule: parse_uint_loop.induct) (auto simp: Let_def split: if_splits)

lemma parse_uint_nonneg [dest]: "parse_uint s = Inr un \<Longrightarrow> 0 \<le> un"
  by (auto simp: parse_uint_def split: if_splits dest: parse_uint_loop_nonneg)

lemma Atoi_value_bounds: "- (2 ^ 63) \<le> Atoi_value s \<and> Atoi_value s < 2 ^ 63"
  by (auto simp: Atoi_value_def Let_def split: sum.splits num_error.splits dest!: parse_uint_nonneg)

end
