(* ===== verification/Conditions.thy ===== *)
theory Conditions
  imports Prelude
begin

text \<open>
  The condition manager of knative.dev/pkg/apis (condition_set.go, condition_types.go), which the
  Ingress status is driven by. A manager is a set of condition types with one \<open>happy\<close> type; its
  operations read and rewrite the list of conditions of a status.

  \<open>time.Now()\<close> is read through a clock \<open>clk\<close>: the \<open>n\<close>-th reading is \<open>clk n\<close>, and the state of the
  operations is the pair of the number of readings made so far and the condition list.
  \<open>sort.Slice\<close> sorts at most twelve elements by insertion, which is stable; the lists here hold one
  condition per type.
\<close>

section \<open>Conditions\<close>

type_synonym clock = "nat \<Rightarrow> int"

abbreviation (input) ConditionTrue :: string where "ConditionTrue \<equiv> ''True''"
abbreviation (input) ConditionFalse :: string where "ConditionFalse \<equiv> ''False''"
abbreviation (input) ConditionUnknown :: string where "ConditionUnknown \<equiv> ''Unknown''"
abbreviation (input) ConditionReady :: string where "ConditionReady \<equiv> ''Ready''"
abbreviation (input) SeverityError :: string where "SeverityError \<equiv> ''''"
abbreviation (input) SeverityInfo :: string where "SeverityInfo \<equiv> ''Info''"

record condition =
  cd_Type :: string
  cd_Status :: string
  cd_Severity :: string
  cd_LastTransitionTime :: int
  cd_Reason :: string
  cd_Message :: string

text \<open>\<open>IsTrue\<close>, \<open>IsFalse\<close> and \<open>IsUnknown\<close> are methods on a pointer that may be nil.\<close>

definition IsTrue :: "condition option \<Rightarrow> bool" where
  "IsTrue c = (case c of None \<Rightarrow> False | Some c \<Rightarrow> cd_Status c = ConditionTrue)"

definition IsFalse :: "condition option \<Rightarrow> bool" where
  "IsFalse c = (case c of None \<Rightarrow> False | Some c \<Rightarrow> cd_Status c = ConditionFalse)"

definition IsUnknown :: "condition option \<Rightarrow> bool" where
  "IsUnknown c = (case c of None \<Rightarrow> True | Some c \<Rightarrow> cd_Status c = ConditionUnknown)"

lemma Is_simps [simp]:
  "\<not> IsTrue None" "\<not> IsFalse None" "IsUnknown None"
  "IsTrue (Some c) \<longleftrightarrow> cd_Status c = ConditionTrue"
  "IsFalse (Some c) \<longleftrightarrow> cd_Status c = ConditionFalse"
  "IsUnknown (Some c) \<longleftrightarrow> cd_Status c = ConditionUnknown"
  by (simp_all add: IsTrue_def IsFalse_def IsUnknown_def)

definition new_condition :: "string \<Rightarrow> string \<Rightarrow> string \<Rightarrow> string \<Rightarrow> string \<Rightarrow> condition" where
  "new_condition t st sev reason msg =
     \<lparr>cd_Type = t, cd_Status = st, cd_Severity = sev, cd_LastTransitionTime = 0,
      cd_Reason = reason, cd_Message = msg\<rparr>"

lemma new_condition_simps [simp]:
  "cd_Type (new_condition t st sev r m) = t"
  "cd_Status (new_condition t st sev r m) = st"
  "cd_Severity (new_condition t st sev r m) = sev"
  "cd_Reason (new_condition t st sev r m) = r"
  "cd_Message (new_condition t st sev r m) = m"
  by (simp_all add: new_condition_def)

section \<open>Condition sets\<close>

record condition_set =
  happy :: string
  dependents :: "string list"

fun newConditionSet_deps :: "string \<Rightarrow> string list \<Rightarrow> string list \<Rightarrow> string list" where
  "newConditionSet_deps h deps [] = deps"
| "newConditionSet_deps h deps (d # ds) =
     (if d = h \<or> d \<in> set deps then newConditionSet_deps h deps ds
      else newConditionSet_deps h (deps @ [d]) ds)"

definition newConditionSet :: "string \<Rightarrow> string list \<Rightarrow> condition_set" where
  "newConditionSet h ds = \<lparr>happy = h, dependents = newConditionSet_deps h [] ds\<rparr>"

definition NewLivingConditionSet :: "string list \<Rightarrow> condition_set" where
  "NewLivingConditionSet ds = newConditionSet ConditionReady ds"

definition isTerminal :: "condition_set \<Rightarrow> string \<Rightarrow> bool" where
  "isTerminal r t \<longleftrightarrow> t \<in> set (dependents r) \<or> t = happy r"

definition severity :: "condition_set \<Rightarrow> string \<Rightarrow> string" where
  "severity r t = (if isTerminal r t then SeverityError else SeverityInfo)"

section \<open>Reading and writing one condition\<close>

type_synonym cstate = "nat \<times> condition list"

definition GetCondition :: "string \<Rightarrow> condition list \<Rightarrow> condition option" where
  "GetCondition t cs = find (\<lambda>c. cd_Type c = t) cs"

text \<open>
  The loop of \<open>SetCondition\<close>: it keeps the conditions of other types; at a condition of the same
  type it takes over its transition time and returns (\<open>None\<close>) when nothing else would change.
\<close>

fun SetCondition_loop :: "condition \<Rightarrow> condition list \<Rightarrow> condition list option" where
  "SetCondition_loop cond [] = Some []"
| "SetCondition_loop cond (c # cs) =
     (if cd_Type c \<noteq> cd_Type cond then map_option ((#) c) (SetCondition_loop cond cs)
      else let cond' = cond\<lparr>cd_LastTransitionTime := cd_LastTransitionTime c\<rparr>
           in if cond' = c then None else SetCondition_loop cond' cs)"

definition SetCondition :: "clock \<Rightarrow> condition \<Rightarrow> cstate \<Rightarrow> cstate" where
  "SetCondition clk cond s =
     (case SetCondition_loop cond (snd s) of
        None \<Rightarrow> s
      | Some kept \<Rightarrow>
          (Suc (fst s),
           sort_key cd_Type (kept @ [cond\<lparr>cd_LastTransitionTime := clk (fst s)\<rparr>])))"

definition ClearCondition :: "condition_set \<Rightarrow> string \<Rightarrow> cstate \<Rightarrow> error option \<times> cstate" where
  "ClearCondition r t s =
     (if isTerminal r t then (Some ClearTerminalCondition, s)
      else case GetCondition t (snd s) of
             None \<Rightarrow> (None, s)
           | Some _ \<Rightarrow>
               (None, (fst s, sort_key cd_Type (filter (\<lambda>c. cd_Type c \<noteq> t) (snd s)))))"

section \<open>The manager\<close>

text \<open>
  \<open>findUnhappyDependent\<close>: the conditions of severity Error other than the happy one, newest first;
  the first False one, else the first Unknown one, else a bare Unknown condition when fewer such
  conditions than dependents are present.
\<close>

definition findUnhappyDependent :: "condition_set \<Rightarrow> condition list \<Rightarrow> condition option" where
  "findUnhappyDependent r cs =
     (if dependents r = [] then None
      else let conditions = sort_key (\<lambda>c. - cd_LastTransitionTime c)
                 (filter (\<lambda>c. cd_Severity c = SeverityError \<and> cd_Type c \<noteq> happy r) cs)
           in case find (\<lambda>c. cd_Status c = ConditionFalse) conditions of
                Some c \<Rightarrow> Some c
              | None \<Rightarrow>
                  (case find (\<lambda>c. cd_Status c = ConditionUnknown) conditions of
                     Some c \<Rightarrow> Some c
                   | None \<Rightarrow>
                       if length conditions < length (dependents r)
                       then Some (new_condition '''' ConditionUnknown SeverityError '''' '''')
                       else None))"

definition recomputeHappiness :: "clock \<Rightarrow> condition_set \<Rightarrow> string \<Rightarrow> cstate \<Rightarrow> cstate" where
  "recomputeHappiness clk r t s =
     (case findUnhappyDependent r (snd s) of
        Some c \<Rightarrow>
          SetCondition clk (new_condition (happy r) (cd_Status c) (severity r (happy r))
            (cd_Reason c) (cd_Message c)) s
      | None \<Rightarrow>
          if t \<noteq> happy r
          then SetCondition clk (new_condition (happy r) ConditionTrue (severity r (happy r)) '''' '''') s
          else s)"

definition MarkTrue :: "clock \<Rightarrow> condition_set \<Rightarrow> string \<Rightarrow> cstate \<Rightarrow> cstate" where
  "MarkTrue clk r t s =
     recomputeHappiness clk r t
       (SetCondition clk (new_condition t ConditionTrue (severity r t) '''' '''') s)"

definition MarkTrueWithReason :: "clock \<Rightarrow> condition_set \<Rightarrow> string \<Rightarrow> string \<Rightarrow> string \<Rightarrow> cstate \<Rightarrow> cstate" where
  "MarkTrueWithReason clk r t reason msg s =
     recomputeHappiness clk r t
       (SetCondition clk (new_condition t ConditionTrue (severity r t) reason msg) s)"

definition MarkFalse :: "clock \<Rightarrow> condition_set \<Rightarrow> string \<Rightarrow> string \<Rightarrow> string \<Rightarrow> cstate \<Rightarrow> cstate" where
  "MarkFalse clk r t reason msg s =
     fold (\<lambda>ty. SetCondition clk (new_condition ty ConditionFalse (severity r ty) reason msg))
       (t # concat (map (\<lambda>d. if d = t then [happy r] else []) (dependents r))) s"

text \<open>
  The loop of \<open>MarkUnknown\<close> over the dependents: \<open>None\<close> when it finds a False one, otherwise whether
  \<open>t\<close> is one of them.
\<close>

fun MarkUnknown_loop :: "string \<Rightarrow> condition list \<Rightarrow> string list \<Rightarrow> bool \<Rightarrow> bool option" where
  "MarkUnknown_loop t cs [] dep = Some dep"
| "MarkUnknown_loop t cs (d # ds) dep =
     (if IsFalse (GetCondition d cs) then None
      else MarkUnknown_loop t cs ds (dep \<or> d = t))"

definition MarkUnknown :: "clock \<Rightarrow> condition_set \<Rightarrow> string \<Rightarrow> string \<Rightarrow> string \<Rightarrow> cstate \<Rightarrow> cstate" where
  "MarkUnknown clk r t reason msg s =
     (let s1 = SetCondition clk (new_condition t ConditionUnknown (severity r t) reason msg) s
      in case MarkUnknown_loop t (snd s1) (dependents r) False of
           None \<Rightarrow>
             if IsFalse (GetCondition (happy r) (snd s1)) then s1
             else MarkFalse clk r (happy r) reason msg s1
         | Some isDependent \<Rightarrow>
             if isDependent
             then SetCondition clk (new_condition (happy r) ConditionUnknown
                    (severity r (happy r)) reason msg) s1
             else s1)"

definition initializeTerminalCondition :: "clock \<Rightarrow> string \<Rightarrow> string \<Rightarrow> cstate \<Rightarrow> cstate" where
  "initializeTerminalCondition clk status t s =
     (case GetCondition t (snd s) of
        Some _ \<Rightarrow> s
      | None \<Rightarrow> SetCondition clk (new_condition t status SeverityError '''' '''') s)"

definition InitializeConditions :: "clock \<Rightarrow> condition_set \<Rightarrow> cstate \<Rightarrow> cstate" where
  "InitializeConditions clk r s =
     (let new = new_condition (happy r) ConditionUnknown SeverityError '''' '''';
          (h, s1) = (case GetCondition (happy r) (snd s) of
                       Some h \<Rightarrow> (h, s)
                     | None \<Rightarrow> (new, SetCondition clk new s));
          status = (if cd_Status h = ConditionTrue then ConditionTrue else ConditionUnknown)
      in fold (initializeTerminalCondition clk status) (dependents r) s1)"


section \<open>The condition list as a map\<close>

text \<open>
  The abstract view of a condition list: the condition of each type, its transition time
  forgotten. Every operation of the manager is an update of this map.
\<close>

definition forget_time :: "condition \<Rightarrow> condition" where
  "forget_time c = c\<lparr>cd_LastTransitionTime := 0\<rparr>"

definition view :: "condition list \<Rightarrow> string \<Rightarrow> condition option" where
  "view cs t = map_option forget_time (GetCondition t cs)"

definition distinct_types :: "condition list \<Rightarrow> bool" where
  "distinct_types cs \<longleftrightarrow> distinct (map cd_Type cs)"

definition status_of :: "string \<Rightarrow> condition list \<Rightarrow> string option" where
  "status_of t cs = map_option cd_Status (GetCondition t cs)"

lemma forget_time_simps [simp]:
  "cd_Type (forget_time c) = cd_Type c" "cd_Status (forget_time c) = cd_Status c"
  "cd_Severity (forget_time c) = cd_Severity c" "cd_Reason (forget_time c) = cd_Reason c"
  "cd_Message (forget_time c) = cd_Message c"
  "forget_time (c\<lparr>cd_LastTransitionTime := n\<rparr>) = forget_time c"
  "forget_time (new_condition t st sev r m) = new_condition t st sev r m"
  by (simp_all add: forget_time_def new_condition_def)

lemma GetCondition_type: "GetCondition t cs = Some c \<Longrightarrow> cd_Type c = t"
  by (auto simp: GetCondition_def dest: find_SomeD)

lemma GetCondition_in: "GetCondition t cs = Some c \<Longrightarrow> c \<in> set cs"
  by (auto simp: GetCondition_def dest: find_SomeD)

lemma GetCondition_Some_iff:
  "distinct_types cs \<Longrightarrow> GetCondition t cs = Some c \<longleftrightarrow> c \<in> set cs \<and> cd_Type c = t"
  by (simp add: GetCondition_def distinct_types_def find_distinct_Some_iff)

lemma GetCondition_None_iff: "GetCondition t cs = None \<longleftrightarrow> t \<notin> cd_Type ` set cs"
  by (simp add: GetCondition_def find_key_None_iff)

lemma status_of_view: "status_of t cs = map_option cd_Status (view cs t)"
  by (simp add: status_of_def view_def option.map_comp comp_def)

lemma Is_status_of [simp]:
  "IsTrue (GetCondition t cs) \<longleftrightarrow> status_of t cs = Some ConditionTrue"
  "IsFalse (GetCondition t cs) \<longleftrightarrow> status_of t cs = Some ConditionFalse"
  by (auto simp: status_of_def IsTrue_def IsFalse_def split: option.splits)

text \<open>Two lists of distinct types with the same elements have the same view.\<close>

lemma GetCondition_cong_set:
  assumes "distinct_types cs" and "distinct_types ds" and "set cs = set ds"
  shows "GetCondition t cs = GetCondition t ds"
  using assms by (metis GetCondition_Some_iff not_Some_eq)

lemma distinct_types_mset: "mset cs = mset ds \<Longrightarrow> distinct_types cs \<longleftrightarrow> distinct_types ds"
  unfolding distinct_types_def by (metis mset_eq_imp_distinct_iff mset_map)

lemma distinct_types_sort [simp]: "distinct_types (sort_key f cs) \<longleftrightarrow> distinct_types cs"
  by (rule distinct_types_mset) simp

lemma distinct_types_filter [simp]: "distinct_types cs \<Longrightarrow> distinct_types (filter P cs)"
  by (simp add: distinct_types_def distinct_map_filter)

lemma distinct_types_snoc:
  "distinct_types (cs @ [c]) \<longleftrightarrow> distinct_types cs \<and> cd_Type c \<notin> cd_Type ` set cs"
  by (auto simp: distinct_types_def)

lemma GetCondition_sort:
  "distinct_types cs \<Longrightarrow> GetCondition t (sort_key f cs) = GetCondition t cs"
  by (rule GetCondition_cong_set) simp_all

lemma SetCondition_loop_Some:
  "SetCondition_loop cond cs = Some kept \<Longrightarrow> kept = filter (\<lambda>c. cd_Type c \<noteq> cd_Type cond) cs"
  by (induction cond cs arbitrary: kept rule: SetCondition_loop.induct)
     (auto simp: Let_def split: if_splits)

lemma GetCondition_drop_type:
  "GetCondition t (filter (\<lambda>c. cd_Type c \<noteq> u) cs) = (if t = u then None else GetCondition t cs)"
  by (induction cs) (auto simp: GetCondition_def)

lemma GetCondition_snoc:
  "GetCondition t (cs @ [c]) =
     (case GetCondition t cs of Some d \<Rightarrow> Some d | None \<Rightarrow> if cd_Type c = t then Some c else None)"
  by (induction cs) (auto simp: GetCondition_def)

lemma SetCondition_loop_absent:
  "cd_Type cond \<notin> cd_Type ` set cs \<Longrightarrow> SetCondition_loop cond cs = Some cs"
  by (induction cs) auto

lemma SetCondition_loop_None:
  "SetCondition_loop cond cs = None \<Longrightarrow> distinct_types cs \<Longrightarrow>
   \<exists>c. GetCondition (cd_Type cond) cs = Some c \<and> forget_time c = forget_time cond"
proof (induction cs)
  case Nil
  then show ?case by simp
next
  case (Cons c cs)
  show ?case
  proof (cases "cd_Type c = cd_Type cond")
    case True
    let ?cond' = "cond\<lparr>cd_LastTransitionTime := cd_LastTransitionTime c\<rparr>"
    have "SetCondition_loop ?cond' cs = Some cs"
      using Cons.prems True by (intro SetCondition_loop_absent) (auto simp: distinct_types_def)
    then have "?cond' = c"
      using Cons.prems True by (auto simp: Let_def split: if_splits)
    then have "forget_time c = forget_time cond" by (metis forget_time_simps(6))
    with True show ?thesis by (simp add: GetCondition_def)
  next
    case False
    with Cons show ?thesis by (auto simp: distinct_types_def GetCondition_def)
  qed
qed

lemma SetCondition_loop_same:
  "GetCondition (cd_Type cond) cs = Some c \<Longrightarrow> forget_time c = forget_time cond \<Longrightarrow>
   SetCondition_loop cond cs = None"
proof (induction cs)
  case (Cons x cs)
  show ?case
  proof (cases "cd_Type x = cd_Type cond")
    case True
    with Cons.prems have "x = c" by (simp add: GetCondition_def)
    with Cons.prems(2) have "cond\<lparr>cd_LastTransitionTime := cd_LastTransitionTime x\<rparr> = x"
      by (cases cond; cases c) (simp add: forget_time_def)
    with True show ?thesis by simp
  qed (use Cons in \<open>simp add: GetCondition_def\<close>)
qed (simp add: GetCondition_def)

lemma distinct_types_SetCondition [keeps_wf]:
  "distinct_types (snd s) \<Longrightarrow> distinct_types (snd (SetCondition clk cond s))"
  by (auto simp: SetCondition_def distinct_types_snoc dest!: SetCondition_loop_Some
      split: option.splits)

text \<open>\<open>SetCondition\<close> refines the update of the map at the condition's type.\<close>

lemma view_SetCondition:
  assumes "distinct_types (snd s)"
  shows "view (snd (SetCondition clk cond s)) = (view (snd s))(cd_Type cond \<mapsto> forget_time cond)"
proof (cases "SetCondition_loop cond (snd s)")
  case None
  with SetCondition_loop_None [OF None assms] show ?thesis
    by (auto simp: SetCondition_def view_def fun_eq_iff)
next
  case (Some kept)
  let ?new = "cond\<lparr>cd_LastTransitionTime := clk (fst s)\<rparr>"
  have kept: "kept = filter (\<lambda>c. cd_Type c \<noteq> cd_Type cond) (snd s)"
    by (rule SetCondition_loop_Some [OF Some])
  have dist: "distinct_types (kept @ [?new])"
    using assms by (auto simp: kept distinct_types_snoc)
  have "GetCondition t (kept @ [?new]) =
      (if t = cd_Type cond then Some ?new else GetCondition t (snd s))" for t
    by (auto simp: kept GetCondition_snoc GetCondition_drop_type split: option.splits)
  then show ?thesis
    using Some dist by (auto simp: SetCondition_def view_def GetCondition_sort fun_eq_iff)
qed


section \<open>Managed condition lists\<close>

text \<open>
  The invariant of a list that only the manager writes: one condition per type, sorted by type, and
  each with the severity the manager gives its type.
\<close>

definition managed :: "condition_set \<Rightarrow> condition list \<Rightarrow> bool" where
  "managed r cs \<longleftrightarrow> distinct_types cs \<and> sorted (map cd_Type cs) \<and>
     (\<forall>c \<in> set cs. cd_Severity c = severity r (cd_Type c))"

definition wf_set :: "condition_set \<Rightarrow> bool" where
  "wf_set r \<longleftrightarrow> happy r \<notin> set (dependents r) \<and> distinct (dependents r)"

lemma newConditionSet_deps_props:
  "h \<notin> set deps \<Longrightarrow> distinct deps \<Longrightarrow>
   h \<notin> set (newConditionSet_deps h deps ds) \<and> distinct (newConditionSet_deps h deps ds) \<and>
   set (newConditionSet_deps h deps ds) = set deps \<union> (set ds - {h})"
  by (induction h deps ds rule: newConditionSet_deps.induct) auto

lemma wf_newConditionSet: "wf_set (newConditionSet h ds)"
  using newConditionSet_deps_props [of h "[]" ds] by (simp add: wf_set_def newConditionSet_def)

lemma managed_distinct: "managed r cs \<Longrightarrow> distinct_types cs"
  by (simp add: managed_def)

lemma set_SetCondition:
  "set (snd (SetCondition clk cond s)) \<subseteq>
     set (snd s) \<union> {cond\<lparr>cd_LastTransitionTime := clk (fst s)\<rparr>}"
  by (auto simp: SetCondition_def dest!: SetCondition_loop_Some split: option.splits)

lemma sorted_SetCondition:
  "sorted (map cd_Type (snd s)) \<Longrightarrow> sorted (map cd_Type (snd (SetCondition clk cond s)))"
  by (simp add: SetCondition_def split: option.splits)

lemma managed_SetCondition [keeps_wf]:
  assumes "managed r (snd s)" and "cd_Severity cond = severity r (cd_Type cond)"
  shows "managed r (snd (SetCondition clk cond s))"
proof -
  have "cd_Severity c = severity r (cd_Type c)" if "c \<in> set (snd (SetCondition clk cond s))" for c
    using that assms set_SetCondition [of clk cond s] by (auto simp: managed_def)
  with assms show ?thesis
    by (auto simp: managed_def distinct_types_SetCondition sorted_SetCondition)
qed

lemma status_of_SetCondition:
  "distinct_types (snd s) \<Longrightarrow>
   status_of t (snd (SetCondition clk cond s)) =
     (if t = cd_Type cond then Some (cd_Status cond) else status_of t (snd s))"
  by (simp add: status_of_view view_SetCondition)

lemma status_of_managed_SetCondition [simp]:
  "managed r (snd s) \<Longrightarrow>
   status_of t (snd (SetCondition clk cond s)) =
     (if t = cd_Type cond then Some (cd_Status cond) else status_of t (snd s))"
  by (simp add: managed_distinct status_of_SetCondition)

lemma severity_simps [simp]:
  "severity r (happy r) = SeverityError"
  "d \<in> set (dependents r) \<Longrightarrow> severity r d = SeverityError"
  by (simp_all add: severity_def isTerminal_def)

lemma managed_MarkTrue [keeps_wf]: "managed r (snd s) \<Longrightarrow> managed r (snd (MarkTrue clk r t s))"
  by (auto simp: MarkTrue_def recomputeHappiness_def intro!: managed_SetCondition split: option.splits)

lemma managed_MarkTrueWithReason [keeps_wf]:
  "managed r (snd s) \<Longrightarrow> managed r (snd (MarkTrueWithReason clk r t reason msg s))"
  by (auto simp: MarkTrueWithReason_def recomputeHappiness_def
      intro!: managed_SetCondition split: option.splits)

lemma managed_fold_SetCondition:
  "managed r (snd s) \<Longrightarrow> (\<And>x. x \<in> set xs \<Longrightarrow> cd_Severity (f x) = severity r (cd_Type (f x))) \<Longrightarrow>
   managed r (snd (fold (\<lambda>x. SetCondition clk (f x)) xs s))"
  by (rule fold_invariant [where Q = "\<lambda>x. x \<in> set xs"]) (auto intro: managed_SetCondition)

lemma managed_MarkFalse [keeps_wf]:
  "managed r (snd s) \<Longrightarrow> managed r (snd (MarkFalse clk r t reason msg s))"
  unfolding MarkFalse_def by (rule managed_fold_SetCondition) simp_all

lemma managed_MarkUnknown [keeps_wf]:
  "managed r (snd s) \<Longrightarrow> managed r (snd (MarkUnknown clk r t reason msg s))"
  by (auto simp: MarkUnknown_def Let_def intro!: managed_SetCondition managed_MarkFalse
      split: option.splits)

lemma managed_ClearCondition [keeps_wf]:
  "managed r (snd s) \<Longrightarrow> managed r (snd (snd (ClearCondition r t s)))"
  by (auto simp: ClearCondition_def managed_def split: option.splits)

lemma managed_init_terminal:
  "managed r (snd s) \<Longrightarrow> d \<in> set (dependents r) \<Longrightarrow>
   managed r (snd (initializeTerminalCondition clk st d s))"
  by (auto simp: initializeTerminalCondition_def intro!: managed_SetCondition split: option.splits)

lemma managed_fold_init:
  "managed r (snd s) \<Longrightarrow> set ds \<subseteq> set (dependents r) \<Longrightarrow>
   managed r (snd (fold (initializeTerminalCondition clk st) ds s))"
  by (rule fold_invariant [where Q = "\<lambda>d. d \<in> set (dependents r)"]) (auto intro: managed_init_terminal)

lemma managed_InitializeConditions [keeps_wf]:
  "managed r (snd s) \<Longrightarrow> managed r (snd (InitializeConditions clk r s))"
  by (auto simp: InitializeConditions_def Let_def intro!: managed_fold_init managed_SetCondition
      split: option.splits prod.splits)

lemma managed_Nil [simp]: "managed r []"
  by (simp add: managed_def distinct_types_def)


section \<open>The happy condition\<close>

text \<open>What the manager knows of its dependents: their conditions, present or not.\<close>

definition all_dependents :: "condition_set \<Rightarrow> condition list \<Rightarrow> string \<Rightarrow> bool" where
  "all_dependents r cs st \<longleftrightarrow> list_all (\<lambda>d. status_of d cs = Some st) (dependents r)"

definition valid_status :: "condition list \<Rightarrow> bool" where
  "valid_status cs \<longleftrightarrow>
     list_all (\<lambda>c. cd_Status c \<in> {ConditionTrue, ConditionFalse, ConditionUnknown}) cs"

text \<open>
  The promise of the happy condition: when it is True, no dependent that is present is anything
  but True.
\<close>

definition happy_sound :: "condition_set \<Rightarrow> condition list \<Rightarrow> bool" where
  "happy_sound r cs \<longleftrightarrow>
     (status_of (happy r) cs = Some ConditionTrue \<longrightarrow>
      list_all (\<lambda>d. status_of d cs \<in> {None, Some ConditionTrue}) (dependents r))"

lemma managed_dependents:
  assumes "managed r cs"
  shows "{c \<in> set cs. cd_Severity c = SeverityError \<and> cd_Type c \<noteq> happy r} =
         {c \<in> set cs. cd_Type c \<in> set (dependents r) \<and> cd_Type c \<noteq> happy r}"
  using assms by (auto simp: managed_def severity_def isTerminal_def split: if_splits)

lemma status_of_Some_iff:
  "distinct_types cs \<Longrightarrow> status_of t cs = Some st \<longleftrightarrow> (\<exists>c \<in> set cs. cd_Type c = t \<and> cd_Status c = st)"
  by (auto simp: status_of_def GetCondition_Some_iff)

lemma status_of_None_iff: "status_of t cs = None \<longleftrightarrow> t \<notin> cd_Type ` set cs"
  by (simp add: status_of_def GetCondition_None_iff)

text \<open>The conditions \<open>findUnhappyDependent\<close> looks at.\<close>

definition error_conditions :: "condition_set \<Rightarrow> condition list \<Rightarrow> condition list" where
  "error_conditions r cs = filter (\<lambda>c. cd_Severity c = SeverityError \<and> cd_Type c \<noteq> happy r) cs"

lemma findUnhappy_NoneD:
  assumes "findUnhappyDependent r cs = None" and "dependents r \<noteq> []"
  shows "length (dependents r) \<le> length (error_conditions r cs)"
    and "c \<in> set (error_conditions r cs) \<Longrightarrow>
         cd_Status c \<noteq> ConditionFalse \<and> cd_Status c \<noteq> ConditionUnknown"
proof -
  let ?l = "sort_key (\<lambda>c. - cd_LastTransitionTime c) (error_conditions r cs)"
  have a: "find (\<lambda>c. cd_Status c = ConditionFalse) ?l = None"
    using assms by (cases "find (\<lambda>c. cd_Status c = ConditionFalse) ?l")
      (simp_all add: findUnhappyDependent_def error_conditions_def Let_def)
  then have b: "find (\<lambda>c. cd_Status c = ConditionUnknown) ?l = None"
    using assms by (cases "find (\<lambda>c. cd_Status c = ConditionUnknown) ?l")
      (simp_all add: findUnhappyDependent_def error_conditions_def Let_def)
  show "length (dependents r) \<le> length (error_conditions r cs)"
    using assms a b by (simp add: findUnhappyDependent_def error_conditions_def Let_def split: if_splits)
  show "c \<in> set (error_conditions r cs) \<Longrightarrow>
         cd_Status c \<noteq> ConditionFalse \<and> cd_Status c \<noteq> ConditionUnknown"
    using a b by (simp only: find_None_iff set_sort) blast
qed

text \<open>No unhappy dependent is found only if every dependent is present and neither False nor Unknown.\<close>

lemma findUnhappy_None:
  assumes m: "managed r cs" and w: "wf_set r" and none: "findUnhappyDependent r cs = None"
    and d: "d \<in> set (dependents r)"
  shows "\<exists>st. status_of d cs = Some st \<and> st \<noteq> ConditionFalse \<and> st \<noteq> ConditionUnknown"
proof -
  let ?sub = "error_conditions r cs"
  have sub: "set ?sub = {c \<in> set cs. cd_Type c \<in> set (dependents r) \<and> cd_Type c \<noteq> happy r}"
    using managed_dependents [OF m] by (auto simp: error_conditions_def)
  have ne: "dependents r \<noteq> []" using d by auto
  have "distinct (map cd_Type ?sub)"
    using managed_distinct [OF m] unfolding error_conditions_def
    by (simp add: distinct_types_def distinct_map_filter)
  then have "card (cd_Type ` set ?sub) = length ?sub"
    by (metis distinct_card length_map list.set_map)
  moreover have "card (set (dependents r)) = length (dependents r)"
    using w by (simp add: wf_set_def distinct_card)
  ultimately have le: "card (set (dependents r)) \<le> card (cd_Type ` set ?sub)"
    using findUnhappy_NoneD(1) [OF none ne] by linarith
  have "cd_Type ` set ?sub \<subseteq> set (dependents r)" by (auto simp only: sub)
  from card_seteq [OF _ this le] have "cd_Type ` set ?sub = set (dependents r)" by simp
  with d have "d \<in> cd_Type ` set ?sub" by simp
  then obtain c where c: "c \<in> set ?sub" "cd_Type c = d" by (rule imageE) simp
  with findUnhappy_NoneD(2) [OF none ne] have
    "cd_Status c \<noteq> ConditionFalse \<and> cd_Status c \<noteq> ConditionUnknown" by blast
  moreover have "status_of d cs = Some (cd_Status c)"
    using c m sub by (auto simp: status_of_Some_iff managed_distinct)
  ultimately show ?thesis by blast
qed

text \<open>An unhappy dependent that is found is not True.\<close>

lemma findUnhappy_Some:
  assumes "findUnhappyDependent r cs = Some c"
  shows "cd_Status c = ConditionFalse \<or> cd_Status c = ConditionUnknown"
proof -
  define l where "l = sort_key (\<lambda>c. - cd_LastTransitionTime c)
    (filter (\<lambda>c. cd_Severity c = SeverityError \<and> cd_Type c \<noteq> happy r) cs)"
  have eq: "(case find (\<lambda>c. cd_Status c = ConditionFalse) l of Some c \<Rightarrow> Some c
      | None \<Rightarrow> (case find (\<lambda>c. cd_Status c = ConditionUnknown) l of Some c \<Rightarrow> Some c
      | None \<Rightarrow> if length l < length (dependents r)
               then Some (new_condition '''' ConditionUnknown SeverityError '''' '''') else None)) = Some c"
    using assms unfolding findUnhappyDependent_def Let_def l_def by (simp only: split: if_split_asm) simp_all
  show ?thesis
  proof (cases "find (\<lambda>c. cd_Status c = ConditionFalse) l")
    case (Some d)
    with eq find_SomeD [OF Some] show ?thesis by simp
  next
    case None
    note F = this
    show ?thesis
    proof (cases "find (\<lambda>c. cd_Status c = ConditionUnknown) l")
      case (Some d)
      with eq F find_SomeD [OF Some] show ?thesis by simp
    next
      case None
      with eq F show ?thesis by (auto split: if_split_asm)
    qed
  qed
qed

lemma findUnhappy_complete:
  assumes m: "managed r cs" and w: "wf_set r" and d: "d \<in> set (dependents r)"
    and st: "status_of d cs \<noteq> Some ConditionTrue" and v: "valid_status cs"
  shows "findUnhappyDependent r cs \<noteq> None"
proof
  assume "findUnhappyDependent r cs = None"
  from findUnhappy_None [OF m w this d] obtain s where
    s: "status_of d cs = Some s" "s \<noteq> ConditionFalse" "s \<noteq> ConditionUnknown" by blast
  with v st m show False by (auto simp: valid_status_def list_all_iff status_of_Some_iff managed_distinct)
qed

lemma valid_status_SetCondition [keeps_wf]:
  "valid_status (snd s) \<Longrightarrow> cd_Status cond \<in> {ConditionTrue, ConditionFalse, ConditionUnknown} \<Longrightarrow>
   valid_status (snd (SetCondition clk cond s))"
  using set_SetCondition [of clk cond s] by (fastforce simp: valid_status_def list_all_iff)

section \<open>Status after each operation\<close>

lemma status_of_fold_SetCondition:
  "managed r (snd s) \<Longrightarrow>
   status_of u (snd (fold (\<lambda>ty. SetCondition clk (new_condition ty st (severity r ty) reason msg)) ts s)) =
     (if u \<in> set ts then Some st else status_of u (snd s))"
proof (induction ts arbitrary: s)
  case Nil
  then show ?case by simp
next
  case (Cons t ts)
  let ?s1 = "SetCondition clk (new_condition t st (severity r t) reason msg) s"
  have "managed r (snd ?s1)" using Cons.prems by (simp add: managed_SetCondition)
  from Cons.IH [OF this] show ?case using Cons.prems by simp
qed

lemma status_of_MarkFalse [simp]:
  "managed r (snd s) \<Longrightarrow>
   status_of u (snd (MarkFalse clk r t reason msg s)) =
     (if u = t \<or> u = happy r \<and> t \<in> set (dependents r) then Some ConditionFalse
      else status_of u (snd s))"
  unfolding MarkFalse_def by (subst status_of_fold_SetCondition) (auto split: if_splits)

lemma MarkUnknown_loop_eq:
  "MarkUnknown_loop t cs ds dep =
     (if list_ex (\<lambda>d. status_of d cs = Some ConditionFalse) ds then None else Some (dep \<or> t \<in> set ds))"
  by (induction ds arbitrary: dep) auto

lemma status_of_MarkUnknown:
  assumes m: "managed r (snd s)"
  shows "status_of u (snd (MarkUnknown clk r t reason msg s)) =
     (if list_ex (\<lambda>d. d \<noteq> t \<and> status_of d (snd s) = Some ConditionFalse) (dependents r)
      then (if u = happy r then Some ConditionFalse
            else if u = t then Some ConditionUnknown else status_of u (snd s))
      else (if u = t \<or> u = happy r \<and> t \<in> set (dependents r) then Some ConditionUnknown
            else status_of u (snd s)))"
proof -
  define s1 where "s1 = SetCondition clk (new_condition t ConditionUnknown (severity r t) reason msg) s"
  have m1: "managed r (snd s1)" using m by (simp add: s1_def managed_SetCondition)
  have st1: "status_of u (snd s1) = (if u = t then Some ConditionUnknown else status_of u (snd s))" for u
    using m by (simp add: s1_def)
  have ex: "list_ex (\<lambda>d. status_of d (snd s1) = Some ConditionFalse) (dependents r) \<longleftrightarrow>
      list_ex (\<lambda>d. d \<noteq> t \<and> status_of d (snd s) = Some ConditionFalse) (dependents r)"
    by (auto simp: list_ex_iff st1)
  show ?thesis
    unfolding MarkUnknown_def Let_def s1_def [symmetric] MarkUnknown_loop_eq ex
    using m1 by (auto simp: st1)
qed

lemma initializeTerminal_alt:
  "initializeTerminalCondition clk st d s =
     (if status_of d (snd s) = None
      then SetCondition clk (new_condition d st SeverityError [] []) s else s)"
  by (auto simp: initializeTerminalCondition_def status_of_def split: option.splits)

lemma status_of_initTerminal:
  "managed r (snd s) \<Longrightarrow>
   status_of u (snd (initializeTerminalCondition clk st d s)) =
     (if u = d \<and> status_of u (snd s) = None then Some st else status_of u (snd s))"
  by (auto simp: initializeTerminal_alt)

lemma status_of_fold_init:
  assumes "managed r (snd s)" and "set ds \<subseteq> set (dependents r)"
  shows "status_of u (snd (fold (initializeTerminalCondition clk st) ds s)) =
     (if u \<in> set ds \<and> status_of u (snd s) = None then Some st else status_of u (snd s))"
  using assms
proof (induction ds arbitrary: s)
  case Nil
  then show ?case by simp
next
  case (Cons d ds)
  from Cons.prems have "managed r (snd (initializeTerminalCondition clk st d s))"
    by (intro managed_init_terminal) auto
  from Cons.IH [OF this] Cons.prems show ?case by (auto simp: status_of_initTerminal)
qed

lemma status_of_InitializeConditions:
  assumes m: "managed r (snd s)" and w: "wf_set r"
  shows "status_of u (snd (InitializeConditions clk r s)) =
     (if status_of u (snd s) \<noteq> None then status_of u (snd s)
      else if u = happy r then Some ConditionUnknown
      else if u \<in> set (dependents r) then
        Some (if status_of (happy r) (snd s) = Some ConditionTrue then ConditionTrue else ConditionUnknown)
      else None)"
proof -
  define st where "st = (if status_of (happy r) (snd s) = Some ConditionTrue then ConditionTrue
    else ConditionUnknown)"
  define s1 where "s1 = (if status_of (happy r) (snd s) = None
    then SetCondition clk (new_condition (happy r) ConditionUnknown SeverityError [] []) s else s)"
  have "InitializeConditions clk r s = fold (initializeTerminalCondition clk st) (dependents r) s1"
    by (auto simp: InitializeConditions_def Let_def status_of_def st_def s1_def split: option.splits)
  moreover have "managed r (snd s1)" using m by (simp add: s1_def managed_SetCondition)
  ultimately show ?thesis
    using m w by (auto simp: status_of_fold_init s1_def st_def wf_set_def)
qed

section \<open>Any sequence of operations keeps the happy condition sound\<close>

datatype condition_op =
    OpMarkTrue string
  | OpMarkTrueWithReason string string string
  | OpMarkFalse string string string
  | OpMarkUnknown string string string
  | OpInitialize
  | OpClear string

fun apply_op :: "clock \<Rightarrow> condition_set \<Rightarrow> condition_op \<Rightarrow> cstate \<Rightarrow> cstate" where
  "apply_op clk r (OpMarkTrue t) s = MarkTrue clk r t s"
| "apply_op clk r (OpMarkTrueWithReason t reason msg) s = MarkTrueWithReason clk r t reason msg s"
| "apply_op clk r (OpMarkFalse t reason msg) s = MarkFalse clk r t reason msg s"
| "apply_op clk r (OpMarkUnknown t reason msg) s = MarkUnknown clk r t reason msg s"
| "apply_op clk r OpInitialize s = InitializeConditions clk r s"
| "apply_op clk r (OpClear t) s = snd (ClearCondition r t s)"

definition cond_inv :: "condition_set \<Rightarrow> condition list \<Rightarrow> bool" where
  "cond_inv r cs \<longleftrightarrow> managed r cs \<and> valid_status cs \<and> happy_sound r cs"

lemma cond_inv_managed: "cond_inv r cs \<Longrightarrow> managed r cs"
  by (simp add: cond_inv_def)

text \<open>Validity of the statuses is a property of the status of every type.\<close>

lemma valid_status_iff:
  "managed r cs \<Longrightarrow>
   valid_status cs \<longleftrightarrow>
     (\<forall>t. status_of t cs \<in> {None, Some ConditionTrue, Some ConditionFalse, Some ConditionUnknown})"
  (is "_ \<Longrightarrow> _ = ?all")
proof -
  assume m: "managed r cs"
  have "valid_status cs" if ?all
    unfolding valid_status_def list_all_iff
  proof
    fix c assume "c \<in> set cs"
    then have "status_of (cd_Type c) cs = Some (cd_Status c)"
      using m by (auto simp: status_of_Some_iff managed_distinct)
    with that show "cd_Status c \<in> {ConditionTrue, ConditionFalse, ConditionUnknown}"
      by (metis insertE insertI1 insertI2 option.distinct(1) option.inject singletonD)
  qed
  moreover have ?all if "valid_status cs"
  proof
    fix t
    show "status_of t cs \<in> {None, Some ConditionTrue, Some ConditionFalse, Some ConditionUnknown}"
    proof (cases "status_of t cs")
      case (Some st)
      then obtain c where "c \<in> set cs" "cd_Status c = st"
        using m by (auto simp: status_of_Some_iff managed_distinct)
      with that Some show ?thesis by (auto simp: valid_status_def list_all_iff)
    qed simp
  qed
  ultimately show ?thesis by blast
qed

text \<open>The status of each type after marking a type True, when the dependents decide.\<close>

lemma status_of_recompute:
  assumes "managed r (snd s)"
  shows "status_of u (snd (recomputeHappiness clk r t s)) =
     (if u = happy r
      then (case findUnhappyDependent r (snd s) of
              Some c \<Rightarrow> Some (cd_Status c)
            | None \<Rightarrow> if t \<noteq> happy r then Some ConditionTrue else status_of u (snd s))
      else status_of u (snd s))"
  using assms by (auto simp: recomputeHappiness_def split: option.splits)

lemma inv_recompute:
  assumes m: "managed r (snd s)" and v: "valid_status (snd s)" and w: "wf_set r"
  shows "cond_inv r (snd (recomputeHappiness clk r t s))"
proof -
  let ?s' = "recomputeHappiness clk r t s"
  have m': "managed r (snd ?s')"
    using m by (auto simp: recomputeHappiness_def intro!: managed_SetCondition split: option.splits)
  have v': "valid_status (snd ?s')"
    using v by (auto simp: recomputeHappiness_def intro!: valid_status_SetCondition
        dest: findUnhappy_Some split: option.splits)
  have "happy_sound r (snd ?s')"
  proof (cases "findUnhappyDependent r (snd s)")
    case None
    have "status_of d (snd s) = Some ConditionTrue" if "d \<in> set (dependents r)" for d
      using findUnhappy_complete [OF m w that _ v] None by blast
    with w show ?thesis
      by (auto simp: happy_sound_def list_all_iff status_of_recompute [OF m] wf_set_def)
  next
    case (Some c)
    with findUnhappy_Some [OF Some] show ?thesis
      by (auto simp: happy_sound_def status_of_recompute [OF m])
  qed
  with m' v' show ?thesis by (simp add: cond_inv_def)
qed

lemma cond_invI:
  assumes "managed r cs"
    and "\<And>t. status_of t cs \<in> {None, Some ConditionTrue, Some ConditionFalse, Some ConditionUnknown}"
    and "status_of (happy r) cs = Some ConditionTrue \<Longrightarrow>
         (\<And>d. d \<in> set (dependents r) \<Longrightarrow> status_of d cs \<in> {None, Some ConditionTrue})"
  shows "cond_inv r cs"
  using assms by (auto simp: cond_inv_def valid_status_iff happy_sound_def list_all_iff)

lemma cond_invD:
  assumes "cond_inv r cs"
  shows "managed r cs"
    and "status_of t cs \<in> {None, Some ConditionTrue, Some ConditionFalse, Some ConditionUnknown}"
    and "status_of (happy r) cs = Some ConditionTrue \<Longrightarrow> d \<in> set (dependents r) \<Longrightarrow>
         status_of d cs \<in> {None, Some ConditionTrue}"
proof -
  show m: "managed r cs" using assms by (simp add: cond_inv_def)
  have "valid_status cs" using assms by (simp add: cond_inv_def)
  with valid_status_iff [OF m]
  show "status_of t cs \<in> {None, Some ConditionTrue, Some ConditionFalse, Some ConditionUnknown}"
    by blast
  show "status_of (happy r) cs = Some ConditionTrue \<Longrightarrow> d \<in> set (dependents r) \<Longrightarrow>
         status_of d cs \<in> {None, Some ConditionTrue}"
    using assms by (auto simp: cond_inv_def happy_sound_def list_all_iff)
qed

lemma inv_MarkTrue: "cond_inv r (snd s) \<Longrightarrow> wf_set r \<Longrightarrow> cond_inv r (snd (MarkTrue clk r t s))"
  unfolding MarkTrue_def
  by (intro inv_recompute) (auto simp: cond_inv_def intro!: managed_SetCondition valid_status_SetCondition)

lemma inv_MarkTrueWithReason:
  "cond_inv r (snd s) \<Longrightarrow> wf_set r \<Longrightarrow> cond_inv r (snd (MarkTrueWithReason clk r t reason msg s))"
  unfolding MarkTrueWithReason_def
  by (intro inv_recompute) (auto simp: cond_inv_def intro!: managed_SetCondition valid_status_SetCondition)

lemma inv_MarkFalse:
  assumes i: "cond_inv r (snd s)" and w: "wf_set r"
  shows "cond_inv r (snd (MarkFalse clk r t reason msg s))"
proof (rule cond_invI)
  have m: "managed r (snd s)" by (rule cond_invD(1) [OF i])
  then show "managed r (snd (MarkFalse clk r t reason msg s))" by (rule managed_MarkFalse)
  show "status_of u (snd (MarkFalse clk r t reason msg s)) \<in>
      {None, Some ConditionTrue, Some ConditionFalse, Some ConditionUnknown}" for u
    using m cond_invD(2) [OF i, of u] by simp
  show "status_of d (snd (MarkFalse clk r t reason msg s)) \<in> {None, Some ConditionTrue}"
    if "status_of (happy r) (snd (MarkFalse clk r t reason msg s)) = Some ConditionTrue"
      and "d \<in> set (dependents r)" for d
    using that m w cond_invD(3) [OF i _ that(2)] by (auto simp: wf_set_def split: if_splits)
qed

lemma inv_MarkUnknown:
  assumes i: "cond_inv r (snd s)" and w: "wf_set r"
  shows "cond_inv r (snd (MarkUnknown clk r t reason msg s))"
proof (rule cond_invI)
  have m: "managed r (snd s)" by (rule cond_invD(1) [OF i])
  then show "managed r (snd (MarkUnknown clk r t reason msg s))" by (rule managed_MarkUnknown)
  show "status_of u (snd (MarkUnknown clk r t reason msg s)) \<in>
      {None, Some ConditionTrue, Some ConditionFalse, Some ConditionUnknown}" for u
    using cond_invD(2) [OF i, of u] by (simp add: status_of_MarkUnknown [OF m])
  show "status_of d (snd (MarkUnknown clk r t reason msg s)) \<in> {None, Some ConditionTrue}"
    if "status_of (happy r) (snd (MarkUnknown clk r t reason msg s)) = Some ConditionTrue"
      and "d \<in> set (dependents r)" for d
    using that w cond_invD(3) [OF i _ that(2)]
    by (auto simp: status_of_MarkUnknown [OF m] wf_set_def split: if_splits)
qed

lemma inv_InitializeConditions:
  assumes i: "cond_inv r (snd s)" and w: "wf_set r"
  shows "cond_inv r (snd (InitializeConditions clk r s))"
proof (rule cond_invI)
  have m: "managed r (snd s)" by (rule cond_invD(1) [OF i])
  note st = status_of_InitializeConditions [OF m w]
  from m show "managed r (snd (InitializeConditions clk r s))" by (rule managed_InitializeConditions)
  show "status_of u (snd (InitializeConditions clk r s)) \<in>
      {None, Some ConditionTrue, Some ConditionFalse, Some ConditionUnknown}" for u
    using cond_invD(2) [OF i, of u] by (simp add: st)
  show "status_of d (snd (InitializeConditions clk r s)) \<in> {None, Some ConditionTrue}"
    if "status_of (happy r) (snd (InitializeConditions clk r s)) = Some ConditionTrue"
      and "d \<in> set (dependents r)" for d
    using that w cond_invD(3) [OF i _ that(2)] by (auto simp: st split: if_splits)
qed

lemma status_of_ClearCondition:
  assumes "managed r (snd s)"
  shows "status_of u (snd (snd (ClearCondition r t s))) =
     (if u = t \<and> \<not> isTerminal r t then None else status_of u (snd s))"
  using managed_distinct [OF assms]
  by (auto simp: ClearCondition_def status_of_def GetCondition_sort GetCondition_drop_type
      split: option.splits)

lemma inv_ClearCondition:
  assumes i: "cond_inv r (snd s)"
  shows "cond_inv r (snd (snd (ClearCondition r t s)))"
proof (rule cond_invI)
  have m: "managed r (snd s)" by (rule cond_invD(1) [OF i])
  note st = status_of_ClearCondition [OF m]
  from m show "managed r (snd (snd (ClearCondition r t s)))" by (rule managed_ClearCondition)
  show "status_of u (snd (snd (ClearCondition r t s))) \<in>
      {None, Some ConditionTrue, Some ConditionFalse, Some ConditionUnknown}" for u
    using cond_invD(2) [OF i, of u] by (simp add: st)
  show "status_of d (snd (snd (ClearCondition r t s))) \<in> {None, Some ConditionTrue}"
    if "status_of (happy r) (snd (snd (ClearCondition r t s))) = Some ConditionTrue"
      and "d \<in> set (dependents r)" for d
    using that cond_invD(3) [OF i _ that(2)] by (auto simp: st isTerminal_def split: if_splits)
qed

lemma inv_apply_op: "cond_inv r (snd s) \<Longrightarrow> wf_set r \<Longrightarrow> cond_inv r (snd (apply_op clk r x s))"
  by (cases x) (simp_all add: inv_MarkTrue inv_MarkTrueWithReason inv_MarkFalse inv_MarkUnknown
      inv_InitializeConditions inv_ClearCondition)

lemma inv_fold_ops:
  "cond_inv r (snd s) \<Longrightarrow> wf_set r \<Longrightarrow> cond_inv r (snd (fold (apply_op clk r) ops s))"
  by (induction ops rule: rev_induct) (simp_all add: inv_apply_op)

lemma cond_inv_Nil [simp]: "cond_inv r []"
  by (auto simp: cond_inv_def valid_status_def happy_sound_def status_of_def GetCondition_def)

section \<open>The aggregated status\<close>

lemma error_conditions_dependent:
  assumes m: "managed r cs" and c: "c \<in> set (error_conditions r cs)"
  shows "cd_Type c \<in> set (dependents r) \<and> status_of (cd_Type c) cs = Some (cd_Status c)"
proof -
  from c have "c \<in> {c \<in> set cs. cd_Severity c = SeverityError \<and> cd_Type c \<noteq> happy r}"
    by (simp add: error_conditions_def)
  then have "c \<in> {c \<in> set cs. cd_Type c \<in> set (dependents r) \<and> cd_Type c \<noteq> happy r}"
    by (simp only: managed_dependents [OF m])
  then show ?thesis using status_of_Some_iff [OF managed_distinct [OF m]] by blast
qed

lemma findUnhappy_sources:
  assumes "findUnhappyDependent r cs = Some c" and "cd_Status c = ConditionFalse"
  shows "c \<in> set (error_conditions r cs)"
proof -
  let ?l = "sort_key (\<lambda>c. - cd_LastTransitionTime c) (error_conditions r cs)"
  have ne: "dependents r \<noteq> []" using assms by (auto simp: findUnhappyDependent_def)
  have "\<exists>P. find P ?l = Some c"
  proof (cases "find (\<lambda>c. cd_Status c = ConditionFalse) ?l")
    case (Some e)
    with assms(1) ne have "e = c" by (simp add: findUnhappyDependent_def error_conditions_def Let_def)
    with Some show ?thesis by blast
  next
    case None
    note F = this
    show ?thesis
    proof (cases "find (\<lambda>c. cd_Status c = ConditionUnknown) ?l")
      case (Some e)
      with assms(1) ne F have "e = c"
        by (simp add: findUnhappyDependent_def error_conditions_def Let_def)
      with Some show ?thesis by blast
    next
      case None
      with assms(1) ne F have "c = new_condition [] ConditionUnknown SeverityError [] []"
        by (simp add: findUnhappyDependent_def error_conditions_def Let_def split: if_split_asm)
      with assms(2) show ?thesis by simp
    qed
  qed
  then obtain P where "find P ?l = Some c" ..
  then have "c \<in> set ?l" by (simp only: find_SomeD)
  then show ?thesis by simp
qed

lemma findUnhappy_all_True:
  assumes m: "managed r cs" and w: "wf_set r"
    and all: "\<And>d. d \<in> set (dependents r) \<Longrightarrow> status_of d cs = Some ConditionTrue"
  shows "findUnhappyDependent r cs = None"
proof -
  let ?e = "error_conditions r cs"
  let ?l = "sort_key (\<lambda>c. - cd_LastTransitionTime c) ?e"
  have st: "cd_Status c = ConditionTrue" if "c \<in> set ?l" for c
    using error_conditions_dependent [OF m, of c] all [of "cd_Type c"] that by simp
  have F: "find (\<lambda>c. cd_Status c = ConditionFalse) ?l = None"
    using st by (auto simp only: find_None_iff)
  have U: "find (\<lambda>c. cd_Status c = ConditionUnknown) ?l = None"
    using st by (auto simp only: find_None_iff)
  have "set (dependents r) \<subseteq> cd_Type ` set ?e"
  proof
    fix d assume d: "d \<in> set (dependents r)"
    from all [OF d] obtain c where "c \<in> set cs" "cd_Type c = d"
      using status_of_Some_iff [OF managed_distinct [OF m]] by blast
    with d m w show "d \<in> cd_Type ` set ?e"
      by (auto simp: error_conditions_def managed_def wf_set_def)
  qed
  then have "card (set (dependents r)) \<le> length ?e"
    by (meson List.finite_set card_image_le card_length card_mono finite_imageI le_trans)
  then have "\<not> length ?e < length (dependents r)"
    using w by (simp add: wf_set_def distinct_card)
  with F U show ?thesis by (simp add: findUnhappyDependent_def error_conditions_def Let_def)
qed

lemma findUnhappy_False:
  assumes m: "managed r cs" and w: "wf_set r" and d: "d \<in> set (dependents r)"
    and st: "status_of d cs = Some ConditionFalse"
  shows "\<exists>c. findUnhappyDependent r cs = Some c \<and> cd_Status c = ConditionFalse"
proof -
  let ?l = "sort_key (\<lambda>c. - cd_LastTransitionTime c) (error_conditions r cs)"
  from st m obtain c where c: "c \<in> set cs" "cd_Type c = d" "cd_Status c = ConditionFalse"
    by (auto simp: status_of_Some_iff managed_distinct)
  with m d w have "c \<in> set (error_conditions r cs)"
    by (auto simp: error_conditions_def managed_def wf_set_def)
  then have "find (\<lambda>c. cd_Status c = ConditionFalse) ?l \<noteq> None"
    using c(3) by (auto simp only: find_None_iff set_sort)
  then obtain e where e: "find (\<lambda>c. cd_Status c = ConditionFalse) ?l = Some e" by blast
  moreover have "dependents r \<noteq> []" using d by auto
  ultimately have "findUnhappyDependent r cs = Some e"
    by (simp add: findUnhappyDependent_def Let_def error_conditions_def)
  with find_SomeD [OF e] show ?thesis by blast
qed

text \<open>
  The status that \<open>findUnhappyDependent\<close> hands to the happy condition: False if a dependent is
  False, otherwise Unknown if one is missing or not True, otherwise none.
\<close>

definition unhappy_status :: "condition_set \<Rightarrow> condition list \<Rightarrow> string option" where
  "unhappy_status r cs =
     (if list_ex (\<lambda>d. status_of d cs = Some ConditionFalse) (dependents r) then Some ConditionFalse
      else if list_ex (\<lambda>d. status_of d cs \<noteq> Some ConditionTrue) (dependents r) then Some ConditionUnknown
      else None)"

lemma findUnhappy_status:
  assumes m: "managed r cs" and w: "wf_set r" and v: "valid_status cs"
  shows "map_option cd_Status (findUnhappyDependent r cs) = unhappy_status r cs"
proof (cases "\<exists>d \<in> set (dependents r). status_of d cs = Some ConditionFalse")
  case True
  then obtain d where "d \<in> set (dependents r)" "status_of d cs = Some ConditionFalse" by blast
  from findUnhappy_False [OF m w this] True show ?thesis
    by (auto simp: unhappy_status_def list_ex_iff)
next
  case noF: False
  show ?thesis
  proof (cases "findUnhappyDependent r cs")
    case None
    with findUnhappy_complete [OF m w _ _ v] have
      "\<forall>d \<in> set (dependents r). status_of d cs = Some ConditionTrue" by blast
    with None noF show ?thesis by (auto simp: unhappy_status_def list_ex_iff)
  next
    case (Some c)
    have "cd_Status c \<noteq> ConditionFalse"
      using findUnhappy_sources [OF Some] error_conditions_dependent [OF m, of c] noF by metis
    with findUnhappy_Some [OF Some] have "cd_Status c = ConditionUnknown" by blast
    moreover have "\<exists>d \<in> set (dependents r). status_of d cs \<noteq> Some ConditionTrue"
      using findUnhappy_all_True [OF m w] Some by force
    ultimately show ?thesis using Some noF by (auto simp: unhappy_status_def list_ex_iff)
  qed
qed

lemma status_of_MarkTrue:
  assumes i: "cond_inv r (snd s)" and w: "wf_set r" and t: "t \<in> set (dependents r)"
  shows "status_of u (snd (MarkTrue clk r t s)) =
     (if u = happy r then
        Some (if list_ex (\<lambda>d. d \<noteq> t \<and> status_of d (snd s) = Some ConditionFalse) (dependents r)
              then ConditionFalse
              else if list_ex (\<lambda>d. d \<noteq> t \<and> status_of d (snd s) \<noteq> Some ConditionTrue) (dependents r)
              then ConditionUnknown else ConditionTrue)
      else if u = t then Some ConditionTrue else status_of u (snd s))"
proof -
  define s1 where "s1 = SetCondition clk (new_condition t ConditionTrue (severity r t) [] []) s"
  have m1: "managed r (snd s1)" and v1: "valid_status (snd s1)"
    using i by (auto simp: s1_def cond_inv_def intro!: managed_SetCondition valid_status_SetCondition)
  have st1: "status_of u (snd s1) = (if u = t then Some ConditionTrue else status_of u (snd s))" for u
    using cond_inv_managed [OF i] by (simp add: s1_def)
  have neq: "t \<noteq> happy r" using t w by (auto simp: wf_set_def)
  have F: "list_ex (\<lambda>d. status_of d (snd s1) = Some ConditionFalse) (dependents r) \<longleftrightarrow>
      list_ex (\<lambda>d. d \<noteq> t \<and> status_of d (snd s) = Some ConditionFalse) (dependents r)"
    and T: "list_ex (\<lambda>d. status_of d (snd s1) \<noteq> Some ConditionTrue) (dependents r) \<longleftrightarrow>
      list_ex (\<lambda>d. d \<noteq> t \<and> status_of d (snd s) \<noteq> Some ConditionTrue) (dependents r)"
    by (auto simp: list_ex_iff st1)
  note un = findUnhappy_status [OF m1 w v1, unfolded unhappy_status_def F T]
  show ?thesis
    unfolding MarkTrue_def s1_def [symmetric] status_of_recompute [OF m1] st1
    using un neq by (auto split: option.splits if_splits)
qed

section \<open>Accessors\<close>

text \<open>
  \<open>ConditionsAccessor\<close>: a status that holds a condition list. \<open>Manage\<close> runs an operation of the
  manager on the list of such a status.
\<close>

definition Manage ::
  "('s \<Rightarrow> condition list) \<Rightarrow> (condition list \<Rightarrow> 's \<Rightarrow> 's) \<Rightarrow> (cstate \<Rightarrow> cstate) \<Rightarrow> nat \<times> 's \<Rightarrow> nat \<times> 's" where
  "Manage get_c set_c f s = (let (n, cs) = f (fst s, get_c (snd s)) in (n, set_c cs (snd s)))"

locale conditions_accessor =
  fixes get_conditions :: "'s \<Rightarrow> condition list"
    and set_conditions :: "condition list \<Rightarrow> 's \<Rightarrow> 's"
  assumes get_set: "get_conditions (set_conditions cs s) = cs"
    and set_set: "set_conditions cs (set_conditions ds s) = set_conditions cs s"
    and set_get: "set_conditions (get_conditions s) s = s"
begin

lemma get_Manage:
  "get_conditions (snd (Manage get_conditions set_conditions f s)) =
     snd (f (fst s, get_conditions (snd s)))"
  by (simp add: Manage_def get_set split: prod.splits)

lemma Manage_frame:
  "set_conditions cs (snd (Manage get_conditions set_conditions f s)) = set_conditions cs (snd s)"
  by (simp add: Manage_def set_set split: prod.splits)

lemma Manage_comp:
  "Manage get_conditions set_conditions g (Manage get_conditions set_conditions f s) =
   Manage get_conditions set_conditions (g \<circ> f) s"
  by (simp add: Manage_def get_set set_set split: prod.splits)

lemma Manage_id: "Manage get_conditions set_conditions id s = s"
  by (simp add: Manage_def set_get)

lemma Manage_inv:
  "P (snd (f (fst s, get_conditions (snd s)))) \<Longrightarrow>
   P (get_conditions (snd (Manage get_conditions set_conditions f s)))"
  by (simp add: get_Manage)

end


section \<open>Properties\<close>



text \<open>C26. Setting a condition updates the map from types to conditions at the condition's type and
  nowhere else; setting it a second time changes neither the list nor the transition times.\<close>

theorem set_condition_refines_update:
  assumes "distinct_types (snd s)"
  shows "view (snd (SetCondition clk cond s)) = (view (snd s))(cd_Type cond \<mapsto> forget_time cond) \<and>
    SetCondition clk cond (SetCondition clk cond s) = SetCondition clk cond s"
proof -
  have v: "view (snd (SetCondition clk cond s)) = (view (snd s))(cd_Type cond \<mapsto> forget_time cond)"
    by (rule view_SetCondition [OF assms])
  then have "view (snd (SetCondition clk cond s)) (cd_Type cond) = Some (forget_time cond)" by simp
  then obtain c where "GetCondition (cd_Type cond) (snd (SetCondition clk cond s)) = Some c"
      "forget_time c = forget_time cond"
    by (auto simp: view_def)
  then have "SetCondition_loop cond (snd (SetCondition clk cond s)) = None"
    by (rule SetCondition_loop_same)
  then have "SetCondition clk cond (SetCondition clk cond s) = SetCondition clk cond s"
    unfolding SetCondition_def [of clk cond "SetCondition clk cond s"] by simp
  with v show ?thesis by simp
qed

theorem set_condition_refines_update_witness:
  "let c = new_condition ''A'' ConditionTrue '''' '''' '''';
       s = SetCondition int c (0, [new_condition ''A'' ConditionFalse '''' '''' ''''])
   in SetCondition int c s = s \<and> fst s = 1"
proof -
  let ?s = "(0, [new_condition ''A'' ConditionFalse '''' '''' '''']) :: cstate"
  have "distinct_types (snd ?s)" by (simp add: distinct_types_def)
  from set_condition_refines_update [OF this, of int "new_condition ''A'' ConditionTrue '''' '''' ''''"]
  have "SetCondition int (new_condition ''A'' ConditionTrue '''' '''' '''')
      (SetCondition int (new_condition ''A'' ConditionTrue '''' '''' '''') ?s) =
      SetCondition int (new_condition ''A'' ConditionTrue '''' '''' '''') ?s" by blast
  moreover have "fst (SetCondition int (new_condition ''A'' ConditionTrue '''' '''' '''') ?s) = 1" by code_simp
  ultimately show ?thesis unfolding Let_def by blast
qed

end
