(* ===== verification/IngressApi.thy ===== *)
theory IngressApi
  imports Meta Conditions
begin

text \<open>
  The Knative \<open>Ingress\<close> resource (knative.dev/networking/pkg/apis/networking/v1alpha1): its types
  (ingress_types.go), its defaulting (ingress_defaults.go) and the operations on its status
  (ingress_lifecycle.go). \<open>IngressStatus\<close> embeds \<open>duckv1.Status\<close>; the record of the Ingress status
  extends the record of the duck status.

  The status operations are state passing over the pair of the clock's reading count and the
  status, as those of the condition manager are.
\<close>

section \<open>Types\<close>

abbreviation (input) HTTPOptionEnabled :: string where "HTTPOptionEnabled \<equiv> ''Enabled''"
abbreviation (input) HTTPOptionRedirected :: string where "HTTPOptionRedirected \<equiv> ''Redirected''"
abbreviation (input) VisibilityExternalIP :: string where "VisibilityExternalIP \<equiv> ''ExternalIP''"
abbreviation (input) VisibilityClusterLocal :: string where "VisibilityClusterLocal \<equiv> ''ClusterLocal''"

record ingress_tls =
  tls_Hosts :: "string list"
  tls_SecretName :: string
  tls_SecretNamespace :: string

record header_match =
  hm_Exact :: string

record ingress_backend =
  ib_ServiceNamespace :: string
  ib_ServiceName :: string
  ib_ServicePort :: int_or_string

text \<open>The split embeds its backend.\<close>

record ingress_backend_split = ingress_backend +
  sp_Percent :: go_int
  sp_AppendHeaders :: smap

record http_ingress_path =
  ip_Path :: string
  ip_RewriteHost :: string
  ip_Headers :: "(string, header_match) gomap"
  ip_Splits :: "ingress_backend_split list"
  ip_AppendHeaders :: smap

record http_ingress_rule_value =
  rv_Paths :: "http_ingress_path list"

record ingress_rule =
  ir_Hosts :: "string list"
  ir_Visibility :: string
  ir_HTTP :: "http_ingress_rule_value option"

record ingress_spec =
  is_TLS :: "ingress_tls list"
  is_Rules :: "ingress_rule list"
  is_HTTPOption :: string

record load_balancer_ingress_status =
  lb_IP :: string
  lb_Domain :: string
  lb_DomainInternal :: string
  lb_MeshOnly :: bool

record duck_status =
  st_ObservedGeneration :: int
  st_Conditions :: "condition list"
  st_Annotations :: smap

record ingress_status = duck_status +
  st_PublicLoadBalancer :: "load_balancer_ingress_status list option"
  st_PrivateLoadBalancer :: "load_balancer_ingress_status list option"

record ingress =
  ing_Meta :: object_meta
  ing_Spec :: ingress_spec
  ing_Status :: ingress_status

definition ingress_apiVersion :: string where
  "ingress_apiVersion = ''networking.internal.knative.dev/v1alpha1''"

definition ingress_kind :: string where
  "ingress_kind = ''Ingress''"

section \<open>Defaults\<close>

definition HTTPIngressPath_SetDefaults :: "http_ingress_path \<Rightarrow> http_ingress_path" where
  "HTTPIngressPath_SetDefaults h =
     (case ip_Splits h of
        [s] \<Rightarrow> if sp_Percent s = 0 then h\<lparr>ip_Splits := [s\<lparr>sp_Percent := 100\<rparr>]\<rparr> else h
      | _ \<Rightarrow> h)"

text \<open>The receiver is a pointer; ranging over its paths dereferences it.\<close>

definition HTTPIngressRuleValue_SetDefaults ::
  "http_ingress_rule_value option \<Rightarrow> http_ingress_rule_value option" where
  "HTTPIngressRuleValue_SetDefaults h =
     (case h of
        None \<Rightarrow> None
      | Some v \<Rightarrow> Some (v\<lparr>rv_Paths := map HTTPIngressPath_SetDefaults (rv_Paths v)\<rparr>))"

definition IngressRule_SetDefaults :: "ingress_rule \<Rightarrow> ingress_rule option" where
  "IngressRule_SetDefaults r =
     (let r1 = (if ir_Visibility r = '''' then r\<lparr>ir_Visibility := VisibilityExternalIP\<rparr> else r)
      in case HTTPIngressRuleValue_SetDefaults (ir_HTTP r1) of
           None \<Rightarrow> None
         | Some v \<Rightarrow> Some (r1\<lparr>ir_HTTP := Some v\<rparr>))"

definition IngressTLS_SetDefaults :: "ingress_tls \<Rightarrow> ingress_tls" where
  "IngressTLS_SetDefaults t = t"

definition IngressSpec_SetDefaults :: "ingress_spec \<Rightarrow> ingress_spec option" where
  "IngressSpec_SetDefaults sp =
     map_option
       (\<lambda>rules. sp\<lparr>is_TLS := map IngressTLS_SetDefaults (is_TLS sp), is_Rules := rules\<rparr>)
       (those (map IngressRule_SetDefaults (is_Rules sp)))"

definition Ingress_SetDefaults :: "ingress \<Rightarrow> ingress option" where
  "Ingress_SetDefaults i =
     map_option (\<lambda>sp. i\<lparr>ing_Spec := sp\<rparr>) (IngressSpec_SetDefaults (ing_Spec i))"

lemma map_TLS_defaults [simp]: "map IngressTLS_SetDefaults ts = ts"
  by (simp add: IngressTLS_SetDefaults_def map_idI)

lemma those_eq_Some_iff: "those xs = Some ys \<longleftrightarrow> xs = map Some ys"
  by (induction xs arbitrary: ys) (auto split: option.splits)

lemma those_eq_None_iff: "those xs = None \<longleftrightarrow> None \<in> set xs"
  by (induction xs) (auto split: option.splits)

lemma path_defaults_idem [simp]:
  "HTTPIngressPath_SetDefaults (HTTPIngressPath_SetDefaults h) = HTTPIngressPath_SetDefaults h"
  by (auto simp: HTTPIngressPath_SetDefaults_def split: list.splits)

lemma rule_defaults_idem:
  "IngressRule_SetDefaults r = Some r' \<Longrightarrow> IngressRule_SetDefaults r' = Some r'"
  by (auto simp: IngressRule_SetDefaults_def HTTPIngressRuleValue_SetDefaults_def Let_def comp_def
      split: option.splits if_splits)

lemma spec_defaults_idem:
  assumes "IngressSpec_SetDefaults sp = Some sp'"
  shows "IngressSpec_SetDefaults sp' = Some sp'"
proof -
  from assms obtain rules where r: "map IngressRule_SetDefaults (is_Rules sp) = map Some rules"
    and sp': "sp' = sp\<lparr>is_TLS := map IngressTLS_SetDefaults (is_TLS sp), is_Rules := rules\<rparr>"
    by (auto simp: IngressSpec_SetDefaults_def those_eq_Some_iff)
  have "IngressRule_SetDefaults r = Some r" if "r \<in> set rules" for r
  proof -
    from that have "Some r \<in> set (map IngressRule_SetDefaults (is_Rules sp))" by (simp add: r)
    then show ?thesis by (auto dest!: sym [of "Some r"] rule_defaults_idem)
  qed
  then have "map IngressRule_SetDefaults rules = map Some rules" by simp
  then have "those (map IngressRule_SetDefaults rules) = Some rules" by (simp only: those_eq_Some_iff)
  then show ?thesis
    by (cases sp) (simp add: sp' IngressSpec_SetDefaults_def IngressTLS_SetDefaults_def comp_def)
qed

text \<open>Defaulting panics exactly when some rule has no HTTP block.\<close>

lemma rule_defaults_None_iff: "IngressRule_SetDefaults r = None \<longleftrightarrow> ir_HTTP r = None"
  by (auto simp: IngressRule_SetDefaults_def HTTPIngressRuleValue_SetDefaults_def Let_def
      split: option.splits)

lemma defaults_None_iff:
  "Ingress_SetDefaults i = None \<longleftrightarrow> (\<exists>r \<in> set (is_Rules (ing_Spec i)). ir_HTTP r = None)"
  by (auto simp: Ingress_SetDefaults_def IngressSpec_SetDefaults_def those_eq_None_iff image_iff)
     (metis rule_defaults_None_iff)+

section \<open>Status\<close>

definition ingressCondSet :: condition_set where
  "ingressCondSet = NewLivingConditionSet [''NetworkConfigured'', ''LoadBalancerReady'']"

type_synonym tstatus = "nat \<times> ingress_status"

definition set_Conditions :: "condition list \<Rightarrow> ingress_status \<Rightarrow> ingress_status" where
  "set_Conditions cs s = s\<lparr>st_Conditions := cs\<rparr>"

interpretation ingress_accessor: conditions_accessor st_Conditions set_Conditions
  by unfold_locales (simp_all add: set_Conditions_def)

abbreviation manage_ingress :: "(cstate \<Rightarrow> cstate) \<Rightarrow> tstatus \<Rightarrow> tstatus" where
  "manage_ingress \<equiv> Manage st_Conditions set_Conditions"

definition Ingress_InitializeConditions :: "clock \<Rightarrow> tstatus \<Rightarrow> tstatus" where
  "Ingress_InitializeConditions clk = manage_ingress (InitializeConditions clk ingressCondSet)"

definition MarkNetworkConfigured :: "clock \<Rightarrow> tstatus \<Rightarrow> tstatus" where
  "MarkNetworkConfigured clk = manage_ingress (MarkTrue clk ingressCondSet ''NetworkConfigured'')"

definition MarkLoadBalancerReady ::
  "clock \<Rightarrow> load_balancer_ingress_status list \<Rightarrow> load_balancer_ingress_status list \<Rightarrow> tstatus \<Rightarrow> tstatus" where
  "MarkLoadBalancerReady clk publicLbs privateLbs s =
     manage_ingress (MarkTrue clk ingressCondSet ''LoadBalancerReady'')
       (fst s, (snd s)\<lparr>st_PublicLoadBalancer := Some publicLbs, st_PrivateLoadBalancer := Some privateLbs\<rparr>)"

definition MarkLoadBalancerNotReady :: "clock \<Rightarrow> tstatus \<Rightarrow> tstatus" where
  "MarkLoadBalancerNotReady clk =
     manage_ingress (MarkUnknown clk ingressCondSet ''LoadBalancerReady'' ''Uninitialized''
       ''Waiting for load balancer to be ready'')"

definition MarkLoadBalancerFailed :: "clock \<Rightarrow> string \<Rightarrow> string \<Rightarrow> tstatus \<Rightarrow> tstatus" where
  "MarkLoadBalancerFailed clk reason message =
     manage_ingress (MarkFalse clk ingressCondSet ''LoadBalancerReady'' reason message)"

definition MarkIngressNotReady :: "clock \<Rightarrow> string \<Rightarrow> string \<Rightarrow> tstatus \<Rightarrow> tstatus" where
  "MarkIngressNotReady clk reason message =
     manage_ingress (MarkUnknown clk ingressCondSet ConditionReady reason message)"

definition Ingress_IsReady :: "ingress \<Rightarrow> bool" where
  "Ingress_IsReady i \<longleftrightarrow>
     st_ObservedGeneration (ing_Status i) = om_Generation (ing_Meta i) \<and>
     IsTrue (GetCondition ConditionReady (st_Conditions (ing_Status i)))"

section \<open>What the status operations do\<close>

lemma ingressCondSet_simps [simp]:
  "happy ingressCondSet = ''Ready''"
  "dependents ingressCondSet = [''NetworkConfigured'', ''LoadBalancerReady'']"
  by (simp_all add: ingressCondSet_def NewLivingConditionSet_def newConditionSet_def)

lemma wf_ingressCondSet [simp]: "wf_set ingressCondSet"
  by (simp add: wf_set_def)

text \<open>The status of one condition type of an Ingress, and the invariant of its condition list.\<close>

definition cstat :: "string \<Rightarrow> tstatus \<Rightarrow> string option" where
  "cstat t s = status_of t (st_Conditions (snd s))"

definition status_inv :: "ingress_status \<Rightarrow> bool" where
  "status_inv s \<longleftrightarrow> cond_inv ingressCondSet (st_Conditions s)"

lemmas mark_defs = Ingress_InitializeConditions_def MarkNetworkConfigured_def
  MarkLoadBalancerReady_def MarkLoadBalancerNotReady_def MarkLoadBalancerFailed_def
  MarkIngressNotReady_def

lemma status_inv_marks [keeps_wf]:
  assumes "status_inv (snd s)"
  shows "status_inv (snd (Ingress_InitializeConditions clk s))"
    and "status_inv (snd (MarkNetworkConfigured clk s))"
    and "status_inv (snd (MarkLoadBalancerReady clk pub priv s))"
    and "status_inv (snd (MarkLoadBalancerNotReady clk s))"
    and "status_inv (snd (MarkLoadBalancerFailed clk reason msg s))"
    and "status_inv (snd (MarkIngressNotReady clk reason msg s))"
  using assms
  by (simp_all add: status_inv_def mark_defs ingress_accessor.get_Manage inv_InitializeConditions
      inv_MarkTrue inv_MarkUnknown inv_MarkFalse)

lemma status_inv_lbs [simp]:
  "status_inv (s\<lparr>st_PublicLoadBalancer := a, st_PrivateLoadBalancer := b\<rparr>) = status_inv s"
  by (simp add: status_inv_def)

lemma cstat_Init:
  assumes "status_inv (snd s)"
  shows "cstat t (Ingress_InitializeConditions clk s) =
     (if cstat t s \<noteq> None then cstat t s
      else if t = ''Ready'' then Some ConditionUnknown
      else if t = ''NetworkConfigured'' \<or> t = ''LoadBalancerReady'' then
        Some (if cstat ''Ready'' s = Some ConditionTrue then ConditionTrue else ConditionUnknown)
      else None)"
  using assms
  by (simp add: cstat_def status_inv_def mark_defs ingress_accessor.get_Manage
      status_of_InitializeConditions cond_inv_managed)

lemma cstat_MarkNetworkConfigured:
  assumes "status_inv (snd s)"
  shows "cstat t (MarkNetworkConfigured clk s) =
     (if t = ''Ready'' then
        Some (if cstat ''LoadBalancerReady'' s = Some ConditionFalse then ConditionFalse
              else if cstat ''LoadBalancerReady'' s \<noteq> Some ConditionTrue then ConditionUnknown
              else ConditionTrue)
      else if t = ''NetworkConfigured'' then Some ConditionTrue else cstat t s)"
  using assms
  by (simp add: cstat_def status_inv_def mark_defs ingress_accessor.get_Manage status_of_MarkTrue)

lemma cstat_MarkLoadBalancerReady:
  assumes "status_inv (snd s)"
  shows "cstat t (MarkLoadBalancerReady clk pub priv s) =
     (if t = ''Ready'' then
        Some (if cstat ''NetworkConfigured'' s = Some ConditionFalse then ConditionFalse
              else if cstat ''NetworkConfigured'' s \<noteq> Some ConditionTrue then ConditionUnknown
              else ConditionTrue)
      else if t = ''LoadBalancerReady'' then Some ConditionTrue else cstat t s)"
  using assms
  by (simp add: cstat_def status_inv_def mark_defs ingress_accessor.get_Manage status_of_MarkTrue)

lemma cstat_MarkIngressNotReady:
  assumes "status_inv (snd s)"
  shows "cstat t (MarkIngressNotReady clk reason msg s) =
     (if t = ''Ready'' then
        Some (if cstat ''NetworkConfigured'' s = Some ConditionFalse \<or>
                 cstat ''LoadBalancerReady'' s = Some ConditionFalse
              then ConditionFalse else ConditionUnknown)
      else cstat t s)"
  using assms
  by (simp add: cstat_def status_inv_def mark_defs ingress_accessor.get_Manage
      status_of_MarkUnknown cond_inv_managed)

lemma cstat_MarkLoadBalancerNotReady:
  assumes "status_inv (snd s)"
  shows "cstat t (MarkLoadBalancerNotReady clk s) =
     (if t = ''Ready'' then
        Some (if cstat ''NetworkConfigured'' s = Some ConditionFalse then ConditionFalse
              else ConditionUnknown)
      else if t = ''LoadBalancerReady'' then Some ConditionUnknown else cstat t s)"
  using assms
  by (simp add: cstat_def status_inv_def mark_defs ingress_accessor.get_Manage
      status_of_MarkUnknown cond_inv_managed)

lemmas cstat_marks = cstat_Init cstat_MarkNetworkConfigured cstat_MarkLoadBalancerReady
  cstat_MarkIngressNotReady cstat_MarkLoadBalancerNotReady

text \<open>The marks of conditions leave the rest of the status alone.\<close>

lemma marks_frame [simp]:
  "st_ObservedGeneration (snd (Ingress_InitializeConditions clk s)) = st_ObservedGeneration (snd s)"
  "st_ObservedGeneration (snd (MarkNetworkConfigured clk s)) = st_ObservedGeneration (snd s)"
  "st_ObservedGeneration (snd (MarkLoadBalancerReady clk pub priv s)) = st_ObservedGeneration (snd s)"
  "st_ObservedGeneration (snd (MarkLoadBalancerNotReady clk s)) = st_ObservedGeneration (snd s)"
  "st_ObservedGeneration (snd (MarkIngressNotReady clk reason msg s)) = st_ObservedGeneration (snd s)"
  "st_PublicLoadBalancer (snd (MarkLoadBalancerReady clk pub priv s)) = Some pub"
  "st_PrivateLoadBalancer (snd (MarkLoadBalancerReady clk pub priv s)) = Some priv"
  "st_PublicLoadBalancer (snd (MarkIngressNotReady clk reason msg s)) = st_PublicLoadBalancer (snd s)"
  "st_PublicLoadBalancer (snd (MarkNetworkConfigured clk s)) = st_PublicLoadBalancer (snd s)"
  "st_PublicLoadBalancer (snd (Ingress_InitializeConditions clk s)) = st_PublicLoadBalancer (snd s)"
  "st_PublicLoadBalancer (snd (MarkLoadBalancerNotReady clk s)) = st_PublicLoadBalancer (snd s)"
  by (simp_all add: mark_defs Manage_def set_Conditions_def split: prod.splits)

section \<open>Properties\<close>

lemma path_defaults_single_split:
  "ip_Splits (HTTPIngressPath_SetDefaults h) = [s] \<Longrightarrow> sp_Percent s \<noteq> 0"
  by (auto simp: HTTPIngressPath_SetDefaults_def split: list.splits if_splits)

lemma rule_defaults_complete:
  assumes "IngressRule_SetDefaults r = Some r'"
  shows "ir_Visibility r' \<noteq> '''' \<and> ir_Hosts r' = ir_Hosts r \<and>
    (\<exists>v. ir_HTTP r' = Some v \<and> (\<forall>h \<in> set (rv_Paths v). \<forall>s. ip_Splits h = [s] \<longrightarrow> sp_Percent s \<noteq> 0))"
  using assms path_defaults_single_split
  by (auto simp: IngressRule_SetDefaults_def HTTPIngressRuleValue_SetDefaults_def Let_def
      split: option.splits if_splits)



definition lone_split_ingress :: ingress where
  "lone_split_ingress = \<lparr>ing_Meta = empty_meta,
     ing_Spec = \<lparr>is_TLS = [],
       is_Rules = [\<lparr>ir_Hosts = [''a''], ir_Visibility = '''',
         ir_HTTP = Some \<lparr>rv_Paths = [\<lparr>ip_Path = '''', ip_RewriteHost = '''', ip_Headers = None,
           ip_Splits = [\<lparr>ib_ServiceNamespace = ''ns'', ib_ServiceName = ''svc'',
             ib_ServicePort = FromInt 80, sp_Percent = 0, sp_AppendHeaders = None\<rparr>],
           ip_AppendHeaders = None\<rparr>]\<rparr>\<rparr>],
       is_HTTPOption = ''''\<rparr>,
     ing_Status = \<lparr>st_ObservedGeneration = 0, st_Conditions = [], st_Annotations = None,
       st_PublicLoadBalancer = None, st_PrivateLoadBalancer = None\<rparr>\<rparr>"


end
