(* ===== verification/HTTPRouteApi.thy ===== *)
theory HTTPRouteApi
  imports Meta
begin

text \<open>
  The Gateway API \<open>HTTPRoute\<close> resource (sigs.k8s.io/gateway-api/apis/v1alpha1, httproute_types.go
  and shared_types.go) and the semantic equality that decides whether a route is updated
  (apimachinery third_party/forked/golang/reflect/deep_equal.go).

  Go's string types for enumerations are strings. A slice whose nil-ness no code of the model
  looks at is a list; \<open>RouteStatus.Gateways\<close>, which is compared with nil, is an option of a list.
\<close>

section \<open>Types\<close>

record local_object_reference =
  lr_Group :: string
  lr_Kind :: string
  lr_Name :: string

record http_path_match =
  pm_Type :: "string option"
  pm_Value :: "string option"

record http_header_match =
  hh_Type :: "string option"
  hh_Values :: smap

record http_query_param_match =
  qp_Type :: "string option"
  qp_Values :: smap

record http_route_match =
  rm_Path :: "http_path_match option"
  rm_Headers :: "http_header_match option"
  rm_QueryParams :: "http_query_param_match option"
  rm_ExtensionRef :: "local_object_reference option"

record http_request_header_filter =
  hf_Set :: smap
  hf_Add :: smap
  hf_Remove :: "string list"

record http_request_mirror_filter =
  mf_ServiceName :: "string option"
  mf_BackendRef :: "local_object_reference option"
  mf_Port :: "go_int32 option"

record http_route_filter =
  rf_Type :: string
  rf_RequestHeaderModifier :: "http_request_header_filter option"
  rf_RequestMirror :: "http_request_mirror_filter option"
  rf_ExtensionRef :: "local_object_reference option"

record http_route_forward_to =
  ft_ServiceName :: "string option"
  ft_BackendRef :: "local_object_reference option"
  ft_Port :: "go_int32 option"
  ft_Weight :: "go_int32 option"
  ft_Filters :: "http_route_filter list"

record http_route_rule =
  rr_Matches :: "http_route_match list"
  rr_Filters :: "http_route_filter list"
  rr_ForwardTo :: "http_route_forward_to list"

record gateway_reference =
  gr_Name :: string
  gr_Namespace :: string

record route_gateways =
  rg_Allow :: "string option"
  rg_GatewayRefs :: "gateway_reference list"

record route_tls_config =
  tc_CertificateRef :: local_object_reference

record http_route_spec =
  hs_Gateways :: "route_gateways option"
  hs_Hostnames :: "string list"
  hs_TLS :: "route_tls_config option"
  hs_Rules :: "http_route_rule list"

text \<open>\<open>metav1.Condition\<close>, without the time of the last transition.\<close>

record meta_condition =
  mc_Type :: string
  mc_Status :: string
  mc_ObservedGeneration :: int
  mc_Reason :: string
  mc_Message :: string

record route_status_gateway_reference =
  sg_Name :: string
  sg_Namespace :: string
  sg_Controller :: "string option"

record route_gateway_status =
  rgs_GatewayRef :: route_status_gateway_reference
  rgs_Conditions :: "meta_condition list"

record http_route_status =
  hst_Gateways :: "route_gateway_status list option"

record http_route =
  hr_Meta :: object_meta
  hr_Spec :: http_route_spec
  hr_Status :: http_route_status

text \<open>\<open>&v1alpha1.HTTPRoute{}\<close>\<close>

definition empty_route :: http_route where
  "empty_route = \<lparr>hr_Meta = empty_meta,
     hr_Spec = \<lparr>hs_Gateways = None, hs_Hostnames = [], hs_TLS = None, hs_Rules = []\<rparr>, hr_Status = \<lparr>hst_Gateways = None\<rparr>\<rparr>"

abbreviation (input) PathMatchPrefix :: string where "PathMatchPrefix \<equiv> ''Prefix''"
abbreviation (input) HeaderMatchExact :: string where "HeaderMatchExact \<equiv> ''Exact''"
abbreviation (input) HTTPRouteFilterRequestHeaderModifier :: string where
  "HTTPRouteFilterRequestHeaderModifier \<equiv> ''RequestHeaderModifier''"
abbreviation (input) GatewayAllowFromList :: string where "GatewayAllowFromList \<equiv> ''FromList''"
abbreviation (input) ConditionRouteAdmitted :: string where "ConditionRouteAdmitted \<equiv> ''Admitted''"

section \<open>Semantic equality\<close>

text \<open>
  The reflected values that the compared structs are made of: strings, integers, booleans,
  pointers, slices, structs and maps from strings to strings. Values of different kinds have
  different types. None of the types with an equality of its own occurs.
\<close>

datatype go_value =
    GString string
  | GInt int
  | GBool bool
  | GPtr "go_value option"
  | GSlice "go_value list option"
  | GStruct "go_value list"
  | GStringMap smap

definition map_empty :: "('k, 'v) gomap \<Rightarrow> bool" where
  "map_empty m \<longleftrightarrow> entries m = fmempty"

definition slice_empty :: "'v list option \<Rightarrow> bool" where
  "slice_empty xs = (case xs of None \<Rightarrow> True | Some ys \<Rightarrow> ys = [])"

text \<open>The loop over the keys of the first map.\<close>

definition map_values_equal :: "(string, string) fmap \<Rightarrow> (string, string) fmap \<Rightarrow> bool" where
  "map_values_equal f g \<longleftrightarrow> fmpred (\<lambda>k v. fmlookup g k = Some v) f"

fun deepValueEqual :: "go_value \<Rightarrow> go_value \<Rightarrow> bool" and
    deepElementsEqual :: "go_value list \<Rightarrow> go_value list \<Rightarrow> bool" where
  "deepValueEqual (GString s) w = (case w of GString t \<Rightarrow> s = t | _ \<Rightarrow> False)"
| "deepValueEqual (GInt m) w = (case w of GInt n \<Rightarrow> m = n | _ \<Rightarrow> False)"
| "deepValueEqual (GBool a) w = (case w of GBool b \<Rightarrow> a = b | _ \<Rightarrow> False)"
| "deepValueEqual (GPtr p) w =
     (case w of
        GPtr q \<Rightarrow>
          (case p of
             None \<Rightarrow> (case q of None \<Rightarrow> True | Some _ \<Rightarrow> False)
           | Some v \<Rightarrow> (case q of None \<Rightarrow> False | Some u \<Rightarrow> deepValueEqual v u))
      | _ \<Rightarrow> False)"
| "deepValueEqual (GSlice p) w =
     (case w of
        GSlice q \<Rightarrow>
          if slice_empty p \<noteq> slice_empty q then False
          else if slice_empty p then True
          else (case p of
                  None \<Rightarrow> True
                | Some xs \<Rightarrow>
                    (case q of
                       None \<Rightarrow> True
                     | Some ys \<Rightarrow> if length xs \<noteq> length ys then False else deepElementsEqual xs ys))
      | _ \<Rightarrow> False)"
| "deepValueEqual (GStruct xs) w = (case w of GStruct ys \<Rightarrow> deepElementsEqual xs ys | _ \<Rightarrow> False)"
| "deepValueEqual (GStringMap m) w =
     (case w of
        GStringMap n \<Rightarrow>
          if map_empty m \<noteq> map_empty n then False
          else if map_empty m then True
          else if fcard (fmdom (entries m)) \<noteq> fcard (fmdom (entries n)) then False
          else map_values_equal (entries m) (entries n)
      | _ \<Rightarrow> False)"
| "deepElementsEqual [] ws = (ws = [])"
| "deepElementsEqual (v # vs) ws =
     (case ws of
        [] \<Rightarrow> False
      | w # ws' \<Rightarrow> if deepValueEqual v w then deepElementsEqual vs ws' else False)"

text \<open>The normal form that forgets whether an empty slice or map is nil.\<close>

fun normal :: "go_value \<Rightarrow> go_value" where
  "normal (GPtr p) = GPtr (map_option normal p)"
| "normal (GSlice xs) = (if slice_empty xs then GSlice None else GSlice (map_option (map normal) xs))"
| "normal (GStruct xs) = GStruct (map normal xs)"
| "normal (GStringMap m) = (if map_empty m then GStringMap None else GStringMap m)"
| "normal v = v"

lemma map_values_equal_iff:
  assumes "fcard (fmdom f) = fcard (fmdom g)"
  shows "map_values_equal f g \<longleftrightarrow> f = g"
proof
  assume v: "map_values_equal f g"
  then have sub: "fmdom f |\<subseteq>| fmdom g"
    by (auto simp: map_values_equal_def fmpred_iff fmlookup_dom_iff)
  with assms have dom: "fmdom f = fmdom g" by (metis fcard_seteq order_refl)
  show "f = g"
  proof (rule fmap_ext)
    fix k
    show "fmlookup f k = fmlookup g k"
    proof (cases "fmlookup f k")
      case None
      then have "k |\<notin>| fmdom g" using dom by (simp add: fmdom_notI flip: dom)
      then show ?thesis using None by (simp add: fmdom_notD)
    qed (use v in \<open>simp add: map_values_equal_def fmpred_iff\<close>)
  qed
qed (simp add: map_values_equal_def fmpred_iff)

lemma string_maps_equal_iff:
  "deepValueEqual (GStringMap m) (GStringMap n) \<longleftrightarrow> entries m = entries n"
  using map_values_equal_iff [of "entries m" "entries n"]
  by (auto simp: map_empty_def)

lemma normal_string_map:
  "normal (GStringMap m) = normal (GStringMap n) \<longleftrightarrow> entries m = entries n"
  by (cases m; cases n) (auto simp: map_empty_def)

lemma deep_equal_normal:
  "deepValueEqual v w \<longleftrightarrow> normal v = normal w"
  "deepElementsEqual vs ws \<longleftrightarrow> map normal vs = map normal ws"
proof (induction v w and vs ws rule: deepValueEqual_deepElementsEqual.induct)
  case (4 p w)
  then show ?case by (cases w; cases p) (auto split: option.splits)
next
  case (5 p w)
  show ?case
  proof (cases w)
    case (GSlice q)
    show ?thesis
    proof (cases "slice_empty p \<and> slice_empty q")
      case True
      then show ?thesis using GSlice by simp
    next
      case False
      show ?thesis
      proof (cases "slice_empty p \<noteq> slice_empty q")
        case True
        then show ?thesis using GSlice by (cases p; cases q) (auto simp: slice_empty_def)
      next
        case same: False
        with False obtain xs ys where "p = Some xs" "q = Some ys"
          by (auto simp: slice_empty_def split: option.splits)
        then show ?thesis
          using 5 GSlice False same by (auto dest: map_eq_imp_length_eq)
      qed
    qed
  qed auto
next
  case (6 xs w)
  then show ?case by (cases w) auto
next
  case (7 m w)
  show ?case
  proof (cases w)
    case (GStringMap n)
    then show ?thesis using string_maps_equal_iff normal_string_map by blast
  qed auto
next
  case (9 v vs ws)
  then show ?case by (cases ws) auto
qed (auto split: go_value.splits)

text \<open>Semantic equality is an equivalence.\<close>

lemma deepValueEqual_refl [simp]: "deepValueEqual v v"
  by (simp add: deep_equal_normal)

lemma deepValueEqual_sym: "deepValueEqual v w \<Longrightarrow> deepValueEqual w v"
  by (simp add: deep_equal_normal)

lemma deepValueEqual_trans: "deepValueEqual u v \<Longrightarrow> deepValueEqual v w \<Longrightarrow> deepValueEqual u w"
  by (simp add: deep_equal_normal)

section \<open>The reflected values of a route\<close>

text \<open>The fields of each struct, in the order of its declaration.\<close>

definition ref_string :: "string option \<Rightarrow> go_value" where
  "ref_string s = GPtr (map_option GString s)"

definition ref_int32 :: "go_int32 option \<Rightarrow> go_value" where
  "ref_int32 n = GPtr (map_option (\<lambda>w. GInt (sint w)) n)"

definition ref_object :: "local_object_reference option \<Rightarrow> go_value" where
  "ref_object r = GPtr (map_option
     (\<lambda>l. GStruct [GString (lr_Group l), GString (lr_Kind l), GString (lr_Name l)]) r)"

definition slice_of :: "('a \<Rightarrow> go_value) \<Rightarrow> 'a list \<Rightarrow> go_value" where
  "slice_of f xs = GSlice (Some (map f xs))"

definition match_value :: "http_route_match \<Rightarrow> go_value" where
  "match_value m = GStruct
     [GPtr (map_option (\<lambda>p. GStruct [ref_string (pm_Type p), ref_string (pm_Value p)]) (rm_Path m)),
      GPtr (map_option (\<lambda>h. GStruct [ref_string (hh_Type h), GStringMap (hh_Values h)]) (rm_Headers m)),
      GPtr (map_option (\<lambda>q. GStruct [ref_string (qp_Type q), GStringMap (qp_Values q)]) (rm_QueryParams m)),
      ref_object (rm_ExtensionRef m)]"

definition filter_value :: "http_route_filter \<Rightarrow> go_value" where
  "filter_value f = GStruct
     [GString (rf_Type f),
      GPtr (map_option (\<lambda>h. GStruct [GStringMap (hf_Set h), GStringMap (hf_Add h),
                                     slice_of GString (hf_Remove h)]) (rf_RequestHeaderModifier f)),
      GPtr (map_option (\<lambda>m. GStruct [ref_string (mf_ServiceName m), ref_object (mf_BackendRef m),
                                     ref_int32 (mf_Port m)]) (rf_RequestMirror f)),
      ref_object (rf_ExtensionRef f)]"

definition forward_value :: "http_route_forward_to \<Rightarrow> go_value" where
  "forward_value f = GStruct
     [ref_string (ft_ServiceName f), ref_object (ft_BackendRef f), ref_int32 (ft_Port f),
      ref_int32 (ft_Weight f), slice_of filter_value (ft_Filters f)]"

definition rule_value :: "http_route_rule \<Rightarrow> go_value" where
  "rule_value r = GStruct
     [slice_of match_value (rr_Matches r), slice_of filter_value (rr_Filters r),
      slice_of forward_value (rr_ForwardTo r)]"

definition gateways_value :: "route_gateways \<Rightarrow> go_value" where
  "gateways_value g = GStruct
     [ref_string (rg_Allow g),
      slice_of (\<lambda>r. GStruct [GString (gr_Name r), GString (gr_Namespace r)]) (rg_GatewayRefs g)]"

definition spec_value :: "http_route_spec \<Rightarrow> go_value" where
  "spec_value s = GStruct
     [GPtr (map_option gateways_value (hs_Gateways s)),
      slice_of GString (hs_Hostnames s),
      GPtr (map_option (\<lambda>t. GStruct [ref_object (Some (tc_CertificateRef t))]) (hs_TLS s)),
      slice_of rule_value (hs_Rules s)]"

definition spec_DeepEqual :: "http_route_spec \<Rightarrow> http_route_spec \<Rightarrow> bool" where
  "spec_DeepEqual a b \<longleftrightarrow> deepValueEqual (spec_value a) (spec_value b)"

definition smap_DeepEqual :: "smap \<Rightarrow> smap \<Rightarrow> bool" where
  "smap_DeepEqual a b \<longleftrightarrow> deepValueEqual (GStringMap a) (GStringMap b)"

lemma spec_DeepEqual_refl [simp]: "spec_DeepEqual s s"
  by (simp add: spec_DeepEqual_def)

lemma smap_DeepEqual_iff: "smap_DeepEqual a b \<longleftrightarrow> entries a = entries b"
  unfolding smap_DeepEqual_def by (rule string_maps_equal_iff)

lemma spec_DeepEqual_hostnames:
  assumes "spec_DeepEqual a b"
  shows "hs_Hostnames a = hs_Hostnames b"
proof -
  have "map (normal \<circ> GString) xs = map (normal \<circ> GString) ys \<longleftrightarrow> xs = ys" for xs ys
    by (rule inj_map_eq_map) (simp add: inj_def)
  then show ?thesis
    using assms by (auto simp: spec_DeepEqual_def deep_equal_normal spec_value_def slice_of_def
        slice_empty_def comp_def split: if_splits)
qed

section \<open>Equality of specs\<close>

text \<open>
  The normal form of a spec: an empty map in a match or a header filter becomes nil. Two specs count
  as equal exactly when their normal forms are the same.
\<close>

definition norm_map :: "smap \<Rightarrow> smap" where
  "norm_map m = (if map_empty m then None else m)"

definition norm_match :: "http_route_match \<Rightarrow> http_route_match" where
  "norm_match m = m\<lparr>rm_Headers := map_option (\<lambda>h. h\<lparr>hh_Values := norm_map (hh_Values h)\<rparr>) (rm_Headers m),
     rm_QueryParams := map_option (\<lambda>q. q\<lparr>qp_Values := norm_map (qp_Values q)\<rparr>) (rm_QueryParams m)\<rparr>"

definition norm_filter :: "http_route_filter \<Rightarrow> http_route_filter" where
  "norm_filter f = f\<lparr>rf_RequestHeaderModifier := map_option
     (\<lambda>h. h\<lparr>hf_Set := norm_map (hf_Set h), hf_Add := norm_map (hf_Add h)\<rparr>) (rf_RequestHeaderModifier f)\<rparr>"

definition norm_forward :: "http_route_forward_to \<Rightarrow> http_route_forward_to" where
  "norm_forward f = f\<lparr>ft_Filters := map norm_filter (ft_Filters f)\<rparr>"

definition norm_rule :: "http_route_rule \<Rightarrow> http_route_rule" where
  "norm_rule r = r\<lparr>rr_Matches := map norm_match (rr_Matches r), rr_Filters := map norm_filter (rr_Filters r),
     rr_ForwardTo := map norm_forward (rr_ForwardTo r)\<rparr>"

definition norm_spec :: "http_route_spec \<Rightarrow> http_route_spec" where
  "norm_spec s = s\<lparr>hs_Rules := map norm_rule (hs_Rules s)\<rparr>"

lemma map_eq_map_iff:
  assumes "\<And>x y. f x = f y \<longleftrightarrow> g x = g y"
  shows "map f xs = map f ys \<longleftrightarrow> map g xs = map g ys"
proof (induction xs arbitrary: ys)
  case (Cons x xs)
  then show ?case using assms by (cases ys) auto
qed auto

lemma normal_slice [simp]:
  "normal (slice_of f xs) = normal (slice_of f ys) \<longleftrightarrow> map (normal \<circ> f) xs = map (normal \<circ> f) ys"
  by (auto simp: slice_of_def slice_empty_def)

lemma normal_ref_string [simp]: "normal (ref_string s) = normal (ref_string t) \<longleftrightarrow> s = t"
  by (cases s; cases t) (simp_all add: ref_string_def)

lemma normal_ref_int32 [simp]: "normal (ref_int32 m) = normal (ref_int32 n) \<longleftrightarrow> m = n"
  by (cases m; cases n) (auto simp: ref_int32_def intro: signed_word_eqI)

lemma normal_ref_object [simp]: "normal (ref_object r) = normal (ref_object s) \<longleftrightarrow> r = s"
  by (cases r; cases s) (auto simp: ref_object_def intro: local_object_reference.equality)

lemma normal_map_iff: "normal (GStringMap m) = normal (GStringMap n) \<longleftrightarrow> norm_map m = norm_map n"
  by (auto simp: norm_map_def)

lemma normal_ptr_iff:
  "normal (GPtr (map_option f x)) = normal (GPtr (map_option f y)) \<longleftrightarrow>
   map_option (normal \<circ> f) x = map_option (normal \<circ> f) y"
  by (simp add: option.map_comp)

lemma map_string_iff: "map (normal \<circ> GString) xs = map (normal \<circ> GString) ys \<longleftrightarrow> xs = ys"
  by (rule inj_map_eq_map) (simp add: inj_def)

lemma map_option_eq_iff:
  assumes "\<And>x y. f x = f y \<longleftrightarrow> g x = g y"
  shows "map_option f x = map_option f y \<longleftrightarrow> map_option g x = map_option g y"
  using assms by (cases x; cases y) auto

lemma normal_struct: "normal (GStruct xs) = normal (GStruct ys) \<longleftrightarrow> map normal xs = map normal ys"
  by simp

lemma normal_match: "normal (match_value a) = normal (match_value b) \<longleftrightarrow> norm_match a = norm_match b"
proof -
  have p: "map_option (normal \<circ> (\<lambda>p. GStruct [ref_string (pm_Type p), ref_string (pm_Value p)])) x =
      map_option (normal \<circ> (\<lambda>p. GStruct [ref_string (pm_Type p), ref_string (pm_Value p)])) y \<longleftrightarrow> x = y"
    for x y :: "http_path_match option"
    by (cases x; cases y) (auto intro: http_path_match.equality)
  have h: "map_option (normal \<circ> (\<lambda>h. GStruct [ref_string (hh_Type h), GStringMap (hh_Values h)])) x =
      map_option (normal \<circ> (\<lambda>h. GStruct [ref_string (hh_Type h), GStringMap (hh_Values h)])) y \<longleftrightarrow>
      map_option (\<lambda>h. h\<lparr>hh_Values := norm_map (hh_Values h)\<rparr>) x =
      map_option (\<lambda>h. h\<lparr>hh_Values := norm_map (hh_Values h)\<rparr>) y"
    for x y :: "http_header_match option"
    by (cases x; cases y) (auto simp del: normal.simps(4) simp: normal_map_iff
        intro!: http_header_match.equality dest: arg_cong [of _ _ hh_Type] arg_cong [of _ _ hh_Values])
  have q: "map_option (normal \<circ> (\<lambda>h. GStruct [ref_string (qp_Type h), GStringMap (qp_Values h)])) x =
      map_option (normal \<circ> (\<lambda>h. GStruct [ref_string (qp_Type h), GStringMap (qp_Values h)])) y \<longleftrightarrow>
      map_option (\<lambda>h. h\<lparr>qp_Values := norm_map (qp_Values h)\<rparr>) x =
      map_option (\<lambda>h. h\<lparr>qp_Values := norm_map (qp_Values h)\<rparr>) y"
    for x y :: "http_query_param_match option"
    by (cases x; cases y) (auto simp del: normal.simps(4) simp: normal_map_iff
        intro!: http_query_param_match.equality dest: arg_cong [of _ _ qp_Type] arg_cong [of _ _ qp_Values])
  show ?thesis
    unfolding match_value_def normal_struct list.map list.inject normal_ptr_iff p h q normal_ref_object
    by (cases a; cases b) (auto simp: norm_match_def)
qed

lemma normal_filter: "normal (filter_value a) = normal (filter_value b) \<longleftrightarrow> norm_filter a = norm_filter b"
proof -
  let ?h = "\<lambda>h. GStruct [GStringMap (hf_Set h), GStringMap (hf_Add h), slice_of GString (hf_Remove h)]"
  let ?n = "\<lambda>h. h\<lparr>hf_Set := norm_map (hf_Set h), hf_Add := norm_map (hf_Add h)\<rparr>"
  have n: "normal (?h x) = normal (?h y) \<longleftrightarrow> ?n x = ?n y" for x y :: http_request_header_filter
    unfolding normal_struct list.map list.inject normal_map_iff normal_slice map_string_iff
    by (cases x; cases y) auto
  have h: "map_option (normal \<circ> ?h) x = map_option (normal \<circ> ?h) y \<longleftrightarrow>
      map_option ?n x = map_option ?n y" for x y :: "http_request_header_filter option"
    by (rule map_option_eq_iff) (simp only: comp_apply n)
  let ?m = "\<lambda>m. GStruct [ref_string (mf_ServiceName m), ref_object (mf_BackendRef m), ref_int32 (mf_Port m)]"
  have m: "map_option (normal \<circ> ?m) x = map_option (normal \<circ> ?m) y \<longleftrightarrow> x = y"
    for x y :: "http_request_mirror_filter option"
    by (cases x; cases y) (auto intro: http_request_mirror_filter.equality)
  show ?thesis
    unfolding filter_value_def normal_struct list.map list.inject normal_ptr_iff h m normal_ref_object
    by (cases a; cases b) (auto simp: norm_filter_def)
qed

lemma normal_filters:
  "map (normal \<circ> filter_value) xs = map (normal \<circ> filter_value) ys \<longleftrightarrow> map norm_filter xs = map norm_filter ys"
  by (rule map_eq_map_iff) (simp add: normal_filter)

lemma normal_forward: "normal (forward_value a) = normal (forward_value b) \<longleftrightarrow> norm_forward a = norm_forward b"
  unfolding forward_value_def normal_struct list.map list.inject normal_ref_string normal_ref_object
    normal_ref_int32 normal_slice normal_filters
  by (cases a; cases b) (auto simp: norm_forward_def)

lemma normal_rule: "normal (rule_value a) = normal (rule_value b) \<longleftrightarrow> norm_rule a = norm_rule b"
proof -
  have m: "map (normal \<circ> match_value) xs = map (normal \<circ> match_value) ys \<longleftrightarrow>
      map norm_match xs = map norm_match ys" for xs ys
    by (rule map_eq_map_iff) (simp add: normal_match)
  have f: "map (normal \<circ> forward_value) xs = map (normal \<circ> forward_value) ys \<longleftrightarrow>
      map norm_forward xs = map norm_forward ys" for xs ys
    by (rule map_eq_map_iff) (simp add: normal_forward)
  show ?thesis
    unfolding rule_value_def normal_struct list.map list.inject normal_slice m f normal_filters
    by (cases a; cases b) (auto simp: norm_rule_def)
qed

lemma normal_gateways: "normal (gateways_value a) = normal (gateways_value b) \<longleftrightarrow> a = b"
proof -
  have "map (normal \<circ> (\<lambda>r. GStruct [GString (gr_Name r), GString (gr_Namespace r)])) xs =
      map (normal \<circ> (\<lambda>r. GStruct [GString (gr_Name r), GString (gr_Namespace r)])) ys \<longleftrightarrow> xs = ys"
    for xs ys :: "gateway_reference list"
    by (rule inj_map_eq_map) (auto simp: inj_def intro: gateway_reference.equality)
  then show ?thesis
    unfolding gateways_value_def normal_struct list.map list.inject normal_slice normal_ref_string
    by (cases a; cases b) auto
qed

section \<open>Properties\<close>


end
