(* ===== verification/GatewayConfig.thy ===== *)
theory GatewayConfig
  imports IngressApi
begin

text \<open>
  The gateway configuration (pkg/reconciler/ingress/config/gateway.go): the parsing of the
  \<open>config-gateway\<close> ConfigMap into a \<open>Gateway\<close> and the lookups on it.

  \<open>sigs.k8s.io/yaml\<close> is a parameter: \<open>unmarshal\<close> maps the text to the decoded map or to an error.
  Ranging over a Go map visits its entries in an unspecified order; \<open>iter\<close> is the order of this
  run, any function that lists the entries of a map.
\<close>

section \<open>Types and constants\<close>

record gateway_config =
  gc_GatewayClass :: string
  gc_Gateway :: string
  gc_Service :: string

text \<open>\<open>Gateways\<close> is a map from visibilities to pointers; the map itself may be nil.\<close>

record gateway =
  gw_Gateways :: "(string, gateway_config option) gomap"

abbreviation (input) visibilityConfigKey :: string where "visibilityConfigKey \<equiv> ''visibility''"

definition defaultGatewayClass :: string where
  [go_defs]: "defaultGatewayClass = ''istio''"

definition defaultIstioGateway :: string where
  [go_defs]: "defaultIstioGateway = ''istio-system/knative-gateway''"

definition defaultIstioLocalGateway :: string where
  [go_defs]: "defaultIstioLocalGateway = ''istio-system/knative-local-gateway''"

definition defaultLocalGatewayService :: string where
  [go_defs]: "defaultLocalGatewayService = ''istio-system/knative-local-gateway''"

definition defaultGatewayService :: string where
  [go_defs]: "defaultGatewayService = ''istio-system/istio-ingressgateway''"

record config_map =
  cm_Name :: string
  cm_Data :: smap

section \<open>Parsing\<close>

definition default_gateway :: gateway where
  "default_gateway = \<lparr>gw_Gateways = Some (fmap_of_list
     [(VisibilityExternalIP, Some \<lparr>gc_GatewayClass = defaultGatewayClass,
         gc_Gateway = defaultIstioGateway, gc_Service = defaultGatewayService\<rparr>),
      (VisibilityClusterLocal, Some \<lparr>gc_GatewayClass = defaultGatewayClass,
         gc_Gateway = defaultIstioLocalGateway, gc_Service = defaultLocalGatewayService\<rparr>)])\<rparr>"

text \<open>The checks the loop makes on one entry, in the order of the code.\<close>

definition check_entry :: "string \<Rightarrow> gateway_config \<Rightarrow> error option" where
  "check_entry key value =
     (if \<not> (key = VisibilityClusterLocal \<or> key = VisibilityExternalIP)
      then Some (UnrecognizedVisibility key)
      else case SplitMetaNamespaceKey (gc_Service value) of
        (_, _, Some err) \<Rightarrow> Some err
      | (_, _, None) \<Rightarrow>
          (case SplitMetaNamespaceKey (gc_Gateway value) of
             (_, _, Some err) \<Rightarrow> Some err
           | (_, _, None) \<Rightarrow>
               if gc_GatewayClass value = '''' then Some (VisibilityMustSetClass key) else None))"

fun entry_loop ::
  "(string \<times> gateway_config) list \<Rightarrow> (string, gateway_config option) fmap \<Rightarrow>
   error + (string, gateway_config option) fmap" where
  "entry_loop [] acc = Inr acc"
| "entry_loop ((key, value) # rest) acc =
     (case check_entry key value of
        Some err \<Rightarrow> Inl err
      | None \<Rightarrow> entry_loop rest (fmupd key (Some value) acc))"

fun missing_visibility :: "string list \<Rightarrow> (string, gateway_config) fmap \<Rightarrow> error option" where
  "missing_visibility [] entry = None"
| "missing_visibility (vis # rest) entry =
     (if fmlookup entry vis = None then Some (VisibilityEmpty vis) else missing_visibility rest entry)"

definition NewGatewayFromConfigMap ::
  "(string \<Rightarrow> error + (string, gateway_config) fmap) \<Rightarrow>
   ((string, gateway_config) fmap \<Rightarrow> (string \<times> gateway_config) list) \<Rightarrow>
   config_map \<Rightarrow> error + gateway" where
  "NewGatewayFromConfigMap unmarshal iter configMap =
     (case fmlookup (entries (cm_Data configMap)) visibilityConfigKey of
        None \<Rightarrow> Inr default_gateway
      | Some v \<Rightarrow>
          (case unmarshal v of
             Inl err \<Rightarrow> Inl err
           | Inr entry \<Rightarrow>
               (case missing_visibility [VisibilityClusterLocal, VisibilityExternalIP] entry of
                  Some err \<Rightarrow> Inl err
                | None \<Rightarrow>
                    (case entry_loop (iter entry) fmempty of
                       Inl err \<Rightarrow> Inl err
                     | Inr gws \<Rightarrow> Inr \<lparr>gw_Gateways = Some gws\<rparr>))))"

section \<open>Lookups\<close>

text \<open>Indexing the map of pointers: a missing key and a nil pointer both read as nil.\<close>

definition gateway_entry :: "gateway \<Rightarrow> string \<Rightarrow> gateway_config option" where
  "gateway_entry c visibility = Option.bind (fmlookup (entries (gw_Gateways c)) visibility) id"

definition LookupGateway :: "gateway \<Rightarrow> string \<Rightarrow> string" where
  "LookupGateway c visibility =
     (case gateway_entry c visibility of None \<Rightarrow> '''' | Some g \<Rightarrow> gc_Gateway g)"

definition LookupGatewayClass :: "gateway \<Rightarrow> string \<Rightarrow> string" where
  "LookupGatewayClass c visibility =
     (case gateway_entry c visibility of None \<Rightarrow> '''' | Some g \<Rightarrow> gc_GatewayClass g)"

definition LookupService :: "gateway \<Rightarrow> string \<Rightarrow> string" where
  "LookupService c visibility =
     (case gateway_entry c visibility of None \<Rightarrow> '''' | Some g \<Rightarrow> gc_Service g)"

section \<open>Laws\<close>

text \<open>What \<open>range\<close> over a map promises: every entry once.\<close>

definition iterates :: "('m \<Rightarrow> ('k \<times> 'v) list) \<Rightarrow> ('m \<Rightarrow> ('k, 'v) fmap) \<Rightarrow> bool" where
  "iterates iter ents \<longleftrightarrow>
     (\<forall>m. distinct (map fst (iter m)) \<and> set (iter m) = {(k, v). fmlookup (ents m) k = Some v})"

lemma iterates_map_of: "iterates iter id \<Longrightarrow> map_of (iter m) k = fmlookup m k"
proof -
  assume "iterates iter id"
  then have d: "distinct (map fst (iter m))"
    and s: "set (iter m) = {(k, v). fmlookup m k = Some v}" by (simp_all add: iterates_def)
  show ?thesis
  proof (cases "fmlookup m k")
    case None
    then have "k \<notin> fst ` set (iter m)" by (auto simp: s)
    with None show ?thesis by (simp add: map_of_eq_None_iff)
  next
    case (Some v)
    then have "(k, v) \<in> set (iter m)" by (simp add: s)
    with d Some show ?thesis by simp
  qed
qed

lemma check_entry_None_iff:
  "check_entry key value = None \<longleftrightarrow>
     (key = VisibilityClusterLocal \<or> key = VisibilityExternalIP) \<and>
     snd (snd (SplitMetaNamespaceKey (gc_Service value))) = None \<and>
     snd (snd (SplitMetaNamespaceKey (gc_Gateway value))) = None \<and> gc_GatewayClass value \<noteq> ''''"
  by (auto simp: check_entry_def split: option.splits prod.splits)

lemma entry_loop_Inr_iff:
  "entry_loop es acc = Inr gws \<longleftrightarrow>
     list_all (\<lambda>(k, v). check_entry k v = None) es \<and>
     gws = foldl (\<lambda>m (k, v). fmupd k (Some v) m) acc es"
  by (induction es acc rule: entry_loop.induct) (auto split: option.splits)

lemma foldl_fmupd_lookup:
  "distinct (map fst es) \<Longrightarrow>
   fmlookup (foldl (\<lambda>m (k, v). fmupd k (Some v) m) acc es) k =
     (case map_of es k of Some v \<Rightarrow> Some (Some v) | None \<Rightarrow> fmlookup acc k)"
  by (induction es arbitrary: acc) (auto split: option.splits simp: map_of_eq_None_iff[symmetric])

lemma missing_visibility_None_iff:
  "missing_visibility vs entry = None \<longleftrightarrow> list_all (\<lambda>v. fmlookup entry v \<noteq> None) vs"
  by (induction vs) auto

text \<open>The configurations the parser accepts, without any order of iteration.\<close>

definition valid_entries :: "(string, gateway_config) fmap \<Rightarrow> bool" where
  "valid_entries entry \<longleftrightarrow>
     fmdom' entry = {VisibilityClusterLocal, VisibilityExternalIP} \<and>
     fmpred (\<lambda>k v. check_entry k v = None) entry"

lemma entry_loop_iterates:
  assumes it: "iterates iter id"
  shows "entry_loop (iter entry) fmempty = Inr gws \<longleftrightarrow>
     fmpred (\<lambda>k v. check_entry k v = None) entry \<and> gws = fmmap Some entry"
proof -
  have d: "distinct (map fst (iter entry))"
    and s: "set (iter entry) = {(k, v). fmlookup entry k = Some v}"
    using it by (simp_all add: iterates_def)
  have "foldl (\<lambda>m (k, v). fmupd k (Some v) m) fmempty (iter entry) = fmmap Some entry"
    by (rule fmap_ext) (simp add: foldl_fmupd_lookup [OF d] iterates_map_of [OF it] split: option.splits)
  moreover have "list_all (\<lambda>(k, v). check_entry k v = None) (iter entry) \<longleftrightarrow>
      fmpred (\<lambda>k v. check_entry k v = None) entry"
    by (auto simp: list_all_iff s fmpred_iff)
  ultimately show ?thesis by (auto simp: entry_loop_Inr_iff)
qed

text \<open>Acceptance, and the accepted configuration, do not depend on the iteration order.\<close>

lemma NewGateway_Inr_iff:
  assumes it: "iterates iter id"
    and v: "fmlookup (entries (cm_Data configMap)) visibilityConfigKey = Some v"
    and u: "unmarshal v = Inr entry"
  shows "NewGatewayFromConfigMap unmarshal iter configMap = Inr gw \<longleftrightarrow>
     valid_entries entry \<and> gw = \<lparr>gw_Gateways = Some (fmmap Some entry)\<rparr>"
proof -
  have dom: "fmdom' entry = {VisibilityClusterLocal, VisibilityExternalIP} \<longleftrightarrow>
      fmlookup entry VisibilityClusterLocal \<noteq> None \<and> fmlookup entry VisibilityExternalIP \<noteq> None"
    if p: "fmpred (\<lambda>k v. check_entry k v = None) entry"
  proof -
    have "fmdom' entry \<subseteq> {VisibilityClusterLocal, VisibilityExternalIP}"
      using p by (force simp: fmpred_iff check_entry_None_iff fmlookup_dom'_iff)
    then have "fmdom' entry = {VisibilityClusterLocal, VisibilityExternalIP} \<longleftrightarrow>
        VisibilityClusterLocal \<in> fmdom' entry \<and> VisibilityExternalIP \<in> fmdom' entry" by blast
    then show ?thesis by (simp only: fmlookup_dom'_iff not_None_eq)
  qed
  have "NewGatewayFromConfigMap unmarshal iter configMap = Inr gw \<longleftrightarrow>
      missing_visibility [VisibilityClusterLocal, VisibilityExternalIP] entry = None \<and>
      (\<exists>gws. entry_loop (iter entry) fmempty = Inr gws \<and> gw = \<lparr>gw_Gateways = Some gws\<rparr>)"
    by (auto simp: NewGatewayFromConfigMap_def v u split: option.splits sum.splits)
  then show ?thesis
    unfolding entry_loop_iterates [OF it] missing_visibility_None_iff valid_entries_def
    using dom by auto
qed

section \<open>Properties\<close>

text \<open>C13. A ConfigMap with a visibility entry is accepted exactly when its decoded map has the two
  visibilities and nothing else, every service and gateway is a valid namespace/name token and
  every class is set; the configuration is then the decoded one. Neither depends on the order in
  which the map is ranged over.\<close>

theorem gateway_config_accepted_iff:
  assumes "iterates iter id"
    and "fmlookup (entries (cm_Data configMap)) visibilityConfigKey = Some v"
    and "unmarshal v = Inr entry"
  shows "NewGatewayFromConfigMap unmarshal iter configMap = Inr gw \<longleftrightarrow>
    fmdom' entry = {VisibilityClusterLocal, VisibilityExternalIP} \<and>
    fmpred (\<lambda>k c. snd (snd (SplitMetaNamespaceKey (gc_Service c))) = None \<and>
                  snd (snd (SplitMetaNamespaceKey (gc_Gateway c))) = None \<and>
                  gc_GatewayClass c \<noteq> '''') entry \<and>
    gw = \<lparr>gw_Gateways = Some (fmmap Some entry)\<rparr>"
proof -
  have "fmdom' entry = {VisibilityClusterLocal, VisibilityExternalIP} \<Longrightarrow>
      fmlookup entry k = Some c \<Longrightarrow> k = VisibilityClusterLocal \<or> k = VisibilityExternalIP" for k c
    using fmdom'I [of entry k c] by simp
  then show ?thesis
    unfolding NewGateway_Inr_iff [of iter configMap v unmarshal entry gw, OF assms] valid_entries_def fmpred_iff check_entry_None_iff by blast
qed

definition sample_entry :: "(string, gateway_config) fmap" where
  "sample_entry = fmap_of_list
     [(VisibilityClusterLocal, \<lparr>gc_GatewayClass = ''c'', gc_Gateway = ''ns/g'', gc_Service = ''ns/s''\<rparr>),
      (VisibilityExternalIP, \<lparr>gc_GatewayClass = ''c'', gc_Gateway = ''ns/g'', gc_Service = ''ns/s''\<rparr>)]"

definition range_strings :: "(string, 'v) fmap \<Rightarrow> (string \<times> 'v) list" where
  "range_strings m = sorted_list_of_fmap m"

lemma iterates_range_strings: "iterates (range_strings :: (string, 'v) fmap \<Rightarrow> _) id"
proof -
  have "set (sorted_list_of_fmap m) = {(k, v). fmlookup m k = Some v}" for m :: "(string, 'v) fmap"
  proof -
    have d: "distinct (map fst (sorted_list_of_fmap m))" by (simp add: sorted_list_of_fmap_def comp_def sorted_list_of_fset.rep_eq)
    show ?thesis
      using map_of_eq_Some_iff [OF d] by (auto simp: map_of_sorted_list)
  qed
  moreover have "distinct (map fst (sorted_list_of_fmap m))" for m :: "(string, 'v) fmap"
    by (simp add: sorted_list_of_fmap_def comp_def sorted_list_of_fset.rep_eq)
  ultimately show ?thesis by (simp add: iterates_def range_strings_def)
qed

theorem gateway_config_accepted_iff_witness:
  "\<exists>gw. NewGatewayFromConfigMap (\<lambda>_. Inr sample_entry) range_strings
      \<lparr>cm_Name = ''config-gateway'', cm_Data = Some (fmap_of_list [(''visibility'', ''y'')])\<rparr> = Inr gw"
proof -
  let ?cm = "\<lparr>cm_Name = ''config-gateway'', cm_Data = Some (fmap_of_list [(''visibility'', ''y'')])\<rparr>"
  have v: "fmlookup (entries (cm_Data ?cm)) visibilityConfigKey = Some ''y''" by simp
  let ?gw = "\<lparr>gw_Gateways = Some (fmmap Some sample_entry)\<rparr>"
  have "valid_entries sample_entry" by code_simp
  then have p: "fmpred (\<lambda>k c. check_entry k c = None) sample_entry"
    and d: "fmdom' sample_entry = {VisibilityClusterLocal, VisibilityExternalIP}"
    by (simp_all only: valid_entries_def)
  from p have "fmpred (\<lambda>k c. snd (snd (SplitMetaNamespaceKey (gc_Service c))) = None \<and>
                  snd (snd (SplitMetaNamespaceKey (gc_Gateway c))) = None \<and>
                  gc_GatewayClass c \<noteq> '''') sample_entry"
    unfolding fmpred_iff check_entry_None_iff by blast
  with d have "fmdom' sample_entry = {VisibilityClusterLocal, VisibilityExternalIP} \<and>
    fmpred (\<lambda>k c. snd (snd (SplitMetaNamespaceKey (gc_Service c))) = None \<and>
                  snd (snd (SplitMetaNamespaceKey (gc_Gateway c))) = None \<and>
                  gc_GatewayClass c \<noteq> '''') sample_entry \<and> ?gw = ?gw"
    by simp
  from iffD2 [OF gateway_config_accepted_iff [of range_strings ?cm "''y''" "\<lambda>_. Inr sample_entry" sample_entry ?gw,
      OF iterates_range_strings v refl] this]
  show ?thesis by (rule exI)
qed

text \<open>The errors of the key splitter that the callers of the lookups drop cannot occur: for every
  accepted configuration, and for the built-in one, the gateway and the service of any visibility
  split without an error.\<close>

theorem accepted_lookups_split:
  assumes "iterates iter id" and "NewGatewayFromConfigMap unmarshal iter configMap = Inr gw"
  shows "snd (snd (SplitMetaNamespaceKey (LookupGateway gw visibility))) = None \<and>
    snd (snd (SplitMetaNamespaceKey (LookupService gw visibility))) = None"
proof (cases "fmlookup (entries (cm_Data configMap)) visibilityConfigKey")
  case None
  then have gw: "gw = default_gateway" using assms(2) by (simp add: NewGatewayFromConfigMap_def)
  show ?thesis
    by (simp add: gw default_gateway_def LookupGateway_def LookupService_def gateway_entry_def go_defs
        SplitMetaNamespaceKey_def)
next
  case (Some v)
  then obtain entry where u: "unmarshal v = Inr entry"
    using assms(2) by (auto simp: NewGatewayFromConfigMap_def split: sum.splits)
  have "valid_entries entry" "gw = \<lparr>gw_Gateways = Some (fmmap Some entry)\<rparr>"
    using NewGateway_Inr_iff [of iter configMap v unmarshal entry gw] assms Some u by blast+
  then show ?thesis
    by (cases "fmlookup entry visibility")
       (auto simp: valid_entries_def fmpred_iff check_entry_None_iff LookupGateway_def LookupService_def
          gateway_entry_def SplitMetaNamespaceKey_def)
qed

theorem accepted_lookups_split_witness:
  "\<exists>gw. NewGatewayFromConfigMap (\<lambda>_. Inr sample_entry) range_strings
      \<lparr>cm_Name = ''config-gateway'', cm_Data = Some (fmap_of_list [(''visibility'', ''y'')])\<rparr> = Inr gw \<and>
    snd (snd (SplitMetaNamespaceKey (LookupService gw VisibilityClusterLocal))) = None"
proof -
  let ?cm = "\<lparr>cm_Name = ''config-gateway'', cm_Data = Some (fmap_of_list [(''visibility'', ''y'')])\<rparr>"
  have "isl (NewGatewayFromConfigMap (\<lambda>_. Inr sample_entry) range_strings ?cm) = False" by code_simp
  then obtain gw where "NewGatewayFromConfigMap (\<lambda>_. Inr sample_entry) range_strings ?cm = Inr gw"
    by (cases "NewGatewayFromConfigMap (\<lambda>_. Inr sample_entry) range_strings ?cm") auto
  with accepted_lookups_split [OF iterates_range_strings this] show ?thesis by blast
qed

end
