(* ===== verification/ConfigStore.thy ===== *)
theory ConfigStore
  imports GatewayConfig
begin

text \<open>
  The configuration store (pkg/reconciler/ingress/config/store.go) over the generic store of
  knative.dev/pkg/configmap/store.go: which value each watched ConfigMap has, what a rejected
  update does, and the configuration a reconciler finds in its context.

  The parsed \<open>network.Config\<close> is a value of type \<open>'n\<close> and its constructor a parameter. The deep
  copies that \<open>Load\<close> makes are modelled on a store with addresses in the theory \<open>ConfigHeap\<close>,
  where they are shown to give an equal value; on the values of this theory a copy is the value.
\<close>

section \<open>The context\<close>

record 'n config =
  cfg_Network :: "'n option"
  cfg_Gateway :: "gateway option"

text \<open>The value of \<open>cfgKey\<close> in a context: absent, a nil pointer, or a pointer to a configuration.\<close>

type_synonym 'n ctx = "'n config option option"

text \<open>The type assertion \<open>ctx.Value(cfgKey{}).(*Config)\<close> panics when the context has no value.\<close>

definition FromContext :: "'n ctx \<Rightarrow> 'n config option option" where
  "FromContext ctx = (case ctx of None \<Rightarrow> None | Some cfg \<Rightarrow> Some cfg)"

definition FromContextOrDefaults :: "'n ctx \<Rightarrow> 'n config option option" where
  "FromContextOrDefaults ctx =
     (case FromContext ctx of
        None \<Rightarrow> None
      | Some None \<Rightarrow> Some (Some \<lparr>cfg_Network = None, cfg_Gateway = None\<rparr>)
      | Some (Some cfg) \<Rightarrow> Some (Some cfg))"

definition ToContext :: "'n ctx \<Rightarrow> 'n config option \<Rightarrow> 'n ctx" where
  "ToContext ctx c = Some c"

section \<open>The untyped store\<close>

datatype 'n cfg_value = GatewayValue gateway | NetworkValue 'n

type_synonym 'n constructor = "config_map \<Rightarrow> error + 'n cfg_value"

text \<open>
  \<open>us_storages\<close> holds an \<open>atomic.Value\<close> per name, empty (\<open>None\<close>) until the first value is stored;
  the callbacks are values of a type \<open>'f\<close>, and running one is recorded as a call.
\<close>

record ('n, 'f) untyped_store =
  us_storages :: "(string, 'n cfg_value option) fmap"
  us_constructors :: "(string, 'n constructor) fmap"
  us_onAfterStore :: "'f list"

datatype update_outcome = Stored | KeptOld error | Fatal error

type_synonym ('n, 'f) call = "'f \<times> string \<times> 'n cfg_value"

definition registerConfig ::
  "string \<Rightarrow> 'n constructor \<Rightarrow> ('n, 'f) untyped_store \<Rightarrow> ('n, 'f) untyped_store" where
  "registerConfig name constructor s =
     s\<lparr>us_storages := fmupd name None (us_storages s),
       us_constructors := fmupd name constructor (us_constructors s)\<rparr>"

definition NewUntypedStore ::
  "(string \<times> 'n constructor) list \<Rightarrow> 'f list \<Rightarrow> ('n, 'f) untyped_store" where
  "NewUntypedStore constructors onAfterStore =
     foldl (\<lambda>s (name, c). registerConfig name c s)
       \<lparr>us_storages = fmempty, us_constructors = fmempty, us_onAfterStore = onAfterStore\<rparr>
       constructors"

text \<open>Calling \<open>Load\<close> on the nil pointer of an unknown name panics.\<close>

definition UntypedLoad :: "('n, 'f) untyped_store \<Rightarrow> string \<Rightarrow> 'n cfg_value option option" where
  "UntypedLoad s name = fmlookup (us_storages s) name"

definition OnConfigChanged ::
  "('n, 'f) untyped_store \<Rightarrow> config_map \<Rightarrow>
   (('n, 'f) untyped_store \<times> update_outcome \<times> ('n, 'f) call list) option" where
  "OnConfigChanged s c =
     (let name = cm_Name c in
      case fmlookup (us_constructors s) name of
        None \<Rightarrow> None
      | Some constructor \<Rightarrow>
          (case constructor c of
             Inl err \<Rightarrow>
               (case UntypedLoad s name of
                  None \<Rightarrow> None
                | Some (Some _) \<Rightarrow> Some (s, KeptOld err, [])
                | Some None \<Rightarrow> Some (s, Fatal err, []))
           | Inr result \<Rightarrow>
               (case fmlookup (us_storages s) name of
                  None \<Rightarrow> None
                | Some _ \<Rightarrow>
                    Some (s\<lparr>us_storages := fmupd name (Some result) (us_storages s)\<rparr>, Stored,
                          map (\<lambda>f. (f, name, result)) (us_onAfterStore s)))))"

section \<open>The store of the controller\<close>

definition GatewayConfigName :: string where
  "GatewayConfigName = ''config-gateway''"

definition NetworkConfigName :: string where
  "NetworkConfigName = ''config-network''"

text \<open>The constructors' results as the store keeps them, interface values.\<close>

definition gateway_constructor :: "(config_map \<Rightarrow> error + gateway) \<Rightarrow> 'n constructor" where
  "gateway_constructor parse c = (case parse c of Inl err \<Rightarrow> Inl err | Inr g \<Rightarrow> Inr (GatewayValue g))"

definition network_constructor :: "(config_map \<Rightarrow> error + 'n) \<Rightarrow> 'n constructor" where
  "network_constructor parse c = (case parse c of Inl err \<Rightarrow> Inl err | Inr n \<Rightarrow> Inr (NetworkValue n))"

definition NewStore ::
  "(config_map \<Rightarrow> error + gateway) \<Rightarrow> (config_map \<Rightarrow> error + 'n) \<Rightarrow> 'f list \<Rightarrow> ('n, 'f) untyped_store" where
  "NewStore parse_gateway parse_network onAfterStore =
     NewUntypedStore
       [(GatewayConfigName, gateway_constructor parse_gateway),
        (NetworkConfigName, network_constructor parse_network)] onAfterStore"

definition Store_Load :: "('n, 'f) untyped_store \<Rightarrow> 'n config option" where
  "Store_Load s =
     (case UntypedLoad s GatewayConfigName of
        Some (Some (GatewayValue g)) \<Rightarrow>
          (case UntypedLoad s NetworkConfigName of
             Some (Some (NetworkValue n)) \<Rightarrow> Some \<lparr>cfg_Network = Some n, cfg_Gateway = Some g\<rparr>
           | _ \<Rightarrow> None)
      | _ \<Rightarrow> None)"

definition Store_ToContext :: "('n, 'f) untyped_store \<Rightarrow> 'n ctx \<Rightarrow> 'n ctx option" where
  "Store_ToContext s ctx = map_option (\<lambda>c. ToContext ctx (Some c)) (Store_Load s)"

section \<open>A run of the watcher\<close>

text \<open>
  The watcher delivers ConfigMaps one after the other; \<open>Fatalf\<close> ends the process.
\<close>

datatype ('n, 'f) store_run =
    Running "('n, 'f) untyped_store" "('n, 'f) call list"
  | Exited error
  | Panicked

fun deliver :: "('n, 'f) store_run \<Rightarrow> config_map \<Rightarrow> ('n, 'f) store_run" where
  "deliver (Running s calls) c =
     (case OnConfigChanged s c of
        None \<Rightarrow> Panicked
      | Some (s', Fatal err, _) \<Rightarrow> Exited err
      | Some (s', _, new) \<Rightarrow> Running s' (calls @ new))"
| "deliver r c = r"

definition watch_run ::
  "(config_map \<Rightarrow> error + gateway) \<Rightarrow> (config_map \<Rightarrow> error + 'n) \<Rightarrow> 'f list \<Rightarrow> config_map list \<Rightarrow>
   ('n, 'f) store_run" where
  "watch_run parse_gateway parse_network onAfterStore cms =
     foldl deliver (Running (NewStore parse_gateway parse_network onAfterStore) []) cms"

text \<open>Specification: the last ConfigMap of a name that its parser accepted.\<close>

definition accepted :: "string \<Rightarrow> (config_map \<Rightarrow> error + 'v) \<Rightarrow> config_map list \<Rightarrow> 'v list" where
  "accepted name parse cms =
     concat (map (\<lambda>c. if cm_Name c = name
                      then (case parse c of Inr v \<Rightarrow> [v] | Inl _ \<Rightarrow> []) else []) cms)"

definition last_good :: "string \<Rightarrow> (config_map \<Rightarrow> error + 'v) \<Rightarrow> config_map list \<Rightarrow> 'v option" where
  "last_good name parse cms = 
     (let vs = accepted name parse cms in if vs = [] then None else Some (last vs))"

lemma config_names_neq [simp]:
  "GatewayConfigName \<noteq> NetworkConfigName" "NetworkConfigName \<noteq> GatewayConfigName"
  by (simp_all add: GatewayConfigName_def NetworkConfigName_def)

lemma accepted_snoc:
  "accepted name parse (cms @ [c]) = accepted name parse cms @
     (if cm_Name c = name then (case parse c of Inr v \<Rightarrow> [v] | Inl _ \<Rightarrow> []) else [])"
  by (simp add: accepted_def)

lemma last_good_snoc:
  "last_good name parse (cms @ [c]) =
     (if cm_Name c = name then (case parse c of Inr v \<Rightarrow> Some v | Inl _ \<Rightarrow> last_good name parse cms)
      else last_good name parse cms)"
  by (auto simp: last_good_def accepted_snoc split: sum.splits)

lemma last_good_Nil [simp]: "last_good name parse [] = None"
  by (simp add: last_good_def accepted_def)

text \<open>The store after a run, described by the accepted ConfigMaps only.\<close>

definition store_after ::
  "(config_map \<Rightarrow> error + gateway) \<Rightarrow> (config_map \<Rightarrow> error + 'n) \<Rightarrow> 'f list \<Rightarrow> config_map list \<Rightarrow>
   ('n, 'f) untyped_store \<Rightarrow> bool" where
  "store_after pg pn fs cms s \<longleftrightarrow>
     us_onAfterStore s = fs \<and>
     us_constructors s = us_constructors (NewStore pg pn fs) \<and>
     fmlookup (us_storages s) GatewayConfigName =
       Some (map_option GatewayValue (last_good GatewayConfigName pg cms)) \<and>
     fmlookup (us_storages s) NetworkConfigName =
       Some (map_option NetworkValue (last_good NetworkConfigName pn cms))"

lemma NewStore_simps [simp]:
  "us_onAfterStore (NewStore pg pn fs) = fs"
  "fmlookup (us_constructors (NewStore pg pn fs)) n =
     (if n = NetworkConfigName then Some (network_constructor pn)
      else if n = GatewayConfigName then Some (gateway_constructor pg) else None)"
  "fmlookup (us_storages (NewStore pg pn fs)) n =
     (if n = NetworkConfigName \<or> n = GatewayConfigName then Some None else None)"
  by (simp_all add: NewStore_def NewUntypedStore_def registerConfig_def)

lemma store_after_Nil: "store_after pg pn fs [] (NewStore pg pn fs)"
  by (simp add: store_after_def)

text \<open>The callbacks run for the accepted ConfigMaps, in the order of their delivery.\<close>

definition parsed ::
  "(config_map \<Rightarrow> error + gateway) \<Rightarrow> (config_map \<Rightarrow> error + 'n) \<Rightarrow> config_map \<Rightarrow> error + 'n cfg_value" where
  "parsed pg pn c =
     (if cm_Name c = GatewayConfigName then gateway_constructor pg c else network_constructor pn c)"

definition calls_of ::
  "(config_map \<Rightarrow> error + gateway) \<Rightarrow> (config_map \<Rightarrow> error + 'n) \<Rightarrow> 'f list \<Rightarrow> config_map list \<Rightarrow>
   ('n, 'f) call list" where
  "calls_of pg pn fs cms =
     concat (map (\<lambda>c. case parsed pg pn c of
                        Inl _ \<Rightarrow> [] | Inr v \<Rightarrow> map (\<lambda>f. (f, cm_Name c, v)) fs) cms)"

definition watched :: "config_map \<Rightarrow> bool" where
  "watched c \<longleftrightarrow> cm_Name c = GatewayConfigName \<or> cm_Name c = NetworkConfigName"

lemma store_after_deliver:
  assumes s: "store_after pg pn fs cms s" and name: "watched c"
    and r: "deliver (Running s calls) c = r"
  shows "r \<noteq> Panicked"
    and "\<And>s' calls'. r = Running s' calls' \<Longrightarrow>
      store_after pg pn fs (cms @ [c]) s' \<and> calls' = calls @ calls_of pg pn fs [c]"
    and "(\<exists>err. r = Exited err) \<longleftrightarrow>
      (if cm_Name c = GatewayConfigName
       then last_good GatewayConfigName pg cms = None \<and> (\<exists>err. pg c = Inl err)
       else last_good NetworkConfigName pn cms = None \<and> (\<exists>err. pn c = Inl err))"
  using name s r
  by (auto simp: OnConfigChanged_def store_after_def UntypedLoad_def gateway_constructor_def
      network_constructor_def last_good_snoc calls_of_def parsed_def watched_def
      split: sum.splits option.splits)

lemma deliver_stopped [simp]: "foldl deliver (Exited err) cms = Exited err"
  by (induction cms) simp_all

lemma watch_run_snoc: "watch_run pg pn fs (cms @ [c]) = deliver (watch_run pg pn fs cms) c"
  by (simp add: watch_run_def)

lemma watch_run_state:
  assumes "list_all watched cms"
  shows "watch_run pg pn fs cms \<noteq> Panicked \<and>
    (\<forall>s calls. watch_run pg pn fs cms = Running s calls \<longrightarrow>
       store_after pg pn fs cms s \<and> calls = calls_of pg pn fs cms)"
  using assms
proof (induction cms rule: rev_induct)
  case Nil
  then show ?case by (simp add: watch_run_def store_after_Nil calls_of_def)
next
  case (snoc c cms)
  show ?case
  proof (cases "watch_run pg pn fs cms")
    case (Running s calls)
    with snoc have s: "store_after pg pn fs cms s" and calls: "calls = calls_of pg pn fs cms"
      and c: "watched c" by simp_all
    have app: "calls_of pg pn fs (cms @ [c]) = calls @ calls_of pg pn fs [c]"
      by (simp add: calls calls_of_def)
    show ?thesis
      using store_after_deliver(1,2) [OF s c refl, of calls]
      by (simp add: watch_run_snoc Running app)
  qed (use snoc in \<open>simp_all add: watch_run_snoc\<close>)
qed

lemma store_after_Load:
  assumes "store_after pg pn fs cms s"
  shows "Store_Load s =
     (case last_good GatewayConfigName pg cms of
        None \<Rightarrow> None
      | Some g \<Rightarrow> map_option (\<lambda>n. \<lparr>cfg_Network = Some n, cfg_Gateway = Some g\<rparr>)
                   (last_good NetworkConfigName pn cms))"
  using assms by (simp add: Store_Load_def store_after_def UntypedLoad_def split: option.splits)

section \<open>Properties\<close>

text \<open>C14. The store keeps the last good configuration. Delivering ConfigMaps of the two watched names, in
  any order, never panics; while the process runs, \<open>Load\<close> gives the last accepted value of each
  name, or panics when a name has none yet, and the callbacks have run once per accepted
  ConfigMap, in order.\<close>

theorem store_keeps_last_good:
  assumes "list_all watched cms"
  shows "watch_run pg pn fs cms \<noteq> Panicked \<and>
    (\<forall>s calls. watch_run pg pn fs cms = Running s calls \<longrightarrow>
       calls = calls_of pg pn fs cms \<and>
       Store_Load s =
         (case last_good GatewayConfigName pg cms of
            None \<Rightarrow> None
          | Some g \<Rightarrow> map_option (\<lambda>n. \<lparr>cfg_Network = Some n, cfg_Gateway = Some g\<rparr>)
                       (last_good NetworkConfigName pn cms)))"
  using watch_run_state [OF assms, of pg pn fs] store_after_Load by blast

definition sample_config_maps :: "config_map list" where
  "sample_config_maps =
     [\<lparr>cm_Name = GatewayConfigName, cm_Data = Some fmempty\<rparr>,
      \<lparr>cm_Name = NetworkConfigName, cm_Data = None\<rparr>,
      \<lparr>cm_Name = GatewayConfigName, cm_Data = None\<rparr>]"

definition sample_parse :: "config_map \<Rightarrow> error + gateway" where
  "sample_parse cm = (if cm_Data cm = None then Inl (YamlError ''bad'') else Inr default_gateway)"

theorem store_keeps_last_good_witness:
  "\<exists>s calls. watch_run sample_parse (\<lambda>_. Inr ()) [0 :: nat] sample_config_maps = Running s calls \<and>
     Store_Load s = Some \<lparr>cfg_Network = Some (), cfg_Gateway = Some default_gateway\<rparr>"
proof -
  let ?run = "watch_run sample_parse (\<lambda>_. Inr ()) [0 :: nat] sample_config_maps"
  have w: "list_all watched sample_config_maps" by (simp add: sample_config_maps_def watched_def)
  have run: "case ?run of Running s calls \<Rightarrow> True | _ \<Rightarrow> False"
    by (simp add: watch_run_def sample_config_maps_def sample_parse_def OnConfigChanged_def
        gateway_constructor_def network_constructor_def UntypedLoad_def)
  then obtain s calls where s: "?run = Running s calls" by (auto split: store_run.splits)
  have g: "last_good GatewayConfigName sample_parse sample_config_maps = Some default_gateway"
    and n: "last_good NetworkConfigName (\<lambda>_. Inr ()) sample_config_maps = Some ()"
    by (simp_all add: last_good_def accepted_def sample_config_maps_def sample_parse_def)
  from store_keeps_last_good [OF w, of sample_parse "\<lambda>_. Inr ()" "[0 :: nat]"] s g n show ?thesis
    by auto
qed



text \<open>\<open>FromContextOrDefaults\<close> does not give defaults: without a configuration in the context it
  panics like \<open>FromContext\<close>, because that asserts the type of a nil interface. Only a nil pointer
  stored on purpose is replaced.\<close>

lemma from_context_or_defaults:
  "(FromContextOrDefaults ctx = None \<longleftrightarrow> ctx = None) \<and>
   FromContextOrDefaults (ToContext ctx None) = Some (Some \<lparr>cfg_Network = None, cfg_Gateway = None\<rparr>) \<and>
   FromContextOrDefaults (ToContext ctx (Some c)) = Some (Some c)"
  by (auto simp: FromContextOrDefaults_def FromContext_def ToContext_def split: option.splits)

end
