(* ===== verification/Resources.thy ===== *)
theory Resources
  imports IngressApi HTTPRouteApi ConfigStore
begin

text \<open>
  Building the HTTPRoute of an Ingress rule (pkg/reconciler/ingress/resources/httproute.go and
  helpers.go).

  \<open>LongestHost\<close> sorts the slice it is given, which is the backing array of the rule of the Ingress,
  so the operations that call it return the rule with its hosts in their new order. A result
  \<open>None\<close> is a panic.
\<close>

section \<open>Helpers\<close>

definition Visibility :: "string \<Rightarrow> string" where
  "Visibility visibility =
     (if visibility = VisibilityClusterLocal then ''cluster-local''
      else if visibility = VisibilityExternalIP then '''' else '''')"

definition portNumPtr :: "go_int \<Rightarrow> go_int32 option" where
  "portNumPtr port = Some (ucast port)"

text \<open>The host, and the slice as \<open>sort.Strings\<close> leaves it; an empty slice has no first element.\<close>

definition LongestHost :: "string list \<Rightarrow> (string \<times> string list) option" where
  "LongestHost hosts =
     (let sorted = sort_strings hosts in
      case sorted of [] \<Rightarrow> None | h # _ \<Rightarrow> Some (h, sorted))"

definition VisibilityLabelKey :: string where
  "VisibilityLabelKey = ''networking.knative.dev/visibility''"

definition LastAppliedConfigAnnotation :: string where
  "LastAppliedConfigAnnotation = ''kubectl.kubernetes.io/last-applied-configuration''"

section \<open>Rules\<close>

definition header_modifier :: "smap \<Rightarrow> http_route_filter" where
  "header_modifier hs =
     \<lparr>rf_Type = HTTPRouteFilterRequestHeaderModifier,
      rf_RequestHeaderModifier = Some \<lparr>hf_Set = hs, hf_Add = None, hf_Remove = []\<rparr>,
      rf_RequestMirror = None, rf_ExtensionRef = None\<rparr>"

definition rewrite_headers :: "http_ingress_path \<Rightarrow> (string, string) fmap" where
  "rewrite_headers path =
     (if ip_RewriteHost path \<noteq> ''''
      then fmap_of_list [(''Host'', ip_RewriteHost path), ('':Authority'', ip_RewriteHost path)]
      else fmempty)"

definition make_forward :: "(string, string) fmap \<Rightarrow> ingress_backend_split \<Rightarrow> http_route_forward_to" where
  "make_forward hs split =
     \<lparr>ft_ServiceName = Some (ib_ServiceName split), ft_BackendRef = None,
      ft_Port = portNumPtr (IntValue (ib_ServicePort split)),
      ft_Weight = Some (ucast (sp_Percent split)),
      ft_Filters = [header_modifier (UnionMaps [sp_AppendHeaders split, Some hs])]\<rparr>"

definition make_match :: "http_ingress_path \<Rightarrow> http_route_match" where
  "make_match path =
     \<lparr>rm_Path = Some \<lparr>pm_Type = Some PathMatchPrefix,
                      pm_Value = Some (if ip_Path path \<noteq> '''' then ip_Path path else ''/'')\<rparr>,
      rm_Headers = map_option (\<lambda>hs. \<lparr>hh_Type = Some HeaderMatchExact,
                                     hh_Values = Some (fmmap hm_Exact hs)\<rparr>) (ip_Headers path),
      rm_QueryParams = None, rm_ExtensionRef = None\<rparr>"

text \<open>The body of the loop over the paths.\<close>

definition make_path_rule :: "http_ingress_path \<Rightarrow> http_route_rule" where
  "make_path_rule path =
     \<lparr>rr_Matches = [make_match path],
      rr_Filters = (case ip_AppendHeaders path of None \<Rightarrow> [] | Some m \<Rightarrow> [header_modifier (Some m)]),
      rr_ForwardTo = map (make_forward (rewrite_headers path)) (ip_Splits path)\<rparr>"

definition makeHTTPRouteRule :: "ingress_rule \<Rightarrow> http_route_rule list option" where
  "makeHTTPRouteRule rule = map_option (\<lambda>v. map make_path_rule (rv_Paths v)) (ir_HTTP rule)"

section \<open>Routes\<close>

text \<open>\<open>config.FromContext(ctx).Gateway\<close>, to be dereferenced: a nil pointer panics.\<close>

definition gateway_of :: "'n ctx \<Rightarrow> gateway option" where
  "gateway_of ctx =
     (case FromContext ctx of Some (Some cfg) \<Rightarrow> cfg_Gateway cfg | _ \<Rightarrow> None)"

definition makeHTTPRouteSpec :: "'n ctx \<Rightarrow> ingress_rule \<Rightarrow> http_route_spec option" where
  "makeHTTPRouteSpec ctx rule =
     Option.bind (makeHTTPRouteRule rule) (\<lambda>rules.
     Option.bind (gateway_of ctx) (\<lambda>gatewayConfig.
       let (ns, name, _) = SplitMetaNamespaceKey (LookupGateway gatewayConfig (ir_Visibility rule))
       in Some \<lparr>hs_Gateways = Some \<lparr>rg_Allow = Some GatewayAllowFromList,
                                    rg_GatewayRefs = [\<lparr>gr_Name = name, gr_Namespace = ns\<rparr>]\<rparr>,
                hs_Hostnames = ir_Hosts rule, hs_TLS = None, hs_Rules = rules\<rparr>))"

text \<open>
  The fields of the composite literal are evaluated in order: the name first, which sorts the
  hosts that the spec then lists.
\<close>

definition MakeHTTPRoute ::
  "'n ctx \<Rightarrow> ingress \<Rightarrow> ingress_rule \<Rightarrow> ((error + http_route) \<times> ingress_rule) option" where
  "MakeHTTPRoute ctx ing rule =
     (let visibility = (if ir_Visibility rule = VisibilityClusterLocal then ''cluster-local'' else '''')
      in Option.bind (LongestHost (ir_Hosts rule)) (\<lambda>(name, sorted).
           let rule' = rule\<lparr>ir_Hosts := sorted\<rparr>;
               meta = empty_meta
                 \<lparr>om_Name := name, om_Namespace := om_Namespace (ing_Meta ing),
                  om_Labels := UnionMaps [om_Labels (ing_Meta ing),
                                          Some (fmap_of_list [(VisibilityLabelKey, visibility)])],
                  om_Annotations := FilterMap (om_Annotations (ing_Meta ing))
                                      (Some (\<lambda>key. key = LastAppliedConfigAnnotation)),
                  om_OwnerReferences := [NewControllerRef (ing_Meta ing) ingress_apiVersion ingress_kind]\<rparr>
           in map_option
                (\<lambda>spec. (Inr \<lparr>hr_Meta = meta, hr_Spec = spec, hr_Status = \<lparr>hst_Gateways = None\<rparr>\<rparr>, rule'))
                (makeHTTPRouteSpec ctx rule')))"

section \<open>Laws\<close>

lemma LongestHost_Some_iff:
  "LongestHost hosts = Some (h, hs) \<longleftrightarrow>
     hosts \<noteq> [] \<and> hs = sort_strings hosts \<and> h = hd (sort_strings hosts)"
  by (auto simp: LongestHost_def Let_def split: list.splits)

lemma LongestHost_None_iff: "LongestHost hosts = None \<longleftrightarrow> hosts = []"
  by (auto simp: LongestHost_def Let_def split: list.splits)

text \<open>Calling it again on the sorted slice changes nothing.\<close>

lemma LongestHost_again:
  "LongestHost hosts = Some (h, hs) \<Longrightarrow> LongestHost hs = Some (h, hs)"
  by (auto simp: LongestHost_Some_iff)

lemma make_forward_simps [simp]:
  "ft_ServiceName (make_forward hs sp) = Some (ib_ServiceName sp)"
  "ft_Weight (make_forward hs sp) = Some (ucast (sp_Percent sp))"
  "ft_Port (make_forward hs sp) = Some (ucast (IntValue (ib_ServicePort sp)))"
  "ft_Filters (make_forward hs sp) = [header_modifier (UnionMaps [sp_AppendHeaders sp, Some hs])]"
  by (simp_all add: make_forward_def portNumPtr_def)

text \<open>The conversions to \<open>int32\<close> keep the values that fit.\<close>

lemma sint_ucast_32:
  fixes p :: go_int
  assumes "- (2 ^ 31) \<le> sint p" and "sint p < 2 ^ 31"
  shows "sint (ucast p :: go_int32) = sint p"
proof -
  have "sint (ucast p :: go_int32) = signed_take_bit 31 (uint p)" by (simp add: signed_ucast_eq)
  also have "\<dots> = signed_take_bit 31 (sint p)" by (simp add: sint_uint)
  also have "\<dots> = sint p" using assms by (simp add: signed_take_bit_int_eq_self)
  finally show ?thesis .
qed


lemma makeHTTPRouteSpec_eq:
  assumes "ir_HTTP rule = Some v" and "gateway_of ctx = Some g"
    and "SplitMetaNamespaceKey (LookupGateway g (ir_Visibility rule)) = (ns, name, err)"
  shows "makeHTTPRouteSpec ctx rule =
    Some \<lparr>hs_Gateways = Some \<lparr>rg_Allow = Some GatewayAllowFromList,
                                 rg_GatewayRefs = [\<lparr>gr_Name = name, gr_Namespace = ns\<rparr>]\<rparr>,
          hs_Hostnames = ir_Hosts rule, hs_TLS = None, hs_Rules = map make_path_rule (rv_Paths v)\<rparr>"
  using assms by (simp add: makeHTTPRouteSpec_def makeHTTPRouteRule_def)

lemma makeHTTPRouteSpec_None_iff:
  "makeHTTPRouteSpec ctx rule = None \<longleftrightarrow> ir_HTTP rule = None \<or> gateway_of ctx = None"
  by (cases "SplitMetaNamespaceKey (LookupGateway (the (gateway_of ctx)) (ir_Visibility rule))")
     (auto simp: makeHTTPRouteSpec_def makeHTTPRouteRule_def split: prod.splits option.splits
        bind_splits)

lemma makeHTTPRouteSpec_parts:
  assumes "makeHTTPRouteSpec ctx rule = Some spec"
  shows "hs_Hostnames spec = ir_Hosts rule"
    and "ir_HTTP rule = Some v \<Longrightarrow> hs_Rules spec = map make_path_rule (rv_Paths v)"
  using assms
  by (auto simp: makeHTTPRouteSpec_def makeHTTPRouteRule_def Let_def split: bind_splits prod.splits)

text \<open>When the construction panics, what it returns otherwise, and the order it leaves.\<close>

lemma MakeHTTPRoute_None_iff:
  "MakeHTTPRoute ctx ing rule = None \<longleftrightarrow>
     ir_Hosts rule = [] \<or> ir_HTTP rule = None \<or> gateway_of ctx = None"
proof (cases "LongestHost (ir_Hosts rule)")
  case None
  then show ?thesis by (simp add: MakeHTTPRoute_def LongestHost_None_iff [symmetric])
next
  case (Some p)
  then have "ir_Hosts rule \<noteq> []" by (metis LongestHost_None_iff option.distinct(1))
  then show ?thesis
    by (cases p) (simp add: MakeHTTPRoute_def Let_def Some makeHTTPRouteSpec_None_iff)
qed

lemma MakeHTTPRoute_Some:
  assumes "MakeHTTPRoute ctx ing rule = Some (r, rule')"
  obtains route spec where "r = Inr route" "rule' = rule\<lparr>ir_Hosts := sort_strings (ir_Hosts rule)\<rparr>"
    "ir_Hosts rule \<noteq> []" "makeHTTPRouteSpec ctx rule' = Some spec" "hr_Spec route = spec"
    "om_Name (hr_Meta route) = hd (sort_strings (ir_Hosts rule))"
    "om_Namespace (hr_Meta route) = om_Namespace (ing_Meta ing)"
    "om_Labels (hr_Meta route) = UnionMaps [om_Labels (ing_Meta ing),
       Some (fmap_of_list [(VisibilityLabelKey,
         if ir_Visibility rule = VisibilityClusterLocal then ''cluster-local'' else '''')])]"
    "om_Annotations (hr_Meta route) = FilterMap (om_Annotations (ing_Meta ing))
       (Some (\<lambda>key. key = LastAppliedConfigAnnotation))"
    "om_OwnerReferences (hr_Meta route) = [NewControllerRef (ing_Meta ing) ingress_apiVersion ingress_kind]"
    "hst_Gateways (hr_Status route) = None"
proof -
  from assms obtain name hs where h: "LongestHost (ir_Hosts rule) = Some (name, hs)"
    by (cases "LongestHost (ir_Hosts rule)") (auto simp: MakeHTTPRoute_def Let_def)
  from assms obtain spec where spec: "makeHTTPRouteSpec ctx (rule\<lparr>ir_Hosts := hs\<rparr>) = Some spec"
    by (auto simp: MakeHTTPRoute_def Let_def h)
  show ?thesis
    using assms h spec
    by (intro that) (auto simp: MakeHTTPRoute_def Let_def LongestHost_Some_iff)
qed

text \<open>Building the route again from the rule with its sorted hosts gives the same route.\<close>

lemma MakeHTTPRoute_again:
  assumes "MakeHTTPRoute ctx ing rule = Some (r, rule')"
  shows "MakeHTTPRoute ctx ing rule' = Some (r, rule')"
proof -
  from assms obtain name hs where h: "LongestHost (ir_Hosts rule) = Some (name, hs)"
    by (cases "LongestHost (ir_Hosts rule)") (auto simp: MakeHTTPRoute_def Let_def)
  note LongestHost_again [OF h]
  with assms h show ?thesis by (auto simp: MakeHTTPRoute_def Let_def)
qed

section \<open>What a route means\<close>

text \<open>
  The documented meaning of a match of an HTTPRoute and of a path of an Ingress on a request with a
  path and headers, and of the two ways of naming backends. Both resources match a path by prefix
  and headers exactly.
\<close>

record request =
  rq_Path :: string
  rq_Headers :: "(string, string) fmap"

definition has_prefix :: "string \<Rightarrow> string \<Rightarrow> bool" where
  "has_prefix p s \<longleftrightarrow> take (length p) s = p"

definition ingress_path_matches :: "request \<Rightarrow> http_ingress_path \<Rightarrow> bool" where
  "ingress_path_matches rq path \<longleftrightarrow>
     has_prefix (if ip_Path path = '''' then ''/'' else ip_Path path) (rq_Path rq) \<and>
     fmpred (\<lambda>k h. fmlookup (rq_Headers rq) k = Some (hm_Exact h)) (entries (ip_Headers path))"

definition route_match_holds :: "request \<Rightarrow> http_route_match \<Rightarrow> bool" where
  "route_match_holds rq m \<longleftrightarrow>
     (case rm_Path m of
        None \<Rightarrow> True
      | Some p \<Rightarrow> pm_Type p = Some PathMatchPrefix \<and>
          (case pm_Value p of None \<Rightarrow> False | Some v \<Rightarrow> has_prefix v (rq_Path rq))) \<and>
     (case rm_Headers m of
        None \<Rightarrow> True
      | Some h \<Rightarrow> hh_Type h = Some HeaderMatchExact \<and>
          fmpred (\<lambda>k v. fmlookup (rq_Headers rq) k = Some v) (entries (hh_Values h)))"

text \<open>A rule applies when one of its matches holds.\<close>

definition route_rule_applies :: "request \<Rightarrow> http_route_rule \<Rightarrow> bool" where
  "route_rule_applies rq r \<longleftrightarrow> (rr_Matches r = [] \<or> list_ex (route_match_holds rq) (rr_Matches r))"

text \<open>The headers that the filters of a list set, the later filters over the earlier ones.\<close>

definition filters_set :: "http_route_filter list \<Rightarrow> (string, string) fmap" where
  "filters_set fs = foldl (\<lambda>acc f. case rf_RequestHeaderModifier f of
       None \<Rightarrow> acc | Some h \<Rightarrow> acc ++\<^sub>f entries (hf_Set h)) fmempty fs"

lemma make_path_rule_applies:
  "route_rule_applies rq (make_path_rule path) \<longleftrightarrow> ingress_path_matches rq path"
proof -
  have "fmpred (\<lambda>k v. fmlookup (rq_Headers rq) k = Some v) (fmmap hm_Exact hs) \<longleftrightarrow>
      fmpred (\<lambda>k h. fmlookup (rq_Headers rq) k = Some (hm_Exact h)) hs" for hs
    by (auto simp: fmpred_iff)
  then show ?thesis
    by (cases "ip_Headers path")
       (auto simp: route_rule_applies_def make_path_rule_def make_match_def route_match_holds_def
          ingress_path_matches_def)
qed

lemma make_path_rule_filters:
  "filters_set (rr_Filters (make_path_rule path)) = entries (ip_AppendHeaders path)"
  by (auto simp: filters_set_def make_path_rule_def header_modifier_def split: option.splits)

lemma make_forward_filters:
  "filters_set [header_modifier (UnionMaps [m, Some hs])] = entries m ++\<^sub>f hs"
  by (simp add: filters_set_def header_modifier_def UnionMaps_def)

section \<open>Properties\<close>


definition small_rule :: ingress_rule where
  "small_rule = \<lparr>ir_Hosts = [''b'', ''a''], ir_Visibility = VisibilityExternalIP,
     ir_HTTP = Some \<lparr>rv_Paths = [\<lparr>ip_Path = '''', ip_RewriteHost = ''h'', ip_Headers = None,
        ip_Splits = [\<lparr>ib_ServiceNamespace = ''ns'', ib_ServiceName = ''svc'',
                      ib_ServicePort = FromInt 80, sp_Percent = 100, sp_AppendHeaders = None\<rparr>],
        ip_AppendHeaders = None\<rparr>]\<rparr>\<rparr>"

definition small_ingress :: ingress where
  "small_ingress = \<lparr>ing_Meta = empty_meta\<lparr>om_Name := ''ing'', om_Namespace := ''ns''\<rparr>,
     ing_Spec = \<lparr>is_TLS = [], is_Rules = [small_rule], is_HTTPOption = HTTPOptionEnabled\<rparr>,
     ing_Status = \<lparr>st_ObservedGeneration = 0, st_Conditions = [], st_Annotations = None,
       st_PublicLoadBalancer = None, st_PrivateLoadBalancer = None\<rparr>\<rparr>"

definition small_ctx :: "unit ctx" where
  "small_ctx = Some (Some \<lparr>cfg_Network = Some (), cfg_Gateway = Some default_gateway\<rparr>)"

lemma small_route: "\<exists>r. MakeHTTPRoute small_ctx small_ingress small_rule = Some (r, small_rule\<lparr>ir_Hosts := [''a'', ''b'']\<rparr>)"
proof -
  have "map_option snd (MakeHTTPRoute small_ctx small_ingress small_rule) = Some (small_rule\<lparr>ir_Hosts := [''a'', ''b'']\<rparr>)"
    by code_simp
  then show ?thesis by auto
qed


text \<open>The metadata of the route: it is named after the lexicographically smallest host of the rule,
  lives in the namespace of the Ingress, is controlled by it, carries its labels with the
  visibility label on top, and its annotations but for the last-applied configuration. The hosts
  of the rule end up sorted, and so does the host list of the route.\<close>

theorem route_metadata:
  assumes "MakeHTTPRoute ctx ing rule = Some (r, rule')"
  shows "\<exists>route. r = Inr route \<and>
    om_Name (hr_Meta route) \<in> set (ir_Hosts rule) \<and>
    (\<forall>h \<in> set (ir_Hosts rule). om_Name (hr_Meta route) \<le> h) \<and>
    om_Namespace (hr_Meta route) = om_Namespace (ing_Meta ing) \<and>
    IsControlledBy (hr_Meta route) (ing_Meta ing) \<and>
    (\<forall>k. fmlookup (entries (om_Labels (hr_Meta route))) k =
       (if k = VisibilityLabelKey
        then Some (if ir_Visibility rule = VisibilityClusterLocal then ''cluster-local'' else '''')
        else fmlookup (entries (om_Labels (ing_Meta ing))) k)) \<and>
    (\<forall>k. fmlookup (entries (om_Annotations (hr_Meta route))) k =
       (if k = LastAppliedConfigAnnotation then None
        else fmlookup (entries (om_Annotations (ing_Meta ing))) k)) \<and>
    sorted (ir_Hosts rule') \<and> mset (ir_Hosts rule') = mset (ir_Hosts rule) \<and>
    hs_Hostnames (hr_Spec route) = ir_Hosts rule'"
proof -
  obtain route spec where r: "r = Inr route" "rule' = rule\<lparr>ir_Hosts := sort_strings (ir_Hosts rule)\<rparr>"
      "ir_Hosts rule \<noteq> []" "makeHTTPRouteSpec ctx rule' = Some spec" "hr_Spec route = spec"
      "om_Name (hr_Meta route) = hd (sort_strings (ir_Hosts rule))"
      "om_Namespace (hr_Meta route) = om_Namespace (ing_Meta ing)"
      "om_Labels (hr_Meta route) = UnionMaps [om_Labels (ing_Meta ing),
         Some (fmap_of_list [(VisibilityLabelKey,
           if ir_Visibility rule = VisibilityClusterLocal then ''cluster-local'' else '''')])]"
      "om_Annotations (hr_Meta route) = FilterMap (om_Annotations (ing_Meta ing))
         (Some (\<lambda>key. key = LastAppliedConfigAnnotation))"
      "om_OwnerReferences (hr_Meta route) = [NewControllerRef (ing_Meta ing) ingress_apiVersion ingress_kind]"
    by (rule MakeHTTPRoute_Some [OF assms])
  have hosts: "hs_Hostnames (hr_Spec route) = ir_Hosts rule'"
    using makeHTTPRouteSpec_parts(1) [OF r(4)] r(5) by simp
  have own: "IsControlledBy (hr_Meta route) (ing_Meta ing)"
    by (simp add: IsControlledBy_def GetControllerOf_def r(10) NewControllerRef_def)
  have sorted: "sorted (ir_Hosts rule') \<and> mset (ir_Hosts rule') = mset (ir_Hosts rule)"
    by (simp add: r(2) sort_strings_def)
  have name: "om_Name (hr_Meta route) \<in> set (ir_Hosts rule)"
      "\<forall>h \<in> set (ir_Hosts rule). om_Name (hr_Meta route) \<le> h"
    using hd_sort_strings_in [OF r(3)] hd_sort_strings_le by (auto simp: r(6))
  have labels: "fmlookup (entries (om_Labels (hr_Meta route))) k =
       (if k = VisibilityLabelKey
        then Some (if ir_Visibility rule = VisibilityClusterLocal then ''cluster-local'' else '''')
        else fmlookup (entries (om_Labels (ing_Meta ing))) k)" for k
    unfolding r(8) by (simp add: UnionMaps_def)
  have annotations: "fmlookup (entries (om_Annotations (hr_Meta route))) k =
       (if k = LastAppliedConfigAnnotation then None
        else fmlookup (entries (om_Annotations (ing_Meta ing))) k)" for k
    unfolding r(9) by (rule fmlookup_FilterMap)
  show ?thesis using r(1,7) hosts own sorted name labels annotations by blast
qed

theorem route_metadata_witness:
  "\<exists>route. MakeHTTPRoute small_ctx small_ingress small_rule = Some (Inr route, small_rule\<lparr>ir_Hosts := [''a'', ''b'']\<rparr>) \<and>
     hs_Hostnames (hr_Spec route) = [''a'', ''b'']"
proof -
  obtain r where r: "MakeHTTPRoute small_ctx small_ingress small_rule = Some (r, small_rule\<lparr>ir_Hosts := [''a'', ''b'']\<rparr>)"
    using small_route by blast
  from route_metadata [OF r] r show ?thesis by auto
qed

end
