(* ===== verification/ProbeTargets.thy ===== *)
theory ProbeTargets
  imports Resources "HOL-Library.FSet"
begin

text \<open>
  The list of probe targets of an Ingress (pkg/reconciler/ingress/lister.go): one target per rule,
  with the IPs of the ready gateway pods, the port of the rule's visibility and a URL per host.
  The endpoints lister of client-go is a parameter.
\<close>

record endpoint_address =
  ea_IP :: string

record endpoint_subset =
  es_Addresses :: "endpoint_address list"
  es_NotReadyAddresses :: "endpoint_address list"

record endpoints =
  ep_Subsets :: "endpoint_subset list"

record url =
  u_Scheme :: string
  u_Host :: string
  u_Path :: string

record probe_target =
  pt_PodIPs :: "string fset"
  pt_PodPort :: string
  pt_Port :: string
  pt_URLs :: "url list"

definition HTTPPortExternal :: string where
  [go_defs]: "HTTPPortExternal = ''8080''"

definition HTTPPortInternal :: string where
  [go_defs]: "HTTPPortInternal = ''8081''"

definition HTTPSPortExternal :: string where
  [go_defs]: "HTTPSPortExternal = ''8443''"

definition domainsToURL :: "string list \<Rightarrow> string \<Rightarrow> url list" where
  "domainsToURL domains scheme =
     map (\<lambda>domain. \<lparr>u_Scheme = scheme, u_Host = domain, u_Path = ''/''\<rparr>) domains"

text \<open>The body of the loop over the rules.\<close>

definition rule_target :: "string \<Rightarrow> string fset \<Rightarrow> ingress_rule \<Rightarrow> probe_target" where
  "rule_target httpOption ips rule =
     (if ir_Visibility rule = VisibilityExternalIP then
        (if httpOption = HTTPOptionRedirected
         then \<lparr>pt_PodIPs = ips, pt_PodPort = HTTPSPortExternal, pt_Port = '''',
               pt_URLs = domainsToURL (ir_Hosts rule) ''https''\<rparr>
         else \<lparr>pt_PodIPs = ips, pt_PodPort = HTTPPortExternal, pt_Port = '''',
               pt_URLs = domainsToURL (ir_Hosts rule) ''http''\<rparr>)
      else \<lparr>pt_PodIPs = ips, pt_PodPort = HTTPPortInternal, pt_Port = '''',
            pt_URLs = domainsToURL (ir_Hosts rule) ''http''\<rparr>)"

definition getIngressUrls :: "ingress \<Rightarrow> string list \<Rightarrow> error + probe_target list" where
  "getIngressUrls ing gatewayIps =
     (let ips = fset_of_list gatewayIps in
      Inr (map (rule_target (is_HTTPOption (ing_Spec ing)) ips) (is_Rules (ing_Spec ing))))"

definition ready_ips :: "endpoints \<Rightarrow> string list" where
  "ready_ips eps = concat (map (\<lambda>sub. map ea_IP (es_Addresses sub)) (ep_Subsets eps))"

text \<open>A result \<open>None\<close> is a panic: no configuration in the context.\<close>

definition ListProbeTargets ::
  "(string \<Rightarrow> string \<Rightarrow> error + endpoints) \<Rightarrow> 'n ctx \<Rightarrow> ingress \<Rightarrow> (error + probe_target list) option" where
  "ListProbeTargets get_endpoints ctx ing =
     Option.bind (gateway_of ctx) (\<lambda>gatewayConfig.
       let (ns, name, _) = SplitMetaNamespaceKey (LookupService gatewayConfig VisibilityClusterLocal)
       in case get_endpoints ns name of
            Inl err \<Rightarrow> Some (Inl (Wrapped ''failed to get internal service'' err))
          | Inr eps \<Rightarrow>
              (let readyIPs = ready_ips eps in
               if length readyIPs = 0 then Some (Inl NoGatewayPods)
               else Some (getIngressUrls ing readyIPs)))"

section \<open>Laws\<close>

lemma domainsToURL_simps [simp]:
  "map u_Host (domainsToURL ds s) = ds"
  "length (domainsToURL ds s) = length ds"
  "u \<in> set (domainsToURL ds s) \<Longrightarrow> u_Scheme u = s \<and> u_Path u = ''/''"
  by (auto simp: domainsToURL_def comp_def)

lemma rule_target_hosts [simp]:
  "map u_Host (pt_URLs (rule_target opt ips rule)) = ir_Hosts rule"
  "pt_PodIPs (rule_target opt ips rule) = ips"
  by (simp_all add: rule_target_def)

lemma ports_distinct [simp]:
  "HTTPPortExternal \<noteq> HTTPPortInternal" "HTTPPortInternal \<noteq> HTTPPortExternal"
  "HTTPSPortExternal \<noteq> HTTPPortInternal" "HTTPPortInternal \<noteq> HTTPSPortExternal"
  "HTTPSPortExternal \<noteq> HTTPPortExternal" "HTTPPortExternal \<noteq> HTTPSPortExternal"
  by (simp_all add: go_defs)

lemma rule_target_port:
  "pt_PodPort (rule_target opt ips rule) = HTTPPortInternal \<longleftrightarrow> ir_Visibility rule \<noteq> VisibilityExternalIP"
  "pt_PodPort (rule_target opt ips rule) = HTTPSPortExternal \<longleftrightarrow>
     ir_Visibility rule = VisibilityExternalIP \<and> opt = HTTPOptionRedirected"
  by (simp_all add: rule_target_def)

lemma rule_target_scheme:
  "u \<in> set (pt_URLs (rule_target opt ips rule)) \<Longrightarrow>
   u_Scheme u = (if pt_PodPort (rule_target opt ips rule) = HTTPSPortExternal then ''https'' else ''http'')"
  by (auto simp: rule_target_def split: if_splits)

lemma set_ready_ips:
  "set (ready_ips eps) = {ip. \<exists>sub \<in> set (ep_Subsets eps). \<exists>a \<in> set (es_Addresses sub). ip = ea_IP a}"
  by (auto simp: ready_ips_def)

section \<open>Properties\<close>

text \<open>C28. A successful listing has exactly one target per rule of the Ingress, in order: it addresses all
  ready gateway pods (there is at least one), probes every host of the rule once, and uses port
  8443 with https for external rules of a redirected Ingress, 8080 with http for other external
  rules and 8081 with http for all others.\<close>

theorem probe_targets_correct:
  assumes "ListProbeTargets get_endpoints ctx ing = Some (Inr targets)"
  shows "\<exists>g ns name err eps. gateway_of ctx = Some g \<and>
    SplitMetaNamespaceKey (LookupService g VisibilityClusterLocal) = (ns, name, err) \<and>
    get_endpoints ns name = Inr eps \<and> ready_ips eps \<noteq> [] \<and>
    list_all2 (\<lambda>rule t.
        fset (pt_PodIPs t) = {ip. \<exists>sub \<in> set (ep_Subsets eps). \<exists>a \<in> set (es_Addresses sub). ip = ea_IP a} \<and>
        map u_Host (pt_URLs t) = ir_Hosts rule \<and>
        (let external = (ir_Visibility rule = VisibilityExternalIP);
             tls = (external \<and> is_HTTPOption (ing_Spec ing) = HTTPOptionRedirected)
         in pt_PodPort t = (if tls then ''8443'' else if external then ''8080'' else ''8081'') \<and>
            list_all (\<lambda>u. u_Scheme u = (if tls then ''https'' else ''http'') \<and> u_Path u = ''/'') (pt_URLs t)))
      (is_Rules (ing_Spec ing)) targets"
proof -
  obtain g where g: "gateway_of ctx = Some g"
    using assms by (cases "gateway_of ctx") (auto simp: ListProbeTargets_def)
  obtain ns name err where k: "SplitMetaNamespaceKey (LookupService g VisibilityClusterLocal) = (ns, name, err)"
    by (rule prod_cases3)
  obtain eps where eps: "get_endpoints ns name = Inr eps" "ready_ips eps \<noteq> []"
    and t: "targets = map (rule_target (is_HTTPOption (ing_Spec ing)) (fset_of_list (ready_ips eps)))
      (is_Rules (ing_Spec ing))"
    using assms by (auto simp: ListProbeTargets_def g k getIngressUrls_def Let_def split: sum.splits if_splits)
  have "list_all2 (\<lambda>rule t.
        fset (pt_PodIPs t) = {ip. \<exists>sub \<in> set (ep_Subsets eps). \<exists>a \<in> set (es_Addresses sub). ip = ea_IP a} \<and>
        map u_Host (pt_URLs t) = ir_Hosts rule \<and>
        (let external = (ir_Visibility rule = VisibilityExternalIP);
             tls = (external \<and> is_HTTPOption (ing_Spec ing) = HTTPOptionRedirected)
         in pt_PodPort t = (if tls then ''8443'' else if external then ''8080'' else ''8081'') \<and>
            list_all (\<lambda>u. u_Scheme u = (if tls then ''https'' else ''http'') \<and> u_Path u = ''/'') (pt_URLs t)))
      (is_Rules (ing_Spec ing)) targets"
    unfolding t list_all2_map2
    by (rule list_all2_refl)
       (auto simp: rule_target_def Let_def go_defs list_all_iff fset_of_list.rep_eq set_ready_ips)
  with g k eps show ?thesis by blast
qed

definition small_endpoints :: endpoints where
  "small_endpoints = \<lparr>ep_Subsets = [\<lparr>es_Addresses = [\<lparr>ea_IP = ''10.0.0.1''\<rparr>], es_NotReadyAddresses = []\<rparr>]\<rparr>"

theorem probe_targets_correct_witness:
  "\<exists>t. ListProbeTargets (\<lambda>_ _. Inr small_endpoints) small_ctx small_ingress = Some (Inr [t]) \<and>
     map u_Host (pt_URLs t) = [''b'', ''a'']"
proof -
  have "map_option (case_sum (\<lambda>_. 0) length)
      (ListProbeTargets (\<lambda>_ _. Inr small_endpoints) small_ctx small_ingress) = Some 1"
    by code_simp
  then obtain x where x: "ListProbeTargets (\<lambda>_ _. Inr small_endpoints) small_ctx small_ingress = Some x"
    and len: "case_sum (\<lambda>_. 0) length x = 1" by auto
  then obtain t where t: "ListProbeTargets (\<lambda>_ _. Inr small_endpoints) small_ctx small_ingress = Some (Inr [t])"
    by (cases x) (auto simp: length_Suc_conv)
  have rules: "is_Rules (ing_Spec small_ingress) = [small_rule]" "ir_Hosts small_rule = [''b'', ''a'']"
    by (simp_all add: small_ingress_def small_rule_def)
  from probe_targets_correct [OF t] t show ?thesis by (auto simp: rules)
qed

text \<open>Listing fails without probing anything when the endpoints of the internal service cannot be read
  or hold no ready address.\<close>

theorem probe_targets_errors:
  assumes "ListProbeTargets get_endpoints ctx ing = Some (Inl e)"
  shows "\<exists>g. gateway_of ctx = Some g \<and>
    (case SplitMetaNamespaceKey (LookupService g VisibilityClusterLocal) of (ns, name, _) \<Rightarrow>
       (\<exists>err. get_endpoints ns name = Inl err \<and> e = Wrapped ''failed to get internal service'' err) \<or>
       (\<exists>eps. get_endpoints ns name = Inr eps \<and> e = NoGatewayPods \<and>
          list_all (\<lambda>sub. es_Addresses sub = []) (ep_Subsets eps)))"
  using assms
  by (auto simp: ListProbeTargets_def getIngressUrls_def Let_def ready_ips_def list_all_iff
      split: sum.splits if_splits bind_splits prod.splits)

theorem probe_targets_errors_witness:
  "\<exists>e. ListProbeTargets (\<lambda>_ _. Inr \<lparr>ep_Subsets = []\<rparr>) small_ctx small_ingress = Some (Inl e)"
proof -
  have g: "gateway_of small_ctx = Some default_gateway"
    by (simp add: gateway_of_def FromContext_def small_ctx_def)
  have r: "ListProbeTargets (\<lambda>_ _. Inr \<lparr>ep_Subsets = []\<rparr>) small_ctx small_ingress = Some (Inl NoGatewayPods)"
    by (simp add: ListProbeTargets_def g ready_ips_def split: prod.splits)
  from probe_targets_errors [OF r] r show ?thesis by blast
qed

end
