(* ===== verification/ConfigHeap.thy ===== *)
theory ConfigHeap
  imports GatewayConfig
begin

text \<open>
  The generated deep copies of the configuration (pkg/reconciler/ingress/config/zz_generated.deepcopy.go)
  on an explicit store, because what they are for is aliasing: the copy must share no cell with
  the original. A cell is a struct or a map, a pointer an address or nil. A function whose result
  is \<open>None\<close> dereferenced a nil or dangling pointer; \<open>iter\<close> is the order in which this run ranges
  over a map.

  \<open>network.Config\<close> is copied by a plain struct assignment (\<open>**out = **in\<close>), so its struct value is
  one opaque value of type \<open>'n\<close> here.
\<close>

section \<open>Store\<close>

type_synonym addr = nat
type_synonym ptr = "addr option"

datatype 'n cell =
    GatewayConfigCell gateway_config
  | GatewaysCell "(string, ptr) fmap"
  | GatewayCell ptr                     \<comment> \<open>the field \<open>Gateways\<close>\<close>
  | NetworkCell 'n
  | ConfigCell ptr ptr                  \<comment> \<open>the fields \<open>Network\<close> and \<open>Gateway\<close>\<close>

record 'n heap =
  hp_next :: addr
  hp_cells :: "addr \<Rightarrow> 'n cell option"

definition new_cell :: "'n cell \<Rightarrow> 'n heap \<Rightarrow> addr \<times> 'n heap" where
  "new_cell c h = (hp_next h, \<lparr>hp_next = Suc (hp_next h), hp_cells = (hp_cells h)(hp_next h \<mapsto> c)\<rparr>)"

definition store_cell :: "addr \<Rightarrow> 'n cell \<Rightarrow> 'n heap \<Rightarrow> 'n heap" where
  "store_cell a c h = h\<lparr>hp_cells := (hp_cells h)(a \<mapsto> c)\<rparr>"

definition wf_heap :: "'n heap \<Rightarrow> bool" where
  "wf_heap h \<longleftrightarrow> (\<forall>a. hp_next h \<le> a \<longrightarrow> hp_cells h a = None)"

definition load_config_value :: "'n heap \<Rightarrow> addr \<Rightarrow> gateway_config option" where
  "load_config_value h a = (case hp_cells h a of Some (GatewayConfigCell g) \<Rightarrow> Some g | _ \<Rightarrow> None)"

definition load_gateways :: "'n heap \<Rightarrow> addr \<Rightarrow> (string, ptr) fmap option" where
  "load_gateways h a = (case hp_cells h a of Some (GatewaysCell m) \<Rightarrow> Some m | _ \<Rightarrow> None)"

definition load_gateway :: "'n heap \<Rightarrow> addr \<Rightarrow> ptr option" where
  "load_gateway h a = (case hp_cells h a of Some (GatewayCell p) \<Rightarrow> Some p | _ \<Rightarrow> None)"

definition load_network :: "'n heap \<Rightarrow> addr \<Rightarrow> 'n option" where
  "load_network h a = (case hp_cells h a of Some (NetworkCell n) \<Rightarrow> Some n | _ \<Rightarrow> None)"

definition load_config :: "'n heap \<Rightarrow> addr \<Rightarrow> (ptr \<times> ptr) option" where
  "load_config h a = (case hp_cells h a of Some (ConfigCell n g) \<Rightarrow> Some (n, g) | _ \<Rightarrow> None)"

lemmas load_defs = load_config_value_def load_gateways_def load_gateway_def load_network_def
  load_config_def

section \<open>Deep copies\<close>

definition zero_gateway_config :: gateway_config where
  "zero_gateway_config = \<lparr>gc_GatewayClass = '''', gc_Gateway = '''', gc_Service = ''''\<rparr>"

definition GatewayConfig_DeepCopyInto :: "addr \<Rightarrow> addr \<Rightarrow> 'n heap \<Rightarrow> 'n heap option" where
  "GatewayConfig_DeepCopyInto src out h =
     map_option (\<lambda>g. store_cell out (GatewayConfigCell g) h) (load_config_value h src)"

definition GatewayConfig_DeepCopy :: "ptr \<Rightarrow> 'n heap \<Rightarrow> (ptr \<times> 'n heap) option" where
  "GatewayConfig_DeepCopy src h =
     (case src of
        None \<Rightarrow> Some (None, h)
      | Some a \<Rightarrow>
          (let (out, h1) = new_cell (GatewayConfigCell zero_gateway_config) h
           in map_option (\<lambda>h2. (Some out, h2)) (GatewayConfig_DeepCopyInto a out h1)))"

text \<open>
  The body of the range loop over \<open>in.Gateways\<close>, and the loop; \<open>m\<close> is the address of the new map.
\<close>

definition copy_entry :: "addr \<Rightarrow> string \<Rightarrow> ptr \<Rightarrow> 'n heap \<Rightarrow> 'n heap option" where
  "copy_entry m key val h =
     (case val of
        None \<Rightarrow>
          map_option (\<lambda>acc. store_cell m (GatewaysCell (fmupd key None acc)) h) (load_gateways h m)
      | Some a \<Rightarrow>
          (let (c, h1) = new_cell (GatewayConfigCell zero_gateway_config) h
           in Option.bind (load_config_value h1 a)
                (\<lambda>g. let h2 = store_cell c (GatewayConfigCell g) h1
                     in map_option (\<lambda>acc. store_cell m (GatewaysCell (fmupd key (Some c) acc)) h2)
                          (load_gateways h2 m))))"

fun copy_entries :: "addr \<Rightarrow> (string \<times> ptr) list \<Rightarrow> 'n heap \<Rightarrow> 'n heap option" where
  "copy_entries m [] h = Some h"
| "copy_entries m ((key, val) # rest) h = Option.bind (copy_entry m key val h) (copy_entries m rest)"

definition Gateway_DeepCopyInto ::
  "((string, ptr) fmap \<Rightarrow> (string \<times> ptr) list) \<Rightarrow> addr \<Rightarrow> addr \<Rightarrow> 'n heap \<Rightarrow> 'n heap option" where
  "Gateway_DeepCopyInto iter src out h =
     Option.bind (load_gateway h src) (\<lambda>gws.
       let h0 = store_cell out (GatewayCell gws) h
       in case gws of
            None \<Rightarrow> Some h0
          | Some ma \<Rightarrow>
              (let (m, h1) = new_cell (GatewaysCell fmempty) h0;
                   h2 = store_cell out (GatewayCell (Some m)) h1
               in Option.bind (load_gateways h2 ma) (\<lambda>entries. copy_entries m (iter entries) h2)))"

definition Gateway_DeepCopy ::
  "((string, ptr) fmap \<Rightarrow> (string \<times> ptr) list) \<Rightarrow> ptr \<Rightarrow> 'n heap \<Rightarrow> (ptr \<times> 'n heap) option" where
  "Gateway_DeepCopy iter src h =
     (case src of
        None \<Rightarrow> Some (None, h)
      | Some a \<Rightarrow>
          (let (out, h1) = new_cell (GatewayCell None) h
           in map_option (\<lambda>h2. (Some out, h2)) (Gateway_DeepCopyInto iter a out h1)))"

text \<open>The zero value of the struct is what \<open>new(pkg.Config)\<close> puts in the cell before the assignment.\<close>

definition copy_network :: "'n \<Rightarrow> addr \<Rightarrow> 'n heap \<Rightarrow> (ptr \<times> 'n heap) option" where
  "copy_network zero a h =
     (let (out, h1) = new_cell (NetworkCell zero) h
      in map_option (\<lambda>n. (Some out, store_cell out (NetworkCell n) h1)) (load_network h1 a))"

definition Config_DeepCopyInto ::
  "'n \<Rightarrow> ((string, ptr) fmap \<Rightarrow> (string \<times> ptr) list) \<Rightarrow> addr \<Rightarrow> addr \<Rightarrow> 'n heap \<Rightarrow> 'n heap option" where
  "Config_DeepCopyInto zero iter src out h =
     Option.bind (load_config h src) (\<lambda>(net, gw).
       let h0 = store_cell out (ConfigCell net gw) h
       in Option.bind
            (case net of
               None \<Rightarrow> Some h0
             | Some na \<Rightarrow>
                 map_option (\<lambda>(net', h1). store_cell out (ConfigCell net' gw) h1) (copy_network zero na h0))
            (\<lambda>h2. case gw of
               None \<Rightarrow> Some h2
             | Some ga \<Rightarrow>
                 (let (g, h3) = new_cell (GatewayCell None) h2
                  in Option.bind (load_config h3 out)
                       (\<lambda>(net', _). Gateway_DeepCopyInto iter ga g
                          (store_cell out (ConfigCell net' (Some g)) h3)))))"

definition Config_DeepCopy ::
  "'n \<Rightarrow> ((string, ptr) fmap \<Rightarrow> (string \<times> ptr) list) \<Rightarrow> ptr \<Rightarrow> 'n heap \<Rightarrow> (ptr \<times> 'n heap) option" where
  "Config_DeepCopy zero iter src h =
     (case src of
        None \<Rightarrow> Some (None, h)
      | Some a \<Rightarrow>
          (let (out, h1) = new_cell (ConfigCell None None) h
           in map_option (\<lambda>h2. (Some out, h2)) (Config_DeepCopyInto zero iter a out h1)))"

section \<open>Abstraction\<close>

text \<open>The value a pointer to a \<open>Gateway\<close> stands for, and the pointers that stand for one.\<close>

definition gateway_value :: "'n heap \<Rightarrow> addr \<Rightarrow> gateway" where
  "gateway_value h a =
     (case load_gateway h a of
        Some (Some ma) \<Rightarrow>
          (case load_gateways h ma of
             Some m \<Rightarrow> \<lparr>gw_Gateways = Some (fmmap (\<lambda>p. Option.bind p (load_config_value h)) m)\<rparr>
           | None \<Rightarrow> \<lparr>gw_Gateways = None\<rparr>)
      | _ \<Rightarrow> \<lparr>gw_Gateways = None\<rparr>)"

definition gateway_ok :: "'n heap \<Rightarrow> addr \<Rightarrow> bool" where
  "gateway_ok h a \<longleftrightarrow>
     (\<exists>gws. load_gateway h a = Some gws \<and>
       (\<forall>ma. gws = Some ma \<longrightarrow>
          (\<exists>m. load_gateways h ma = Some m \<and>
             fmpred (\<lambda>_ p. \<forall>c. p = Some c \<longrightarrow> load_config_value h c \<noteq> None) m)))"

text \<open>The addresses reachable from a \<open>Gateway\<close>.\<close>

definition gateway_cells :: "'n heap \<Rightarrow> addr \<Rightarrow> addr set" where
  "gateway_cells h a =
     {a} \<union> (case load_gateway h a of
        Some (Some ma) \<Rightarrow>
          {ma} \<union> (case load_gateways h ma of
             Some m \<Rightarrow> {c. \<exists>k. fmlookup m k = Some (Some c)} | None \<Rightarrow> {})
      | _ \<Rightarrow> {})"

definition config_ok :: "'n heap \<Rightarrow> addr \<Rightarrow> bool" where
  "config_ok h a \<longleftrightarrow>
     (\<exists>net gw. load_config h a = Some (net, gw) \<and>
        (\<forall>na. net = Some na \<longrightarrow> load_network h na \<noteq> None) \<and>
        (\<forall>ga. gw = Some ga \<longrightarrow> gateway_ok h ga))"

definition config_value :: "'n heap \<Rightarrow> addr \<Rightarrow> 'n option \<times> gateway option" where
  "config_value h a =
     (case load_config h a of
        Some (net, gw) \<Rightarrow> (Option.bind net (load_network h), map_option (gateway_value h) gw)
      | None \<Rightarrow> (None, None))"

definition config_cells :: "'n heap \<Rightarrow> addr \<Rightarrow> addr set" where
  "config_cells h a =
     {a} \<union> (case load_config h a of
        Some (net, gw) \<Rightarrow>
          set_option net \<union> (case gw of Some ga \<Rightarrow> gateway_cells h ga | None \<Rightarrow> {})
      | None \<Rightarrow> {})"

text \<open>No cell below the bound changed.\<close>

definition untouched :: "addr \<Rightarrow> 'n heap \<Rightarrow> 'n heap \<Rightarrow> bool" where
  "untouched n h h' \<longleftrightarrow> (\<forall>a < n. hp_cells h' a = hp_cells h a)"

section \<open>The copies are equal, fresh and leave the store alone\<close>

lemma new_cell_simps [simp]:
  "fst (new_cell c h) = hp_next h"
  "hp_next (snd (new_cell c h)) = Suc (hp_next h)"
  "hp_cells (snd (new_cell c h)) a = (if a = hp_next h then Some c else hp_cells h a)"
  by (simp_all add: new_cell_def)

lemma store_cell_simps [simp]:
  "hp_next (store_cell a c h) = hp_next h"
  "hp_cells (store_cell a c h) b = (if b = a then Some c else hp_cells h b)"
  by (simp_all add: store_cell_def)

lemma wf_new_cell [keeps_wf]: "wf_heap h \<Longrightarrow> wf_heap (snd (new_cell c h))"
  by (simp add: wf_heap_def)

lemma wf_store_cell [keeps_wf]: "wf_heap h \<Longrightarrow> a < hp_next h \<Longrightarrow> wf_heap (store_cell a c h)"
  by (simp add: wf_heap_def)

lemma wf_heap_bound: "wf_heap h \<Longrightarrow> hp_cells h a = Some c \<Longrightarrow> a < hp_next h"
  by (metis linorder_not_le option.discI wf_heap_def)

lemma load_cong:
  assumes "hp_cells h' a = hp_cells h a"
  shows "load_config_value h' a = load_config_value h a"
    and "load_gateways h' a = load_gateways h a"
    and "load_gateway h' a = load_gateway h a"
    and "load_network h' a = load_network h a"
    and "load_config h' a = load_config h a"
  using assms by (simp_all add: load_defs)

lemma load_bound:
  assumes "wf_heap h"
  shows "load_config_value h a = Some g \<Longrightarrow> a < hp_next h"
    and "load_gateways h a = Some m \<Longrightarrow> a < hp_next h"
    and "load_gateway h a = Some p \<Longrightarrow> a < hp_next h"
    and "load_network h a = Some n \<Longrightarrow> a < hp_next h"
    and "load_config h a = Some c \<Longrightarrow> a < hp_next h"
  using assms
  by (auto simp: load_defs split: option.splits cell.splits intro: wf_heap_bound)

lemma load_Some_iff:
  "load_config_value h a = Some g \<longleftrightarrow> hp_cells h a = Some (GatewayConfigCell g)"
  "load_gateways h a = Some m \<longleftrightarrow> hp_cells h a = Some (GatewaysCell m)"
  "load_gateway h a = Some p \<longleftrightarrow> hp_cells h a = Some (GatewayCell p)"
  "load_network h a = Some n \<longleftrightarrow> hp_cells h a = Some (NetworkCell n)"
  "load_config h a = Some c \<longleftrightarrow> hp_cells h a = Some (ConfigCell (fst c) (snd c))"
  by (auto simp: load_defs split: option.splits cell.splits)

lemma update_other_config_value:
  assumes "wf_heap h" and "load_gateways h m = Some acc" and "load_config_value h b \<noteq> None"
    and "\<And>x. x < hp_next h \<Longrightarrow> x \<noteq> m \<Longrightarrow> hp_cells h' x = hp_cells h x"
  shows "load_config_value h' b = load_config_value h b"
proof -
  obtain g where g: "hp_cells h b = Some (GatewayConfigCell g)"
    using assms(3) by (auto simp: load_Some_iff)
  then have "b < hp_next h" "b \<noteq> m"
    using assms(1,2) wf_heap_bound by (auto simp: load_Some_iff)
  then show ?thesis using assms(4) by (simp add: load_config_value_def)
qed

text \<open>What the loop over the entries leaves in the new map, and where it wrote.\<close>

definition copied :: "'n heap \<Rightarrow> 'n heap \<Rightarrow> ptr \<Rightarrow> ptr \<Rightarrow> bool" where
  "copied h h' p p' \<longleftrightarrow>
     (case p of
        None \<Rightarrow> p' = None
      | Some a \<Rightarrow> \<exists>c. p' = Some c \<and> hp_next h \<le> c \<and> load_config_value h' c = load_config_value h a)"

lemma copy_entry_correct:
  assumes wf: "wf_heap h" and m: "m < hp_next h" and acc: "load_gateways h m = Some acc"
    and ok: "\<forall>a. val = Some a \<longrightarrow> load_config_value h a \<noteq> None"
  obtains h1 p' where "copy_entry m key val h = Some h1" "wf_heap h1" "hp_next h \<le> hp_next h1"
    "\<forall>x < hp_next h. x \<noteq> m \<longrightarrow> hp_cells h1 x = hp_cells h x"
    "load_gateways h1 m = Some (fmupd key p' acc)" "copied h h1 val p'"
    "\<forall>c. p' = Some c \<longrightarrow> c < hp_next h1 \<and> c \<noteq> m"
proof (cases val)
  case None
  show ?thesis
    by (rule that [of "store_cell m (GatewaysCell (fmupd key None acc)) h" None])
       (use wf m acc in \<open>simp_all add: None copy_entry_def wf_store_cell copied_def load_gateways_def\<close>)
next
  case (Some a)
  with ok obtain g where g: "load_config_value h a = Some g" by auto
  let ?h1 = "snd (new_cell (GatewayConfigCell zero_gateway_config) h)"
  let ?h2 = "store_cell (hp_next h) (GatewayConfigCell g) ?h1"
  let ?h3 = "store_cell m (GatewaysCell (fmupd key (Some (hp_next h)) acc)) ?h2"
  have l1: "load_config_value ?h1 a = Some g"
    using g load_bound(1) [OF wf g] by (simp add: load_defs)
  have l2: "load_gateways ?h2 m = Some acc" using m acc by (simp add: load_defs)
  have e: "copy_entry m key val h = Some ?h3" 
    by (simp add: copy_entry_def Some split_beta Let_def l1 l2)
  have w: "wf_heap ?h3" using wf m by (intro wf_store_cell wf_new_cell) simp_all
  show ?thesis
  proof (rule that [OF e w])
    show "load_gateways ?h3 m = Some (fmupd key (Some (hp_next h)) acc)" by (simp add: load_Some_iff)
    have "load_config_value ?h3 (hp_next h) = Some g" using m by (simp add: load_Some_iff)
    then show "copied h ?h3 val (Some (hp_next h))" by (simp add: Some copied_def g)
  qed (use m in simp_all)
qed

lemma copied_later:
  assumes "copied h h1 p p'" and "\<forall>c. p' = Some c \<longrightarrow> hp_cells h' c = hp_cells h1 c"
  shows "copied h h' p p'"
  using assms by (auto simp: copied_def load_config_value_def split: option.splits)

lemma copied_earlier:
  assumes "copied h1 h' p p'" and "hp_next h \<le> hp_next h1"
    and "\<forall>a. p = Some a \<longrightarrow> load_config_value h1 a = load_config_value h a"
  shows "copied h h' p p'"
  using assms by (auto simp: copied_def split: option.splits)

lemma copy_entries_correct:
  assumes "wf_heap h" and "m < hp_next h" and "load_gateways h m = Some acc"
    and "distinct (map fst es)"
    and "\<forall>k a. (k, Some a) \<in> set es \<longrightarrow> load_config_value h a \<noteq> None"
  shows "\<exists>h' acc'. copy_entries m es h = Some h' \<and> wf_heap h' \<and> hp_next h \<le> hp_next h' \<and>
     (\<forall>x < hp_next h. x \<noteq> m \<longrightarrow> hp_cells h' x = hp_cells h x) \<and>
     load_gateways h' m = Some acc' \<and>
     (\<forall>k. k \<notin> fst ` set es \<longrightarrow> fmlookup acc' k = fmlookup acc k) \<and>
     (\<forall>k p. (k, p) \<in> set es \<longrightarrow> (\<exists>p'. fmlookup acc' k = Some p' \<and> copied h h' p p'))"
  using assms
proof (induction es arbitrary: h acc)
  case Nil
  then show ?case by auto
next
  case (Cons e es)
  obtain key val where e: "e = (key, val)" by fastforce
  have ok: "\<forall>a. val = Some a \<longrightarrow> load_config_value h a \<noteq> None"
    using Cons.prems(5) by (auto simp: e)
  obtain h1 q where h1: "copy_entry m key val h = Some h1" "wf_heap h1" "hp_next h \<le> hp_next h1"
    "\<forall>x < hp_next h. x \<noteq> m \<longrightarrow> hp_cells h1 x = hp_cells h x"
    "load_gateways h1 m = Some (fmupd key q acc)" "copied h h1 val q"
    "\<forall>c. q = Some c \<longrightarrow> c < hp_next h1 \<and> c \<noteq> m"
    by (rule copy_entry_correct [OF Cons.prems(1,2,3) ok])
  have v: "load_config_value h1 b = load_config_value h b" if "load_config_value h b \<noteq> None" for b
    by (rule update_other_config_value [OF Cons.prems(1,3) that]) (use h1(4) in blast)
  have m1: "m < hp_next h1" using Cons.prems(2) h1(3) by simp
  have d: "distinct (map fst es)" "key \<notin> fst ` set es" using Cons.prems(4) by (simp_all add: e)
  have ok1: "\<forall>k a. (k, Some a) \<in> set es \<longrightarrow> load_config_value h1 a \<noteq> None"
    using Cons.prems(5) v by (metis list.set_intros(2))
  obtain h' acc' where h': "copy_entries m es h1 = Some h'" "wf_heap h'" "hp_next h1 \<le> hp_next h'"
      "\<forall>x < hp_next h1. x \<noteq> m \<longrightarrow> hp_cells h' x = hp_cells h1 x"
      "load_gateways h' m = Some acc'"
      "\<forall>k. k \<notin> fst ` set es \<longrightarrow> fmlookup acc' k = fmlookup (fmupd key q acc) k"
      "\<forall>k p. (k, p) \<in> set es \<longrightarrow> (\<exists>p'. fmlookup acc' k = Some p' \<and> copied h1 h' p p')"
    using Cons.IH [OF h1(2) m1 h1(5) d(1) ok1] by blast
  have head: "copied h h' val q" by (rule copied_later [OF h1(6)]) (use h1(7) h'(4) in blast)
  have tail: "\<exists>p'. fmlookup acc' k = Some p' \<and> copied h h' p p'" if kp: "(k, p) \<in> set es" for k p
  proof -
    obtain p' where p': "fmlookup acc' k = Some p'" "copied h1 h' p p'" using h'(7) kp by blast
    have "load_config_value h1 a = load_config_value h a" if "p = Some a" for a
      using v [of a] Cons.prems(5) kp that by (metis list.set_intros(2))
    then show ?thesis using p' copied_earlier [OF p'(2) h1(3)] by blast
  qed
  have "copy_entries m (e # es) h = Some h'" by (simp add: e h1(1) h'(1))
  moreover have "hp_next h \<le> hp_next h'" using h1(3) h'(3) by simp
  moreover have "\<forall>x < hp_next h. x \<noteq> m \<longrightarrow> hp_cells h' x = hp_cells h x"
    using h1(3,4) h'(4) by simp
  moreover have "\<forall>k. k \<notin> fst ` set (e # es) \<longrightarrow> fmlookup acc' k = fmlookup acc k"
    using h'(6) by (simp add: e)
  moreover have "\<exists>p'. fmlookup acc' k = Some p' \<and> copied h h' p p'"
    if "(k, p) \<in> set (e # es)" for k p
    using that tail [of k p] head h'(6) d(2) by (auto simp: e)
  ultimately show ?case using h'(2,5) by blast
qed

lemma iterates_mem: "iterates iter id \<Longrightarrow> (k, v) \<in> set (iter m) \<longleftrightarrow> fmlookup m k = Some v"
  by (simp add: iterates_def)

lemma iterates_keys: "iterates iter id \<Longrightarrow> k \<in> fst ` set (iter m) \<longleftrightarrow> fmlookup m k \<noteq> None"
  by (auto simp: iterates_def image_iff)

lemma copied_value:
  assumes "copied h h' p p'"
  shows "Option.bind p' (load_config_value h') = Option.bind p (load_config_value h)"
  using assms by (auto simp: copied_def split: option.splits)

text \<open>The new map holds the values of the old one, in new cells.\<close>

lemma copied_map_value:
  assumes it: "iterates iter id"
    and other: "\<forall>k. k \<notin> fst ` set (iter ents) \<longrightarrow> fmlookup acc k = None"
    and ents: "\<forall>k p. (k, p) \<in> set (iter ents) \<longrightarrow> (\<exists>p'. fmlookup acc k = Some p' \<and> copied h h' p p')"
  shows "fmmap (\<lambda>p. Option.bind p (load_config_value h')) acc =
         fmmap (\<lambda>p. Option.bind p (load_config_value h)) ents"
proof (rule fmap_ext)
  fix k
  show "fmlookup (fmmap (\<lambda>p. Option.bind p (load_config_value h')) acc) k =
        fmlookup (fmmap (\<lambda>p. Option.bind p (load_config_value h)) ents) k"
  proof (cases "fmlookup ents k")
    case None
    then show ?thesis using other by (simp add: iterates_keys [OF it])
  next
    case (Some p)
    then obtain p' where "fmlookup acc k = Some p'" "copied h h' p p'"
      using ents by (auto simp: iterates_mem [OF it])
    then show ?thesis using Some copied_value by fastforce
  qed
qed

lemma copied_map_fresh:
  assumes it: "iterates iter id"
    and other: "\<forall>k. k \<notin> fst ` set (iter ents) \<longrightarrow> fmlookup acc k = None"
    and ents: "\<forall>k p. (k, p) \<in> set (iter ents) \<longrightarrow> (\<exists>p'. fmlookup acc k = Some p' \<and> copied h h' p p')"
    and ok: "\<forall>k a. (k, Some a) \<in> set (iter ents) \<longrightarrow> load_config_value h a \<noteq> None"
    and c: "fmlookup acc k = Some (Some c)"
  shows "hp_next h \<le> c \<and> load_config_value h' c \<noteq> None"
proof -
  have "k \<in> fst ` set (iter ents)" using other c by force
  then obtain p where kp: "(k, p) \<in> set (iter ents)" by auto
  then have "copied h h' p (Some c)" using ents c by fastforce
  then show ?thesis using ok kp by (auto simp: copied_def split: option.splits)
qed

lemma Gateway_DeepCopyInto_correct:
  assumes it: "iterates iter id" and wf: "wf_heap h" and ok: "gateway_ok h a"
    and out: "out < hp_next h" "load_gateway h out \<noteq> None" "out \<noteq> a"
  shows "\<exists>h'. Gateway_DeepCopyInto iter a out h = Some h' \<and> wf_heap h' \<and> hp_next h \<le> hp_next h' \<and>
     (\<forall>x < hp_next h. x \<noteq> out \<longrightarrow> hp_cells h' x = hp_cells h x) \<and>
     gateway_value h' out = gateway_value h a \<and> gateway_ok h' out \<and>
     gateway_cells h' out \<subseteq> insert out {hp_next h..}"
proof -
  obtain gws where gws: "load_gateway h a = Some gws" using ok by (auto simp: gateway_ok_def)
  show ?thesis
  proof (cases gws)
    case None
    let ?h = "store_cell out (GatewayCell None) h"
    have "load_gateway ?h out = Some None" by (simp add: load_gateway_def)
    then show ?thesis using wf out(1) gws None
      by (intro exI [of _ ?h])
         (simp add: Gateway_DeepCopyInto_def wf_store_cell gateway_value_def gateway_ok_def
            gateway_cells_def)
  next
    case (Some ma)
    obtain ents where ents: "load_gateways h ma = Some ents"
      and vals: "\<And>k c. fmlookup ents k = Some (Some c) \<Longrightarrow> load_config_value h c \<noteq> None"
      using ok gws Some by (fastforce simp: gateway_ok_def fmpred_iff)
    let ?m = "hp_next h"
    define h2 where "h2 = store_cell out (GatewayCell (Some ?m))
       (snd (new_cell (GatewaysCell fmempty) (store_cell out (GatewayCell gws) h)))"
    have next2: "hp_next h2 = Suc ?m" by (simp add: h2_def)
    have cells2: "hp_cells h2 x = (if x = out then Some (GatewayCell (Some ?m))
        else if x = ?m then Some (GatewaysCell fmempty) else hp_cells h x)" for x
      by (simp add: h2_def)
    have wf2: "wf_heap h2"
      using wf out(1) unfolding h2_def by (intro wf_store_cell wf_new_cell) simp_all
    have ne: "out \<noteq> x" if "load_config_value h x \<noteq> None \<or> load_gateways h x \<noteq> None" for x
      using that out(2) by (auto simp: load_Some_iff)
    have v2: "load_config_value h2 c = load_config_value h c" if "load_config_value h c \<noteq> None" for c
      using that ne [of c] load_bound(1) [OF wf, of c]
      by (auto simp: load_config_value_def cells2)
    have e2: "load_gateways h2 ma = Some ents"
      using ents ne [of ma] load_bound(2) [OF wf ents] by (simp add: load_Some_iff cells2)
    have start: "load_gateways h2 ?m = Some fmempty" "?m < hp_next h2"
      using out(1) by (simp_all add: load_Some_iff cells2 next2)
    have d: "distinct (map fst (iter ents))" using it by (simp add: iterates_def)
    have vals2: "\<forall>k c. (k, Some c) \<in> set (iter ents) \<longrightarrow> load_config_value h2 c \<noteq> None"
      using vals v2 by (metis iterates_mem [OF it])
    obtain h' acc where h': "copy_entries ?m (iter ents) h2 = Some h'" "wf_heap h'"
        "hp_next h2 \<le> hp_next h'" "\<forall>x < hp_next h2. x \<noteq> ?m \<longrightarrow> hp_cells h' x = hp_cells h2 x"
        "load_gateways h' ?m = Some acc"
        "\<forall>k. k \<notin> fst ` set (iter ents) \<longrightarrow> fmlookup acc k = None"
        "\<forall>k p. (k, p) \<in> set (iter ents) \<longrightarrow> (\<exists>p'. fmlookup acc k = Some p' \<and> copied h2 h' p p')"
      using copy_entries_correct [OF wf2 start(2,1) d vals2] by auto
    have run: "Gateway_DeepCopyInto iter a out h = Some h'"
      using e2 h'(1) by (simp add: Gateway_DeepCopyInto_def gws Some split_beta Let_def h2_def)
    have lout: "load_gateway h' out = Some (Some ?m)"
      using h'(4) out(1) next2 by (simp add: load_Some_iff cells2)
    have "fmmap (\<lambda>p. Option.bind p (load_config_value h')) acc =
        fmmap (\<lambda>p. Option.bind p (load_config_value h2)) ents"
      by (rule copied_map_value [OF it h'(6,7)])
    also have "\<dots> = fmmap (\<lambda>p. Option.bind p (load_config_value h)) ents"
    proof (rule fmap_ext)
      fix k
      have "Option.bind p (load_config_value h2) = Option.bind p (load_config_value h)"
        if "fmlookup ents k = Some p" for p
        using vals [of k] v2 that by (cases p) auto
      then show "fmlookup (fmmap (\<lambda>p. Option.bind p (load_config_value h2)) ents) k =
          fmlookup (fmmap (\<lambda>p. Option.bind p (load_config_value h)) ents) k"
        by (cases "fmlookup ents k") auto
    qed
    finally have val: "gateway_value h' out = gateway_value h a"
      by (simp add: gateway_value_def lout h'(5) gws Some ents)
    note fresh = copied_map_fresh [OF it h'(6,7) vals2]
    have "gateway_ok h' out"
      using fresh by (simp add: gateway_ok_def lout h'(5) fmpred_iff) blast
    moreover have "gateway_cells h' out \<subseteq> insert out {?m..}"
      using fresh next2 by (auto simp: gateway_cells_def lout h'(5)) (metis Suc_leD)
    moreover have "\<forall>x < ?m. x \<noteq> out \<longrightarrow> hp_cells h' x = hp_cells h x"
      using h'(4) next2 by (simp add: cells2)
    ultimately show ?thesis using run h'(2,3) next2 val by (intro exI [of _ h']) simp
  qed
qed

text \<open>What a pointer to a \<open>Gateway\<close> stands for depends on the cells reachable from it only.\<close>

lemma gateway_cells_typed:
  assumes "gateway_ok h a" and "x \<in> gateway_cells h a"
  shows "load_gateway h x \<noteq> None \<or> load_gateways h x \<noteq> None \<or> load_config_value h x \<noteq> None"
  using assms by (fastforce simp: gateway_ok_def gateway_cells_def fmpred_iff split: option.splits)

lemma gateway_ok_cong:
  assumes ok: "gateway_ok h a" and same: "\<forall>x \<in> gateway_cells h a. hp_cells h' x = hp_cells h x"
  shows "gateway_ok h' a" and "gateway_value h' a = gateway_value h a"
    and "gateway_cells h' a = gateway_cells h a"
proof -
  obtain gws where gws: "load_gateway h a = Some gws" using ok by (auto simp: gateway_ok_def)
  then have gws': "load_gateway h' a = Some gws"
    using same by (simp add: load_gateway_def gateway_cells_def)
  have all: "gateway_ok h' a \<and> gateway_value h' a = gateway_value h a \<and>
      gateway_cells h' a = gateway_cells h a"
  proof (cases gws)
    case None
    then show ?thesis using gws gws' by (simp add: gateway_ok_def gateway_value_def gateway_cells_def)
  next
    case (Some ma)
    obtain ents where ents: "load_gateways h ma = Some ents"
      and vals: "\<And>k c. fmlookup ents k = Some (Some c) \<Longrightarrow> load_config_value h c \<noteq> None"
      using ok gws Some by (fastforce simp: gateway_ok_def fmpred_iff)
    have cells: "gateway_cells h a = {a, ma} \<union> {c. \<exists>k. fmlookup ents k = Some (Some c)}"
      by (auto simp: gateway_cells_def gws Some ents)
    have ents': "load_gateways h' ma = Some ents"
      using ents same by (simp add: load_gateways_def cells)
    have v: "load_config_value h' c = load_config_value h c" if "fmlookup ents k = Some (Some c)" for k c
      using that same by (intro load_cong) (auto simp: cells)
    have "fmmap (\<lambda>p. Option.bind p (load_config_value h')) ents =
          fmmap (\<lambda>p. Option.bind p (load_config_value h)) ents"
    proof (rule fmap_ext)
      fix k
      have "Option.bind p (load_config_value h') = Option.bind p (load_config_value h)"
        if "fmlookup ents k = Some p" for p
        using v [of k] that by (cases p) auto
      then show "fmlookup (fmmap (\<lambda>p. Option.bind p (load_config_value h')) ents) k =
          fmlookup (fmmap (\<lambda>p. Option.bind p (load_config_value h)) ents) k"
        by (cases "fmlookup ents k") auto
    qed
    moreover have "gateway_ok h' a"
      using gws' Some ents' vals v by (fastforce simp: gateway_ok_def fmpred_iff)
    ultimately show ?thesis
      using gws gws' Some ents ents' by (simp add: gateway_value_def gateway_cells_def)
  qed
  then show "gateway_ok h' a" and "gateway_value h' a = gateway_value h a"
    and "gateway_cells h' a = gateway_cells h a" by simp_all
qed

text \<open>The first half of the copy of a \<open>Config\<close>: the struct assignment and the network field.\<close>

definition config_network_step ::
  "'n \<Rightarrow> addr \<Rightarrow> ptr \<Rightarrow> ptr \<Rightarrow> 'n heap \<Rightarrow> 'n heap option" where
  "config_network_step zero out net gw h0 =
     (case net of
        None \<Rightarrow> Some h0
      | Some na \<Rightarrow>
          map_option (\<lambda>(net', h1). store_cell out (ConfigCell net' gw) h1) (copy_network zero na h0))"

lemma config_network_step_correct:
  assumes wf: "wf_heap h0" and out: "hp_cells h0 out = Some (ConfigCell net gw)"
    and ok: "\<forall>na. net = Some na \<longrightarrow> load_network h0 na \<noteq> None"
  obtains h2 net' where "config_network_step zero out net gw h0 = Some h2" "wf_heap h2"
    "hp_next h0 \<le> hp_next h2" "hp_cells h2 out = Some (ConfigCell net' gw)"
    "\<forall>x < hp_next h0. x \<noteq> out \<longrightarrow> hp_cells h2 x = hp_cells h0 x"
    "Option.bind net' (load_network h2) = Option.bind net (load_network h0)"
    "set_option net' \<subseteq> {hp_next h0..}" "\<forall>n. net' = Some n \<longrightarrow> load_network h2 n \<noteq> None"
proof (cases net)
  case None
  show ?thesis
    by (rule that [of h0 None]) (use wf out None in \<open>simp_all add: config_network_step_def\<close>)
next
  case (Some na)
  with ok obtain n where n: "load_network h0 na = Some n" by auto
  have na: "na < hp_next h0" "out < hp_next h0"
    using load_bound(4) [OF wf n] wf_heap_bound [OF wf out] by simp_all
  let ?h1 = "store_cell (hp_next h0) (NetworkCell n) (snd (new_cell (NetworkCell zero) h0))"
  let ?h2 = "store_cell out (ConfigCell (Some (hp_next h0)) gw) ?h1"
  have w: "wf_heap ?h2" using wf na(2) by (intro wf_store_cell wf_new_cell) simp_all
  have l: "load_network (snd (new_cell (NetworkCell zero) h0)) na = Some n"
    using n na(1) by (simp add: load_network_def)
  have e: "config_network_step zero out net gw h0 = Some ?h2"
    by (simp add: config_network_step_def Some copy_network_def split_beta Let_def l)
  have "load_network ?h2 (hp_next h0) = Some n" using na(2) by (simp add: load_Some_iff)
  then show ?thesis using n na(2) Some
    by (intro that [OF e w, of "Some (hp_next h0)"]) simp_all
qed

lemma Config_DeepCopyInto_alt:
  "Config_DeepCopyInto zero iter src out h =
     Option.bind (load_config h src) (\<lambda>(net, gw).
       Option.bind (config_network_step zero out net gw (store_cell out (ConfigCell net gw) h))
         (\<lambda>h2. case gw of
            None \<Rightarrow> Some h2
          | Some ga \<Rightarrow>
              (let (g, h3) = new_cell (GatewayCell None) h2
               in Option.bind (load_config h3 out)
                    (\<lambda>(net', _). Gateway_DeepCopyInto iter ga g
                       (store_cell out (ConfigCell net' (Some g)) h3)))))"
  by (simp add: Config_DeepCopyInto_def config_network_step_def Let_def)

lemma Config_DeepCopyInto_correct:
  assumes it: "iterates iter id" and wf: "wf_heap h" and ok: "config_ok h a"
    and out: "hp_cells h out = Some (ConfigCell n0 g0)" "out \<noteq> a"
  shows "\<exists>h'. Config_DeepCopyInto zero iter a out h = Some h' \<and> wf_heap h' \<and> hp_next h \<le> hp_next h' \<and>
     (\<forall>x < hp_next h. x \<noteq> out \<longrightarrow> hp_cells h' x = hp_cells h x) \<and>
     config_value h' out = config_value h a \<and> config_cells h' out \<subseteq> insert out {hp_next h..}"
proof -
  obtain net gw where c: "load_config h a = Some (net, gw)"
    and netok: "\<And>na. net = Some na \<Longrightarrow> load_network h na \<noteq> None"
    and gwok: "\<And>ga. gw = Some ga \<Longrightarrow> gateway_ok h ga"
    using ok by (auto simp: config_ok_def)
  let ?h0 = "store_cell out (ConfigCell net gw) h"
  have outb: "out < hp_next h" using wf_heap_bound [OF wf out(1)] .
  have wf0: "wf_heap ?h0" using wf outb by (simp add: wf_store_cell)
  have n0: "load_network ?h0 x = load_network h x" if "load_network h x \<noteq> None" for x
    using that out(1) by (auto simp: load_network_def)
  obtain h2 net' where h2: "config_network_step zero out net gw ?h0 = Some h2" "wf_heap h2"
    "hp_next ?h0 \<le> hp_next h2" "hp_cells h2 out = Some (ConfigCell net' gw)"
    "\<forall>x < hp_next ?h0. x \<noteq> out \<longrightarrow> hp_cells h2 x = hp_cells ?h0 x"
    "Option.bind net' (load_network h2) = Option.bind net (load_network ?h0)"
    "set_option net' \<subseteq> {hp_next ?h0..}" "\<forall>n. net' = Some n \<longrightarrow> load_network h2 n \<noteq> None"
    by (rule config_network_step_correct [OF wf0, of out net gw zero]) (use netok n0 in auto)
  have netv: "Option.bind net' (load_network h2) = Option.bind net (load_network h)"
    using h2(6) netok n0 by (cases net) auto
  show ?thesis
  proof (cases gw)
    case None
    have "load_config h2 out = Some (net', None)" using h2(4) None by (simp add: load_Some_iff)
    then show ?thesis using h2 c None netv
      by (intro exI [of _ h2])
         (auto simp: Config_DeepCopyInto_alt config_value_def config_cells_def)
  next
    case (Some ga)
    let ?g = "hp_next h2"
    define h4 where "h4 = store_cell out (ConfigCell net' (Some ?g)) (snd (new_cell (GatewayCell None) h2))"
    have out2: "out < ?g" using outb h2(3) by simp
    have cells4: "hp_cells h4 x = (if x = out then Some (ConfigCell net' (Some ?g))
        else if x = ?g then Some (GatewayCell None) else hp_cells h2 x)" for x
      by (simp add: h4_def)
    have next4: "hp_next h4 = Suc ?g" by (simp add: h4_def)
    have wf4: "wf_heap h4" using h2(2) out2 unfolding h4_def by (intro wf_store_cell wf_new_cell) simp_all
    have low: "hp_cells h4 x = hp_cells h x" if "x < hp_next h" "x \<noteq> out" for x
      using that h2(3,5) by (simp add: cells4)
    have typed: "x < hp_next h \<and> x \<noteq> out" if "x \<in> gateway_cells h ga" for x
      using gateway_cells_typed [OF gwok [OF Some] that] out(1) load_bound [OF wf, of x]
      by (auto simp: load_Some_iff)
    then have same: "\<forall>x \<in> gateway_cells h ga. hp_cells h4 x = hp_cells h x" using low by blast
    note ga4 = gateway_ok_cong [OF gwok [OF Some] same]
    have ne: "?g \<noteq> ga" using typed [of ga] h2(3) by (auto simp: gateway_cells_def)
    have g4: "load_gateway h4 ?g \<noteq> None" using out2 by (simp add: load_gateway_def cells4)
    obtain h' where h': "Gateway_DeepCopyInto iter ga ?g h4 = Some h'" "wf_heap h'"
        "hp_next h4 \<le> hp_next h'" "\<forall>x < hp_next h4. x \<noteq> ?g \<longrightarrow> hp_cells h' x = hp_cells h4 x"
        "gateway_value h' ?g = gateway_value h4 ga" "gateway_ok h' ?g"
        "gateway_cells h' ?g \<subseteq> insert ?g {hp_next h4..}"
      using Gateway_DeepCopyInto_correct [OF it wf4 ga4(1), of ?g] g4 ne next4 by auto
    have l3: "load_config (snd (new_cell (GatewayCell None) h2)) out = Some (net', gw)"
      using h2(4) out2 by (simp add: load_Some_iff)
    have run: "Config_DeepCopyInto zero iter a out h = Some h'"
      using h'(1) l3 h2(1) by (simp add: Config_DeepCopyInto_alt c Some split_beta Let_def h4_def)
    have lout: "load_config h' out = Some (net', Some ?g)"
      using h'(4) out2 next4 by (simp add: load_Some_iff cells4)
    have "load_network h' n = load_network h2 n" if "net' = Some n" for n
    proof -
      have "n < ?g" "n \<noteq> out"
        using h2(4,8) that load_bound(4) [OF h2(2), of n] by (auto simp: load_Some_iff)
      then show ?thesis using h'(4) next4 by (intro load_cong) (simp add: cells4)
    qed
    then have "Option.bind net' (load_network h') = Option.bind net' (load_network h2)"
      by (cases net') simp_all
    then have "config_value h' out = config_value h a"
      by (simp add: config_value_def lout c Some h'(5) ga4(2) netv)
    moreover have "config_cells h' out \<subseteq> insert out {hp_next h..}"
      using h'(7) h2(3,7) next4 by (auto simp: config_cells_def lout)
    moreover have "\<forall>x < hp_next h. x \<noteq> out \<longrightarrow> hp_cells h' x = hp_cells h x"
      using h'(4) next4 h2(3) low by simp
    ultimately show ?thesis using run h'(2,3) h2(3) next4 by (intro exI [of _ h']) simp
  qed
qed


lemma gateway_cells_bound:
  assumes "wf_heap h" and "gateway_ok h a" and "x \<in> gateway_cells h a"
  shows "x < hp_next h"
  using gateway_cells_typed [OF assms(2,3)] load_bound(1-3) [OF assms(1), of x] by auto

lemma Gateway_DeepCopy_correct:
  assumes it: "iterates iter id" and wf: "wf_heap h" and ok: "gateway_ok h a"
  shows "\<exists>b h'. Gateway_DeepCopy iter (Some a) h = Some (Some b, h') \<and> wf_heap h' \<and>
     untouched (hp_next h) h h' \<and> gateway_value h' b = gateway_value h a \<and> gateway_ok h' b \<and>
     gateway_cells h' b \<subseteq> {hp_next h..}"
proof -
  let ?h1 = "snd (new_cell (GatewayCell None) h)"
  have w: "wf_heap ?h1" by (rule wf_new_cell [OF wf])
  have same: "\<forall>x \<in> gateway_cells h a. hp_cells ?h1 x = hp_cells h x"
    using gateway_cells_bound [OF wf ok] by (simp add: less_imp_neq)
  note ok1 = gateway_ok_cong [OF ok same]
  have ne: "hp_next h \<noteq> a"
    using ok load_bound(3) [OF wf] by (auto simp: gateway_ok_def)
  have "load_gateway ?h1 (hp_next h) \<noteq> None" by (simp add: load_gateway_def)
  then obtain h' where h': "Gateway_DeepCopyInto iter a (hp_next h) ?h1 = Some h'" "wf_heap h'"
      "\<forall>x < Suc (hp_next h). x \<noteq> hp_next h \<longrightarrow> hp_cells h' x = hp_cells ?h1 x"
      "gateway_value h' (hp_next h) = gateway_value ?h1 a" "gateway_ok h' (hp_next h)"
      "gateway_cells h' (hp_next h) \<subseteq> insert (hp_next h) {Suc (hp_next h)..}"
    using Gateway_DeepCopyInto_correct [OF it w ok1(1), of "hp_next h"] ne by auto
  have "Gateway_DeepCopy iter (Some a) h = Some (Some (hp_next h), h')"
    using h'(1) by (simp add: Gateway_DeepCopy_def split_beta Let_def)
  moreover have "untouched (hp_next h) h h'" using h'(3) by (simp add: untouched_def)
  moreover have "gateway_cells h' (hp_next h) \<subseteq> {hp_next h..}" using h'(6) by fastforce
  ultimately show ?thesis using h'(2,4,5) ok1(2) by auto
qed

lemma Config_DeepCopy_correct:
  assumes it: "iterates iter id" and wf: "wf_heap h" and ok: "config_ok h a"
  shows "\<exists>b h'. Config_DeepCopy zero iter (Some a) h = Some (Some b, h') \<and> wf_heap h' \<and>
     untouched (hp_next h) h h' \<and> config_value h' b = config_value h a \<and>
     config_cells h' b \<subseteq> {hp_next h..}"
proof -
  let ?h1 = "snd (new_cell (ConfigCell None None) h)"
  have w: "wf_heap ?h1" by (rule wf_new_cell [OF wf])
  obtain net gw where c: "load_config h a = Some (net, gw)"
    and n: "\<And>na. net = Some na \<Longrightarrow> load_network h na \<noteq> None"
    and g: "\<And>ga. gw = Some ga \<Longrightarrow> gateway_ok h ga"
    using ok by (auto simp: config_ok_def)
  have a: "a < hp_next h" using load_bound(5) [OF wf c] .
  have same: "\<forall>x \<in> gateway_cells h ga. hp_cells ?h1 x = hp_cells h x" if "gw = Some ga" for ga
    using gateway_cells_bound [OF wf g [OF that]] by (simp add: less_imp_neq)
  have c1: "load_config ?h1 a = Some (net, gw)" using c a by (simp add: load_config_def)
  have n1: "load_network ?h1 na = load_network h na" if "net = Some na" for na
    using n [OF that] load_bound(4) [OF wf, of na] by (auto simp: load_network_def)
  have ok1: "config_ok ?h1 a"
    using c1 n n1 gateway_ok_cong(1) [OF g same] by (fastforce simp: config_ok_def)
  have v1: "config_value ?h1 a = config_value h a"
    using n1 gateway_ok_cong(2) [OF g same]
    by (cases net; cases gw) (auto simp: config_value_def c c1)
  have out: "hp_cells ?h1 (hp_next h) = Some (ConfigCell None None)" by simp
  obtain h' where h': "Config_DeepCopyInto zero iter a (hp_next h) ?h1 = Some h'" "wf_heap h'"
      "\<forall>x < Suc (hp_next h). x \<noteq> hp_next h \<longrightarrow> hp_cells h' x = hp_cells ?h1 x"
      "config_value h' (hp_next h) = config_value ?h1 a"
      "config_cells h' (hp_next h) \<subseteq> insert (hp_next h) {Suc (hp_next h)..}"
    using Config_DeepCopyInto_correct [OF it w ok1 out, of zero] a by auto
  have "Config_DeepCopy zero iter (Some a) h = Some (Some (hp_next h), h')"
    using h'(1) by (simp add: Config_DeepCopy_def split_beta Let_def)
  moreover have "untouched (hp_next h) h h'" using h'(3) by (simp add: untouched_def)
  moreover have "config_cells h' (hp_next h) \<subseteq> {hp_next h..}" using h'(5) by fastforce
  ultimately show ?thesis using h'(2,4) v1 by auto
qed


section \<open>Properties\<close>

text \<open>C16. A deep copy of a configuration stands for the same configuration and shares nothing with it: it
  succeeds on every well-formed store, every cell reachable from the copy is new, and no cell that
  existed before has changed.\<close>

theorem config_deep_copy:
  assumes "iterates iter id" and "wf_heap h" and "config_ok h a"
  shows "\<exists>b h'. Config_DeepCopy zero iter (Some a) h = Some (Some b, h') \<and> wf_heap h' \<and>
     config_value h' b = config_value h a \<and>
     config_cells h' b \<inter> config_cells h a = {} \<and>
     (\<forall>x. hp_cells h x \<noteq> None \<longrightarrow> hp_cells h' x = hp_cells h x)"
proof -
  obtain b h' where c: "Config_DeepCopy zero iter (Some a) h = Some (Some b, h')" "wf_heap h'"
      "untouched (hp_next h) h h'" "config_value h' b = config_value h a"
      "config_cells h' b \<subseteq> {hp_next h..}"
    using Config_DeepCopy_correct [OF assms, of zero] by blast
  obtain net gw where l: "load_config h a = Some (net, gw)"
    and n: "\<And>na. net = Some na \<Longrightarrow> load_network h na \<noteq> None"
    and g: "\<And>ga. gw = Some ga \<Longrightarrow> gateway_ok h ga"
    using assms(3) by (auto simp: config_ok_def)
  have "x < hp_next h" if x: "x \<in> config_cells h a" for x
  proof -
    consider "x = a" | "net = Some x" | ga where "gw = Some ga" "x \<in> gateway_cells h ga"
      using x by (auto simp: config_cells_def l split: option.splits)
    then show ?thesis
    proof cases
      case 1
      then show ?thesis using load_bound(5) [OF assms(2) l] by simp
    next
      case 2
      then show ?thesis using n load_bound(4) [OF assms(2), of x] by auto
    next
      case 3
      then show ?thesis using gateway_cells_bound [OF assms(2) g] by blast
    qed
  qed
  then have "config_cells h' b \<inter> config_cells h a = {}" using c(5) by fastforce
  moreover have "\<forall>x. hp_cells h x \<noteq> None \<longrightarrow> hp_cells h' x = hp_cells h x"
    using c(3) wf_heap_bound [OF assms(2)] by (auto simp: untouched_def)
  ultimately show ?thesis using c(1,2,4) by blast
qed

definition sample_heap :: "nat heap" where
  "sample_heap = \<lparr>hp_next = 5, hp_cells =
     [0 \<mapsto> ConfigCell (Some 1) (Some 2), 1 \<mapsto> NetworkCell 7, 2 \<mapsto> GatewayCell (Some 3),
      3 \<mapsto> GatewaysCell (fmap_of_list [(''ClusterLocal'', Some 4)]),
      4 \<mapsto> GatewayConfigCell zero_gateway_config]\<rparr>"

theorem config_deep_copy_witness:
  "\<exists>b h'. Config_DeepCopy 0 range_strings (Some 0) sample_heap = Some (Some b, h') \<and>
     config_value h' b = config_value sample_heap 0 \<and> hp_cells h' 4 = hp_cells sample_heap 4"
proof -
  have w: "wf_heap sample_heap" by (simp add: wf_heap_def sample_heap_def)
  have ok: "config_ok sample_heap 0"
    by (simp add: config_ok_def gateway_ok_def load_defs sample_heap_def fmpred_iff)
  have "hp_cells sample_heap 4 \<noteq> None" by (simp add: sample_heap_def)
  with config_deep_copy [OF iterates_range_strings w ok, of 0] show ?thesis by blast
qed

text \<open>The same for a \<open>Gateway\<close>, whose map of pointers is the part where a shallow copy would share:
  the copied configurations behind the map are new cells too, and a nil pointer in the map stays
  nil.\<close>

theorem gateway_deep_copy:
  assumes "iterates iter id" and "wf_heap h" and "gateway_ok h a"
  shows "\<exists>b h'. Gateway_DeepCopy iter (Some a) h = Some (Some b, h') \<and>
     gateway_value h' b = gateway_value h a \<and> gateway_ok h' b \<and>
     gateway_cells h' b \<inter> gateway_cells h a = {} \<and>
     (\<forall>x. hp_cells h x \<noteq> None \<longrightarrow> hp_cells h' x = hp_cells h x)"
proof -
  obtain b h' where c: "Gateway_DeepCopy iter (Some a) h = Some (Some b, h')"
      "untouched (hp_next h) h h'" "gateway_value h' b = gateway_value h a" "gateway_ok h' b"
      "gateway_cells h' b \<subseteq> {hp_next h..}"
    using Gateway_DeepCopy_correct [OF assms] by blast
  have "gateway_cells h' b \<inter> gateway_cells h a = {}"
    using c(5) gateway_cells_bound [OF assms(2,3)] by fastforce
  moreover have "\<forall>x. hp_cells h x \<noteq> None \<longrightarrow> hp_cells h' x = hp_cells h x"
    using c(2) wf_heap_bound [OF assms(2)] by (auto simp: untouched_def)
  ultimately show ?thesis using c(1,3,4) by blast
qed

theorem gateway_deep_copy_witness:
  "\<exists>b h'. Gateway_DeepCopy range_strings (Some 2) sample_heap = Some (Some b, h') \<and>
     gateway_value h' b = gateway_value sample_heap 2"
proof -
  have w: "wf_heap sample_heap" by (simp add: wf_heap_def sample_heap_def)
  have ok: "gateway_ok sample_heap 2"
    by (simp add: gateway_ok_def load_defs sample_heap_def fmpred_iff)
  from gateway_deep_copy [OF iterates_range_strings w ok] show ?thesis by blast
qed

end
