(* ===== verification/GoPath.thy ===== *)
theory GoPath
  imports Prelude
begin

text \<open>
  \<open>path.Join\<close> and \<open>path.Clean\<close> of Go's standard library, on the elements between the slashes. The
  REST client builds the paths of its requests with them.
\<close>

section \<open>Joining and splitting\<close>

fun join_with :: "char \<Rightarrow> string list \<Rightarrow> string" where
  "join_with c [] = []"
| "join_with c [p] = p"
| "join_with c (p # q # ps) = p @ c # join_with c (q # ps)"

lemma split_join:
  assumes "ps \<noteq> []" and "\<forall>p \<in> set ps. c \<notin> set p"
  shows "split_on c (join_with c ps) = ps"
  using assms
  by (induction c ps rule: join_with.induct) (simp_all add: split_on_no_sep split_on_append_sep)

lemma join_with_prefix: "join_with c ((a # p) # ps) = a # join_with c (p # ps)"
  by (cases ps) simp_all

lemma join_with_Cons: "qs \<noteq> [] \<Longrightarrow> join_with c (p # qs) = p @ c # join_with c qs"
  by (cases qs) auto

lemma join_split [simp]: "join_with c (split_on c s) = s"
proof (induction s)
  case (Cons x xs)
  then show ?case by (auto simp: join_with_Cons join_with_prefix split: list.splits)
qed simp

section \<open>Clean and Join\<close>

text \<open>
  \<open>acc\<close> holds the elements written so far, the last one first. A \<open>..\<close> removes the last element; at
  the root it is dropped, and in a relative path that has nothing to remove it is kept.
\<close>

fun clean_elements :: "bool \<Rightarrow> string list \<Rightarrow> string list \<Rightarrow> string list" where
  "clean_elements rooted acc [] = rev acc"
| "clean_elements rooted acc (s # ss) =
     (if s = '''' \<or> s = ''.'' then clean_elements rooted acc ss
      else if s = ''..'' then
        (if acc \<noteq> [] \<and> hd acc \<noteq> ''..'' then clean_elements rooted (tl acc) ss
         else if rooted then clean_elements rooted acc ss
         else clean_elements rooted (s # acc) ss)
      else clean_elements rooted (s # acc) ss)"

definition path_Clean :: "string \<Rightarrow> string" where
  "path_Clean p =
     (if p = '''' then ''.''
      else let rooted = (hd p = CHR ''/'');
               es = clean_elements rooted [] (split_on CHR ''/'' p)
           in if rooted then CHR ''/'' # join_with CHR ''/'' es
              else if es = [] then ''.''
              else join_with CHR ''/'' es)"

definition path_Join :: "string list \<Rightarrow> string" where
  "path_Join elems =
     (let es = filter (\<lambda>e. e \<noteq> '''') elems
      in if es = [] then '''' else path_Clean (join_with CHR ''/'' es))"

section \<open>Elements that cleaning keeps\<close>

definition plain_element :: "string \<Rightarrow> bool" where
  "plain_element s \<longleftrightarrow> s \<noteq> '''' \<and> s \<noteq> ''.'' \<and> s \<noteq> ''..'' \<and> CHR ''/'' \<notin> set s"

text \<open>The absolute path of some elements.\<close>

definition abs_path :: "string list \<Rightarrow> string" where
  "abs_path es = CHR ''/'' # join_with CHR ''/'' es"

lemma clean_plain:
  "list_all plain_element ss \<Longrightarrow> clean_elements rooted acc ss = rev acc @ ss"
  by (induction ss arbitrary: acc) (auto simp: plain_element_def)

lemma clean_empty_first [simp]: "clean_elements rooted acc ('''' # ss) = clean_elements rooted acc ss"
  by simp

lemma plain_no_slash: "list_all plain_element ss \<Longrightarrow> \<forall>p \<in> set ss. CHR ''/'' \<notin> set p"
  by (auto simp: list_all_iff plain_element_def)

lemma split_abs_path:
  "list_all plain_element es \<Longrightarrow> split_on CHR ''/'' (abs_path es) = (if es = [] then ['''', ''''] else '''' # es)"
  by (auto simp: abs_path_def split_join plain_no_slash)

lemma abs_path_inj:
  assumes "abs_path es = abs_path fs" and "list_all plain_element es" and "list_all plain_element fs"
  shows "es = fs"
  using arg_cong [OF assms(1), of "split_on CHR ''/''"] split_abs_path [OF assms(2)]
    split_abs_path [OF assms(3)] assms(2,3)
  by (auto simp: plain_element_def split: if_splits)

lemma join_with_append:
  "ps \<noteq> [] \<Longrightarrow> qs \<noteq> [] \<Longrightarrow> join_with c (ps @ qs) = join_with c ps @ c # join_with c qs"
  by (induction c ps rule: join_with.induct) (auto simp: neq_Nil_conv)

text \<open>Joining plain elements to an absolute path of plain elements appends them.\<close>

lemma path_Join_abs:
  assumes "list_all plain_element es" and "list_all plain_element fs"
  shows "path_Join (abs_path es # fs) = abs_path (es @ fs)"
proof -
  have flt: "filter (\<lambda>e. e \<noteq> '''') (abs_path es # fs) = abs_path es # fs"
    using assms(2) by (induction fs) (auto simp: abs_path_def plain_element_def)
  have noslash: "\<forall>p \<in> set (es @ fs). CHR ''/'' \<notin> set p"
    using assms plain_no_slash by auto
  have j: "join_with CHR ''/'' (abs_path es # fs) =
      (if fs = [] then abs_path es else abs_path es @ CHR ''/'' # join_with CHR ''/'' fs)"
    by (simp add: join_with_Cons)
  have split: "\<exists>pre. split_on CHR ''/'' (join_with CHR ''/'' (abs_path es # fs)) = '''' # pre @ fs \<and>
      (pre = es \<or> es = [] \<and> pre = [''''])"
  proof (cases "fs = []")
    case True
    with j split_abs_path [OF assms(1)] show ?thesis by (cases "es = []") auto
  next
    case False
    show ?thesis
    proof (cases "es = []")
      case True
      with False j noslash show ?thesis by (simp add: abs_path_def split_join)
    next
      case esne: False
      then have "join_with CHR ''/'' (abs_path es # fs) = CHR ''/'' # join_with CHR ''/'' (es @ fs)"
        using j False by (simp add: abs_path_def join_with_append)
      with esne noslash show ?thesis by (simp add: split_join)
    qed
  qed
  then have "clean_elements True [] (split_on CHR ''/'' (join_with CHR ''/'' (abs_path es # fs))) = es @ fs"
    using clean_plain [of "es @ fs" True "[]"] clean_plain [of fs True "[]"] assms by auto
  moreover have "join_with CHR ''/'' (abs_path es # fs) \<noteq> '''' \<and>
      hd (join_with CHR ''/'' (abs_path es # fs)) = CHR ''/''"
    unfolding j by (simp add: abs_path_def)
  ultimately have "path_Clean (join_with CHR ''/'' (abs_path es # fs)) = abs_path (es @ fs)"
    unfolding path_Clean_def Let_def by (simp add: abs_path_def)
  then show ?thesis unfolding path_Join_def flt Let_def by simp
qed

lemma path_Join_abs_skip [simp]:
  "path_Join (p # '''' # qs) = path_Join (p # qs)"
  "path_Join (p # q # '''' # qs) = path_Join (p # q # qs)"
  "path_Join (p # q # r # '''' # qs) = path_Join (p # q # r # qs)"
  by (simp_all add: path_Join_def)

end
