(* ===== verification/RestClient.thy ===== *)
theory RestClient
  imports GoPath Meta
begin

text \<open>
  The REST client of \<open>k8s.io/client-go/rest\<close> as the typed clients use it: the chained builder of a
  request with its sticky error, the URL it asks for, the check before sending, the retry loop and
  the reading of the response. The transport, the rate limiter, the parameter codec, the encoder
  and the decoders are fields of the client; they act on a world of type \<open>'w\<close>. The base URL's host,
  metrics, logging, warnings and the back-off manager are left out.
\<close>

section \<open>Options\<close>

record get_options =
  go_ResourceVersion :: string

record list_options =
  lo_LabelSelector :: string
  lo_FieldSelector :: string
  lo_Watch :: bool
  lo_AllowWatchBookmarks :: bool
  lo_ResourceVersion :: string
  lo_ResourceVersionMatch :: string
  lo_TimeoutSeconds :: "go_int option"
  lo_Limit :: go_int
  lo_Continue :: string

record create_options =
  co_DryRun :: "string list"
  co_FieldManager :: string

record update_options =
  uo_DryRun :: "string list"
  uo_FieldManager :: string

record patch_options =
  po_DryRun :: "string list"
  po_Force :: "bool option"
  po_FieldManager :: string

record preconditions =
  pc_UID :: "string option"
  pc_ResourceVersion :: "string option"

record delete_options =
  do_GracePeriodSeconds :: "go_int option"
  do_Preconditions :: "preconditions option"
  do_OrphanDependents :: "bool option"
  do_PropagationPolicy :: "string option"
  do_DryRun :: "string list"

text \<open>The objects passed to the parameter codec, and those passed as a body.\<close>

datatype param_object =
    GetParams get_options
  | ListParams list_options
  | CreateParams create_options
  | UpdateParams update_options
  | PatchParams patch_options

datatype 'o body_object = ObjectBody 'o | DeleteBody delete_options | BytesBody string

section \<open>Requests and responses\<close>

type_synonym url_values = "(string, string list) fmap"

text \<open>Errors of the builder, in the words of the source without their arguments.\<close>

datatype request_error =
    AlreadySet string string string       \<comment> \<open>what is already set, its value and the new one\<close>
  | InvalidSegment string string          \<comment> \<open>what is invalid, and its value\<close>
  | EmptyName
  | ParamError error
  | EncodeError error

record rest_request =
  rq_timeout :: go_int
  rq_maxRetries :: nat
  rq_verb :: string
  rq_pathPrefix :: string
  rq_params :: "url_values"
  rq_headers :: "url_values"
  rq_namespace :: string
  rq_namespaceSet :: bool
  rq_resource :: string
  rq_resourceName :: string
  rq_subresource :: string
  rq_err :: "request_error option"
  rq_body :: "string option"

text \<open>What goes over the wire: \<open>hq_timeout\<close> is the query parameter, \<open>hq_deadline\<close> the deadline of the context.\<close>

record http_request =
  hq_verb :: string
  hq_path :: string
  hq_query :: "url_values"
  hq_timeout :: "go_int option"
  hq_deadline :: "go_int option"
  hq_headers :: "url_values"
  hq_body :: "string option"

record http_response =
  hp_StatusCode :: nat
  hp_RetryAfter :: string
  hp_ContentType :: string
  hp_Body :: "error + string"

text \<open>An error of the transport, with the answers of the classifiers in \<open>apimachinery/pkg/util/net\<close>.\<close>

record net_error =
  ne_IsConnectionReset :: bool
  ne_IsProbableEOF :: bool
  ne_IsTimeout :: bool
  ne_error :: error

record api_status =
  as_Status :: string
  as_Reason :: status_reason
  as_Name :: string

text \<open>What a decoder makes of a body: the object asked for, a status, or something else.\<close>

datatype 'a decoded = Decoded 'a | DecodedStatus api_status | DecodedOther

datatype rest_error =
    BuilderError request_error
  | NamespaceRequired string              \<comment> \<open>the check before sending\<close>
  | TransportError error
  | ThrottleError error
  | ResponseReadError error
  | ContentTypeError error
  | ServerError nat string string string  \<comment> \<open>status code, verb, resource and name\<close>
  | APIError status_reason string         \<comment> \<open>\<open>errors.FromObject\<close> of a status\<close>
  | NoSerializer string
  | EmptyResponse nat string
  | DecodeError error
  | StreamError error
  | UnexpectedStatus nat

text \<open>
  The client. \<open>rc_Decoder\<close> negotiates a serializer, named by a string, from a media type; the
  \<open>rc_Decode\<close> fields decode with it, and \<open>rc_newObject\<close> and \<open>rc_newList\<close> are the empty values decoded into.
\<close>

record ('o, 'l, 'w) rest_client =
  rc_basePath :: string
  rc_versionedAPIPath :: string
  rc_timeout :: go_int
  rc_ContentType :: string
  rc_AcceptContentTypes :: string
  rc_EncodeParameters :: "param_object \<Rightarrow> error + url_values"
  rc_Encode :: "'o body_object \<Rightarrow> error + string"
  rc_ParseMediaType :: "string \<Rightarrow> error + string"
  rc_Decoder :: "string \<Rightarrow> error + string"
  rc_newObject :: 'o
  rc_newList :: 'l
  rc_DecodeObject :: "string \<Rightarrow> string \<Rightarrow> error + 'o decoded"
  rc_DecodeList :: "string \<Rightarrow> string \<Rightarrow> error + 'l decoded"
  rc_DecodeStatus :: "string \<Rightarrow> string \<Rightarrow> api_status option"
  rc_StreamDecoder :: "string \<Rightarrow> error option"
  rc_Throttle :: "'w \<Rightarrow> error option \<times> 'w"
  rc_Transport :: "http_request \<Rightarrow> 'w \<Rightarrow> (net_error + http_response) \<times> 'w"


section \<open>The builder\<close>

definition IsValidPathSegmentName :: "string \<Rightarrow> string list" where
  "IsValidPathSegmentName name =
     (if name = ''.'' \<or> name = ''..'' then [''may not be '' @ name]
      else (if CHR ''/'' \<in> set name then [''may not contain /''] else []) @
           (if CHR ''%'' \<in> set name then [''may not contain %''] else []))"

definition SetHeader :: "string \<Rightarrow> string list \<Rightarrow> rest_request \<Rightarrow> rest_request" where
  "SetHeader key vs r = r\<lparr>rq_headers := (if vs = [] then fmdrop key (rq_headers r) else fmupd key vs (rq_headers r))\<rparr>"

definition NewRequest :: "('o, 'l, 'w) rest_client \<Rightarrow> rest_request" where
  "NewRequest c =
     (let r = \<lparr>rq_timeout = rc_timeout c, rq_maxRetries = 10, rq_verb = '''',
               rq_pathPrefix = path_Join [''/'', rc_basePath c, rc_versionedAPIPath c],
               rq_params = fmempty, rq_headers = fmempty, rq_namespace = '''', rq_namespaceSet = False,
               rq_resource = '''', rq_resourceName = '''', rq_subresource = '''', rq_err = None, rq_body = None\<rparr>
      in if rc_AcceptContentTypes c \<noteq> '''' then SetHeader ''Accept'' [rc_AcceptContentTypes c] r
         else if rc_ContentType c \<noteq> '''' then SetHeader ''Accept'' [rc_ContentType c @ '', */*''] r
         else r)"

definition rest_Verb :: "string \<Rightarrow> ('o, 'l, 'w) rest_client \<Rightarrow> rest_request" where
  "rest_Verb v c = (NewRequest c)\<lparr>rq_verb := v\<rparr>"

definition rest_Get :: "('o, 'l, 'w) rest_client \<Rightarrow> rest_request" where
  "rest_Get = rest_Verb ''GET''"

definition rest_Post :: "('o, 'l, 'w) rest_client \<Rightarrow> rest_request" where
  "rest_Post = rest_Verb ''POST''"

definition rest_Put :: "('o, 'l, 'w) rest_client \<Rightarrow> rest_request" where
  "rest_Put = rest_Verb ''PUT''"

definition rest_Patch :: "string \<Rightarrow> ('o, 'l, 'w) rest_client \<Rightarrow> rest_request" where
  "rest_Patch pt c = SetHeader ''Content-Type'' [pt] (rest_Verb ''PATCH'' c)"

definition rest_Delete :: "('o, 'l, 'w) rest_client \<Rightarrow> rest_request" where
  "rest_Delete = rest_Verb ''DELETE''"

text \<open>A setter does nothing once an error is recorded.\<close>

definition unless_err :: "(rest_request \<Rightarrow> rest_request) \<Rightarrow> rest_request \<Rightarrow> rest_request" where
  "unless_err f r = (if rq_err r \<noteq> None then r else f r)"

definition fail_request :: "request_error \<Rightarrow> rest_request \<Rightarrow> rest_request" where
  "fail_request e r = r\<lparr>rq_err := Some e\<rparr>"

definition req_Namespace :: "string \<Rightarrow> rest_request \<Rightarrow> rest_request" where
  "req_Namespace ns = unless_err (\<lambda>r.
     if rq_namespaceSet r then fail_request (AlreadySet ''namespace'' (rq_namespace r) ns) r
     else if IsValidPathSegmentName ns \<noteq> [] then fail_request (InvalidSegment ''namespace'' ns) r
     else r\<lparr>rq_namespaceSet := True, rq_namespace := ns\<rparr>)"

definition req_Resource :: "string \<Rightarrow> rest_request \<Rightarrow> rest_request" where
  "req_Resource res = unless_err (\<lambda>r.
     if rq_resource r \<noteq> '''' then fail_request (AlreadySet ''resource'' (rq_resource r) res) r
     else if IsValidPathSegmentName res \<noteq> [] then fail_request (InvalidSegment ''resource'' res) r
     else r\<lparr>rq_resource := res\<rparr>)"

definition req_Name :: "string \<Rightarrow> rest_request \<Rightarrow> rest_request" where
  "req_Name name = unless_err (\<lambda>r.
     if name = '''' then fail_request EmptyName r
     else if rq_resourceName r \<noteq> '''' then fail_request (AlreadySet ''resource name'' (rq_resourceName r) name) r
     else if IsValidPathSegmentName name \<noteq> [] then fail_request (InvalidSegment ''resource name'' name) r
     else r\<lparr>rq_resourceName := name\<rparr>)"

text \<open>The first invalid one of the subresources is reported.\<close>

definition req_SubResource :: "string list \<Rightarrow> rest_request \<Rightarrow> rest_request" where
  "req_SubResource subs = unless_err (\<lambda>r.
     if rq_subresource r \<noteq> ''''
     then fail_request (AlreadySet ''subresource'' (rq_subresource r) (path_Join subs)) r
     else case find (\<lambda>s. IsValidPathSegmentName s \<noteq> []) subs of
            Some s \<Rightarrow> fail_request (InvalidSegment ''subresource'' s) r
          | None \<Rightarrow> r\<lparr>rq_subresource := path_Join subs\<rparr>)"

text \<open>The new values of a parameter are appended to those it has.\<close>

definition add_params :: "url_values \<Rightarrow> url_values \<Rightarrow> url_values" where
  "add_params ps qs = fmmap_keys (\<lambda>k vs. (case fmlookup ps k of None \<Rightarrow> [] | Some us \<Rightarrow> us) @ vs) qs"

definition req_VersionedParams ::
  "('o, 'l, 'w) rest_client \<Rightarrow> param_object \<Rightarrow> rest_request \<Rightarrow> rest_request" where
  "req_VersionedParams c obj = unless_err (\<lambda>r.
     case rc_EncodeParameters c obj of
       Inl e \<Rightarrow> fail_request (ParamError e) r
     | Inr ps \<Rightarrow> r\<lparr>rq_params := rq_params r ++\<^sub>f add_params (rq_params r) ps\<rparr>)"

definition req_Timeout :: "go_int \<Rightarrow> rest_request \<Rightarrow> rest_request" where
  "req_Timeout d = unless_err (\<lambda>r. r\<lparr>rq_timeout := d\<rparr>)"

text \<open>Bytes are sent as they are; objects are encoded and set the content type.\<close>

definition req_Body :: "('o, 'l, 'w) rest_client \<Rightarrow> 'o body_object \<Rightarrow> rest_request \<Rightarrow> rest_request" where
  "req_Body c obj = unless_err (\<lambda>r.
     case obj of
       BytesBody bytes \<Rightarrow> r\<lparr>rq_body := Some bytes\<rparr>
     | _ \<Rightarrow> (case rc_Encode c obj of
               Inl e \<Rightarrow> fail_request (EncodeError e) r
             | Inr bytes \<Rightarrow> SetHeader ''Content-Type'' [rc_ContentType c] (r\<lparr>rq_body := Some bytes\<rparr>)))"


section \<open>The URL and the check before sending\<close>

text \<open>\<open>strings.ToLower\<close> on ASCII.\<close>

definition to_lower :: "string \<Rightarrow> string" where
  "to_lower = map (\<lambda>ch. if 65 \<le> (of_char ch :: nat) \<and> of_char ch \<le> (90 :: nat)
                      then char_of (of_char ch + 32 :: nat) else ch)"

definition url_path :: "rest_request \<Rightarrow> string" where
  "url_path r =
     (let p0 = rq_pathPrefix r;
          p1 = (if rq_namespaceSet r \<and> rq_namespace r \<noteq> '''' then path_Join [p0, ''namespaces'', rq_namespace r] else p0);
          p2 = (if rq_resource r \<noteq> '''' then path_Join [p1, to_lower (rq_resource r)] else p1)
      in if rq_resourceName r \<noteq> '''' \<or> rq_subresource r \<noteq> ''''
         then path_Join [p2, rq_resourceName r, rq_subresource r] else p2)"

definition requestPreflightCheck :: "rest_request \<Rightarrow> rest_error option" where
  "requestPreflightCheck r =
     (if \<not> rq_namespaceSet r then None
      else if rq_namespace r \<noteq> '''' then None
      else if rq_verb r = ''POST''
        then Some (NamespaceRequired ''an empty namespace may not be set during creation'')
      else if rq_verb r \<in> {''GET'', ''PUT'', ''DELETE''} \<and> rq_resourceName r \<noteq> ''''
        then Some (NamespaceRequired ''an empty namespace may not be set when a resource name is provided'')
      else None)"

definition wire_request :: "go_int option \<Rightarrow> rest_request \<Rightarrow> http_request" where
  "wire_request deadline r =
     \<lparr>hq_verb = rq_verb r, hq_path = url_path r, hq_query = rq_params r,
      hq_timeout = (if rq_timeout r \<noteq> 0 then Some (rq_timeout r) else None),
      hq_deadline = deadline, hq_headers = rq_headers r, hq_body = rq_body r\<rparr>"

section \<open>Sending\<close>

text \<open>\<open>strconv.Atoi\<close>: the value, or nothing when it returns an error.\<close>

definition Atoi :: "string \<Rightarrow> int option" where
  "Atoi s =
     (let neg = (s \<noteq> '''' \<and> hd s = CHR ''-'');
          digits = (if s \<noteq> '''' \<and> (hd s = CHR ''-'' \<or> hd s = CHR ''+'') then tl s else s)
      in case parse_uint digits of
           Inl _ \<Rightarrow> None
         | Inr un \<Rightarrow> if \<not> neg \<and> 2 ^ 63 \<le> un \<or> neg \<and> 2 ^ 63 < un then None
                    else Some (if neg then - un else un))"

definition retryAfterSeconds :: "http_response \<Rightarrow> int option" where
  "retryAfterSeconds resp = (if hp_RetryAfter resp \<noteq> '''' then Atoi (hp_RetryAfter resp) else None)"

definition checkWait :: "http_response \<Rightarrow> int option" where
  "checkWait resp =
     (if hp_StatusCode resp = 429 \<or> 500 \<le> hp_StatusCode resp then retryAfterSeconds resp else None)"

text \<open>
  One attempt. A connection that is reset or closed early while reading counts as a response that asks
  to come back after a second; writes are not idempotent and return the error.
\<close>

definition attempt ::
  "('o, 'l, 'w) rest_client \<Rightarrow> http_request \<Rightarrow> 'w \<Rightarrow> (rest_error + http_response) \<times> 'w" where
  "attempt c hq w =
     (case rc_Transport c hq w of
        (Inr resp, w') \<Rightarrow> (Inr resp, w')
      | (Inl e, w') \<Rightarrow>
          if hq_verb hq \<noteq> ''GET'' then (Inl (TransportError (ne_error e)), w')
          else if ne_IsConnectionReset e \<or> ne_IsProbableEOF e
          then (Inr \<lparr>hp_StatusCode = 500, hp_RetryAfter = ''1'', hp_ContentType = '''', hp_Body = Inr ''''\<rparr>, w')
          else (Inl (TransportError (ne_error e)), w'))"

text \<open>The retry loop; the first argument counts the retries left.\<close>

primrec request_loop ::
  "nat \<Rightarrow> ('o, 'l, 'w) rest_client \<Rightarrow> http_request \<Rightarrow> 'w \<Rightarrow> (rest_error + http_response) \<times> 'w" where
  "request_loop 0 c hq w = attempt c hq w"
| "request_loop (Suc n) c hq w =
     (case attempt c hq w of
        (Inl e, w1) \<Rightarrow> (Inl e, w1)
      | (Inr resp, w1) \<Rightarrow>
          if checkWait resp = None then (Inr resp, w1)
          else (case rc_Throttle c w1 of
                  (Some e, w2) \<Rightarrow> (Inl (ThrottleError e), w2)
                | (None, w2) \<Rightarrow> request_loop n c hq w2))"

definition req_request ::
  "('o, 'l, 'w) rest_client \<Rightarrow> rest_request \<Rightarrow> 'w \<Rightarrow> (rest_error + http_response) \<times> 'w" where
  "req_request c r w =
     (case rq_err r of
        Some e \<Rightarrow> (Inl (BuilderError e), w)
      | None \<Rightarrow>
          (case requestPreflightCheck r of
             Some e \<Rightarrow> (Inl e, w)
           | None \<Rightarrow>
               (case rc_Throttle c w of
                  (Some e, w1) \<Rightarrow> (Inl (ThrottleError e), w1)
                | (None, w1) \<Rightarrow>
                    request_loop (rq_maxRetries r) c
                      (wire_request (if 0 <s rq_timeout r then Some (rq_timeout r) else None) r) w1)))"

section \<open>Reading the response\<close>

text \<open>\<open>re_unexpected\<close> says that the error is one that a status in the body may replace.\<close>

record rest_result =
  re_body :: string
  re_contentType :: string
  re_statusCode :: nat
  re_decoder :: "string option"
  re_err :: "rest_error option"
  re_unexpected :: bool

definition error_result :: "rest_error \<Rightarrow> rest_result" where
  "error_result e = \<lparr>re_body = '''', re_contentType = '''', re_statusCode = 0, re_decoder = None,
     re_err = Some e, re_unexpected = False\<rparr>"

definition transformResponse ::
  "('o, 'l, 'w) rest_client \<Rightarrow> rest_request \<Rightarrow> http_response \<Rightarrow> rest_result" where
  "transformResponse c r resp =
     (case hp_Body resp of
        Inl e \<Rightarrow> error_result (ResponseReadError e)
      | Inr body \<Rightarrow>
          (let ct = (if hp_ContentType resp = '''' then rc_ContentType c else hp_ContentType resp);
               code = hp_StatusCode resp;
               failed = (code \<noteq> 101 \<and> (code < 200 \<or> 206 < code));
               server_error = ServerError code (rq_verb r) (rq_resource r) (rq_resourceName r);
               result = (\<lambda>dec. \<lparr>re_body = body, re_contentType = ct, re_statusCode = code, re_decoder = dec,
                   re_err = (if failed then Some server_error else None), re_unexpected = failed\<rparr>)
           in if ct = '''' then result None
              else case rc_ParseMediaType c ct of
                Inl e \<Rightarrow> error_result (ContentTypeError e)
              | Inr media \<Rightarrow>
                  (case rc_Decoder c media of
                     Inl e \<Rightarrow> if failed then (error_result server_error)\<lparr>re_unexpected := True\<rparr> else result None
                   | Inr dec \<Rightarrow> result (Some dec))))"

definition req_Do :: "('o, 'l, 'w) rest_client \<Rightarrow> rest_request \<Rightarrow> 'w \<Rightarrow> rest_result \<times> 'w" where
  "req_Do c r w =
     (case req_request c r w of
        (Inl e, w') \<Rightarrow> (error_result e, w')
      | (Inr resp, w') \<Rightarrow> (transformResponse c r resp, w'))"

text \<open>\<open>Result.Error\<close>: a failure status in the body replaces an unexpected server error.\<close>

definition result_Error :: "('o, 'l, 'w) rest_client \<Rightarrow> rest_result \<Rightarrow> rest_error option" where
  "result_Error c res =
     (case re_err res of
        None \<Rightarrow> None
      | Some e \<Rightarrow>
          if \<not> re_unexpected res \<or> re_body res = '''' then Some e
          else (case re_decoder res of
                  None \<Rightarrow> Some e
                | Some dec \<Rightarrow>
                    (case rc_DecodeStatus c dec (re_body res) of
                       None \<Rightarrow> Some e
                     | Some st \<Rightarrow> if as_Status st = ''Failure'' then Some (APIError (as_Reason st) (as_Name st))
                                else Some e)))"

text \<open>\<open>Result.Into\<close>: an object of another kind is no error, and leaves the object empty.\<close>

definition result_Into ::
  "(string \<Rightarrow> string \<Rightarrow> error + 'a decoded) \<Rightarrow> 'a \<Rightarrow> ('o, 'l, 'w) rest_client \<Rightarrow> rest_result \<Rightarrow> rest_error + 'a" where
  "result_Into decode zero c res =
     (case result_Error c res of
        Some e \<Rightarrow> Inl e
      | None \<Rightarrow>
          (case re_decoder res of
             None \<Rightarrow> Inl (NoSerializer (re_contentType res))
           | Some dec \<Rightarrow>
               if re_body res = '''' then Inl (EmptyResponse (re_statusCode res) (re_contentType res))
               else (case decode dec (re_body res) of
                       Inl e \<Rightarrow> Inl (DecodeError e)
                     | Inr (Decoded x) \<Rightarrow> Inr x
                     | Inr (DecodedStatus st) \<Rightarrow>
                         if as_Status st \<noteq> ''Success'' then Inl (APIError (as_Reason st) (as_Name st)) else Inr zero
                     | Inr DecodedOther \<Rightarrow> Inr zero)))"

definition IntoObject :: "('o, 'l, 'w) rest_client \<Rightarrow> rest_result \<times> 'w \<Rightarrow> (rest_error + 'o) \<times> 'w" where
  "IntoObject c = map_prod (result_Into (rc_DecodeObject c) (rc_newObject c) c) id"

definition IntoList :: "('o, 'l, 'w) rest_client \<Rightarrow> rest_result \<times> 'w \<Rightarrow> (rest_error + 'l) \<times> 'w" where
  "IntoList c = map_prod (result_Into (rc_DecodeList c) (rc_newList c) c) id"

definition IntoError :: "('o, 'l, 'w) rest_client \<Rightarrow> rest_result \<times> 'w \<Rightarrow> rest_error option \<times> 'w" where
  "IntoError c = map_prod (result_Error c) id"

text \<open>A watch: an empty one when the connection breaks, or the stream of a response.\<close>

datatype watch_stream = EmptyWatch | StreamWatch http_response

definition req_Watch ::
  "('o, 'l, 'w) rest_client \<Rightarrow> rest_request \<Rightarrow> 'w \<Rightarrow> (rest_error + watch_stream) \<times> 'w" where
  "req_Watch c r w =
     (case rq_err r of
        Some e \<Rightarrow> (Inl (BuilderError e), w)
      | None \<Rightarrow>
          (case rc_Transport c (wire_request None r) w of
             (Inl e, w') \<Rightarrow>
               if ne_IsProbableEOF e \<or> ne_IsTimeout e then (Inr EmptyWatch, w')
               else (Inl (TransportError (ne_error e)), w')
           | (Inr resp, w') \<Rightarrow>
               if hp_StatusCode resp \<noteq> 200
               then (case re_err (transformResponse c r resp) of
                       Some e \<Rightarrow> (Inl e, w')
                     | None \<Rightarrow> (Inl (UnexpectedStatus (hp_StatusCode resp)), w'))
               else (case rc_StreamDecoder c (case rc_ParseMediaType c (hp_ContentType resp) of
                                                Inl _ \<Rightarrow> '''' | Inr media \<Rightarrow> media) of
                       Some e \<Rightarrow> (Inl (StreamError e), w')
                     | None \<Rightarrow> (Inr (StreamWatch resp), w'))))"

end
