(* ===== verification/TypedClients.thy ===== *)
theory TypedClients
  imports RestClient HTTPRouteApi
begin

text \<open>
  The typed clients of the seven resources of the Gateway API
  (\<open>pkg/client/gatewayapi/clientset/versioned/typed/apis/v1alpha1\<close>). An interface such as
  \<open>HTTPRouteInterface\<close> is a record of its methods, and the constructor of a client gives the record:
  each method is the chain of builder calls of the source, read from right to left. The clients
  only look at the name of an object, so the resources other than HTTPRoutes leave their spec and
  status open. Pointers to objects are not nil, and the value a method returns beside an error is
  not modelled.
\<close>

section \<open>Interface\<close>

record ('e, 'o, 'l, 'v, 'w) typed_client =
  tcl_Get :: "string \<Rightarrow> get_options \<Rightarrow> 'w \<Rightarrow> ('e + 'o) \<times> 'w"
  tcl_List :: "list_options \<Rightarrow> 'w \<Rightarrow> ('e + 'l) \<times> 'w"
  tcl_Watch :: "list_options \<Rightarrow> 'w \<Rightarrow> ('e + 'v) \<times> 'w"
  tcl_Create :: "'o \<Rightarrow> create_options \<Rightarrow> 'w \<Rightarrow> ('e + 'o) \<times> 'w"
  tcl_Update :: "'o \<Rightarrow> update_options \<Rightarrow> 'w \<Rightarrow> ('e + 'o) \<times> 'w"
  tcl_UpdateStatus :: "'o \<Rightarrow> update_options \<Rightarrow> 'w \<Rightarrow> ('e + 'o) \<times> 'w"
  tcl_Delete :: "string \<Rightarrow> delete_options \<Rightarrow> 'w \<Rightarrow> 'e option \<times> 'w"
  tcl_DeleteCollection :: "delete_options \<Rightarrow> list_options \<Rightarrow> 'w \<Rightarrow> 'e option \<times> 'w"
  tcl_Patch :: "string \<Rightarrow> string \<Rightarrow> string \<Rightarrow> patch_options \<Rightarrow> string list \<Rightarrow> 'w \<Rightarrow> ('e + 'o) \<times> 'w"

record ('s, 't) api_resource =
  ar_Meta :: object_meta
  ar_Spec :: 's
  ar_Status :: 't

section \<open>The clients\<close>

text \<open>\<open>time.Duration(*opts.TimeoutSeconds) * time.Second\<close>, in 64 bits, or no timeout.\<close>

definition timeout_of :: "list_options \<Rightarrow> go_int" where
  "timeout_of opts = (case lo_TimeoutSeconds opts of None \<Rightarrow> 0 | Some s \<Rightarrow> s * 1000000000)"

definition newBackendPolicies ::
  "(('s, 't) api_resource, 'l, 'w) rest_client \<Rightarrow> string \<Rightarrow>
   (rest_error, ('s, 't) api_resource, 'l, watch_stream, 'w) typed_client" where
  "newBackendPolicies c ns =
     \<lparr>tcl_Get = (\<lambda>name opts w. IntoObject c (req_Do c
        ((req_VersionedParams c (GetParams opts) \<circ> req_Name name \<circ> req_Resource ''backendpolicies'' \<circ> req_Namespace ns) (rest_Get c)) w)),
      tcl_List = (\<lambda>opts w. IntoList c (req_Do c
        ((req_Timeout (timeout_of opts) \<circ> req_VersionedParams c (ListParams opts) \<circ> req_Resource ''backendpolicies'' \<circ> req_Namespace ns) (rest_Get c)) w)),
      tcl_Watch = (\<lambda>opts w. req_Watch c
        ((req_Timeout (timeout_of opts) \<circ> req_VersionedParams c (ListParams (opts\<lparr>lo_Watch := True\<rparr>)) \<circ>
          req_Resource ''backendpolicies'' \<circ> req_Namespace ns) (rest_Get c)) w),
      tcl_Create = (\<lambda>obj opts w. IntoObject c (req_Do c
        ((req_Body c (ObjectBody obj) \<circ> req_VersionedParams c (CreateParams opts) \<circ> req_Resource ''backendpolicies'' \<circ> req_Namespace ns) (rest_Post c)) w)),
      tcl_Update = (\<lambda>obj opts w. IntoObject c (req_Do c
        ((req_Body c (ObjectBody obj) \<circ> req_VersionedParams c (UpdateParams opts) \<circ>
          req_Name (om_Name (ar_Meta obj)) \<circ> req_Resource ''backendpolicies'' \<circ> req_Namespace ns) (rest_Put c)) w)),
      tcl_UpdateStatus = (\<lambda>obj opts w. IntoObject c (req_Do c
        ((req_Body c (ObjectBody obj) \<circ> req_VersionedParams c (UpdateParams opts) \<circ> req_SubResource [''status''] \<circ>
          req_Name (om_Name (ar_Meta obj)) \<circ> req_Resource ''backendpolicies'' \<circ> req_Namespace ns) (rest_Put c)) w)),
      tcl_Delete = (\<lambda>name opts w. IntoError c (req_Do c
        ((req_Body c (DeleteBody opts) \<circ> req_Name name \<circ> req_Resource ''backendpolicies'' \<circ> req_Namespace ns) (rest_Delete c)) w)),
      tcl_DeleteCollection = (\<lambda>opts list_opts w. IntoError c (req_Do c
        ((req_Body c (DeleteBody opts) \<circ> req_Timeout (timeout_of list_opts) \<circ>
          req_VersionedParams c (ListParams list_opts) \<circ> req_Resource ''backendpolicies'' \<circ> req_Namespace ns) (rest_Delete c)) w)),
      tcl_Patch = (\<lambda>name pt bytes opts subresources w. IntoObject c (req_Do c
        ((req_Body c (BytesBody bytes) \<circ> req_VersionedParams c (PatchParams opts) \<circ> req_SubResource subresources \<circ>
          req_Name name \<circ> req_Resource ''backendpolicies'' \<circ> req_Namespace ns) (rest_Patch pt c)) w))\<rparr>"

definition newGateways ::
  "(('s, 't) api_resource, 'l, 'w) rest_client \<Rightarrow> string \<Rightarrow>
   (rest_error, ('s, 't) api_resource, 'l, watch_stream, 'w) typed_client" where
  "newGateways c ns =
     \<lparr>tcl_Get = (\<lambda>name opts w. IntoObject c (req_Do c
        ((req_VersionedParams c (GetParams opts) \<circ> req_Name name \<circ> req_Resource ''gateways'' \<circ> req_Namespace ns) (rest_Get c)) w)),
      tcl_List = (\<lambda>opts w. IntoList c (req_Do c
        ((req_Timeout (timeout_of opts) \<circ> req_VersionedParams c (ListParams opts) \<circ> req_Resource ''gateways'' \<circ> req_Namespace ns) (rest_Get c)) w)),
      tcl_Watch = (\<lambda>opts w. req_Watch c
        ((req_Timeout (timeout_of opts) \<circ> req_VersionedParams c (ListParams (opts\<lparr>lo_Watch := True\<rparr>)) \<circ>
          req_Resource ''gateways'' \<circ> req_Namespace ns) (rest_Get c)) w),
      tcl_Create = (\<lambda>obj opts w. IntoObject c (req_Do c
        ((req_Body c (ObjectBody obj) \<circ> req_VersionedParams c (CreateParams opts) \<circ> req_Resource ''gateways'' \<circ> req_Namespace ns) (rest_Post c)) w)),
      tcl_Update = (\<lambda>obj opts w. IntoObject c (req_Do c
        ((req_Body c (ObjectBody obj) \<circ> req_VersionedParams c (UpdateParams opts) \<circ>
          req_Name (om_Name (ar_Meta obj)) \<circ> req_Resource ''gateways'' \<circ> req_Namespace ns) (rest_Put c)) w)),
      tcl_UpdateStatus = (\<lambda>obj opts w. IntoObject c (req_Do c
        ((req_Body c (ObjectBody obj) \<circ> req_VersionedParams c (UpdateParams opts) \<circ> req_SubResource [''status''] \<circ>
          req_Name (om_Name (ar_Meta obj)) \<circ> req_Resource ''gateways'' \<circ> req_Namespace ns) (rest_Put c)) w)),
      tcl_Delete = (\<lambda>name opts w. IntoError c (req_Do c
        ((req_Body c (DeleteBody opts) \<circ> req_Name name \<circ> req_Resource ''gateways'' \<circ> req_Namespace ns) (rest_Delete c)) w)),
      tcl_DeleteCollection = (\<lambda>opts list_opts w. IntoError c (req_Do c
        ((req_Body c (DeleteBody opts) \<circ> req_Timeout (timeout_of list_opts) \<circ>
          req_VersionedParams c (ListParams list_opts) \<circ> req_Resource ''gateways'' \<circ> req_Namespace ns) (rest_Delete c)) w)),
      tcl_Patch = (\<lambda>name pt bytes opts subresources w. IntoObject c (req_Do c
        ((req_Body c (BytesBody bytes) \<circ> req_VersionedParams c (PatchParams opts) \<circ> req_SubResource subresources \<circ>
          req_Name name \<circ> req_Resource ''gateways'' \<circ> req_Namespace ns) (rest_Patch pt c)) w))\<rparr>"

definition newGatewayClasses ::
  "(('s, 't) api_resource, 'l, 'w) rest_client \<Rightarrow>
   (rest_error, ('s, 't) api_resource, 'l, watch_stream, 'w) typed_client" where
  "newGatewayClasses c =
     \<lparr>tcl_Get = (\<lambda>name opts w. IntoObject c (req_Do c
        ((req_VersionedParams c (GetParams opts) \<circ> req_Name name \<circ> req_Resource ''gatewayclasses'') (rest_Get c)) w)),
      tcl_List = (\<lambda>opts w. IntoList c (req_Do c
        ((req_Timeout (timeout_of opts) \<circ> req_VersionedParams c (ListParams opts) \<circ> req_Resource ''gatewayclasses'') (rest_Get c)) w)),
      tcl_Watch = (\<lambda>opts w. req_Watch c
        ((req_Timeout (timeout_of opts) \<circ> req_VersionedParams c (ListParams (opts\<lparr>lo_Watch := True\<rparr>)) \<circ>
          req_Resource ''gatewayclasses'') (rest_Get c)) w),
      tcl_Create = (\<lambda>obj opts w. IntoObject c (req_Do c
        ((req_Body c (ObjectBody obj) \<circ> req_VersionedParams c (CreateParams opts) \<circ> req_Resource ''gatewayclasses'') (rest_Post c)) w)),
      tcl_Update = (\<lambda>obj opts w. IntoObject c (req_Do c
        ((req_Body c (ObjectBody obj) \<circ> req_VersionedParams c (UpdateParams opts) \<circ>
          req_Name (om_Name (ar_Meta obj)) \<circ> req_Resource ''gatewayclasses'') (rest_Put c)) w)),
      tcl_UpdateStatus = (\<lambda>obj opts w. IntoObject c (req_Do c
        ((req_Body c (ObjectBody obj) \<circ> req_VersionedParams c (UpdateParams opts) \<circ> req_SubResource [''status''] \<circ>
          req_Name (om_Name (ar_Meta obj)) \<circ> req_Resource ''gatewayclasses'') (rest_Put c)) w)),
      tcl_Delete = (\<lambda>name opts w. IntoError c (req_Do c
        ((req_Body c (DeleteBody opts) \<circ> req_Name name \<circ> req_Resource ''gatewayclasses'') (rest_Delete c)) w)),
      tcl_DeleteCollection = (\<lambda>opts list_opts w. IntoError c (req_Do c
        ((req_Body c (DeleteBody opts) \<circ> req_Timeout (timeout_of list_opts) \<circ>
          req_VersionedParams c (ListParams list_opts) \<circ> req_Resource ''gatewayclasses'') (rest_Delete c)) w)),
      tcl_Patch = (\<lambda>name pt bytes opts subresources w. IntoObject c (req_Do c
        ((req_Body c (BytesBody bytes) \<circ> req_VersionedParams c (PatchParams opts) \<circ> req_SubResource subresources \<circ>
          req_Name name \<circ> req_Resource ''gatewayclasses'') (rest_Patch pt c)) w))\<rparr>"

definition newHTTPRoutes ::
  "(http_route, 'l, 'w) rest_client \<Rightarrow> string \<Rightarrow>
   (rest_error, http_route, 'l, watch_stream, 'w) typed_client" where
  "newHTTPRoutes c ns =
     \<lparr>tcl_Get = (\<lambda>name opts w. IntoObject c (req_Do c
        ((req_VersionedParams c (GetParams opts) \<circ> req_Name name \<circ> req_Resource ''httproutes'' \<circ> req_Namespace ns) (rest_Get c)) w)),
      tcl_List = (\<lambda>opts w. IntoList c (req_Do c
        ((req_Timeout (timeout_of opts) \<circ> req_VersionedParams c (ListParams opts) \<circ> req_Resource ''httproutes'' \<circ> req_Namespace ns) (rest_Get c)) w)),
      tcl_Watch = (\<lambda>opts w. req_Watch c
        ((req_Timeout (timeout_of opts) \<circ> req_VersionedParams c (ListParams (opts\<lparr>lo_Watch := True\<rparr>)) \<circ>
          req_Resource ''httproutes'' \<circ> req_Namespace ns) (rest_Get c)) w),
      tcl_Create = (\<lambda>obj opts w. IntoObject c (req_Do c
        ((req_Body c (ObjectBody obj) \<circ> req_VersionedParams c (CreateParams opts) \<circ> req_Resource ''httproutes'' \<circ> req_Namespace ns) (rest_Post c)) w)),
      tcl_Update = (\<lambda>obj opts w. IntoObject c (req_Do c
        ((req_Body c (ObjectBody obj) \<circ> req_VersionedParams c (UpdateParams opts) \<circ>
          req_Name (om_Name (hr_Meta obj)) \<circ> req_Resource ''httproutes'' \<circ> req_Namespace ns) (rest_Put c)) w)),
      tcl_UpdateStatus = (\<lambda>obj opts w. IntoObject c (req_Do c
        ((req_Body c (ObjectBody obj) \<circ> req_VersionedParams c (UpdateParams opts) \<circ> req_SubResource [''status''] \<circ>
          req_Name (om_Name (hr_Meta obj)) \<circ> req_Resource ''httproutes'' \<circ> req_Namespace ns) (rest_Put c)) w)),
      tcl_Delete = (\<lambda>name opts w. IntoError c (req_Do c
        ((req_Body c (DeleteBody opts) \<circ> req_Name name \<circ> req_Resource ''httproutes'' \<circ> req_Namespace ns) (rest_Delete c)) w)),
      tcl_DeleteCollection = (\<lambda>opts list_opts w. IntoError c (req_Do c
        ((req_Body c (DeleteBody opts) \<circ> req_Timeout (timeout_of list_opts) \<circ>
          req_VersionedParams c (ListParams list_opts) \<circ> req_Resource ''httproutes'' \<circ> req_Namespace ns) (rest_Delete c)) w)),
      tcl_Patch = (\<lambda>name pt bytes opts subresources w. IntoObject c (req_Do c
        ((req_Body c (BytesBody bytes) \<circ> req_VersionedParams c (PatchParams opts) \<circ> req_SubResource subresources \<circ>
          req_Name name \<circ> req_Resource ''httproutes'' \<circ> req_Namespace ns) (rest_Patch pt c)) w))\<rparr>"

definition newTCPRoutes ::
  "(('s, 't) api_resource, 'l, 'w) rest_client \<Rightarrow> string \<Rightarrow>
   (rest_error, ('s, 't) api_resource, 'l, watch_stream, 'w) typed_client" where
  "newTCPRoutes c ns =
     \<lparr>tcl_Get = (\<lambda>name opts w. IntoObject c (req_Do c
        ((req_VersionedParams c (GetParams opts) \<circ> req_Name name \<circ> req_Resource ''tcproutes'' \<circ> req_Namespace ns) (rest_Get c)) w)),
      tcl_List = (\<lambda>opts w. IntoList c (req_Do c
        ((req_Timeout (timeout_of opts) \<circ> req_VersionedParams c (ListParams opts) \<circ> req_Resource ''tcproutes'' \<circ> req_Namespace ns) (rest_Get c)) w)),
      tcl_Watch = (\<lambda>opts w. req_Watch c
        ((req_Timeout (timeout_of opts) \<circ> req_VersionedParams c (ListParams (opts\<lparr>lo_Watch := True\<rparr>)) \<circ>
          req_Resource ''tcproutes'' \<circ> req_Namespace ns) (rest_Get c)) w),
      tcl_Create = (\<lambda>obj opts w. IntoObject c (req_Do c
        ((req_Body c (ObjectBody obj) \<circ> req_VersionedParams c (CreateParams opts) \<circ> req_Resource ''tcproutes'' \<circ> req_Namespace ns) (rest_Post c)) w)),
      tcl_Update = (\<lambda>obj opts w. IntoObject c (req_Do c
        ((req_Body c (ObjectBody obj) \<circ> req_VersionedParams c (UpdateParams opts) \<circ>
          req_Name (om_Name (ar_Meta obj)) \<circ> req_Resource ''tcproutes'' \<circ> req_Namespace ns) (rest_Put c)) w)),
      tcl_UpdateStatus = (\<lambda>obj opts w. IntoObject c (req_Do c
        ((req_Body c (ObjectBody obj) \<circ> req_VersionedParams c (UpdateParams opts) \<circ> req_SubResource [''status''] \<circ>
          req_Name (om_Name (ar_Meta obj)) \<circ> req_Resource ''tcproutes'' \<circ> req_Namespace ns) (rest_Put c)) w)),
      tcl_Delete = (\<lambda>name opts w. IntoError c (req_Do c
        ((req_Body c (DeleteBody opts) \<circ> req_Name name \<circ> req_Resource ''tcproutes'' \<circ> req_Namespace ns) (rest_Delete c)) w)),
      tcl_DeleteCollection = (\<lambda>opts list_opts w. IntoError c (req_Do c
        ((req_Body c (DeleteBody opts) \<circ> req_Timeout (timeout_of list_opts) \<circ>
          req_VersionedParams c (ListParams list_opts) \<circ> req_Resource ''tcproutes'' \<circ> req_Namespace ns) (rest_Delete c)) w)),
      tcl_Patch = (\<lambda>name pt bytes opts subresources w. IntoObject c (req_Do c
        ((req_Body c (BytesBody bytes) \<circ> req_VersionedParams c (PatchParams opts) \<circ> req_SubResource subresources \<circ>
          req_Name name \<circ> req_Resource ''tcproutes'' \<circ> req_Namespace ns) (rest_Patch pt c)) w))\<rparr>"

definition newTLSRoutes ::
  "(('s, 't) api_resource, 'l, 'w) rest_client \<Rightarrow> string \<Rightarrow>
   (rest_error, ('s, 't) api_resource, 'l, watch_stream, 'w) typed_client" where
  "newTLSRoutes c ns =
     \<lparr>tcl_Get = (\<lambda>name opts w. IntoObject c (req_Do c
        ((req_VersionedParams c (GetParams opts) \<circ> req_Name name \<circ> req_Resource ''tlsroutes'' \<circ> req_Namespace ns) (rest_Get c)) w)),
      tcl_List = (\<lambda>opts w. IntoList c (req_Do c
        ((req_Timeout (timeout_of opts) \<circ> req_VersionedParams c (ListParams opts) \<circ> req_Resource ''tlsroutes'' \<circ> req_Namespace ns) (rest_Get c)) w)),
      tcl_Watch = (\<lambda>opts w. req_Watch c
        ((req_Timeout (timeout_of opts) \<circ> req_VersionedParams c (ListParams (opts\<lparr>lo_Watch := True\<rparr>)) \<circ>
          req_Resource ''tlsroutes'' \<circ> req_Namespace ns) (rest_Get c)) w),
      tcl_Create = (\<lambda>obj opts w. IntoObject c (req_Do c
        ((req_Body c (ObjectBody obj) \<circ> req_VersionedParams c (CreateParams opts) \<circ> req_Resource ''tlsroutes'' \<circ> req_Namespace ns) (rest_Post c)) w)),
      tcl_Update = (\<lambda>obj opts w. IntoObject c (req_Do c
        ((req_Body c (ObjectBody obj) \<circ> req_VersionedParams c (UpdateParams opts) \<circ>
          req_Name (om_Name (ar_Meta obj)) \<circ> req_Resource ''tlsroutes'' \<circ> req_Namespace ns) (rest_Put c)) w)),
      tcl_UpdateStatus = (\<lambda>obj opts w. IntoObject c (req_Do c
        ((req_Body c (ObjectBody obj) \<circ> req_VersionedParams c (UpdateParams opts) \<circ> req_SubResource [''status''] \<circ>
          req_Name (om_Name (ar_Meta obj)) \<circ> req_Resource ''tlsroutes'' \<circ> req_Namespace ns) (rest_Put c)) w)),
      tcl_Delete = (\<lambda>name opts w. IntoError c (req_Do c
        ((req_Body c (DeleteBody opts) \<circ> req_Name name \<circ> req_Resource ''tlsroutes'' \<circ> req_Namespace ns) (rest_Delete c)) w)),
      tcl_DeleteCollection = (\<lambda>opts list_opts w. IntoError c (req_Do c
        ((req_Body c (DeleteBody opts) \<circ> req_Timeout (timeout_of list_opts) \<circ>
          req_VersionedParams c (ListParams list_opts) \<circ> req_Resource ''tlsroutes'' \<circ> req_Namespace ns) (rest_Delete c)) w)),
      tcl_Patch = (\<lambda>name pt bytes opts subresources w. IntoObject c (req_Do c
        ((req_Body c (BytesBody bytes) \<circ> req_VersionedParams c (PatchParams opts) \<circ> req_SubResource subresources \<circ>
          req_Name name \<circ> req_Resource ''tlsroutes'' \<circ> req_Namespace ns) (rest_Patch pt c)) w))\<rparr>"

definition newUDPRoutes ::
  "(('s, 't) api_resource, 'l, 'w) rest_client \<Rightarrow> string \<Rightarrow>
   (rest_error, ('s, 't) api_resource, 'l, watch_stream, 'w) typed_client" where
  "newUDPRoutes c ns =
     \<lparr>tcl_Get = (\<lambda>name opts w. IntoObject c (req_Do c
        ((req_VersionedParams c (GetParams opts) \<circ> req_Name name \<circ> req_Resource ''udproutes'' \<circ> req_Namespace ns) (rest_Get c)) w)),
      tcl_List = (\<lambda>opts w. IntoList c (req_Do c
        ((req_Timeout (timeout_of opts) \<circ> req_VersionedParams c (ListParams opts) \<circ> req_Resource ''udproutes'' \<circ> req_Namespace ns) (rest_Get c)) w)),
      tcl_Watch = (\<lambda>opts w. req_Watch c
        ((req_Timeout (timeout_of opts) \<circ> req_VersionedParams c (ListParams (opts\<lparr>lo_Watch := True\<rparr>)) \<circ>
          req_Resource ''udproutes'' \<circ> req_Namespace ns) (rest_Get c)) w),
      tcl_Create = (\<lambda>obj opts w. IntoObject c (req_Do c
        ((req_Body c (ObjectBody obj) \<circ> req_VersionedParams c (CreateParams opts) \<circ> req_Resource ''udproutes'' \<circ> req_Namespace ns) (rest_Post c)) w)),
      tcl_Update = (\<lambda>obj opts w. IntoObject c (req_Do c
        ((req_Body c (ObjectBody obj) \<circ> req_VersionedParams c (UpdateParams opts) \<circ>
          req_Name (om_Name (ar_Meta obj)) \<circ> req_Resource ''udproutes'' \<circ> req_Namespace ns) (rest_Put c)) w)),
      tcl_UpdateStatus = (\<lambda>obj opts w. IntoObject c (req_Do c
        ((req_Body c (ObjectBody obj) \<circ> req_VersionedParams c (UpdateParams opts) \<circ> req_SubResource [''status''] \<circ>
          req_Name (om_Name (ar_Meta obj)) \<circ> req_Resource ''udproutes'' \<circ> req_Namespace ns) (rest_Put c)) w)),
      tcl_Delete = (\<lambda>name opts w. IntoError c (req_Do c
        ((req_Body c (DeleteBody opts) \<circ> req_Name name \<circ> req_Resource ''udproutes'' \<circ> req_Namespace ns) (rest_Delete c)) w)),
      tcl_DeleteCollection = (\<lambda>opts list_opts w. IntoError c (req_Do c
        ((req_Body c (DeleteBody opts) \<circ> req_Timeout (timeout_of list_opts) \<circ>
          req_VersionedParams c (ListParams list_opts) \<circ> req_Resource ''udproutes'' \<circ> req_Namespace ns) (rest_Delete c)) w)),
      tcl_Patch = (\<lambda>name pt bytes opts subresources w. IntoObject c (req_Do c
        ((req_Body c (BytesBody bytes) \<circ> req_VersionedParams c (PatchParams opts) \<circ> req_SubResource subresources \<circ>
          req_Name name \<circ> req_Resource ''udproutes'' \<circ> req_Namespace ns) (rest_Patch pt c)) w))\<rparr>"


section \<open>One client for all resources\<close>

text \<open>The seven clients differ in the resource they name and in whether it lives in a namespace.\<close>

definition scope_of :: "string option \<Rightarrow> rest_request \<Rightarrow> rest_request" where
  "scope_of ns = (case ns of None \<Rightarrow> id | Some s \<Rightarrow> req_Namespace s)"

definition collection :: "string \<Rightarrow> string option \<Rightarrow> rest_request \<Rightarrow> rest_request" where
  "collection res ns = req_Resource res \<circ> scope_of ns"

definition member :: "string \<Rightarrow> string option \<Rightarrow> string \<Rightarrow> rest_request \<Rightarrow> rest_request" where
  "member res ns name = req_Name name \<circ> collection res ns"

definition generic_client ::
  "string \<Rightarrow> ('o \<Rightarrow> object_meta) \<Rightarrow> ('o, 'l, 'w) rest_client \<Rightarrow> string option \<Rightarrow>
   (rest_error, 'o, 'l, watch_stream, 'w) typed_client" where
  "generic_client res meta c ns =
     \<lparr>tcl_Get = (\<lambda>name opts w. IntoObject c (req_Do c
        (req_VersionedParams c (GetParams opts) (member res ns name (rest_Get c))) w)),
      tcl_List = (\<lambda>opts w. IntoList c (req_Do c
        (req_Timeout (timeout_of opts) (req_VersionedParams c (ListParams opts) (collection res ns (rest_Get c)))) w)),
      tcl_Watch = (\<lambda>opts w. req_Watch c
        (req_Timeout (timeout_of opts)
          (req_VersionedParams c (ListParams (opts\<lparr>lo_Watch := True\<rparr>)) (collection res ns (rest_Get c)))) w),
      tcl_Create = (\<lambda>obj opts w. IntoObject c (req_Do c
        (req_Body c (ObjectBody obj) (req_VersionedParams c (CreateParams opts) (collection res ns (rest_Post c)))) w)),
      tcl_Update = (\<lambda>obj opts w. IntoObject c (req_Do c
        (req_Body c (ObjectBody obj) (req_VersionedParams c (UpdateParams opts)
          (member res ns (om_Name (meta obj)) (rest_Put c)))) w)),
      tcl_UpdateStatus = (\<lambda>obj opts w. IntoObject c (req_Do c
        (req_Body c (ObjectBody obj) (req_VersionedParams c (UpdateParams opts) (req_SubResource [''status'']
          (member res ns (om_Name (meta obj)) (rest_Put c))))) w)),
      tcl_Delete = (\<lambda>name opts w. IntoError c (req_Do c
        (req_Body c (DeleteBody opts) (member res ns name (rest_Delete c))) w)),
      tcl_DeleteCollection = (\<lambda>opts list_opts w. IntoError c (req_Do c
        (req_Body c (DeleteBody opts) (req_Timeout (timeout_of list_opts)
          (req_VersionedParams c (ListParams list_opts) (collection res ns (rest_Delete c))))) w)),
      tcl_Patch = (\<lambda>name pt bytes opts subresources w. IntoObject c (req_Do c
        (req_Body c (BytesBody bytes) (req_VersionedParams c (PatchParams opts) (req_SubResource subresources
          (member res ns name (rest_Patch pt c))))) w))\<rparr>"

lemmas client_defs = generic_client_def member_def collection_def scope_of_def
  newBackendPolicies_def newGateways_def newGatewayClasses_def newHTTPRoutes_def
  newTCPRoutes_def newTLSRoutes_def newUDPRoutes_def

text \<open>The seven typed clients are one client, at their resource and their scope: whatever is shown of
  the generic client holds for each of them, and none of them addresses the resource of another.\<close>

theorem typed_clients_generic:
  "newBackendPolicies c1 ns = generic_client ''backendpolicies'' ar_Meta c1 (Some ns) \<and>
   newGateways c2 ns = generic_client ''gateways'' ar_Meta c2 (Some ns) \<and>
   newGatewayClasses c3 = generic_client ''gatewayclasses'' ar_Meta c3 None \<and>
   newHTTPRoutes c4 ns = generic_client ''httproutes'' hr_Meta c4 (Some ns) \<and>
   newTCPRoutes c5 ns = generic_client ''tcproutes'' ar_Meta c5 (Some ns) \<and>
   newTLSRoutes c6 ns = generic_client ''tlsroutes'' ar_Meta c6 (Some ns) \<and>
   newUDPRoutes c7 ns = generic_client ''udproutes'' ar_Meta c7 (Some ns)"
  by (intro conjI) (simp_all add: client_defs)

end
