(* ===== verification/RestLaws.thy ===== *)
theory RestLaws
  imports TypedClients
begin

text \<open>
  What the REST client and the typed clients put on the wire: which requests a call sends, to which
  paths, and how many of them. The requests are observed through a transport that logs them.
\<close>

section \<open>Building a request\<close>

lemma segment_ok_iff: "IsValidPathSegmentName s = [] \<longleftrightarrow> s \<noteq> ''.'' \<and> s \<noteq> ''..'' \<and> CHR ''/'' \<notin> set s \<and> CHR ''%'' \<notin> set s"
  by (simp add: IsValidPathSegmentName_def)

lemma segment_ok_plain: "IsValidPathSegmentName s = [] \<Longrightarrow> s \<noteq> '''' \<Longrightarrow> plain_element s"
  by (simp add: segment_ok_iff plain_element_def)

text \<open>The parts of a request that its URL is made of.\<close>

definition address :: "rest_request \<Rightarrow> string \<times> string \<times> bool \<times> string \<times> string \<times> string" where
  "address r = (rq_verb r, rq_pathPrefix r, rq_namespaceSet r, rq_namespace r, rq_resource r, rq_resourceName r)"

lemma address_frame [simp]:
  "address (req_VersionedParams c obj r) = address r"
  "address (req_Timeout d r) = address r"
  "address (req_Body c b r) = address r"
  "address (req_SubResource subs r) = address r"
  by (auto simp: address_def req_VersionedParams_def req_Timeout_def req_Body_def req_SubResource_def
      unless_err_def fail_request_def SetHeader_def split: sum.splits body_object.splits option.splits)

lemma subresource_frame [simp]:
  "rq_subresource (req_VersionedParams c obj r) = rq_subresource r"
  "rq_subresource (req_Timeout d r) = rq_subresource r"
  "rq_subresource (req_Body c b r) = rq_subresource r"
  by (auto simp: req_VersionedParams_def req_Timeout_def req_Body_def unless_err_def fail_request_def
      SetHeader_def split: sum.splits body_object.splits)

lemma retries_frame [simp]:
  "rq_maxRetries (req_VersionedParams c obj r) = rq_maxRetries r"
  "rq_maxRetries (req_Timeout d r) = rq_maxRetries r"
  "rq_maxRetries (req_Body c b r) = rq_maxRetries r"
  "rq_maxRetries (req_SubResource subs r) = rq_maxRetries r"
  "rq_maxRetries (req_Name n r) = rq_maxRetries r"
  "rq_maxRetries (req_Resource res r) = rq_maxRetries r"
  "rq_maxRetries (req_Namespace ns r) = rq_maxRetries r"
  "rq_maxRetries (rest_Verb v c) = 10"
  "rq_maxRetries (rest_Patch pt c) = 10"
  by (auto simp: req_VersionedParams_def req_Timeout_def req_Body_def req_SubResource_def req_Name_def
      req_Resource_def req_Namespace_def rest_Patch_def rest_Verb_def NewRequest_def Let_def
      unless_err_def fail_request_def SetHeader_def split: sum.splits body_object.splits option.splits)

text \<open>An error recorded earlier stays.\<close>

lemma err_kept [dest]:
  "rq_err (req_VersionedParams c obj r) = None \<Longrightarrow> rq_err r = None"
  "rq_err (req_Timeout d r) = None \<Longrightarrow> rq_err r = None"
  "rq_err (req_Body c b r) = None \<Longrightarrow> rq_err r = None"
  "rq_err (req_SubResource subs r) = None \<Longrightarrow> rq_err r = None"
  "rq_err (req_Name n r) = None \<Longrightarrow> rq_err r = None"
  "rq_err (req_Resource res r) = None \<Longrightarrow> rq_err r = None"
  "rq_err (req_Namespace ns r) = None \<Longrightarrow> rq_err r = None"
  by (auto simp: req_VersionedParams_def req_Timeout_def req_Body_def req_SubResource_def req_Name_def
      req_Resource_def req_Namespace_def unless_err_def split: if_splits)

text \<open>The root of the API that a client talks to.\<close>

definition api_root :: "('o, 'l, 'w) rest_client \<Rightarrow> string list \<Rightarrow> bool" where
  "api_root c pre \<longleftrightarrow> path_Join [''/'', rc_basePath c, rc_versionedAPIPath c] = abs_path pre \<and> list_all plain_element pre"

definition scope_path :: "string option \<Rightarrow> string list" where
  "scope_path ns = (case ns of None \<Rightarrow> [] | Some s \<Rightarrow> if s = '''' then [] else [''namespaces'', s])"

lemma start_request:
  "address (rest_Verb v c) = (v, path_Join [''/'', rc_basePath c, rc_versionedAPIPath c], False, '''', '''', '''')"
  "rq_err (rest_Verb v c) = None" "rq_subresource (rest_Verb v c) = ''''"
  "address (rest_Patch pt c) = (''PATCH'', path_Join [''/'', rc_basePath c, rc_versionedAPIPath c], False, '''', '''', '''')"
  "rq_err (rest_Patch pt c) = None" "rq_subresource (rest_Patch pt c) = ''''"
  by (simp_all add: address_def rest_Verb_def rest_Patch_def NewRequest_def SetHeader_def Let_def)

definition fresh :: "string \<Rightarrow> string list \<Rightarrow> rest_request \<Rightarrow> bool" where
  "fresh v pre r \<longleftrightarrow> address r = (v, abs_path pre, False, '''', '''', '''') \<and> rq_err r = None \<and> rq_subresource r = ''''"

lemma fresh_start:
  assumes "api_root c pre"
  shows "fresh ''GET'' pre (rest_Get c)" "fresh ''POST'' pre (rest_Post c)" "fresh ''PUT'' pre (rest_Put c)"
    "fresh ''DELETE'' pre (rest_Delete c)" "fresh ''PATCH'' pre (rest_Patch pt c)"
  using assms
  by (simp_all add: fresh_def start_request api_root_def rest_Get_def rest_Post_def rest_Put_def rest_Delete_def)

text \<open>A request for a collection or a member that carries no error.\<close>

lemma collection_address:
  assumes "fresh v pre r" and "rq_err (collection res ns r) = None" and "res \<noteq> ''''"
  shows "address (collection res ns r) = (v, abs_path pre, ns \<noteq> None, (case ns of None \<Rightarrow> '''' | Some s \<Rightarrow> s), res, '''') \<and>
    rq_subresource (collection res ns r) = '''' \<and> list_all plain_element (scope_path ns)"
  using assms
  by (cases ns) (auto simp: fresh_def address_def collection_def scope_of_def req_Resource_def req_Namespace_def
      unless_err_def fail_request_def scope_path_def plain_element_def segment_ok_iff split: if_splits)

lemma member_address:
  assumes "fresh v pre r" and "rq_err (member res ns name r) = None" and "res \<noteq> ''''"
  shows "address (member res ns name r) = (v, abs_path pre, ns \<noteq> None, (case ns of None \<Rightarrow> '''' | Some s \<Rightarrow> s), res, name) \<and>
    rq_subresource (member res ns name r) = '''' \<and> list_all plain_element (scope_path ns) \<and> plain_element name"
proof -
  have e: "rq_err (collection res ns r) = None" using assms(2) by (auto simp: member_def)
  note col = collection_address [OF assms(1) e assms(3)]
  have n: "name \<noteq> ''''" "IsValidPathSegmentName name = []"
    using assms(2) e col by (auto simp: member_def req_Name_def unless_err_def fail_request_def address_def split: if_splits)
  then have "member res ns name r = (collection res ns r)\<lparr>rq_resourceName := name\<rparr>"
    using e col by (simp add: member_def req_Name_def unless_err_def address_def)
  with col n show ?thesis by (simp add: address_def segment_ok_plain)
qed


section \<open>The path of a request\<close>

definition resource_name :: "string \<Rightarrow> bool" where
  "resource_name res \<longleftrightarrow> plain_element res \<and> to_lower res = res"

text \<open>The elements that a list of subresources contributes.\<close>

definition sub_path :: "string list \<Rightarrow> string list" where
  "sub_path subs = filter (\<lambda>s. s \<noteq> '''') subs"

lemma path_Join_relative:
  assumes "list_all (\<lambda>s. IsValidPathSegmentName s = []) subs"
  shows "path_Join subs = join_with CHR ''/'' (sub_path subs) \<and> list_all plain_element (sub_path subs)"
proof -
  have plain: "list_all plain_element (sub_path subs)"
    using assms by (auto simp: sub_path_def list_all_iff segment_ok_plain)
  show ?thesis
  proof (cases "sub_path subs")
    case Nil
    then show ?thesis by (simp add: path_Join_def sub_path_def)
  next
    case (Cons s ss)
    let ?j = "join_with CHR ''/'' (s # ss)"
    have s: "s \<noteq> ''''" "hd s \<noteq> CHR ''/''" using plain Cons by (auto simp: plain_element_def) (metis hd_in_set)
    then have j: "?j \<noteq> ''''" "hd ?j \<noteq> CHR ''/''" by (cases ss; simp)+
    have "split_on CHR ''/'' ?j = s # ss" using plain_no_slash [OF plain] Cons by (intro split_join) simp_all
    then have "path_Clean ?j = ?j"
      using j clean_plain [of "s # ss" False "[]"] plain Cons unfolding path_Clean_def Let_def by simp
    with plain Cons show ?thesis unfolding path_Join_def Let_def by (simp add: sub_path_def)
  qed
qed

lemma path_Join_nested:
  assumes "fs \<noteq> []" and "list_all plain_element fs" and "name \<noteq> ''''"
  shows "path_Join [abs_path es, name, join_with CHR ''/'' fs] = path_Join (abs_path es # name # fs)"
proof -
  have "join_with CHR ''/'' fs \<noteq> ''''" using assms by (cases fs; cases "tl fs") (auto simp: plain_element_def)
  moreover have "filter (\<lambda>e. e \<noteq> '''') fs = fs"
    using assms(2) by (auto simp: filter_id_conv list_all_iff plain_element_def)
  ultimately show ?thesis using assms(1,3) by (simp add: path_Join_def join_with_Cons abs_path_def)
qed

lemma url_path_parts:
  assumes "address r = (v, abs_path pre, ns \<noteq> None, (case ns of None \<Rightarrow> '''' | Some s \<Rightarrow> s), res, name)"
    and "list_all plain_element pre" and "list_all plain_element (scope_path ns)" and "resource_name res"
  shows "url_path r = (if name \<noteq> '''' \<or> rq_subresource r \<noteq> ''''
    then path_Join [abs_path (pre @ scope_path ns @ [res]), name, rq_subresource r]
    else abs_path (pre @ scope_path ns @ [res]))"
proof -
  have p: "path_Join [abs_path es, s] = abs_path (es @ [s])"
    if "list_all plain_element es" "plain_element s" for es s
    using path_Join_abs [of es "[s]"] that by simp
  have p2: "path_Join [abs_path es, ''namespaces'', s] = abs_path (es @ [''namespaces'', s])"
    if "list_all plain_element es" "plain_element s" for es s
    using path_Join_abs [of es "[''namespaces'', s]"] that by (simp add: plain_element_def)
  have res: "res \<noteq> ''''" "to_lower res = res" "plain_element res"
    using assms(4) by (auto simp: resource_name_def plain_element_def)
  show ?thesis
  proof (cases ns)
    case None
    with assms res show ?thesis by (auto simp: url_path_def Let_def address_def scope_path_def p)
  next
    case (Some s)
    have "path_Join [abs_path pre, ''namespaces'', s] = abs_path (pre @ [''namespaces'', s])" if "s \<noteq> ''''"
      using assms(2,3) that Some by (intro p2) (simp_all add: scope_path_def)
    with Some assms res show ?thesis
      by (auto simp: url_path_def Let_def address_def scope_path_def p)
  qed
qed

lemma url_path_collection:
  assumes "address r = (v, abs_path pre, ns \<noteq> None, (case ns of None \<Rightarrow> '''' | Some s \<Rightarrow> s), res, '''')"
    and "rq_subresource r = ''''"
    and "list_all plain_element pre" and "list_all plain_element (scope_path ns)" and "resource_name res"
  shows "url_path r = abs_path (pre @ scope_path ns @ [res])"
  using url_path_parts [OF assms(1,3-5)] assms(2) by simp

lemma url_path_member:
  assumes "address r = (v, abs_path pre, ns \<noteq> None, (case ns of None \<Rightarrow> '''' | Some s \<Rightarrow> s), res, name)"
    and "rq_subresource r = join_with CHR ''/'' fs"
    and "list_all plain_element pre" and "list_all plain_element (scope_path ns)" and "resource_name res"
    and "plain_element name" and "list_all plain_element fs"
  shows "url_path r = abs_path (pre @ scope_path ns @ [res, name] @ fs)"
proof -
  have n: "name \<noteq> ''''" using assms(6) by (simp add: plain_element_def)
  have es: "list_all plain_element (pre @ scope_path ns @ [res])"
    using assms(3,4,5) by (simp add: resource_name_def)
  have "url_path r = path_Join [abs_path (pre @ scope_path ns @ [res]), name, join_with CHR ''/'' fs]"
    using url_path_parts [OF assms(1,3,4,5)] n assms(2) by simp
  also have "\<dots> = path_Join (abs_path (pre @ scope_path ns @ [res]) # name # fs)"
  proof (cases "fs = []")
    case True
    then show ?thesis using path_Join_abs_skip(2) [of _ name "[]"] by simp
  next
    case False
    then show ?thesis by (rule path_Join_nested [OF _ assms(7) n])
  qed
  also have "\<dots> = abs_path ((pre @ scope_path ns @ [res]) @ name # fs)"
    using assms(6,7) by (intro path_Join_abs es) simp
  finally show ?thesis by simp
qed


section \<open>What is sent\<close>

type_synonym 's log_world = "http_request list \<times> 's"

text \<open>A client whose transport logs every request, whatever it answers.\<close>

definition recording :: "('o, 'l, 's log_world) rest_client \<Rightarrow> bool" where
  "recording c \<longleftrightarrow>
     (\<forall>hq log s. \<exists>r s'. rc_Transport c hq (log, s) = (r, (log @ [hq], s'))) \<and>
     (\<forall>log s. \<exists>e s'. rc_Throttle c (log, s) = (e, (log, s')))"

definition sent :: "('s log_world \<Rightarrow> 'a \<times> 's log_world) \<Rightarrow> 's \<Rightarrow> http_request list" where
  "sent op s = fst (snd (op ([], s)))"

lemma attempt_sent:
  assumes "recording c"
  shows "\<exists>r s'. attempt c hq (log, s) = (r, (log @ [hq], s'))"
proof -
  obtain r s' where t: "rc_Transport c hq (log, s) = (r, (log @ [hq], s'))"
    using assms unfolding recording_def by blast
  show ?thesis by (cases r) (simp_all add: attempt_def t)
qed

lemma request_loop_sent:
  assumes "recording c"
  shows "\<exists>k r s'. request_loop n c hq (log, s) = (r, (log @ replicate k hq, s')) \<and> 1 \<le> k \<and> k \<le> Suc n"
proof (induction n arbitrary: log s)
  case 0
  obtain r s' where "attempt c hq (log, s) = (r, (log @ [hq], s'))" using attempt_sent [OF assms] by blast
  then show ?case by (intro exI [of _ 1]) simp
next
  case (Suc n)
  obtain r s1 where a: "attempt c hq (log, s) = (r, (log @ [hq], s1))" using attempt_sent [OF assms] by blast
  obtain e s2 where t: "rc_Throttle c (log @ [hq], s1) = (e, (log @ [hq], s2))"
    using assms unfolding recording_def by blast
  obtain k r' s3 where l: "request_loop n c hq (log @ [hq], s2) = (r', ((log @ [hq]) @ replicate k hq, s3))"
      "1 \<le> k" "k \<le> Suc n" using Suc.IH by blast
  consider (stop) "\<exists>r''. request_loop (Suc n) c hq (log, s) = (r'', (log @ [hq], s1))"
    | (throttled) "\<exists>r''. request_loop (Suc n) c hq (log, s) = (r'', (log @ [hq], s2))"
    | (again) "request_loop (Suc n) c hq (log, s) = (r', (log @ replicate (Suc k) hq, s3))"
    by (cases r; cases e; cases "checkWait (projr r) = None") (auto simp: a t l(1) [simplified])
  then show ?case
  proof cases
    case stop
    then show ?thesis by (intro exI [of _ 1]) auto
  next
    case throttled
    then show ?thesis by (intro exI [of _ 1]) auto
  next
    case again
    then show ?thesis using l(2,3) by (intro exI [of _ "Suc k"]) auto
  qed
qed

lemma Do_sent:
  assumes "recording c"
  shows "\<exists>k d res s'. req_Do c r (log, s) = (res, (log @ replicate k (wire_request d r), s')) \<and>
    k \<le> Suc (rq_maxRetries r) \<and> (0 < k \<longrightarrow> rq_err r = None \<and> requestPreflightCheck r = None)"
proof (cases "rq_err r = None \<and> requestPreflightCheck r = None")
  case False
  then have "req_Do c r (log, s) = (fst (req_Do c r (log, s)), (log, s))"
    by (auto simp: req_Do_def req_request_def split: option.splits)
  then show ?thesis by (intro exI [of _ 0]) auto
next
  case True
  obtain e s1 where t: "rc_Throttle c (log, s) = (e, (log, s1))" using assms unfolding recording_def by blast
  let ?d = "if 0 <s rq_timeout r then Some (rq_timeout r) else None"
  show ?thesis
  proof (cases e)
    case None
    obtain k r' s2 where l: "request_loop (rq_maxRetries r) c (wire_request ?d r) (log, s1) =
        (r', (log @ replicate k (wire_request ?d r), s2))" "k \<le> Suc (rq_maxRetries r)"
      using request_loop_sent [OF assms, of "rq_maxRetries r"] by blast
    show ?thesis
      by (intro exI [of _ k] exI [of _ ?d]) (use True t None l in \<open>cases r'; simp add: req_Do_def req_request_def\<close>)
  next
    case (Some x)
    then show ?thesis
      by (intro exI [of _ 0]) (use True t in \<open>simp add: req_Do_def req_request_def\<close>)
  qed
qed

lemma Into_world [simp]:
  "snd (IntoObject c x) = snd x" "snd (IntoList c x) = snd x" "snd (IntoError c x) = snd x"
  by (simp_all add: IntoObject_def IntoList_def IntoError_def)

lemma wire_request_simps [simp]:
  "hq_verb (wire_request d r) = rq_verb r" "hq_path (wire_request d r) = url_path r"
  by (simp_all add: wire_request_def)

text \<open>A log with at most eleven requests, all of one verb and one path.\<close>

definition only_sent :: "string \<Rightarrow> string \<Rightarrow> http_request list \<Rightarrow> bool" where
  "only_sent v p hqs \<longleftrightarrow> list_all (\<lambda>hq. hq_verb hq = v \<and> hq_path hq = p) hqs \<and> length hqs \<le> 11"

lemma sent_Do:
  assumes "recording c" and "rq_maxRetries r = 10"
    and "rq_err r = None \<Longrightarrow> requestPreflightCheck r = None \<Longrightarrow> rq_verb r = v \<and> url_path r = p \<and> P"
  shows "only_sent v p (fst (snd (req_Do c r ([], s)))) \<and> (fst (snd (req_Do c r ([], s))) = [] \<or> P)"
proof -
  obtain k d res s' where d: "req_Do c r ([], s) = (res, ([] @ replicate k (wire_request d r), s'))"
      "k \<le> Suc (rq_maxRetries r)" "0 < k \<longrightarrow> rq_err r = None \<and> requestPreflightCheck r = None"
    using Do_sent [OF assms(1), of r "[]" s] by blast
  then show ?thesis using assms(2,3) by (cases "k = 0") (auto simp: only_sent_def list_all_iff)
qed


section \<open>The generic client\<close>

text \<open>What the check before sending lets through.\<close>

definition scope_allowed :: "string \<Rightarrow> string option \<Rightarrow> string \<Rightarrow> bool" where
  "scope_allowed v ns name \<longleftrightarrow>
     ns \<noteq> Some '''' \<or> v \<noteq> ''POST'' \<and> (v \<notin> {''GET'', ''PUT'', ''DELETE''} \<or> name = '''')"

lemma preflight_iff:
  assumes "address r = (v, p, ns \<noteq> None, (case ns of None \<Rightarrow> '''' | Some s \<Rightarrow> s), res, name)"
  shows "requestPreflightCheck r = None \<longleftrightarrow> scope_allowed v ns name"
  using assms by (cases ns) (auto simp: requestPreflightCheck_def scope_allowed_def address_def)

text \<open>All requests of a call go with one verb to the collection, or to one named member of it.\<close>

definition collection_requests :: "string \<Rightarrow> string list \<Rightarrow> string option \<Rightarrow> string \<Rightarrow> http_request list \<Rightarrow> bool" where
  "collection_requests v pre ns res hqs \<longleftrightarrow>
     only_sent v (abs_path (pre @ scope_path ns @ [res])) hqs \<and> (hqs = [] \<or> scope_allowed v ns '''')"

definition member_requests ::
  "string \<Rightarrow> string list \<Rightarrow> string option \<Rightarrow> string \<Rightarrow> string \<Rightarrow> string list \<Rightarrow> http_request list \<Rightarrow> bool" where
  "member_requests v pre ns res name sub hqs \<longleftrightarrow>
     only_sent v (abs_path (pre @ scope_path ns @ [res, name] @ sub)) hqs \<and>
     (hqs = [] \<or> plain_element name \<and> scope_allowed v ns name)"

lemma collection_sent:
  assumes "recording c" and "list_all plain_element pre" and "resource_name res" and "fresh v pre r0"
    and "address r = address (collection res ns r0)" and "rq_subresource r = rq_subresource (collection res ns r0)"
    and "rq_maxRetries r = 10" and "rq_err r = None \<Longrightarrow> rq_err (collection res ns r0) = None"
  shows "collection_requests v pre ns res (fst (snd (req_Do c r ([], s))))"
  unfolding collection_requests_def
proof (rule sent_Do [OF assms(1,7)])
  assume err: "rq_err r = None" and pf: "requestPreflightCheck r = None"
  have res: "res \<noteq> ''''" using assms(3) by (simp add: resource_name_def plain_element_def)
  note col = collection_address [OF assms(4) assms(8) [OF err] res, folded assms(5,6)]
  show "rq_verb r = v \<and> url_path r = abs_path (pre @ scope_path ns @ [res]) \<and> scope_allowed v ns ''''"
    using col url_path_collection [of r v pre ns res] preflight_iff [of r v _ ns res "''''"] pf assms(2,3)
    by (simp add: address_def)
qed

lemma member_sent:
  assumes "recording c" and "list_all plain_element pre" and "resource_name res" and "fresh v pre r0"
    and "address r = address (member res ns name r0)" and "rq_maxRetries r = 10"
    and "rq_err r = None \<Longrightarrow> rq_err (member res ns name r0) = None \<and>
      rq_subresource r = join_with CHR ''/'' fs \<and> list_all plain_element fs"
  shows "member_requests v pre ns res name fs (fst (snd (req_Do c r ([], s))))"
  unfolding member_requests_def
proof (rule sent_Do [OF assms(1,6)])
  assume err: "rq_err r = None" and pf: "requestPreflightCheck r = None"
  have res: "res \<noteq> ''''" using assms(3) by (simp add: resource_name_def plain_element_def)
  note m = member_address [OF assms(4) conjunct1 [OF assms(7) [OF err]] res, folded assms(5)]
  show "rq_verb r = v \<and> url_path r = abs_path (pre @ scope_path ns @ [res, name] @ fs) \<and>
      plain_element name \<and> scope_allowed v ns name"
    using m url_path_member [of r v pre ns res name fs] preflight_iff [of r v _ ns res name] pf assms(2,3)
      assms(7) [OF err] by (simp add: address_def)
qed

lemma member_subresource:
  assumes "rq_err (req_SubResource subs (member res ns name r0)) = None" and "fresh v pre r0" and "res \<noteq> ''''"
  shows "rq_err (member res ns name r0) = None \<and>
    rq_subresource (req_SubResource subs (member res ns name r0)) = join_with CHR ''/'' (sub_path subs) \<and>
    list_all plain_element (sub_path subs)"
proof -
  let ?m = "member res ns name r0"
  have e: "rq_err ?m = None" using assms(1) by blast
  then have sub: "rq_subresource ?m = ''''" using member_address [OF assms(2) _ assms(3)] by blast
  then have ok: "find (\<lambda>s. IsValidPathSegmentName s \<noteq> []) subs = None"
    using assms(1) e by (auto simp: req_SubResource_def unless_err_def fail_request_def split: option.splits)
  then have "list_all (\<lambda>s. IsValidPathSegmentName s = []) subs" by (auto simp: find_None_iff list_all_iff)
  with path_Join_relative [of subs] sub ok e show ?thesis
    by (simp add: req_SubResource_def unless_err_def)
qed

text \<open>Without a subresource.\<close>

lemma member_no_subresource:
  assumes "rq_err (member res ns name r0) = None" and "fresh v pre r0" and "res \<noteq> ''''"
  shows "rq_err (member res ns name r0) = None \<and>
    rq_subresource (member res ns name r0) = join_with CHR ''/'' [] \<and> list_all plain_element []"
  using member_address [OF assms(2,1,3)] assms(1) by simp

lemma retries_member [simp]:
  "rq_maxRetries (member res ns name r) = rq_maxRetries r"
  "rq_maxRetries (collection res ns r) = rq_maxRetries r"
  "rq_maxRetries (rest_Get c) = 10" "rq_maxRetries (rest_Post c) = 10" "rq_maxRetries (rest_Put c) = 10"
  "rq_maxRetries (rest_Delete c) = 10"
  by (simp_all add: member_def collection_def scope_of_def rest_Get_def rest_Post_def rest_Put_def
      rest_Delete_def split: option.splits)

lemmas client_frames = address_frame retries_frame retries_member subresource_frame

lemmas generic_methods = generic_client_def sent_def typed_client.select_convs Into_world

lemma status_path: "sub_path [''status''] = [''status'']"
  by (simp add: sub_path_def)

lemma generic_member_calls:
  assumes "recording c" and "api_root c pre" and "resource_name res"
  shows "member_requests ''GET'' pre ns res name [] (sent (tcl_Get (generic_client res meta c ns) name gopts) s)"
    and "member_requests ''PUT'' pre ns res (om_Name (meta obj)) []
      (sent (tcl_Update (generic_client res meta c ns) obj uopts) s)"
    and "member_requests ''PUT'' pre ns res (om_Name (meta obj)) [''status'']
      (sent (tcl_UpdateStatus (generic_client res meta c ns) obj uopts) s)"
    and "member_requests ''DELETE'' pre ns res name [] (sent (tcl_Delete (generic_client res meta c ns) name dopts) s)"
    and "member_requests ''PATCH'' pre ns res name (sub_path subs)
      (sent (tcl_Patch (generic_client res meta c ns) name pt bytes popts subs) s)"
proof -
  have res: "res \<noteq> ''''" using assms(3) by (simp add: resource_name_def plain_element_def)
  have pre: "list_all plain_element pre" using assms(2) by (simp add: api_root_def)
  note start = fresh_start [OF assms(2)]
  note via = member_sent [OF assms(1) pre assms(3)]
  show "member_requests ''GET'' pre ns res name [] (sent (tcl_Get (generic_client res meta c ns) name gopts) s)"
    unfolding generic_methods
    by (rule via [OF start(1)]) (simp_all only: client_frames, (drule err_kept)+, rule member_no_subresource [OF _ start(1) res])
  show "member_requests ''PUT'' pre ns res (om_Name (meta obj)) []
      (sent (tcl_Update (generic_client res meta c ns) obj uopts) s)"
    unfolding generic_methods
    by (rule via [OF start(3)]) (simp_all only: client_frames, (drule err_kept)+, rule member_no_subresource [OF _ start(3) res])
  show "member_requests ''PUT'' pre ns res (om_Name (meta obj)) [''status'']
      (sent (tcl_UpdateStatus (generic_client res meta c ns) obj uopts) s)"
    unfolding generic_methods
    by (rule via [OF start(3)])
      (simp_all only: client_frames, drule err_kept(3), drule err_kept(1), erule member_subresource [OF _ start(3) res, of "[''status'']", unfolded status_path])
  show "member_requests ''DELETE'' pre ns res name [] (sent (tcl_Delete (generic_client res meta c ns) name dopts) s)"
    unfolding generic_methods
    by (rule via [OF start(4)]) (simp_all only: client_frames, (drule err_kept)+, rule member_no_subresource [OF _ start(4) res])
  show "member_requests ''PATCH'' pre ns res name (sub_path subs)
      (sent (tcl_Patch (generic_client res meta c ns) name pt bytes popts subs) s)"
    unfolding generic_methods
    by (rule via [OF start(5)]) (simp_all only: client_frames, drule err_kept(3), drule err_kept(1), erule member_subresource [OF _ start(5) res])
qed

lemma generic_collection_calls:
  assumes "recording c" and "api_root c pre" and "resource_name res"
  shows "collection_requests ''GET'' pre ns res (sent (tcl_List (generic_client res meta c ns) lopts) s)"
    and "collection_requests ''POST'' pre ns res (sent (tcl_Create (generic_client res meta c ns) obj copts) s)"
    and "collection_requests ''DELETE'' pre ns res
      (sent (tcl_DeleteCollection (generic_client res meta c ns) dopts lopts) s)"
proof -
  have pre: "list_all plain_element pre" using assms(2) by (simp add: api_root_def)
  note start = fresh_start [OF assms(2)]
  note via = collection_sent [OF assms(1) pre assms(3)]
  show "collection_requests ''GET'' pre ns res (sent (tcl_List (generic_client res meta c ns) lopts) s)"
    unfolding generic_methods by (rule via [OF start(1)]) auto
  show "collection_requests ''POST'' pre ns res (sent (tcl_Create (generic_client res meta c ns) obj copts) s)"
    unfolding generic_methods by (rule via [OF start(2)]) auto
  show "collection_requests ''DELETE'' pre ns res
      (sent (tcl_DeleteCollection (generic_client res meta c ns) dopts lopts) s)"
    unfolding generic_methods by (rule via [OF start(4)]) auto
qed

lemma watch_sent:
  assumes "recording c" and "rq_err r = None \<Longrightarrow> rq_verb r = v \<and> url_path r = p"
  shows "only_sent v p (sent (req_Watch c r) s)"
proof -
  obtain res s' where t: "rc_Transport c (wire_request None r) ([], s) = (res, ([wire_request None r], s'))"
    using assms(1) unfolding recording_def by (metis append_Nil)
  show ?thesis using assms(2)
    by (cases res)
      (auto simp: sent_def req_Watch_def only_sent_def t split: option.splits)
qed

lemma generic_watch_call:
  assumes "recording c" and "api_root c pre" and "resource_name res"
  shows "only_sent ''GET'' (abs_path (pre @ scope_path ns @ [res]))
    (sent (tcl_Watch (generic_client res meta c ns) lopts) s)"
proof -
  have res: "res \<noteq> ''''" using assms(3) by (simp add: resource_name_def plain_element_def)
  have pre: "list_all plain_element pre" using assms(2) by (simp add: api_root_def)
  let ?r = "req_Timeout (timeout_of lopts) (req_VersionedParams c (ListParams (lopts\<lparr>lo_Watch := True\<rparr>))
    (collection res ns (rest_Get c)))"
  have "rq_verb ?r = ''GET'' \<and> url_path ?r = abs_path (pre @ scope_path ns @ [res])" if "rq_err ?r = None"
  proof -
    have "rq_err (collection res ns (rest_Get c)) = None" using that by blast
    note col = collection_address [OF fresh_start(1) [OF assms(2)] this res]
    have ad: "address ?r = (''GET'', abs_path pre, ns \<noteq> None, (case ns of None \<Rightarrow> '''' | Some s \<Rightarrow> s), res, '''')"
      using col by simp
    then have "rq_verb ?r = ''GET''" by (simp only: address_def prod.inject)
    with url_path_collection [OF ad _ pre _ assms(3)] col show ?thesis by simp
  qed
  then have "only_sent ''GET'' (abs_path (pre @ scope_path ns @ [res])) (sent (req_Watch c ?r) s)"
    by (rule watch_sent [OF assms(1)])
  then show ?thesis by (simp add: generic_client_def)
qed


section \<open>Properties\<close>

lemma route_resource: "resource_name ''httproutes''"
  by (simp add: resource_name_def plain_element_def to_lower_def)

lemma api_root_append: "path_Join [''/'', p, q] = abs_path pre \<Longrightarrow> list_all plain_element pre \<Longrightarrow>
    rc_basePath c = p \<Longrightarrow> rc_versionedAPIPath c = q \<Longrightarrow> api_root c pre"
  by (simp add: api_root_def)

text \<open>A client that logs its requests and never reaches a server.\<close>

definition offline_client :: "(http_route, unit, unit log_world) rest_client" where
  "offline_client = \<lparr>rc_basePath = ''/'', rc_versionedAPIPath = ''/apis/networking.x-k8s.io/v1alpha1'',
     rc_timeout = 0, rc_ContentType = ''application/json'', rc_AcceptContentTypes = '''',
     rc_EncodeParameters = (\<lambda>_. Inr fmempty), rc_Encode = (\<lambda>_. Inr ''{}''),
     rc_ParseMediaType = Inr, rc_Decoder = Inr,
     rc_newObject = empty_route, rc_newList = (),
     rc_DecodeObject = (\<lambda>_ _. Inr DecodedOther), rc_DecodeList = (\<lambda>_ _. Inr DecodedOther),
     rc_DecodeStatus = (\<lambda>_ _. None), rc_StreamDecoder = (\<lambda>_. None), rc_Throttle = (\<lambda>w. (None, w)),
     rc_Transport = (\<lambda>hq (log, s).
       (Inl \<lparr>ne_IsConnectionReset = True, ne_IsProbableEOF = True, ne_IsTimeout = False, ne_error = OtherError ''reset''\<rparr>,
        (log @ [hq], s)))\<rparr>"

abbreviation offline_root :: "string list" where
  "offline_root \<equiv> [''apis'', ''networking.x-k8s.io'', ''v1alpha1'']"

lemma offline_client_ok: "recording offline_client" "api_root offline_client offline_root"
proof -
  show "recording offline_client" by (simp add: recording_def offline_client_def)
  have "path_Join [''/'', ''/'', ''/apis/networking.x-k8s.io/v1alpha1''] = abs_path offline_root \<and>
      list_all plain_element offline_root"
    by code_simp
  then show "api_root offline_client offline_root" by (simp add: api_root_def offline_client_def)
qed




text \<open>Two calls that send a request to the same path mean the same route: if a Delete of one route and
  a Delete of another ever ask for the same path, the namespaces and the names are equal. No choice of
  namespace and name makes the path of one route reach another.\<close>

theorem route_paths_distinct:
  assumes "recording c" and "api_root c pre"
    and "hq \<in> set (sent (tcl_Delete (newHTTPRoutes c ns) name opts) s)"
    and "hq' \<in> set (sent (tcl_Delete (newHTTPRoutes c ns') name' opts') s')"
    and "hq_path hq = hq_path hq'"
  shows "ns = ns' \<and> name = name'"
proof -
  have g: "newHTTPRoutes c ns = generic_client ''httproutes'' hr_Meta c (Some ns)" for ns
    by (simp add: client_defs)
  have pre: "list_all plain_element pre" using assms(2) by (simp add: api_root_def)
  have one: "ns \<noteq> '''' \<and> plain_element name \<and> list_all plain_element (scope_path (Some ns)) \<and>
      hq_path hq = abs_path (pre @ [''namespaces'', ns, ''httproutes'', name])"
    if hq: "hq \<in> set (sent (tcl_Delete (newHTTPRoutes c ns) name opts) s)" for hq ns name opts s
  proof -
    have m: "member_requests ''DELETE'' pre (Some ns) ''httproutes'' name []
        (sent (tcl_Delete (newHTTPRoutes c ns) name opts) s)"
      unfolding g by (rule generic_member_calls(4) [OF assms(1,2) route_resource])
    with hq have n: "ns \<noteq> ''''" "plain_element name"
      by (auto simp: member_requests_def scope_allowed_def plain_element_def)
    have "rq_err (member ''httproutes'' (Some ns) name (rest_Delete c)) = None"
    proof (rule ccontr)
      assume "rq_err (member ''httproutes'' (Some ns) name (rest_Delete c)) \<noteq> None"
      then have "rq_err (req_Body c (DeleteBody opts) (member ''httproutes'' (Some ns) name (rest_Delete c))) \<noteq> None"
        by (metis err_kept(3))
      then have "sent (tcl_Delete (newHTTPRoutes c ns) name opts) s = []"
        unfolding g by (auto simp: generic_methods req_Do_def req_request_def)
      with hq show False by simp
    qed
    then have "list_all plain_element (scope_path (Some ns))"
      using member_address [OF fresh_start(4) [OF assms(2)]] by fastforce
    with hq m n show ?thesis
      by (auto simp: member_requests_def only_sent_def list_all_iff scope_path_def)
  qed
  have "pre @ [''namespaces'', ns, ''httproutes'', name] = pre @ [''namespaces'', ns', ''httproutes'', name']"
    using one [OF assms(3)] one [OF assms(4)] assms(5) pre
    by (intro abs_path_inj) (auto simp: scope_path_def plain_element_def)
  then show ?thesis by simp
qed

theorem route_paths_distinct_witness:
  "\<exists>hq opts. hq \<in> set (sent (tcl_Delete (newHTTPRoutes offline_client ''ns'') ''a'' opts) ()) \<and>
     ((\<exists>hq'. hq' \<in> set (sent (tcl_Delete (newHTTPRoutes offline_client ''ns'') ''b'' opts) ()) \<and>
       hq_path hq = hq_path hq') \<longrightarrow> ''a'' = ''b'')"
proof -
  let ?opts = "\<lparr>do_GracePeriodSeconds = None, do_Preconditions = None, do_OrphanDependents = None,
    do_PropagationPolicy = None, do_DryRun = []\<rparr>"
  let ?hqs = "sent (tcl_Delete (newHTTPRoutes offline_client ''ns'') ''a'' ?opts) ()"
  have "length ?hqs = 1" by code_simp
  then obtain hq where hq: "hq \<in> set ?hqs" by (cases ?hqs) auto
  with route_paths_distinct [OF offline_client_ok hq] show ?thesis by blast
qed

text \<open>C25. The timeout of a list call is the given number of seconds exactly when that fits in 64 bits of
  nanoseconds: the multiplication wraps beyond 9223372036 seconds, silently. At 2 ^ 55 seconds it
  wraps to no timeout at all.\<close>

theorem timeout_exact_iff:
  assumes "lo_TimeoutSeconds opts = Some t"
  shows "(sint (timeout_of opts) = sint t * 1000000000 \<longleftrightarrow> \<bar>sint t\<bar> \<le> 9223372036) \<and>
    timeout_of (opts\<lparr>lo_TimeoutSeconds := Some (2 ^ 55)\<rparr>) = 0"
proof -
  have "sint (timeout_of opts) = signed_take_bit 63 (sint t * 1000000000)"
    using assms by (simp add: timeout_of_def sint_word_ariths)
  also have "\<dots> = sint t * 1000000000 \<longleftrightarrow> \<bar>sint t\<bar> \<le> 9223372036"
    by (auto simp: signed_take_bit_int_eq_self_iff abs_le_iff)
  finally show ?thesis by (simp add: timeout_of_def)
qed

theorem timeout_exact_iff_witness:
  "sint (timeout_of \<lparr>lo_LabelSelector = '''', lo_FieldSelector = '''', lo_Watch = False, lo_AllowWatchBookmarks = False,
     lo_ResourceVersion = '''', lo_ResourceVersionMatch = '''', lo_TimeoutSeconds = Some 30, lo_Limit = 0, lo_Continue = ''''\<rparr>) =
   30000000000"
  using timeout_exact_iff [of "\<lparr>lo_LabelSelector = '''', lo_FieldSelector = '''', lo_Watch = False,
     lo_AllowWatchBookmarks = False, lo_ResourceVersion = '''', lo_ResourceVersionMatch = '''',
     lo_TimeoutSeconds = Some 30, lo_Limit = 0, lo_Continue = ''''\<rparr>" 30] by simp

lemma loop_gives_up:
  assumes "isl (fst (rc_Transport c hq (log, s)))" and "hq_verb hq \<noteq> ''GET''" and "recording c"
  shows "fst (snd (request_loop n c hq (log, s))) = log @ [hq]"
proof -
  obtain e s' where "rc_Transport c hq (log, s) = (Inl e, (log @ [hq], s'))"
    using assms(1,3) unfolding recording_def by (metis isl_def fst_conv)
  then show ?thesis using assms(2) by (cases n) (simp_all add: attempt_def)
qed


lemma Do_gives_up:
  assumes "recording c" and "\<And>hq w. isl (fst (rc_Transport c hq w))"
    and "rq_err r = None \<Longrightarrow> rq_verb r \<noteq> ''GET''"
  shows "length (fst (snd (req_Do c r ([], s)))) \<le> 1"
proof (cases "rq_err r = None \<and> requestPreflightCheck r = None")
  case False
  then show ?thesis by (auto simp: req_Do_def req_request_def split: option.splits)
next
  case True
  obtain e s1 where t: "rc_Throttle c ([], s) = (e, ([], s1))" using assms(1) unfolding recording_def by blast
  let ?hq = "wire_request (if 0 <s rq_timeout r then Some (rq_timeout r) else None) r"
  have "fst (snd (request_loop (rq_maxRetries r) c ?hq ([], s1))) = [] @ [?hq]"
    using True assms by (intro loop_gives_up) simp_all
  then obtain x s2 where l: "request_loop (rq_maxRetries r) c ?hq ([], s1) = (x, ([?hq], s2))"
    by (metis append_Nil prod.collapse)
  show ?thesis
  proof (cases e)
    case None
    then have "snd (req_request c r ([], s)) = ([?hq], s2)" using True t l by (simp add: req_request_def)
    then show ?thesis by (auto simp: req_Do_def split: prod.splits sum.splits)
  next
    case (Some x)
    then show ?thesis using True t by (simp add: req_Do_def req_request_def)
  qed
qed

lemma verb_frame:
  "rq_verb (req_VersionedParams c obj r) = rq_verb r" "rq_verb (req_Timeout d r) = rq_verb r"
  "rq_verb (req_Body c b r) = rq_verb r" "rq_verb (req_SubResource subs r) = rq_verb r"
  "rq_verb (req_Name n r) = rq_verb r" "rq_verb (req_Resource res r) = rq_verb r"
  "rq_verb (req_Namespace ns r) = rq_verb r" "rq_verb (scope_of scope r) = rq_verb r"
  "rq_verb (rest_Verb v c) = v"
  by (auto simp: req_VersionedParams_def req_Timeout_def req_Body_def req_SubResource_def req_Name_def
      req_Resource_def req_Namespace_def scope_of_def rest_Verb_def
      unless_err_def fail_request_def SetHeader_def split: sum.splits body_object.splits option.splits)



end
