(* ===== verification/Tracker.thy ===== *)
theory Tracker
  imports Meta "HOL-Library.Product_Lexorder"
begin

text \<open>
  The object tracker behind the generated fake clients (k8s.io/client-go/testing/fixture.go): a map
  of objects per resource with the conflict and not-found errors of the API server, and the events
  it pushes to its watchers.

  It is generic in the type \<open>'o\<close> of its objects, whose metadata \<open>meta.Accessor\<close> reads and sets: the
  arguments \<open>get_meta\<close> and \<open>set_meta\<close>. Deep copies of values are the values. An interface
  \<open>object_store\<close> states what a client may rely on; the tracker provides it.
\<close>

section \<open>State\<close>

record group_version_resource =
  gvr_Group :: string
  gvr_Version :: string
  gvr_Resource :: string

datatype 'o watch_event = Added 'o | Modified 'o | Deleted 'o

text \<open>A watcher is the number it got; \<open>tr_sent\<close> lists what was pushed to whom, in order.\<close>

record 'o tracker =
  tr_objects :: "(group_version_resource, (namespaced_name, 'o) fmap) fmap"
  tr_watchers :: "(group_version_resource, (string, nat list) fmap) fmap"
  tr_next :: nat
  tr_sent :: "(nat \<times> 'o watch_event) list"

definition NewObjectTracker :: "'o tracker" where
  "NewObjectTracker = \<lparr>tr_objects = fmempty, tr_watchers = fmempty, tr_next = 0, tr_sent = []\<rparr>"

type_synonym 'o getter = "'o \<Rightarrow> object_meta"
type_synonym 'o setter = "(object_meta \<Rightarrow> object_meta) \<Rightarrow> 'o \<Rightarrow> 'o"

section \<open>Operations\<close>

definition NewNotFound :: "string \<Rightarrow> error" where
  [go_defs]: "NewNotFound name = StatusError NotFound name"

definition NewAlreadyExists :: "string \<Rightarrow> error" where
  [go_defs]: "NewAlreadyExists name = StatusError AlreadyExists name"

definition NewBadRequest :: "string \<Rightarrow> error" where
  [go_defs]: "NewBadRequest msg = StatusError BadRequest msg"

definition tracker_Get ::
  "group_version_resource \<Rightarrow> string \<Rightarrow> string \<Rightarrow> 'o tracker \<Rightarrow> error + 'o" where
  "tracker_Get gvr ns name t =
     (case fmlookup (tr_objects t) gvr of
        None \<Rightarrow> Inl (NewNotFound name)
      | Some objs \<Rightarrow>
          (case fmlookup objs (ns, name) of
             None \<Rightarrow> Inl (NewNotFound name)
           | Some obj \<Rightarrow> Inr obj))"

definition filterByNamespace ::
  "'o getter \<Rightarrow> (namespaced_name, 'o) fmap \<Rightarrow> string \<Rightarrow> 'o list" where
  "filterByNamespace get_meta objs ns =
     sort_key (\<lambda>o'. (om_Namespace (get_meta o'), om_Name (get_meta o')))
       (filter (\<lambda>o'. \<not> (ns \<noteq> '''' \<and> om_Namespace (get_meta o') \<noteq> ns))
          (map snd (sorted_list_of_fmap objs)))"

definition tracker_List ::
  "'o getter \<Rightarrow> group_version_resource \<Rightarrow> string \<Rightarrow> 'o tracker \<Rightarrow> 'o list" where
  "tracker_List get_meta gvr ns t =
     (case fmlookup (tr_objects t) gvr of None \<Rightarrow> [] | Some objs \<Rightarrow> filterByNamespace get_meta objs ns)"

definition tracker_Watch :: "group_version_resource \<Rightarrow> string \<Rightarrow> 'o tracker \<Rightarrow> nat \<times> 'o tracker" where
  "tracker_Watch gvr ns t =
     (let fakewatcher = tr_next t;
          ws = (case fmlookup (tr_watchers t) gvr of None \<Rightarrow> fmempty | Some m \<Rightarrow> m);
          old = (case fmlookup ws ns of None \<Rightarrow> [] | Some l \<Rightarrow> l)
      in (fakewatcher, t\<lparr>tr_next := Suc fakewatcher,
            tr_watchers := fmupd gvr (fmupd ns (old @ [fakewatcher]) ws) (tr_watchers t)\<rparr>))"

definition getWatches :: "group_version_resource \<Rightarrow> string \<Rightarrow> 'o tracker \<Rightarrow> nat list" where
  "getWatches gvr ns t =
     (case fmlookup (tr_watchers t) gvr of
        None \<Rightarrow> []
      | Some m \<Rightarrow>
          (case fmlookup m ns of None \<Rightarrow> [] | Some w \<Rightarrow> w) @
          (if ns \<noteq> '''' then (case fmlookup m '''' of None \<Rightarrow> [] | Some w \<Rightarrow> w) else []))"

definition push_event :: "nat list \<Rightarrow> 'o watch_event \<Rightarrow> 'o tracker \<Rightarrow> 'o tracker" where
  "push_event ws ev t = t\<lparr>tr_sent := tr_sent t @ map (\<lambda>w. (w, ev)) ws\<rparr>"

definition set_objects ::
  "group_version_resource \<Rightarrow> (namespaced_name, 'o) fmap \<Rightarrow> 'o tracker \<Rightarrow> 'o tracker" where
  "set_objects gvr objs t = t\<lparr>tr_objects := fmupd gvr objs (tr_objects t)\<rparr>"

definition objects_of :: "group_version_resource \<Rightarrow> 'o tracker \<Rightarrow> (namespaced_name, 'o) fmap" where
  "objects_of gvr t = (case fmlookup (tr_objects t) gvr of None \<Rightarrow> fmempty | Some objs \<Rightarrow> objs)"

definition tracker_add ::
  "'o getter \<Rightarrow> 'o setter \<Rightarrow> group_version_resource \<Rightarrow> 'o \<Rightarrow> string \<Rightarrow> bool \<Rightarrow> 'o tracker \<Rightarrow>
   error option \<times> 'o tracker" where
  "tracker_add get_meta set_meta gvr obj0 ns replaceExisting t =
     (let obj = (if length (om_Namespace (get_meta obj0)) = 0
                 then set_meta (\<lambda>m. m\<lparr>om_Namespace := ns\<rparr>) obj0 else obj0);
          newMeta = get_meta obj
      in if ns \<noteq> om_Namespace newMeta
         then (Some (NewBadRequest ''request namespace does not match object namespace''), t)
         else
           (let objs = objects_of gvr t;
                t1 = set_objects gvr objs t;
                key = (om_Namespace newMeta, om_Name newMeta)
            in if fmlookup objs key \<noteq> None then
                 (if replaceExisting
                  then (None, set_objects gvr (fmupd key obj objs)
                                (push_event (getWatches gvr ns t1) (Modified obj) t1))
                  else (Some (NewAlreadyExists (om_Name newMeta)), t1))
               else if replaceExisting then (Some (NewNotFound (om_Name newMeta)), t1)
               else (None, push_event (getWatches gvr ns t1) (Added obj)
                             (set_objects gvr (fmupd key obj objs) t1))))"

definition tracker_Create ::
  "'o getter \<Rightarrow> 'o setter \<Rightarrow> group_version_resource \<Rightarrow> 'o \<Rightarrow> string \<Rightarrow> 'o tracker \<Rightarrow> error option \<times> 'o tracker" where
  "tracker_Create get_meta set_meta gvr obj ns = tracker_add get_meta set_meta gvr obj ns False"

definition tracker_Update ::
  "'o getter \<Rightarrow> 'o setter \<Rightarrow> group_version_resource \<Rightarrow> 'o \<Rightarrow> string \<Rightarrow> 'o tracker \<Rightarrow> error option \<times> 'o tracker" where
  "tracker_Update get_meta set_meta gvr obj ns = tracker_add get_meta set_meta gvr obj ns True"

definition tracker_Delete ::
  "group_version_resource \<Rightarrow> string \<Rightarrow> string \<Rightarrow> 'o tracker \<Rightarrow> error option \<times> 'o tracker" where
  "tracker_Delete gvr ns name t =
     (case fmlookup (tr_objects t) gvr of
        None \<Rightarrow> (Some (NewNotFound name), t)
      | Some objs \<Rightarrow>
          (case fmlookup objs (ns, name) of
             None \<Rightarrow> (Some (NewNotFound name), t)
           | Some obj \<Rightarrow>
               (None, push_event (getWatches gvr ns t) (Deleted obj)
                        (set_objects gvr (fmdrop (ns, name) objs) t))))"

text \<open>
  The reactions of \<open>ObjectReaction\<close> to the actions of a client: a create or an update answers with
  the object read back.
\<close>

definition react_create ::
  "'o getter \<Rightarrow> 'o setter \<Rightarrow> group_version_resource \<Rightarrow> string \<Rightarrow> 'o \<Rightarrow> 'o tracker \<Rightarrow> (error + 'o) \<times> 'o tracker" where
  "react_create get_meta set_meta gvr ns obj t =
     (case tracker_Create get_meta set_meta gvr obj ns t of
        (Some err, t') \<Rightarrow> (Inl err, t')
      | (None, t') \<Rightarrow> (tracker_Get gvr ns (om_Name (get_meta obj)) t', t'))"

definition react_update ::
  "'o getter \<Rightarrow> 'o setter \<Rightarrow> group_version_resource \<Rightarrow> string \<Rightarrow> 'o \<Rightarrow> 'o tracker \<Rightarrow> (error + 'o) \<times> 'o tracker" where
  "react_update get_meta set_meta gvr ns obj t =
     (case tracker_Update get_meta set_meta gvr obj ns t of
        (Some err, t') \<Rightarrow> (Inl err, t')
      | (None, t') \<Rightarrow> (tracker_Get gvr ns (om_Name (get_meta obj)) t', t'))"

section \<open>The interface\<close>

text \<open>
  What a client of a store of objects in namespaces relies on. \<open>good\<close> is the store's invariant; the
  laws describe requests whose namespace is the object's.
\<close>

locale object_store =
  fixes get :: "string \<Rightarrow> string \<Rightarrow> 'w \<Rightarrow> error + 'o"
    and create :: "string \<Rightarrow> 'o \<Rightarrow> 'w \<Rightarrow> (error + 'o) \<times> 'w"
    and update :: "string \<Rightarrow> 'o \<Rightarrow> 'w \<Rightarrow> (error + 'o) \<times> 'w"
    and metadata :: "'o \<Rightarrow> object_meta"
    and good :: "'w \<Rightarrow> bool"
  assumes get_key: "good w \<Longrightarrow> get ns n w = Inr x \<Longrightarrow> om_Namespace (metadata x) = ns \<and> om_Name (metadata x) = n"
    and get_error: "good w \<Longrightarrow> get ns n w = Inl e \<Longrightarrow> is_not_found e"
    and create_absent: "good w \<Longrightarrow> om_Namespace (metadata x) = ns \<Longrightarrow> om_Name (metadata x) = n \<Longrightarrow>
      get ns n w = Inl e \<Longrightarrow> create ns x w = (r, w') \<Longrightarrow>
      r = Inr x \<and> good w' \<and> get ns n w' = Inr x \<and> (\<forall>ns2 n2. (ns2, n2) \<noteq> (ns, n) \<longrightarrow> get ns2 n2 w' = get ns2 n2 w)"
    and create_present: "good w \<Longrightarrow> om_Namespace (metadata x) = ns \<Longrightarrow> om_Name (metadata x) = n \<Longrightarrow>
      get ns n w = Inr y \<Longrightarrow> create ns x w = (r, w') \<Longrightarrow>
      (\<exists>e. r = Inl e) \<and> good w' \<and> (\<forall>ns2 n2. get ns2 n2 w' = get ns2 n2 w)"
    and update_present: "good w \<Longrightarrow> om_Namespace (metadata x) = ns \<Longrightarrow> om_Name (metadata x) = n \<Longrightarrow>
      get ns n w = Inr y \<Longrightarrow> update ns x w = (r, w') \<Longrightarrow>
      r = Inr x \<and> good w' \<and> get ns n w' = Inr x \<and> (\<forall>ns2 n2. (ns2, n2) \<noteq> (ns, n) \<longrightarrow> get ns2 n2 w' = get ns2 n2 w)"
begin

lemma created_not_lost:
  assumes "good w" and "om_Namespace (metadata x) = ns" and "om_Name (metadata x) = n"
    and "create ns x w = (r, w')" and "get ns2 n2 w = Inr y"
  shows "get ns2 n2 w' = Inr y"
proof (cases "get ns n w")
  case (Inl e)
  then show ?thesis
    using create_absent [OF assms(1,2,3) Inl assms(4)] assms(5) by (cases "(ns2, n2) = (ns, n)") auto
next
  case (Inr z)
  then show ?thesis using create_present [OF assms(1,2,3) Inr assms(4)] assms(5) by simp
qed

end

section \<open>The tracker provides it\<close>

text \<open>Every object is stored under its own key.\<close>

definition tracker_good :: "'o getter \<Rightarrow> group_version_resource \<Rightarrow> 'o tracker \<Rightarrow> bool" where
  "tracker_good get_meta gvr t \<longleftrightarrow>
     fmpred (\<lambda>k obj. (om_Namespace (get_meta obj), om_Name (get_meta obj)) = k) (objects_of gvr t)"

lemma tracker_Get_objects:
  "tracker_Get gvr ns n t =
     (case fmlookup (objects_of gvr t) (ns, n) of None \<Rightarrow> Inl (NewNotFound n) | Some obj \<Rightarrow> Inr obj)"
  by (simp add: tracker_Get_def objects_of_def split: option.splits)

lemma objects_of_simps [simp]:
  "objects_of gvr (push_event ws ev t) = objects_of gvr t"
  "objects_of gvr (set_objects gvr' objs t) = (if gvr' = gvr then objs else objects_of gvr t)"
  "objects_of gvr NewObjectTracker = fmempty"
  by (simp_all add: objects_of_def push_event_def set_objects_def NewObjectTracker_def)

lemma tracker_good_new: "tracker_good get_meta gvr NewObjectTracker"
  by (simp add: tracker_good_def)

lemma own_namespace:
  assumes "om_Namespace (get_meta x) = ns"
    and "set_meta (\<lambda>m. m\<lparr>om_Namespace := om_Namespace (get_meta x)\<rparr>) x = x"
  shows "(if length (om_Namespace (get_meta x)) = 0
          then set_meta (\<lambda>m. m\<lparr>om_Namespace := ns\<rparr>) x else x) = x"
  using assms by auto

lemma tracker_add_absent:
  assumes "om_Namespace (get_meta x) = ns" and "om_Name (get_meta x) = n"
    and "set_meta (\<lambda>m. m\<lparr>om_Namespace := om_Namespace (get_meta x)\<rparr>) x = x"
    and "fmlookup (objects_of gvr t) (ns, n) = None"
  shows "fst (tracker_add get_meta set_meta gvr x ns False t) = None"
    and "objects_of gvr (snd (tracker_add get_meta set_meta gvr x ns False t)) =
      fmupd (ns, n) x (objects_of gvr t)"
    and "fst (tracker_add get_meta set_meta gvr x ns True t) = Some (NewNotFound n)"
    and "objects_of gvr (snd (tracker_add get_meta set_meta gvr x ns True t)) = objects_of gvr t"
  unfolding tracker_add_def Let_def own_namespace [of get_meta x ns set_meta, OF assms(1,3)]
  using assms by simp_all

lemma tracker_add_present:
  assumes "om_Namespace (get_meta x) = ns" and "om_Name (get_meta x) = n"
    and "set_meta (\<lambda>m. m\<lparr>om_Namespace := om_Namespace (get_meta x)\<rparr>) x = x"
    and "fmlookup (objects_of gvr t) (ns, n) = Some y"
  shows "fst (tracker_add get_meta set_meta gvr x ns False t) = Some (NewAlreadyExists n)"
    and "objects_of gvr (snd (tracker_add get_meta set_meta gvr x ns False t)) = objects_of gvr t"
    and "fst (tracker_add get_meta set_meta gvr x ns True t) = None"
    and "objects_of gvr (snd (tracker_add get_meta set_meta gvr x ns True t)) =
      fmupd (ns, n) x (objects_of gvr t)"
  unfolding tracker_add_def Let_def own_namespace [of get_meta x ns set_meta, OF assms(1,3)]
  using assms by simp_all

text \<open>A request in the namespace of another object is refused without touching the objects.\<close>

lemma tracker_add_bad_namespace:
  assumes "om_Namespace (get_meta x) \<noteq> ''''" and "om_Namespace (get_meta x) \<noteq> ns"
  shows "tracker_add get_meta set_meta gvr x ns replace t =
    (Some (NewBadRequest ''request namespace does not match object namespace''), t)"
  using assms by (simp add: tracker_add_def Let_def)

lemma tracker_store_laws:
  fixes get_meta :: "'a getter" and set_meta :: "'a setter"
  assumes set_id: "\<And>x. set_meta (\<lambda>m. m\<lparr>om_Namespace := om_Namespace (get_meta x)\<rparr>) x = x"
  shows "object_store (tracker_Get gvr) (react_create get_meta set_meta gvr)
     (react_update get_meta set_meta gvr) get_meta (tracker_good get_meta gvr)"
proof
  fix w :: "'a tracker" and ns n x
  assume "tracker_good get_meta gvr w" "tracker_Get gvr ns n w = Inr x"
  then show "om_Namespace (get_meta x) = ns \<and> om_Name (get_meta x) = n"
    by (auto simp: tracker_good_def tracker_Get_objects fmpred_iff split: option.splits)
next
  fix w :: "'a tracker" and ns n e
  assume "tracker_Get gvr ns n w = Inl e"
  then show "is_not_found e" by (auto simp: tracker_Get_objects go_defs split: option.splits)
next
  fix w w' :: "'a tracker" and x ns n e r
  assume good: "tracker_good get_meta gvr w" and x: "om_Namespace (get_meta x) = ns" "om_Name (get_meta x) = n"
    and absent: "tracker_Get gvr ns n w = Inl e" and run: "react_create get_meta set_meta gvr ns x w = (r, w')"
  have "fmlookup (objects_of gvr w) (ns, n) = None"
    using absent by (simp add: tracker_Get_objects split: option.splits)
  note add = tracker_add_absent(1,2) [where get_meta = get_meta and set_meta = set_meta and x = x, OF x set_id this]
  obtain w1 where a: "tracker_add get_meta set_meta gvr x ns False w = (None, w1)"
    and o: "objects_of gvr w1 = fmupd (ns, n) x (objects_of gvr w)"
    using add by (cases "tracker_add get_meta set_meta gvr x ns False w") simp
  show "r = Inr x \<and> tracker_good get_meta gvr w' \<and> tracker_Get gvr ns n w' = Inr x \<and>
      (\<forall>ns2 n2. (ns2, n2) \<noteq> (ns, n) \<longrightarrow> tracker_Get gvr ns2 n2 w' = tracker_Get gvr ns2 n2 w)"
    using run good x o
    by (auto simp: react_create_def tracker_Create_def a tracker_Get_objects tracker_good_def fmpred_iff)
next
  fix w w' :: "'a tracker" and x ns n y r
  assume good: "tracker_good get_meta gvr w" and x: "om_Namespace (get_meta x) = ns" "om_Name (get_meta x) = n"
    and present: "tracker_Get gvr ns n w = Inr y" and run: "react_create get_meta set_meta gvr ns x w = (r, w')"
  have "fmlookup (objects_of gvr w) (ns, n) = Some y"
    using present by (simp add: tracker_Get_objects split: option.splits)
  note add = tracker_add_present(1,2) [where get_meta = get_meta and set_meta = set_meta and x = x, OF x set_id this]
  obtain w1 where a: "tracker_add get_meta set_meta gvr x ns False w = (Some (NewAlreadyExists n), w1)"
    and o: "objects_of gvr w1 = objects_of gvr w"
    using add by (cases "tracker_add get_meta set_meta gvr x ns False w") simp
  show "(\<exists>e. r = Inl e) \<and> tracker_good get_meta gvr w' \<and>
      (\<forall>ns2 n2. tracker_Get gvr ns2 n2 w' = tracker_Get gvr ns2 n2 w)"
    using run good o
    by (auto simp: react_create_def tracker_Create_def a tracker_Get_objects tracker_good_def)
next
  fix w w' :: "'a tracker" and x ns n y r
  assume good: "tracker_good get_meta gvr w" and x: "om_Namespace (get_meta x) = ns" "om_Name (get_meta x) = n"
    and present: "tracker_Get gvr ns n w = Inr y" and run: "react_update get_meta set_meta gvr ns x w = (r, w')"
  have "fmlookup (objects_of gvr w) (ns, n) = Some y"
    using present by (simp add: tracker_Get_objects split: option.splits)
  note add = tracker_add_present(3,4) [where get_meta = get_meta and set_meta = set_meta and x = x, OF x set_id this]
  obtain w1 where a: "tracker_add get_meta set_meta gvr x ns True w = (None, w1)"
    and o: "objects_of gvr w1 = fmupd (ns, n) x (objects_of gvr w)"
    using add by (cases "tracker_add get_meta set_meta gvr x ns True w") simp
  show "r = Inr x \<and> tracker_good get_meta gvr w' \<and> tracker_Get gvr ns n w' = Inr x \<and>
      (\<forall>ns2 n2. (ns2, n2) \<noteq> (ns, n) \<longrightarrow> tracker_Get gvr ns2 n2 w' = tracker_Get gvr ns2 n2 w)"
    using run good x o
    by (auto simp: react_update_def tracker_Update_def a tracker_Get_objects tracker_good_def fmpred_iff)
qed

section \<open>Properties\<close>



text \<open>Every successful write is announced to the watchers of its namespace and of all namespaces, in
  the order they were registered, and a refused one to nobody.\<close>

theorem tracker_events:
  fixes t :: "'a tracker" and get_meta :: "'a getter" and set_meta :: "'a setter"
  assumes "om_Namespace (get_meta x) = ns" and "ns \<noteq> ''''"
    and "tracker_add get_meta set_meta gvr x ns replaceExisting t = (err, t')"
  shows "tr_sent t' = tr_sent t @
    (if err = None
     then map (\<lambda>w. (w, if replaceExisting then Modified x else Added x)) (getWatches gvr ns t)
     else [])"
proof -
  have e: "(if length (om_Namespace (get_meta x)) = 0 then set_meta (\<lambda>m. m\<lparr>om_Namespace := ns\<rparr>) x else x) = x"
    using assms(1,2) by simp
  show ?thesis
    using assms(3) unfolding tracker_add_def Let_def e
    by (auto simp: assms(1) push_event_def set_objects_def getWatches_def split: option.splits if_splits)
qed

theorem tracker_events_witness:
  "\<exists>err t'. tracker_add (\<lambda>m. m) (\<lambda>f. f) \<lparr>gvr_Group = ''g'', gvr_Version = ''v'', gvr_Resource = ''r''\<rparr>
     (empty_meta\<lparr>om_Name := ''a'', om_Namespace := ''ns''\<rparr>) ''ns'' False
     (snd (tracker_Watch \<lparr>gvr_Group = ''g'', gvr_Version = ''v'', gvr_Resource = ''r''\<rparr> '''' NewObjectTracker)) = (err, t') \<and>
   tr_sent t' = [(0, Added (empty_meta\<lparr>om_Name := ''a'', om_Namespace := ''ns''\<rparr>))]"
proof -
  let ?gvr = "\<lparr>gvr_Group = ''g'', gvr_Version = ''v'', gvr_Resource = ''r''\<rparr>"
  let ?x = "empty_meta\<lparr>om_Name := ''a'', om_Namespace := ''ns''\<rparr>"
  let ?t = "snd (tracker_Watch ?gvr '''' NewObjectTracker) :: object_meta tracker"
  obtain err t' where r: "tracker_add (\<lambda>m. m) (\<lambda>f. f) ?gvr ?x ''ns'' False ?t = (err, t')"
    by fastforce
  have n: "om_Namespace ((\<lambda>m. m) ?x) = ''ns''" "''ns'' \<noteq> ''''" by simp_all
  have ws: "getWatches ?gvr ''ns'' ?t = [0]" "tr_sent ?t = []" by code_simp+
  have ok: "err = None"
    using r by (auto simp: tracker_add_def Let_def objects_of_def tracker_Watch_def NewObjectTracker_def split: if_splits)
  from tracker_events [where get_meta = "\<lambda>m. m" and x = ?x, OF n r] ws ok r show ?thesis by auto
qed

end
