(* ===== verification/RouteReconcile.thy ===== *)
theory RouteReconcile
  imports Resources Tracker
begin

text \<open>
  Reconciling the HTTPRoute of one rule (pkg/reconciler/ingress/reconcile_resources.go): read it
  through the lister, create it when it is absent, update it when its spec, annotations or labels
  differ from the desired ones.

  The lister and the client act on a world of type \<open>'w\<close>, given by the arguments \<open>get\<close>, \<open>create\<close> and
  \<open>update\<close>. The result also holds the rule with its hosts as the run leaves them (sorted), the
  world, and the events recorded. A result \<open>None\<close> is a panic.
\<close>

datatype route_event =
    CreationFailed error
  | Created string

type_synonym 'w route_getter = "string \<Rightarrow> string \<Rightarrow> 'w \<Rightarrow> error + http_route"
type_synonym 'w route_writer = "string \<Rightarrow> http_route \<Rightarrow> 'w \<Rightarrow> (error + http_route) \<times> 'w"
type_synonym 'w route_result = "(error + http_route) \<times> ingress_rule \<times> 'w \<times> route_event list"

text \<open>The comparison that decides on an update.\<close>

definition route_up_to_date :: "http_route \<Rightarrow> http_route \<Rightarrow> bool" where
  "route_up_to_date httproute desired \<longleftrightarrow>
     spec_DeepEqual (hr_Spec httproute) (hr_Spec desired) \<and>
     smap_DeepEqual (om_Annotations (hr_Meta httproute)) (om_Annotations (hr_Meta desired)) \<and>
     smap_DeepEqual (om_Labels (hr_Meta httproute)) (om_Labels (hr_Meta desired))"

definition updated_route :: "http_route \<Rightarrow> http_route \<Rightarrow> http_route" where
  "updated_route httproute desired =
     httproute\<lparr>hr_Spec := hr_Spec desired,
       hr_Meta := (hr_Meta httproute)\<lparr>om_Annotations := om_Annotations (hr_Meta desired),
                                      om_Labels := om_Labels (hr_Meta desired)\<rparr>\<rparr>"

definition reconcileHTTPRoute ::
  "'w route_getter \<Rightarrow> 'w route_writer \<Rightarrow> 'w route_writer \<Rightarrow>
   'n ctx \<Rightarrow> ingress \<Rightarrow> ingress_rule \<Rightarrow> 'w \<Rightarrow> 'w route_result option" where
  "reconcileHTTPRoute get create update ctx ing rule w =
     Option.bind (LongestHost (ir_Hosts rule)) (\<lambda>(name, sorted).
       let rule1 = rule\<lparr>ir_Hosts := sorted\<rparr> in
       case get (om_Namespace (ing_Meta ing)) name w of
         Inl err \<Rightarrow>
           if is_not_found err then
             map_option (\<lambda>(made, rule2).
               case made of
                 Inl err2 \<Rightarrow> (Inl err2, rule2, w, [])
               | Inr desired \<Rightarrow>
                   (case create (om_Namespace (hr_Meta desired)) desired w of
                      (Inl err2, w') \<Rightarrow>
                        (Inl (Wrapped ''failed to create HTTPRoute'' err2), rule2, w', [CreationFailed err2])
                    | (Inr httproute, w') \<Rightarrow>
                        (Inr httproute, rule2, w', [Created (om_Name (hr_Meta httproute))])))
               (MakeHTTPRoute ctx ing rule1)
           else Some (Inl err, rule1, w, [])
       | Inr httproute \<Rightarrow>
           map_option (\<lambda>(made, rule2).
             case made of
               Inl err2 \<Rightarrow> (Inl err2, rule2, w, [])
             | Inr desired \<Rightarrow>
                 if \<not> route_up_to_date httproute desired then
                   (let origin = updated_route httproute desired in
                    case update (om_Namespace (hr_Meta origin)) origin w of
                      (Inl err2, w') \<Rightarrow>
                        (Inl (Wrapped ''failed to update HTTPRoute'' err2), rule2, w', [])
                    | (Inr updated, w') \<Rightarrow> (Inr updated, rule2, w', []))
                 else (Inr httproute, rule2, w, []))
             (MakeHTTPRoute ctx ing rule1))"

section \<open>Laws that hold for every client\<close>

lemma route_up_to_date_refl [simp]: "route_up_to_date r r"
  by (simp add: route_up_to_date_def smap_DeepEqual_iff)

lemma route_up_to_date_updated [simp]: "route_up_to_date (updated_route r d) d"
  by (simp add: route_up_to_date_def updated_route_def smap_DeepEqual_iff)

lemma updated_route_simps [simp]:
  "om_Name (hr_Meta (updated_route r d)) = om_Name (hr_Meta r)"
  "om_Namespace (hr_Meta (updated_route r d)) = om_Namespace (hr_Meta r)"
  "om_OwnerReferences (hr_Meta (updated_route r d)) = om_OwnerReferences (hr_Meta r)"
  "om_ResourceVersion (hr_Meta (updated_route r d)) = om_ResourceVersion (hr_Meta r)"
  "hr_Status (updated_route r d) = hr_Status r"
  "hr_Spec (updated_route r d) = hr_Spec d"
  by (simp_all add: updated_route_def)

text \<open>The route the reconciler wants for a rule.\<close>

definition desired_route :: "'n ctx \<Rightarrow> ingress \<Rightarrow> ingress_rule \<Rightarrow> http_route option" where
  "desired_route ctx ing rule =
     (case MakeHTTPRoute ctx ing rule of
        Some (Inr r, _) \<Rightarrow> Some r
      | _ \<Rightarrow> None)"

definition route_key :: "ingress \<Rightarrow> ingress_rule \<Rightarrow> namespaced_name" where
  "route_key ing rule = (om_Namespace (ing_Meta ing), hd (sort_strings (ir_Hosts rule)))"

definition sorted_rule :: "ingress_rule \<Rightarrow> ingress_rule" where
  "sorted_rule rule = rule\<lparr>ir_Hosts := sort_strings (ir_Hosts rule)\<rparr>"

lemma MakeHTTPRoute_sorted [simp]:
  "MakeHTTPRoute ctx ing (sorted_rule rule) = MakeHTTPRoute ctx ing rule"
  by (simp add: MakeHTTPRoute_def sorted_rule_def LongestHost_def Let_def cong: list.case_cong)

lemma desired_route_Some:
  assumes "desired_route ctx ing rule = Some d"
  shows "MakeHTTPRoute ctx ing rule = Some (Inr d, sorted_rule rule)"
    and "(om_Namespace (hr_Meta d), om_Name (hr_Meta d)) = route_key ing rule"
    and "LongestHost (ir_Hosts rule) = Some (snd (route_key ing rule), sort_strings (ir_Hosts rule))"
proof -
  from assms obtain rule' where m: "MakeHTTPRoute ctx ing rule = Some (Inr d, rule')"
    by (auto simp: desired_route_def split: option.splits prod.splits sum.splits)
  then obtain route where r: "Inr d = (Inr route :: error + http_route)"
      "rule' = rule\<lparr>ir_Hosts := sort_strings (ir_Hosts rule)\<rparr>" "ir_Hosts rule \<noteq> []"
      "om_Name (hr_Meta route) = hd (sort_strings (ir_Hosts rule))"
      "om_Namespace (hr_Meta route) = om_Namespace (ing_Meta ing)"
    by (rule MakeHTTPRoute_Some)
  then show "MakeHTTPRoute ctx ing rule = Some (Inr d, sorted_rule rule)"
    and "(om_Namespace (hr_Meta d), om_Name (hr_Meta d)) = route_key ing rule"
    and "LongestHost (ir_Hosts rule) = Some (snd (route_key ing rule), sort_strings (ir_Hosts rule))"
    using m by (simp_all add: sorted_rule_def route_key_def LongestHost_Some_iff)
qed

text \<open>One run, once the desired route is known.\<close>

lemma reconcileHTTPRoute_desired:
  assumes "desired_route ctx ing rule = Some d"
  shows "reconcileHTTPRoute get create update ctx ing rule w =
    (case get (fst (route_key ing rule)) (snd (route_key ing rule)) w of
       Inl err \<Rightarrow>
         if is_not_found err then
           (case create (om_Namespace (hr_Meta d)) d w of
              (Inl err2, w') \<Rightarrow>
                Some (Inl (Wrapped ''failed to create HTTPRoute'' err2), sorted_rule rule, w', [CreationFailed err2])
            | (Inr r, w') \<Rightarrow> Some (Inr r, sorted_rule rule, w', [Created (om_Name (hr_Meta r))]))
         else Some (Inl err, sorted_rule rule, w, [])
     | Inr r \<Rightarrow>
         if \<not> route_up_to_date r d then
           (case update (om_Namespace (hr_Meta r)) (updated_route r d) w of
              (Inl err2, w') \<Rightarrow> Some (Inl (Wrapped ''failed to update HTTPRoute'' err2), sorted_rule rule, w', [])
            | (Inr u, w') \<Rightarrow> Some (Inr u, sorted_rule rule, w', []))
         else Some (Inr r, sorted_rule rule, w, []))"
proof -
  note d = desired_route_Some [OF assms]
  have sr: "rule\<lparr>ir_Hosts := sort_strings (ir_Hosts rule)\<rparr> = sorted_rule rule"
    by (simp add: sorted_rule_def)
  have ns: "fst (route_key ing rule) = om_Namespace (ing_Meta ing)" by (simp add: route_key_def)
  show ?thesis
    by (simp add: reconcileHTTPRoute_def d(1,3) sr ns Let_def split: sum.split prod.split)
qed

lemma desired_route_None: "desired_route ctx ing rule = None \<longleftrightarrow> MakeHTTPRoute ctx ing rule = None"
proof
  assume "desired_route ctx ing rule = None"
  then show "MakeHTTPRoute ctx ing rule = None"
    by (cases "MakeHTTPRoute ctx ing rule")
       (auto simp: desired_route_def split: sum.splits elim!: MakeHTTPRoute_Some)
qed (simp add: desired_route_def)

text \<open>Without a desired route only an error of the lister ends the run without a panic.\<close>

lemma reconcileHTTPRoute_undesired:
  assumes none: "desired_route ctx ing rule = None"
  shows "reconcileHTTPRoute get create update ctx ing rule w =
    (if ir_Hosts rule = [] then None
     else case get (fst (route_key ing rule)) (snd (route_key ing rule)) w of
            Inl err \<Rightarrow> if is_not_found err then None else Some (Inl err, sorted_rule rule, w, [])
          | Inr _ \<Rightarrow> None)"
proof (cases "ir_Hosts rule = []")
  case True
  then show ?thesis by (simp add: reconcileHTTPRoute_def LongestHost_def)
next
  case False
  then have h: "LongestHost (ir_Hosts rule) =
      Some (snd (route_key ing rule), sort_strings (ir_Hosts rule))"
    by (simp add: LongestHost_Some_iff route_key_def)
  have sr: "rule\<lparr>ir_Hosts := sort_strings (ir_Hosts rule)\<rparr> = sorted_rule rule"
    by (simp add: sorted_rule_def)
  have ns: "om_Namespace (ing_Meta ing) = fst (route_key ing rule)" by (simp add: route_key_def)
  have m: "MakeHTTPRoute ctx ing rule = None" using none by (simp add: desired_route_None)
  show ?thesis
    using False by (simp add: reconcileHTTPRoute_def h sr ns m Let_def split: sum.split)
qed

lemma reconcileHTTPRoute_rule:
  assumes "reconcileHTTPRoute get create update ctx ing rule w = Some (r, rule', w', evs)"
  shows "rule' = sorted_rule rule"
proof (cases "desired_route ctx ing rule")
  case None
  then show ?thesis
    using assms by (auto simp: reconcileHTTPRoute_undesired split: sum.splits if_splits)
next
  case (Some d)
  then show ?thesis
    using assms by (auto simp: reconcileHTTPRoute_desired split: sum.splits if_splits prod.splits)
qed

text \<open>It panics exactly when the rule has no host, or the route cannot be built and is needed.\<close>

lemma reconcileHTTPRoute_no_panic:
  assumes "desired_route ctx ing rule = Some d"
  shows "reconcileHTTPRoute get create update ctx ing rule w \<noteq> None"
  using assms by (simp add: reconcileHTTPRoute_desired split: sum.splits prod.splits)

section \<open>Over a store\<close>

text \<open>
  The lister sees the store the client writes, as it does once the informer has caught up.
\<close>

locale route_client = object_store get create update hr_Meta good
  for get :: "'w route_getter" and create :: "'w route_writer" and update :: "'w route_writer"
    and good :: "'w \<Rightarrow> bool"
begin

text \<open>What one run achieves: no error, the stored route is up to date, and nothing else changed.\<close>

lemma reconcile_result:
  assumes good: "good w" and d: "desired_route ctx ing rule = Some d"
  obtains r w' evs where
    "reconcileHTTPRoute get create update ctx ing rule w = Some (Inr r, sorted_rule rule, w', evs)"
    "good w'" "get (fst (route_key ing rule)) (snd (route_key ing rule)) w' = Inr r"
    "route_up_to_date r d"
    "\<forall>ns n. (ns, n) \<noteq> route_key ing rule \<longrightarrow> get ns n w' = get ns n w"
    "evs = (case get (fst (route_key ing rule)) (snd (route_key ing rule)) w of
              Inl _ \<Rightarrow> [Created (snd (route_key ing rule))] | Inr _ \<Rightarrow> [])"
    "case get (fst (route_key ing rule)) (snd (route_key ing rule)) w of
       Inl _ \<Rightarrow> r = d
     | Inr old \<Rightarrow> (if route_up_to_date old d then r = old \<and> w' = w else r = updated_route old d)"
proof -
  obtain ns n where k: "route_key ing rule = (ns, n)" by fastforce
  have dk: "om_Namespace (hr_Meta d) = ns" "om_Name (hr_Meta d) = n"
    using desired_route_Some(2) [OF d] k by simp_all
  show ?thesis
  proof (cases "get ns n w")
    case (Inl e)
    obtain r w' where c: "create ns d w = (r, w')" by fastforce
    note cr = create_absent [OF good dk Inl c]
    have run: "reconcileHTTPRoute get create update ctx ing rule w =
        Some (Inr d, sorted_rule rule, w', [Created n])"
      using cr get_error [OF good Inl] c by (simp add: reconcileHTTPRoute_desired [OF d] k Inl dk)
    show ?thesis by (rule that [OF run]) (use cr in \<open>simp_all add: k Inl\<close>)
  next
    case (Inr old)
    have ok: "om_Namespace (hr_Meta old) = ns" "om_Name (hr_Meta old) = n"
      using get_key [OF good Inr] by simp_all
    show ?thesis
    proof (cases "route_up_to_date old d")
      case True
      then have run: "reconcileHTTPRoute get create update ctx ing rule w =
          Some (Inr old, sorted_rule rule, w, [])"
        by (simp add: reconcileHTTPRoute_desired [OF d] k Inr)
      show ?thesis by (rule that [OF run]) (use good Inr True in \<open>simp_all add: k\<close>)
    next
      case False
      obtain r w' where u: "update ns (updated_route old d) w = (r, w')" by fastforce
      have uk: "om_Namespace (hr_Meta (updated_route old d)) = ns"
          "om_Name (hr_Meta (updated_route old d)) = n" using ok by simp_all
      note up = update_present [OF good uk Inr u]
      have run: "reconcileHTTPRoute get create update ctx ing rule w =
          Some (Inr (updated_route old d), sorted_rule rule, w', [])"
        using up u ok by (simp add: reconcileHTTPRoute_desired [OF d] k Inr False)
      show ?thesis by (rule that [OF run]) (use up False in \<open>simp_all add: k Inr\<close>)
    qed
  qed
qed

text \<open>A second run finds nothing to do.\<close>

lemma reconcile_twice:
  assumes good: "good w" and d: "desired_route ctx ing rule = Some d"
    and run: "reconcileHTTPRoute get create update ctx ing rule w = Some (r, rule', w', evs)"
  shows "reconcileHTTPRoute get create update ctx ing rule w' = Some (r, rule', w', [])"
proof -
  obtain x w1 evs1 where x: "reconcileHTTPRoute get create update ctx ing rule w = Some (Inr x, sorted_rule rule, w1, evs1)"
    "get (fst (route_key ing rule)) (snd (route_key ing rule)) w1 = Inr x" "route_up_to_date x d"
    by (rule reconcile_result [OF good d])
  then have "r = Inr x" "rule' = sorted_rule rule" "w1 = w'" using run by simp_all
  with x(2,3) show ?thesis by (simp add: reconcileHTTPRoute_desired [OF d])
qed

end

section \<open>The tracker of HTTPRoutes\<close>

definition httproutesResource :: group_version_resource where
  "httproutesResource =
     \<lparr>gvr_Group = ''networking.x-k8s.io'', gvr_Version = ''v1alpha1'', gvr_Resource = ''httproutes''\<rparr>"

abbreviation route_get :: "http_route tracker route_getter" where
  "route_get \<equiv> tracker_Get httproutesResource"

abbreviation route_create :: "http_route tracker route_writer" where
  "route_create \<equiv> react_create hr_Meta hr_Meta_update httproutesResource"

abbreviation route_update :: "http_route tracker route_writer" where
  "route_update \<equiv> react_update hr_Meta hr_Meta_update httproutesResource"

abbreviation route_store_good :: "http_route tracker \<Rightarrow> bool" where
  "route_store_good \<equiv> tracker_good hr_Meta httproutesResource"

interpretation fake: object_store route_get route_create route_update hr_Meta route_store_good
  by (rule tracker_store_laws) simp

interpretation fake_routes: route_client route_get route_create route_update route_store_good
  by unfold_locales

section \<open>Properties\<close>





end
