(* ===== verification/ProbeHeader.thy ===== *)
theory ProbeHeader
  imports IngressApi
begin

text \<open>
  The probe header of an Ingress (knative.dev/networking/pkg/ingress/ingress.go): the hash of the
  spec, and its insertion into the paths. \<open>json.Marshal\<close> and \<open>sha256.Sum256\<close> are parameters.

  \<open>InsertProbe\<close> mutates the Ingress through the pointers of its rules, so it returns the Ingress
  beside its result, also when it fails half way.
\<close>

definition HashHeaderName :: string where
  "HashHeaderName = ''K-Network-Hash''"

definition HashHeaderValue :: string where
  "HashHeaderValue = ''override''"

text \<open>\<open>fmt.Sprintf("%x", bytes)\<close>: two lower-case digits per byte.\<close>

definition hex_digit :: "nat \<Rightarrow> char" where
  "hex_digit d = (if d < 10 then char_of (48 + d) else char_of (87 + d))"

definition hex_string :: "string \<Rightarrow> string" where
  "hex_string bs = concat (map (\<lambda>c. [hex_digit (of_char c div 16), hex_digit (of_char c mod 16)]) bs)"

definition ComputeHash ::
  "(ingress_spec \<Rightarrow> error + string) \<Rightarrow> (string \<Rightarrow> string) \<Rightarrow> ingress \<Rightarrow> error + string" where
  "ComputeHash marshal sha256 ing =
     (case marshal (ing_Spec ing) of
        Inl err \<Rightarrow> Inl (Wrapped ''failed to serialize Ingress'' err)
      | Inr bytes \<Rightarrow> Inr (sha256 (bytes @ om_Namespace (ing_Meta ing) @ om_Name (ing_Meta ing))))"

definition probe_path :: "string \<Rightarrow> http_ingress_path \<Rightarrow> http_ingress_path" where
  "probe_path hash elt =
     elt\<lparr>ip_Headers := Some (fmupd HashHeaderName \<lparr>hm_Exact = HashHeaderValue\<rparr> (entries (ip_Headers elt))),
         ip_AppendHeaders := Some (fmupd HashHeaderName hash (entries (ip_AppendHeaders elt)))\<rparr>"

definition probe_value :: "string \<Rightarrow> http_ingress_rule_value \<Rightarrow> http_ingress_rule_value" where
  "probe_value hash v = v\<lparr>rv_Paths := map (probe_path hash) (rv_Paths v) @ rv_Paths v\<rparr>"

text \<open>The loop over the rules: the error, and the rules as they are left.\<close>

fun insert_probe_rules :: "string \<Rightarrow> ingress_rule list \<Rightarrow> error option \<times> ingress_rule list" where
  "insert_probe_rules hash [] = (None, [])"
| "insert_probe_rules hash (rule # rest) =
     (case ir_HTTP rule of
        None \<Rightarrow> (Some RuleMissingHTTP, rule # rest)
      | Some v \<Rightarrow>
          (let (err, rest') = insert_probe_rules hash rest
           in (err, rule\<lparr>ir_HTTP := Some (probe_value hash v)\<rparr> # rest')))"

definition InsertProbe ::
  "(ingress_spec \<Rightarrow> error + string) \<Rightarrow> (string \<Rightarrow> string) \<Rightarrow> ingress \<Rightarrow> (error + string) \<times> ingress" where
  "InsertProbe marshal sha256 ing =
     (case ComputeHash marshal sha256 ing of
        Inl err \<Rightarrow> (Inl (Wrapped ''failed to compute the hash of the Ingress'' err), ing)
      | Inr bytes \<Rightarrow>
          (let hash = hex_string bytes;
               (err, rules) = insert_probe_rules hash (is_Rules (ing_Spec ing));
               ing' = ing\<lparr>ing_Spec := (ing_Spec ing)\<lparr>is_Rules := rules\<rparr>\<rparr>
           in (case err of Some e \<Rightarrow> Inl e | None \<Rightarrow> Inr hash, ing')))"

section \<open>Laws\<close>

lemma insert_probe_rules_length: "length (snd (insert_probe_rules hash rules)) = length rules"
  by (induction rules) (auto split: option.splits prod.splits)

lemma insert_probe_rules_ok_iff:
  "fst (insert_probe_rules hash rules) = None \<longleftrightarrow> list_all (\<lambda>r. ir_HTTP r \<noteq> None) rules"
  by (induction rules) (auto split: option.splits prod.splits)

lemma insert_probe_rules_eq:
  assumes "fst (insert_probe_rules hash rules) = None"
  shows "snd (insert_probe_rules hash rules) =
     map (\<lambda>r. r\<lparr>ir_HTTP := map_option (probe_value hash) (ir_HTTP r)\<rparr>) rules"
  using assms by (induction rules) (auto split: option.splits prod.splits)

text \<open>
  Tagged paths come first and are the original ones but for the two headers; the original paths
  follow unchanged.
\<close>

lemma probe_value_paths:
  "rv_Paths (probe_value hash v) = map (probe_path hash) (rv_Paths v) @ rv_Paths v"
  by (simp add: probe_value_def)

lemma probe_path_simps [simp]:
  "ip_Path (probe_path hash p) = ip_Path p"
  "ip_Splits (probe_path hash p) = ip_Splits p"
  "ip_RewriteHost (probe_path hash p) = ip_RewriteHost p"
  "ip_Headers (probe_path hash p) =
     Some (fmupd HashHeaderName \<lparr>hm_Exact = HashHeaderValue\<rparr> (entries (ip_Headers p)))"
  "ip_AppendHeaders (probe_path hash p) =
     Some (fmupd HashHeaderName hash (entries (ip_AppendHeaders p)))"
  by (simp_all add: probe_path_def)

lemma InsertProbe_status [simp]:
  "ing_Status (snd (InsertProbe marshal sha256 ing)) = ing_Status ing"
  "ing_Meta (snd (InsertProbe marshal sha256 ing)) = ing_Meta ing"
  by (simp_all add: InsertProbe_def Let_def split: sum.splits prod.splits)

text \<open>After a successful defaulting no rule lacks its HTTP block, so only marshalling can fail.\<close>

lemma InsertProbe_after_defaults:
  assumes "Ingress_SetDefaults ing = Some ing'" and "fst (InsertProbe marshal sha256 i) = Inl err"
    and "ing_Spec i = ing_Spec ing'"
  shows "\<exists>e. marshal (ing_Spec ing') = Inl e \<and>
     err = Wrapped ''failed to compute the hash of the Ingress'' (Wrapped ''failed to serialize Ingress'' e)"
proof -
  obtain rules where r: "map IngressRule_SetDefaults (is_Rules (ing_Spec ing)) = map Some rules"
      and rs: "is_Rules (ing_Spec ing') = rules"
    using assms(1) by (auto simp: Ingress_SetDefaults_def IngressSpec_SetDefaults_def those_eq_Some_iff)
  have "ir_HTTP x \<noteq> None" if "x \<in> set rules" for x
  proof -
    from that have "Some x \<in> set (map IngressRule_SetDefaults (is_Rules (ing_Spec ing)))" by (simp add: r)
    then show ?thesis
      by (auto simp: IngressRule_SetDefaults_def Let_def split: option.splits dest!: sym [of "Some x"])
  qed
  then have ok: "fst (insert_probe_rules hash rules) = None" for hash
    by (simp add: insert_probe_rules_ok_iff list_all_iff)
  show ?thesis
    using assms(2,3) ok
    by (auto simp: InsertProbe_def ComputeHash_def rs Let_def split_beta split: sum.splits)
qed

end
