(* ===== verification/IngressReconcile.thy ===== *)
theory IngressReconcile
  imports RouteReconcile ProbeHeader
begin

text \<open>
  Reconciling an Ingress (pkg/reconciler/ingress/ingress.go): defaults, conditions, the probe
  header, one HTTPRoute per rule, the prober's verdict and the load balancer status.

  The services the reconciler calls are the fields of \<open>services\<close>: the lister and client of
  HTTPRoutes and the status manager act on a world of type \<open>'w\<close>; \<open>json.Marshal\<close>, \<open>sha256.Sum256\<close>,
  the clock and the cluster's domain name come from the libraries. A run returns the error, the
  count of clock readings, the Ingress as it was mutated, the world and the events; \<open>None\<close> is a
  panic.
\<close>

section \<open>Readiness of a route\<close>

definition isGatewayAdmitted :: "route_gateway_status \<Rightarrow> bool" where
  "isGatewayAdmitted gw =
     (case find (\<lambda>c. mc_Type c = ConditionRouteAdmitted) (rgs_Conditions gw) of
        None \<Rightarrow> False
      | Some condition \<Rightarrow> mc_Status condition = ConditionTrue)"

fun all_admitted :: "route_gateway_status list \<Rightarrow> bool" where
  "all_admitted [] \<longleftrightarrow> True"
| "all_admitted (gw # rest) \<longleftrightarrow> (if \<not> isGatewayAdmitted gw then False else all_admitted rest)"

definition IsHTTPRouteReady :: "http_route \<Rightarrow> error + bool" where
  "IsHTTPRouteReady r =
     (case hst_Gateways (hr_Status r) of
        None \<Rightarrow> Inr False
      | Some gws \<Rightarrow> Inr (all_admitted gws))"

lemma all_admitted_iff: "all_admitted gws \<longleftrightarrow> list_all isGatewayAdmitted gws"
  by (induction gws) auto

text \<open>The boolean it returns; the error is always nil.\<close>

definition route_ready :: "http_route \<Rightarrow> bool" where
  "route_ready r \<longleftrightarrow> (\<exists>gws. hst_Gateways (hr_Status r) = Some gws \<and> list_all isGatewayAdmitted gws)"

lemma IsHTTPRouteReady_eq: "IsHTTPRouteReady r = Inr (route_ready r)"
  by (auto simp: IsHTTPRouteReady_def route_ready_def all_admitted_iff split: option.splits)

section \<open>The reconciler\<close>

record 'w services =
  sv_get :: "'w route_getter"
  sv_create :: "'w route_writer"
  sv_update :: "'w route_writer"
  sv_IsReady :: "ingress \<Rightarrow> 'w \<Rightarrow> (error + bool) \<times> 'w"
  sv_marshal :: "ingress_spec \<Rightarrow> error + string"
  sv_sha256 :: "string \<Rightarrow> string"
  sv_clock :: clock
  sv_domain :: string

definition notReconciledReason :: string where
  "notReconciledReason = ''ReconcileIngressFailed''"

definition notReconciledMessage :: string where
  "notReconciledMessage = ''Ingress reconciliation failed''"

definition GetServiceHostname :: "string \<Rightarrow> string \<Rightarrow> string \<Rightarrow> string" where
  "GetServiceHostname domain name ns = name @ ''.'' @ ns @ ''.svc.'' @ domain"

text \<open>The status mark for one route.\<close>

definition mark_route :: "clock \<Rightarrow> bool \<Rightarrow> tstatus \<Rightarrow> tstatus" where
  "mark_route clk ready st =
     (if ready then MarkNetworkConfigured clk st
      else MarkIngressNotReady clk ''HTTPRouteNotReady'' ''Waiting for HTTPRoute becomes Ready.'' st)"

text \<open>
  The loop over the rules. It returns at the first error; the hosts of the rules it reached are
  left sorted in the Ingress.
\<close>

fun rules_loop ::
  "'w services \<Rightarrow> 'n ctx \<Rightarrow> ingress \<Rightarrow> ingress_rule list \<Rightarrow> tstatus \<Rightarrow> 'w \<Rightarrow>
   (error option \<times> ingress_rule list \<times> tstatus \<times> 'w \<times> route_event list) option" where
  "rules_loop sv ctx ing [] st w = Some (None, [], st, w, [])"
| "rules_loop sv ctx ing (rule # rest) st w =
     Option.bind (reconcileHTTPRoute (sv_get sv) (sv_create sv) (sv_update sv) ctx ing rule w)
       (\<lambda>(res, rule', w1, evs).
          case res of
            Inl err \<Rightarrow> Some (Some err, rule' # rest, st, w1, evs)
          | Inr httproute \<Rightarrow>
              (case IsHTTPRouteReady httproute of
                 Inl err \<Rightarrow> Some (Some err, rule' # rest, st, w1, evs)
               | Inr ready \<Rightarrow>
                   map_option (\<lambda>(err, rest', st', w', evs'). (err, rule' # rest', st', w', evs @ evs'))
                     (rules_loop sv ctx ing rest (mark_route (sv_clock sv) ready st) w1)))"

definition load_balancers :: "string \<Rightarrow> gateway \<Rightarrow> string \<Rightarrow> load_balancer_ingress_status list" where
  "load_balancers domain gatewayConfig visibility =
     (let (ns, name, _) = SplitMetaNamespaceKey (LookupService gatewayConfig visibility)
      in [\<lparr>lb_IP = '''', lb_Domain = '''', lb_DomainInternal = GetServiceHostname domain name ns,
           lb_MeshOnly = False\<rparr>])"

type_synonym 'w reconcile_result = "error option \<times> nat \<times> ingress \<times> 'w \<times> route_event list"

text \<open>The part after the loop: the prober and the load balancer status.\<close>

definition probe_and_mark ::
  "'w services \<Rightarrow> 'n ctx \<Rightarrow> ingress \<Rightarrow> tstatus \<Rightarrow> 'w \<Rightarrow> (error option \<times> tstatus \<times> 'w) option" where
  "probe_and_mark sv ctx prior st w =
     (case sv_IsReady sv prior w of
        (Inl err, w') \<Rightarrow> Some (Some (Wrapped ''failed to probe Ingress'' err), st, w')
      | (Inr ready, w') \<Rightarrow>
          if ready then
            map_option (\<lambda>gatewayConfig.
                (None, MarkLoadBalancerReady (sv_clock sv)
                         (load_balancers (sv_domain sv) gatewayConfig VisibilityExternalIP)
                         (load_balancers (sv_domain sv) gatewayConfig VisibilityClusterLocal) st, w'))
              (gateway_of ctx)
          else Some (None, MarkLoadBalancerNotReady (sv_clock sv) st, w'))"

definition reconcileIngress ::
  "'w services \<Rightarrow> 'n ctx \<Rightarrow> nat \<Rightarrow> ingress \<Rightarrow> 'w \<Rightarrow> 'w reconcile_result option" where
  "reconcileIngress sv ctx n ing0 w =
     Option.bind (Ingress_SetDefaults ing0) (\<lambda>prior.
       let st0 = Ingress_InitializeConditions (sv_clock sv) (n, ing_Status prior) in
       case InsertProbe (sv_marshal sv) (sv_sha256 sv) (prior\<lparr>ing_Status := snd st0\<rparr>) of
         (Inl err, ing1) \<Rightarrow>
           Some (Some (Wrapped ''failed to add knative probe header'' err), fst st0, ing1, w, [])
       | (Inr _, ing1) \<Rightarrow>
           Option.bind (rules_loop sv ctx ing1 (is_Rules (ing_Spec ing1)) (fst st0, ing_Status ing1) w)
             (\<lambda>(err, rules, st1, w1, evs).
                let ing2 = (\<lambda>st. ing1\<lparr>ing_Spec := (ing_Spec ing1)\<lparr>is_Rules := rules\<rparr>, ing_Status := snd st\<rparr>)
                in case err of
                     Some e \<Rightarrow> Some (Some e, fst st1, ing2 st1, w1, evs)
                   | None \<Rightarrow>
                       map_option (\<lambda>(err2, st2, w2). (err2, fst st2, ing2 st2, w2, evs))
                         (probe_and_mark sv ctx prior st1 w1)))"

definition ReconcileKind ::
  "'w services \<Rightarrow> 'n ctx \<Rightarrow> nat \<Rightarrow> ingress \<Rightarrow> 'w \<Rightarrow> 'w reconcile_result option" where
  "ReconcileKind sv ctx n ing w =
     map_option (\<lambda>(err, n', ing', w', evs).
       case err of
         None \<Rightarrow> (None, n', ing', w', evs)
       | Some e \<Rightarrow>
           (let st = MarkIngressNotReady (sv_clock sv) notReconciledReason notReconciledMessage
                       (n', ing_Status ing')
            in (Some e, fst st, ing'\<lparr>ing_Status := snd st\<rparr>, w', evs)))
       (reconcileIngress sv ctx n ing w)"

section \<open>The loop\<close>

text \<open>The routes the loop obtained, as far as it got.\<close>

fun loop_routes ::
  "'w services \<Rightarrow> 'n ctx \<Rightarrow> ingress \<Rightarrow> ingress_rule list \<Rightarrow> 'w \<Rightarrow> http_route list" where
  "loop_routes sv ctx ing [] w = []"
| "loop_routes sv ctx ing (rule # rest) w =
     (case reconcileHTTPRoute (sv_get sv) (sv_create sv) (sv_update sv) ctx ing rule w of
        Some (Inr r, _, w1, _) \<Rightarrow> r # loop_routes sv ctx ing rest w1
      | _ \<Rightarrow> [])"

text \<open>The marks of the loop depend on the readiness of the routes only.\<close>

lemma rules_loop_status:
  "rules_loop sv ctx ing rules st w = Some (err, rules', st', w', evs) \<Longrightarrow>
   st' = fold (mark_route (sv_clock sv)) (map route_ready (loop_routes sv ctx ing rules w)) st"
proof (induction rules arbitrary: st w err rules' st' w' evs)
  case (Cons rule rest)
  then obtain res rule1 w1 evs1 where
    r: "reconcileHTTPRoute (sv_get sv) (sv_create sv) (sv_update sv) ctx ing rule w =
        Some (res, rule1, w1, evs1)"
    by (cases "reconcileHTTPRoute (sv_get sv) (sv_create sv) (sv_update sv) ctx ing rule w") auto
  show ?case
  proof (cases res)
    case (Inl e)
    with r Cons.prems show ?thesis by simp
  next
    case (Inr route)
    with r Cons.prems obtain rest2 evs2 where
      "rules_loop sv ctx ing rest (mark_route (sv_clock sv) (route_ready route) st) w1 =
       Some (err, rest2, st', w', evs2)"
      by (auto simp: IsHTTPRouteReady_eq)
    from Cons.IH [OF this] show ?thesis using r Inr by simp
  qed
qed simp

lemma status_inv_mark_route [keeps_wf]:
  "status_inv (snd st) \<Longrightarrow> status_inv (snd (mark_route clk ready st))"
  by (simp add: mark_route_def keeps_wf)

lemma status_inv_fold_marks [keeps_wf]:
  "status_inv (snd st) \<Longrightarrow> status_inv (snd (fold (mark_route clk) bs st))"
  by (induction bs arbitrary: st) (simp_all add: keeps_wf)

lemma cstat_mark_route:
  assumes "status_inv (snd st)"
  shows "cstat ''NetworkConfigured'' (mark_route clk ready st) =
      (if ready then Some ConditionTrue else cstat ''NetworkConfigured'' st)"
    and "cstat ''LoadBalancerReady'' (mark_route clk ready st) = cstat ''LoadBalancerReady'' st"
  using assms by (simp_all add: mark_route_def cstat_marks)

lemma cstat_fold_marks:
  assumes "status_inv (snd st)"
  shows "cstat ''NetworkConfigured'' (fold (mark_route clk) bs st) =
      (if True \<in> set bs then Some ConditionTrue else cstat ''NetworkConfigured'' st)"
    and "cstat ''LoadBalancerReady'' (fold (mark_route clk) bs st) = cstat ''LoadBalancerReady'' st"
  using assms
  by (induction bs arbitrary: st) (auto simp: cstat_mark_route keeps_wf)


lemma loop_routes_length:
  assumes "rules_loop sv ctx ing rules st w = Some (None, rules', st', w', evs)"
  shows "length (loop_routes sv ctx ing rules w) = length rules \<and> rules' = map sorted_rule rules"
  using assms
proof (induction rules arbitrary: st w rules' evs)
  case (Cons rule rest)
  then obtain res rule1 w1 evs1 where
    r: "reconcileHTTPRoute (sv_get sv) (sv_create sv) (sv_update sv) ctx ing rule w =
        Some (res, rule1, w1, evs1)"
    by (cases "reconcileHTTPRoute (sv_get sv) (sv_create sv) (sv_update sv) ctx ing rule w") auto
  with Cons.prems obtain route where route: "res = Inr route" by (cases res) auto
  with r Cons.prems obtain rest2 evs2 where
    "rules_loop sv ctx ing rest (mark_route (sv_clock sv) (route_ready route) st) w1 =
       Some (None, rest2, st', w', evs2)" and "rules' = rule1 # rest2"
    by (auto simp: IsHTTPRouteReady_eq)
  with Cons.IH r route reconcileHTTPRoute_rule [OF r] show ?case by simp
qed simp

section \<open>A whole run\<close>

lemma status_inv_mark_load_balancer:
  "status_inv (snd st) \<Longrightarrow> probe_and_mark sv ctx prior st w = Some (err, st', w') \<Longrightarrow> status_inv (snd st')"
  by (auto simp: probe_and_mark_def keeps_wf split: prod.splits sum.splits if_splits)

text \<open>A run that returns: its parts.\<close>

lemma reconcileIngress_cases:
  assumes "reconcileIngress sv ctx n ing0 w = Some (err, n', ing', w', evs)"
  obtains (hash) prior e st0 where "Ingress_SetDefaults ing0 = Some prior"
      "st0 = Ingress_InitializeConditions (sv_clock sv) (n, ing_Status prior)"
      "err = Some e" "(n', ing_Status ing') = st0" "w' = w" "evs = []"
  | (loop) prior st0 ing1 e rules where "Ingress_SetDefaults ing0 = Some prior"
      "st0 = Ingress_InitializeConditions (sv_clock sv) (n, ing_Status prior)"
      "snd (InsertProbe (sv_marshal sv) (sv_sha256 sv) (prior\<lparr>ing_Status := snd st0\<rparr>)) = ing1"
      "err = Some e"
      "rules_loop sv ctx ing1 (is_Rules (ing_Spec ing1)) st0 w = Some (Some e, rules, (n', ing_Status ing'), w', evs)"
  | (probe) prior st0 ing1 rules st1 w1 where "Ingress_SetDefaults ing0 = Some prior"
      "st0 = Ingress_InitializeConditions (sv_clock sv) (n, ing_Status prior)"
      "snd (InsertProbe (sv_marshal sv) (sv_sha256 sv) (prior\<lparr>ing_Status := snd st0\<rparr>)) = ing1"
      "rules_loop sv ctx ing1 (is_Rules (ing_Spec ing1)) st0 w = Some (None, rules, st1, w1, evs)"
      "probe_and_mark sv ctx prior st1 w1 = Some (err, (n', ing_Status ing'), w')"
proof -
  from assms obtain prior where b: "Ingress_SetDefaults ing0 = Some prior"
    by (cases "Ingress_SetDefaults ing0") (auto simp: reconcileIngress_def)
  define st0 where "st0 = Ingress_InitializeConditions (sv_clock sv) (n, ing_Status prior)"
  obtain res ing1 where p: "InsertProbe (sv_marshal sv) (sv_sha256 sv) (prior\<lparr>ing_Status := snd st0\<rparr>) = (res, ing1)"
    by fastforce
  have st1: "ing_Status ing1 = snd st0"
    using InsertProbe_status(1) [of "sv_marshal sv" "sv_sha256 sv" "prior\<lparr>ing_Status := snd st0\<rparr>"] p by simp
  show ?thesis
  proof (cases res)
    case (Inl e)
    then show ?thesis
      using assms b p st1
      by (intro hash [OF b st0_def]) (auto simp: reconcileIngress_def Let_def st0_def [symmetric])
  next
    case (Inr h)
    have ss: "(fst st0, snd st0) = st0" by simp
    from assms b p Inr st1 obtain e rules st2 w1 evs1 where
      l: "rules_loop sv ctx ing1 (is_Rules (ing_Spec ing1)) st0 w = Some (e, rules, st2, w1, evs1)"
      by (cases "rules_loop sv ctx ing1 (is_Rules (ing_Spec ing1)) st0 w")
         (auto simp: reconcileIngress_def Let_def st0_def [symmetric])
    show ?thesis
    proof (cases e)
      case (Some e2)
      then show ?thesis
        using assms b p Inr st1 l
        by (intro loop [OF b st0_def, of ing1 e2 rules])
           (auto simp: reconcileIngress_def Let_def st0_def [symmetric])
    next
      case None
      then show ?thesis
        using assms b p Inr st1 l
        by (intro probe [OF b st0_def, of ing1 rules st2 w1])
           (auto simp: reconcileIngress_def Let_def st0_def [symmetric])
    qed
  qed
qed

text \<open>The conditions after a run without an error.\<close>

lemma cstat_status_of: "cstat t (n, s) = status_of t (st_Conditions s)"
  by (simp add: cstat_def)

lemma SetDefaults_frame:
  "Ingress_SetDefaults ing = Some prior \<Longrightarrow> ing_Status prior = ing_Status ing \<and> ing_Meta prior = ing_Meta ing"
  by (auto simp: Ingress_SetDefaults_def)

lemma SetDefaults_rules_length:
  "Ingress_SetDefaults ing = Some prior \<Longrightarrow>
   length (is_Rules (ing_Spec prior)) = length (is_Rules (ing_Spec ing))"
  by (auto simp: Ingress_SetDefaults_def IngressSpec_SetDefaults_def those_eq_Some_iff
      dest: map_eq_imp_length_eq)

lemma InsertProbe_rules_length:
  "length (is_Rules (ing_Spec (snd (InsertProbe marshal sha256 ing)))) = length (is_Rules (ing_Spec ing))"
  by (auto simp: InsertProbe_def Let_def insert_probe_rules_length split: sum.splits prod.splits)
     (metis insert_probe_rules_length snd_conv)+

definition probed :: "'w services \<Rightarrow> nat \<Rightarrow> ingress \<Rightarrow> ingress" where
  "probed sv n prior = snd (InsertProbe (sv_marshal sv) (sv_sha256 sv)
     (prior\<lparr>ing_Status := snd (Ingress_InitializeConditions (sv_clock sv) (n, ing_Status prior))\<rparr>))"

lemma probe_and_mark_conditions:
  assumes inv: "status_inv (snd st)"
    and run: "probe_and_mark sv ctx prior st w = Some (None, st', w')"
  obtains ready where "sv_IsReady sv prior w = (Inr ready, w')"
    "cstat ''NetworkConfigured'' st' = cstat ''NetworkConfigured'' st"
    "cstat ''LoadBalancerReady'' st' = Some (if ready then ConditionTrue else ConditionUnknown)"
    "cstat ''Ready'' st' = Some
       (if cstat ''NetworkConfigured'' st = Some ConditionFalse then ConditionFalse
        else if ready \<and> cstat ''NetworkConfigured'' st = Some ConditionTrue then ConditionTrue
        else ConditionUnknown)"
proof -
  obtain v w1 where v: "sv_IsReady sv prior w = (v, w1)" by fastforce
  with run obtain ready where r: "v = Inr ready" by (cases v) (auto simp: probe_and_mark_def)
  show ?thesis
  proof (cases ready)
    case True
    then show ?thesis using run v r inv
      by (intro that [of ready]) (auto simp: probe_and_mark_def cstat_marks)
  next
    case False
    then show ?thesis using run v r inv
      by (intro that [of ready]) (auto simp: probe_and_mark_def cstat_marks)
  qed
qed

lemma reconcile_conditions:
  assumes run: "reconcileIngress sv ctx n ing0 w = Some (None, n', ing', w', evs)"
    and inv: "status_inv (ing_Status ing0)"
  obtains prior st0 w1 ready where "Ingress_SetDefaults ing0 = Some prior"
    "st0 = Ingress_InitializeConditions (sv_clock sv) (n, ing_Status ing0)"
    "sv_IsReady sv prior w1 = (Inr ready, w')"
    "length (loop_routes sv ctx (probed sv n prior) (is_Rules (ing_Spec (probed sv n prior))) w) =
       length (is_Rules (ing_Spec ing0))"
    "status_of ''NetworkConfigured'' (st_Conditions (ing_Status ing')) =
       (if \<exists>r \<in> set (loop_routes sv ctx (probed sv n prior) (is_Rules (ing_Spec (probed sv n prior))) w).
             route_ready r
        then Some ConditionTrue else cstat ''NetworkConfigured'' st0)"
    "status_of ''LoadBalancerReady'' (st_Conditions (ing_Status ing')) =
       Some (if ready then ConditionTrue else ConditionUnknown)"
    "status_of ''Ready'' (st_Conditions (ing_Status ing')) = Some
       (if status_of ''NetworkConfigured'' (st_Conditions (ing_Status ing')) = Some ConditionFalse
        then ConditionFalse
        else if ready \<and> status_of ''NetworkConfigured'' (st_Conditions (ing_Status ing')) = Some ConditionTrue
        then ConditionTrue else ConditionUnknown)"
  using run
proof (cases rule: reconcileIngress_cases)
  case (probe prior st0 ing1 rules st1 w1)
  have ing1: "ing1 = probed sv n prior" using probe(2,3) by (simp add: probed_def)
  have prior: "ing_Status prior = ing_Status ing0" using SetDefaults_frame [OF probe(1)] by simp
  have inv0: "status_inv (snd st0)" using probe(2) inv prior by (simp add: keeps_wf)
  let ?routes = "loop_routes sv ctx ing1 (is_Rules (ing_Spec ing1)) w"
  have st1: "st1 = fold (mark_route (sv_clock sv)) (map route_ready ?routes) st0"
    by (rule rules_loop_status [OF probe(4)])
  have inv1: "status_inv (snd st1)" using inv0 by (simp add: st1 keeps_wf)
  obtain ready where r: "sv_IsReady sv prior w1 = (Inr ready, w')"
    "cstat ''NetworkConfigured'' (n', ing_Status ing') = cstat ''NetworkConfigured'' st1"
    "cstat ''LoadBalancerReady'' (n', ing_Status ing') = Some (if ready then ConditionTrue else ConditionUnknown)"
    "cstat ''Ready'' (n', ing_Status ing') = Some
       (if cstat ''NetworkConfigured'' st1 = Some ConditionFalse then ConditionFalse
        else if ready \<and> cstat ''NetworkConfigured'' st1 = Some ConditionTrue then ConditionTrue
        else ConditionUnknown)"
    by (rule probe_and_mark_conditions [OF inv1 probe(5)])
  have len: "length ?routes = length (is_Rules (ing_Spec ing0))"
    using loop_routes_length [OF probe(4)] probe(3) InsertProbe_rules_length
      SetDefaults_rules_length [OF probe(1)] by fastforce
  have nc: "cstat ''NetworkConfigured'' st1 =
      (if \<exists>r \<in> set ?routes. route_ready r then Some ConditionTrue else cstat ''NetworkConfigured'' st0)"
    using cstat_fold_marks(1) [OF inv0] by (auto simp: st1 image_iff)
  show ?thesis
    by (rule that [OF probe(1) _ r(1), of st0])
       (use probe(2) prior len r nc ing1 in \<open>simp_all add: cstat_status_of\<close>)
qed simp_all

text \<open>An error leaves the Ingress not ready.\<close>

lemma reconcileIngress_inv:
  assumes run: "reconcileIngress sv ctx n ing0 w = Some (err, n', ing', w', evs)"
    and inv: "status_inv (ing_Status ing0)"
  shows "status_inv (ing_Status ing')"
  using run
proof (cases rule: reconcileIngress_cases)
  case (hash prior e st0)
  have "status_inv (snd st0)" using hash(2) inv SetDefaults_frame [OF hash(1)] by (simp add: keeps_wf)
  then show ?thesis using hash(4) by (metis snd_conv)
next
  case (loop prior st0 ing1 e rules)
  have "status_inv (snd st0)" using loop(2) inv SetDefaults_frame [OF loop(1)] by (simp add: keeps_wf)
  then show ?thesis using rules_loop_status [OF loop(5)] by (metis snd_conv status_inv_fold_marks)
next
  case (probe prior st0 ing1 rules st1 w1)
  have "status_inv (snd st0)" using probe(2) inv SetDefaults_frame [OF probe(1)] by (simp add: keeps_wf)
  then have "status_inv (snd st1)" using rules_loop_status [OF probe(4)] by (metis status_inv_fold_marks)
  then show ?thesis using status_inv_mark_load_balancer [OF _ probe(5)] by simp
qed

section \<open>Panics\<close>

definition rule_complete :: "ingress_rule \<Rightarrow> bool" where
  "rule_complete rule \<longleftrightarrow> ir_Hosts rule \<noteq> [] \<and> ir_HTTP rule \<noteq> None"

lemma desired_route_complete:
  assumes "gateway_of ctx \<noteq> None"
  shows "desired_route ctx ing rule \<noteq> None \<longleftrightarrow> rule_complete rule"
  using assms by (simp add: desired_route_None MakeHTTPRoute_None_iff rule_complete_def)

lemma rules_loop_no_panic:
  assumes "gateway_of ctx \<noteq> None" and "list_all rule_complete rules"
  shows "rules_loop sv ctx ing rules st w \<noteq> None"
  using assms(2)
proof (induction rules arbitrary: st w)
  case (Cons rule rest)
  then obtain d where "desired_route ctx ing rule = Some d"
    using desired_route_complete [OF assms(1), of ing rule] by auto
  then obtain res rule1 w1 evs where
    "reconcileHTTPRoute (sv_get sv) (sv_create sv) (sv_update sv) ctx ing rule w = Some (res, rule1, w1, evs)"
    using reconcileHTTPRoute_no_panic by (metis not_None_eq prod_cases4)
  then show ?case using Cons by (cases res) (auto simp: IsHTTPRouteReady_eq)
qed simp

lemma insert_probe_complete:
  "list_all rule_complete rules \<Longrightarrow> list_all rule_complete (snd (insert_probe_rules hash rules))"
  by (induction rules) (auto simp: rule_complete_def split: option.splits prod.splits)

lemma SetDefaults_complete:
  assumes "Ingress_SetDefaults ing = Some prior" and "list_all rule_complete (is_Rules (ing_Spec ing))"
  shows "list_all rule_complete (is_Rules (ing_Spec prior))"
proof -
  obtain rules where r: "map IngressRule_SetDefaults (is_Rules (ing_Spec ing)) = map Some rules"
    and rs: "is_Rules (ing_Spec prior) = rules"
    using assms(1) by (auto simp: Ingress_SetDefaults_def IngressSpec_SetDefaults_def those_eq_Some_iff)
  have "rule_complete y" if "rule_complete x" "IngressRule_SetDefaults x = Some y" for x y
    using that by (auto simp: rule_complete_def IngressRule_SetDefaults_def Let_def split: option.splits if_splits)
  moreover have "\<exists>x \<in> set (is_Rules (ing_Spec ing)). IngressRule_SetDefaults x = Some y" if "y \<in> set rules" for y
  proof -
    from that have "Some y \<in> set (map IngressRule_SetDefaults (is_Rules (ing_Spec ing)))" by (simp add: r)
    then show ?thesis by (auto dest: sym)
  qed
  ultimately show ?thesis using assms(2) by (fastforce simp: rs list_all_iff)
qed

lemma probed_complete:
  "list_all rule_complete (is_Rules (ing_Spec prior)) \<Longrightarrow>
   list_all rule_complete (is_Rules (ing_Spec (snd (InsertProbe m h (prior\<lparr>ing_Status := s\<rparr>)))))"
  using insert_probe_complete
  by (auto simp: InsertProbe_def Let_def split: sum.splits prod.splits) (metis snd_conv)+

lemma probe_and_mark_no_panic:
  "gateway_of ctx \<noteq> None \<Longrightarrow> probe_and_mark sv ctx prior st w \<noteq> None"
  by (auto simp: probe_and_mark_def split: prod.splits sum.splits)

lemma reconcileIngress_no_panic:
  assumes g: "gateway_of ctx \<noteq> None" and c: "list_all rule_complete (is_Rules (ing_Spec ing0))"
  shows "reconcileIngress sv ctx n ing0 w \<noteq> None"
proof -
  have "\<forall>r \<in> set (is_Rules (ing_Spec ing0)). ir_HTTP r \<noteq> None"
    using c by (auto simp: list_all_iff rule_complete_def)
  then obtain prior where b: "Ingress_SetDefaults ing0 = Some prior"
    using defaults_None_iff [of ing0] by (cases "Ingress_SetDefaults ing0") auto
  let ?ing = "prior\<lparr>ing_Status := snd (Ingress_InitializeConditions (sv_clock sv) (n, ing_Status prior))\<rparr>"
  have pc: "list_all rule_complete
      (is_Rules (ing_Spec (snd (InsertProbe (sv_marshal sv) (sv_sha256 sv) ?ing))))"
    by (rule probed_complete [OF SetDefaults_complete [OF b c]])
  obtain res ing1 where p: "InsertProbe (sv_marshal sv) (sv_sha256 sv) ?ing = (res, ing1)" by fastforce
  define st where "st = (fst (Ingress_InitializeConditions (sv_clock sv) (n, ing_Status prior)), ing_Status ing1)"
  have "rules_loop sv ctx ing1 (is_Rules (ing_Spec ing1)) st w \<noteq> None"
    using rules_loop_no_panic [OF g] pc p by simp
  then obtain e rules st1 w1 evs where
    l: "rules_loop sv ctx ing1 (is_Rules (ing_Spec ing1)) st w = Some (e, rules, st1, w1, evs)"
    by (metis not_None_eq prod_cases5)
  obtain e2 st2 w2 where "probe_and_mark sv ctx prior st1 w1 = Some (e2, st2, w2)"
    using probe_and_mark_no_panic [OF g] by (metis not_None_eq prod_cases3)
  then show ?thesis
    by (simp add: reconcileIngress_def b p Let_def l [unfolded st_def] split: sum.split option.split)
qed

section \<open>The probe hash\<close>

text \<open>
  The hash written into the routes is the one the prober, which is given the Ingress from before the
  insertion, computes.
\<close>

lemma InsertProbe_hash:
  assumes "fst (InsertProbe marshal sha256 i) = Inr h"
    and "ing_Spec i = ing_Spec prior" and "ing_Meta i = ing_Meta prior"
  shows "\<exists>b. ComputeHash marshal sha256 prior = Inr b \<and> h = hex_string b \<and>
    is_Rules (ing_Spec (snd (InsertProbe marshal sha256 i))) =
      map (\<lambda>r. r\<lparr>ir_HTTP := map_option (probe_value h) (ir_HTTP r)\<rparr>) (is_Rules (ing_Spec prior))"
proof -
  have c: "ComputeHash marshal sha256 i = ComputeHash marshal sha256 prior"
    using assms(2,3) by (simp add: ComputeHash_def split: sum.splits)
  obtain b where b: "ComputeHash marshal sha256 prior = Inr b"
    using assms(1) c by (auto simp: InsertProbe_def split: sum.splits)
  obtain err rules where r: "insert_probe_rules (hex_string b) (is_Rules (ing_Spec prior)) = (err, rules)"
    by fastforce
  have "err = None" "h = hex_string b"
    using assms(1,2) b c r by (auto simp: InsertProbe_def Let_def split: option.splits)
  moreover have "rules = map (\<lambda>r. r\<lparr>ir_HTTP := map_option (probe_value (hex_string b)) (ir_HTTP r)\<rparr>)
      (is_Rules (ing_Spec prior))"
    using insert_probe_rules_eq [of "hex_string b" "is_Rules (ing_Spec prior)"] r \<open>err = None\<close> by simp
  ultimately show ?thesis using b c r assms(2) by (simp add: InsertProbe_def Let_def)
qed

lemma desired_route_rules:
  assumes "desired_route ctx ing rule = Some d" and "ir_HTTP rule = Some v"
  shows "hs_Rules (hr_Spec d) = map make_path_rule (rv_Paths v)"
proof -
  note desired_route_Some(1) [OF assms(1)]
  then obtain spec where "makeHTTPRouteSpec ctx (sorted_rule rule) = Some spec" "hr_Spec d = spec"
    by (rule MakeHTTPRoute_Some) (simp add: sorted_rule_def)
  then show ?thesis
    using assms(2)
    by (auto simp: makeHTTPRouteSpec_def makeHTTPRouteRule_def sorted_rule_def Let_def
        split: prod.splits bind_splits dest!: arg_cong [of _ "hr_Spec d" hs_Rules])
qed

lemma tagged_path_rule:
  "fmlookup (filters_set (rr_Filters (make_path_rule (probe_path h p)))) HashHeaderName = Some h"
  "route_rule_applies rq (make_path_rule (probe_path h p)) \<Longrightarrow>
     fmlookup (rq_Headers rq) HashHeaderName = Some HashHeaderValue"
proof -
  assume "route_rule_applies rq (make_path_rule (probe_path h p))"
  then have "fmpred (\<lambda>k x. fmlookup (rq_Headers rq) k = Some (hm_Exact x))
      (entries (ip_Headers (probe_path h p)))"
    by (simp only: make_path_rule_applies ingress_path_matches_def)
  from fmpredD [OF this, of HashHeaderName "\<lparr>hm_Exact = HashHeaderValue\<rparr>"]
  show "fmlookup (rq_Headers rq) HashHeaderName = Some HashHeaderValue" by simp
qed (simp add: make_path_rule_filters)

section \<open>Convergence\<close>

text \<open>Rules that get different routes.\<close>

definition distinct_routes :: "ingress \<Rightarrow> ingress_rule list \<Rightarrow> bool" where
  "distinct_routes ing rules \<longleftrightarrow> distinct (map (route_key ing) rules)"

context route_client
begin

definition settled :: "'n ctx \<Rightarrow> ingress \<Rightarrow> 'w \<Rightarrow> ingress_rule \<Rightarrow> bool" where
  "settled ctx ing w rule \<longleftrightarrow>
     (\<exists>d r. desired_route ctx ing rule = Some d \<and>
        get (fst (route_key ing rule)) (snd (route_key ing rule)) w = Inr r \<and> route_up_to_date r d)"

lemma settled_cong:
  "get (fst (route_key ing rule)) (snd (route_key ing rule)) w' =
   get (fst (route_key ing rule)) (snd (route_key ing rule)) w \<Longrightarrow>
   settled ctx ing w' rule = settled ctx ing w rule"
  by (simp add: settled_def)

lemma settled_step:
  assumes "settled ctx ing w rule"
  shows "\<exists>r. reconcileHTTPRoute get create update ctx ing rule w = Some (Inr r, sorted_rule rule, w, [])"
  using assms by (auto simp: settled_def reconcileHTTPRoute_desired)

lemma loop_settled:
  assumes sv: "sv_get sv = get" "sv_create sv = create" "sv_update sv = update"
    and "\<forall>rule \<in> set rules. settled ctx ing w rule"
  shows "\<exists>st'. rules_loop sv ctx ing rules st w = Some (None, map sorted_rule rules, st', w, [])"
  using assms(4)
proof (induction rules arbitrary: st)
  case (Cons rule rest)
  then obtain r where "reconcileHTTPRoute get create update ctx ing rule w = Some (Inr r, sorted_rule rule, w, [])"
    using settled_step by (meson list.set_intros(1))
  moreover obtain st' where "rules_loop sv ctx ing rest (mark_route (sv_clock sv) (route_ready r) st) w =
      Some (None, map sorted_rule rest, st', w, [])"
    using Cons by fastforce
  ultimately show ?case by (simp add: sv IsHTTPRouteReady_eq)
qed simp

lemma loop_settles:
  assumes sv: "sv_get sv = get" "sv_create sv = create" "sv_update sv = update"
    and "good w" and "\<forall>rule \<in> set rules. desired_route ctx ing rule \<noteq> None"
    and "distinct (map (route_key ing) rules)"
  shows "\<exists>st' w' evs. rules_loop sv ctx ing rules st w = Some (None, map sorted_rule rules, st', w', evs) \<and>
     good w' \<and> (\<forall>rule \<in> set rules. settled ctx ing w' rule) \<and>
     (\<forall>ns n. (ns, n) \<notin> route_key ing ` set rules \<longrightarrow> get ns n w' = get ns n w)"
  using assms(4-6)
proof (induction rules arbitrary: st w)
  case (Cons rule rest)
  obtain d where d: "desired_route ctx ing rule = Some d" using Cons.prems(2) by auto
  obtain r w1 evs1 where r:
    "reconcileHTTPRoute get create update ctx ing rule w = Some (Inr r, sorted_rule rule, w1, evs1)"
    "good w1" "get (fst (route_key ing rule)) (snd (route_key ing rule)) w1 = Inr r"
    "route_up_to_date r d"
    "\<forall>ns n. (ns, n) \<noteq> route_key ing rule \<longrightarrow> get ns n w1 = get ns n w"
    by (rule reconcile_result [OF Cons.prems(1) d])
  have fresh: "route_key ing rule \<notin> route_key ing ` set rest" using Cons.prems(3) by simp
  obtain st2 w2 evs2 where l:
    "rules_loop sv ctx ing rest (mark_route (sv_clock sv) (route_ready r) st) w1 =
       Some (None, map sorted_rule rest, st2, w2, evs2)"
    "good w2" "\<forall>x \<in> set rest. settled ctx ing w2 x"
    "\<forall>ns n. (ns, n) \<notin> route_key ing ` set rest \<longrightarrow> get ns n w2 = get ns n w1"
    using Cons.IH [OF r(2), of "mark_route (sv_clock sv) (route_ready r) st"] Cons.prems(2,3) by auto
  have "settled ctx ing w1 rule" using d r(3,4) by (auto simp: settled_def)
  moreover have "get (fst (route_key ing rule)) (snd (route_key ing rule)) w2 =
      get (fst (route_key ing rule)) (snd (route_key ing rule)) w1"
    using l(4) fresh by simp
  ultimately have "settled ctx ing w2 rule" using settled_cong by blast
  then show ?case using r(1,5) l by (simp add: sv IsHTTPRouteReady_eq)
qed simp

end

end
