(* ===== verification/Samples.thy ===== *)
theory Samples
  imports IngressReconcile
begin

text \<open>
  Concrete inputs on which the properties are applied: an Ingress with two rules, the default
  gateway configuration, and services over the tracker of HTTPRoutes with a trivial hash.
\<close>

definition sample_path :: http_ingress_path where
  "sample_path = \<lparr>ip_Path = '''', ip_RewriteHost = '''', ip_Headers = None,
     ip_Splits = [\<lparr>ib_ServiceNamespace = ''ns'', ib_ServiceName = ''svc'',
                   ib_ServicePort = FromInt 80, sp_Percent = 0, sp_AppendHeaders = None\<rparr>],
     ip_AppendHeaders = None\<rparr>"

definition sample_rule :: "string \<Rightarrow> string \<Rightarrow> ingress_rule" where
  "sample_rule host visibility = \<lparr>ir_Hosts = [host], ir_Visibility = visibility,
     ir_HTTP = Some \<lparr>rv_Paths = [sample_path]\<rparr>\<rparr>"

definition empty_status :: ingress_status where
  "empty_status = \<lparr>st_ObservedGeneration = 0, st_Conditions = [], st_Annotations = None,
     st_PublicLoadBalancer = None, st_PrivateLoadBalancer = None\<rparr>"

definition sample_ingress :: ingress where
  "sample_ingress = \<lparr>ing_Meta = empty_meta\<lparr>om_Name := ''ing'', om_Namespace := ''ns''\<rparr>,
     ing_Spec = \<lparr>is_TLS = [], is_Rules = [sample_rule ''b'' '''', sample_rule ''a'' VisibilityClusterLocal],
                 is_HTTPOption = HTTPOptionEnabled\<rparr>,
     ing_Status = empty_status\<rparr>"

definition sample_ctx :: "unit ctx" where
  "sample_ctx = Some (Some \<lparr>cfg_Network = Some (), cfg_Gateway = Some default_gateway\<rparr>)"

text \<open>The prober's verdict is the argument.\<close>

definition sample_services :: "bool \<Rightarrow> http_route tracker services" where
  "sample_services ready = \<lparr>sv_get = route_get, sv_create = route_create, sv_update = route_update,
     sv_IsReady = (\<lambda>_ w. (Inr ready, w)), sv_marshal = (\<lambda>_. Inr ''spec''), sv_sha256 = id,
     sv_clock = int, sv_domain = ''cluster.local''\<rparr>"

lemma status_inv_empty [simp]: "status_inv empty_status"
  by (simp add: status_inv_def empty_status_def)

end
