(* ===== verification/Controller.thy ===== *)
theory Controller
  imports Samples
begin

text \<open>
  The wiring of the controller (\<open>pkg/reconciler/ingress/controller.go\<close>): which keys enter the work queue on
  an event, and which Ingress a key leads to. Under it the class filter
  (\<open>vendor/knative.dev/pkg/reconciler/filter.go\<close>), the filtering handler of \<open>client-go\<close>, the queue of
  \<open>vendor/knative.dev/pkg/controller\<close>, and the start of the generated \<open>Reconcile\<close>, up to the call of
  \<open>ReconcileKind\<close>. Nothing in this program tracks an object, so the tracker stays empty and the handler
  that removes deleted observers from it is left out, like the logger and the metrics.
\<close>

section \<open>The work queue\<close>

text \<open>
  The two lanes, as the keys that wait in them. A key that already waits is not added again, and
  nothing is added once the queue is shutting down.
\<close>

record work_queue =
  wq_fast :: "namespaced_name list"
  wq_slow :: "namespaced_name list"
  wq_ShuttingDown :: bool

definition lane_Add :: "namespaced_name \<Rightarrow> namespaced_name list \<Rightarrow> namespaced_name list" where
  "lane_Add key lane = (if key \<in> set lane then lane else lane @ [key])"

definition EnqueueKey :: "namespaced_name \<Rightarrow> work_queue \<Rightarrow> work_queue" where
  "EnqueueKey key q = (if wq_ShuttingDown q then q else q\<lparr>wq_fast := lane_Add key (wq_fast q)\<rparr>)"

definition EnqueueSlowKey :: "namespaced_name \<Rightarrow> work_queue \<Rightarrow> work_queue" where
  "EnqueueSlowKey key q = (if wq_ShuttingDown q then q else q\<lparr>wq_slow := lane_Add key (wq_slow q)\<rparr>)"

section \<open>Handlers\<close>

text \<open>What an informer hands to a handler: an object, or the tombstone of one whose deletion it missed.\<close>

datatype 'o handled = Live 'o | DeletedFinalStateUnknown string 'o

datatype 'o notification = OnAdd "'o handled" | OnUpdate "'o handled" "'o handled" | OnDelete "'o handled"

fun DeletionHandlingAccessor :: "'o handled \<Rightarrow> 'o" where
  "DeletionHandlingAccessor (Live obj) = obj"
| "DeletionHandlingAccessor (DeletedFinalStateUnknown key obj) = obj"

definition Enqueue :: "('o \<Rightarrow> object_meta) \<Rightarrow> 'o handled \<Rightarrow> work_queue \<Rightarrow> work_queue" where
  "Enqueue meta obj q =
     (let object = meta (DeletionHandlingAccessor obj) in EnqueueKey (om_Namespace object, om_Name object) q)"

definition EnqueueSlow :: "('o \<Rightarrow> object_meta) \<Rightarrow> 'o handled \<Rightarrow> work_queue \<Rightarrow> work_queue" where
  "EnqueueSlow meta obj q =
     (let object = meta (DeletionHandlingAccessor obj) in EnqueueSlowKey (om_Namespace object, om_Name object) q)"

definition EnqueueControllerOf :: "('o \<Rightarrow> object_meta) \<Rightarrow> 'o handled \<Rightarrow> work_queue \<Rightarrow> work_queue" where
  "EnqueueControllerOf meta obj q =
     (let object = meta (DeletionHandlingAccessor obj)
      in case GetControllerOf object of
           None \<Rightarrow> q
         | Some owner \<Rightarrow> EnqueueKey (om_Namespace object, or_Name owner) q)"

fun HandleAll :: "('o handled \<Rightarrow> work_queue \<Rightarrow> work_queue) \<Rightarrow> 'o notification \<Rightarrow> work_queue \<Rightarrow> work_queue" where
  "HandleAll h (OnAdd obj) = h obj"
| "HandleAll h (OnUpdate first second) = h second"
| "HandleAll h (OnDelete obj) = h obj"

definition mapHasOrDefault :: "smap \<Rightarrow> string \<Rightarrow> string \<Rightarrow> bool \<Rightarrow> bool" where
  "mapHasOrDefault m key value defaultValue =
     (case fmlookup (entries m) key of None \<Rightarrow> defaultValue | Some val \<Rightarrow> val = value)"

text \<open>A tombstone is no \<open>metav1.Object\<close>.\<close>

fun AnnotationFilterFunc :: "string \<Rightarrow> string \<Rightarrow> bool \<Rightarrow> ('o \<Rightarrow> object_meta) \<Rightarrow> 'o handled \<Rightarrow> bool" where
  "AnnotationFilterFunc key value allowUnset meta (Live obj) = mapHasOrDefault (om_Annotations (meta obj)) key value allowUnset"
| "AnnotationFilterFunc key value allowUnset meta (DeletedFinalStateUnknown _ _) = False"

fun FilteringResourceEventHandler ::
  "('o handled \<Rightarrow> bool) \<Rightarrow> ('o notification \<Rightarrow> work_queue \<Rightarrow> work_queue) \<Rightarrow> 'o notification \<Rightarrow> work_queue \<Rightarrow> work_queue" where
  "FilteringResourceEventHandler accepts handler (OnAdd obj) q = (if \<not> accepts obj then q else handler (OnAdd obj) q)"
| "FilteringResourceEventHandler accepts handler (OnUpdate oldObj newObj) q =
     (let newer = accepts newObj; older = accepts oldObj
      in if newer \<and> older then handler (OnUpdate oldObj newObj) q
         else if newer \<and> \<not> older then handler (OnAdd newObj) q
         else if \<not> newer \<and> older then handler (OnDelete oldObj) q
         else q)"
| "FilteringResourceEventHandler accepts handler (OnDelete obj) q = (if \<not> accepts obj then q else handler (OnDelete obj) q)"

section \<open>The controller\<close>

definition GatewayAPIIngressClassName :: string where
  "GatewayAPIIngressClassName = ''gateway-api.ingress.networking.knative.dev''"

definition IngressClassAnnotationKey :: string where
  "IngressClassAnnotationKey = ''networking.knative.dev/ingress.class''"

definition filterFunc :: "('o \<Rightarrow> object_meta) \<Rightarrow> 'o handled \<Rightarrow> bool" where
  "filterFunc = AnnotationFilterFunc IngressClassAnnotationKey GatewayAPIIngressClassName True"

definition ingressHandler :: "ingress notification \<Rightarrow> work_queue \<Rightarrow> work_queue" where
  "ingressHandler = FilteringResourceEventHandler (filterFunc ing_Meta) (HandleAll (Enqueue ing_Meta))"

definition httprouteHandler :: "http_route notification \<Rightarrow> work_queue \<Rightarrow> work_queue" where
  "httprouteHandler = FilteringResourceEventHandler (filterFunc hr_Meta) (HandleAll (EnqueueControllerOf hr_Meta))"

definition gatewayHandler :: "('g \<Rightarrow> object_meta) \<Rightarrow> 'g notification \<Rightarrow> work_queue \<Rightarrow> work_queue" where
  "gatewayHandler meta = FilteringResourceEventHandler (filterFunc meta) (HandleAll (EnqueueControllerOf meta))"

text \<open>The callback of the status prober.\<close>

definition readyCallback :: "ingress \<Rightarrow> work_queue \<Rightarrow> work_queue" where
  "readyCallback ing q = EnqueueKey (om_Namespace (ing_Meta ing), om_Name (ing_Meta ing)) q"

text \<open>\<open>FilteredGlobalResync\<close> over the list of the informer's store.\<close>

definition FilteredGlobalResync :: "('o \<Rightarrow> bool) \<Rightarrow> ('o \<Rightarrow> object_meta) \<Rightarrow> 'o list \<Rightarrow> work_queue \<Rightarrow> work_queue" where
  "FilteredGlobalResync f meta items q =
     (if wq_ShuttingDown q then q
      else fold (\<lambda>obj q. if f obj then EnqueueSlow meta (Live obj) q else q) items q)"

definition GlobalResync :: "('o \<Rightarrow> object_meta) \<Rightarrow> 'o list \<Rightarrow> work_queue \<Rightarrow> work_queue" where
  "GlobalResync = FilteredGlobalResync (\<lambda>_. True)"

text \<open>\<open>reflect.TypeOf\<close> of a parsed ConfigMap.\<close>

datatype config_type = NetworkConfigType | GatewayConfigType

fun config_type_of :: "'n cfg_value \<Rightarrow> config_type" where
  "config_type_of (NetworkValue _) = NetworkConfigType"
| "config_type_of (GatewayValue _) = GatewayConfigType"

definition TypeFilter ::
  "config_type list \<Rightarrow> (string \<Rightarrow> 'n cfg_value \<Rightarrow> work_queue \<Rightarrow> work_queue) \<Rightarrow>
   string \<Rightarrow> 'n cfg_value \<Rightarrow> work_queue \<Rightarrow> work_queue" where
  "TypeFilter ts f name value q = (if list_ex (\<lambda>t. config_type_of value = t) ts then f name value q else q)"

definition configsToResync :: "config_type list" where
  "configsToResync = [NetworkConfigType, GatewayConfigType]"

definition resync :: "ingress list \<Rightarrow> string \<Rightarrow> 'n cfg_value \<Rightarrow> work_queue \<Rightarrow> work_queue" where
  "resync ingresses = TypeFilter configsToResync (\<lambda>_ _. GlobalResync ing_Meta ingresses)"

text \<open>The store of the controller has one callback, \<open>resync\<close>; what a call of it does to the queue.\<close>

definition configStore where
  "configStore parse_gateway parse_network = NewStore parse_gateway parse_network [()]"

definition run_calls :: "ingress list \<Rightarrow> ('n, unit) call list \<Rightarrow> work_queue \<Rightarrow> work_queue" where
  "run_calls ingresses = fold (\<lambda>(_, name, value). resync ingresses name value)"

text \<open>The new leader of a bucket enqueues the Ingresses of the bucket that pass the filter.\<close>

definition PromoteFunc :: "(namespaced_name \<Rightarrow> bool) \<Rightarrow> ingress list \<Rightarrow> work_queue \<Rightarrow> work_queue" where
  "PromoteFunc bucket_Has all =
     fold (\<lambda>elt q.
       if \<not> filterFunc ing_Meta (Live elt) then q
       else let key = (om_Namespace (ing_Meta elt), om_Name (ing_Meta elt))
            in if bucket_Has key then EnqueueSlowKey key q else q) all"

section \<open>From a key to an Ingress\<close>

definition safeKey :: "namespaced_name \<Rightarrow> string" where
  "safeKey key = (if fst key = '''' then snd key else fst key @ ''/'' @ snd key)"

datatype selection =
    InvalidKey
  | NotLeader error
  | NoLongerExists
  | LookupFailed error
  | OtherClass
  | BeingDeleted ingress
  | ReconcileIt ingress

text \<open>
  The generated \<open>Reconcile\<close> up to the call it dispatches to. \<open>is_leader\<close> is \<open>IsLeaderFor\<close>, \<open>getter\<close> the lister of
  Ingresses, \<open>deleted\<close> says whether the deletion timestamp is set. The reconciler has no finalizer and
  observes nothing.
\<close>

definition reconcile_selects ::
  "(namespaced_name \<Rightarrow> bool) \<Rightarrow> (string \<Rightarrow> string \<Rightarrow> error + ingress) \<Rightarrow> (ingress \<Rightarrow> bool) \<Rightarrow> string \<Rightarrow> string \<Rightarrow> selection" where
  "reconcile_selects is_leader getter deleted class_value key =
     (case SplitMetaNamespaceKey key of
        (_, _, Some _) \<Rightarrow> InvalidKey
      | (namespace, name, None) \<Rightarrow>
          if \<not> is_leader (namespace, name) then NotLeader (SkipKeyError key)
          else case getter namespace name of
                 Inl err \<Rightarrow> if is_not_found err then NoLongerExists else LookupFailed err
               | Inr original \<Rightarrow>
                   (if fmlookup (entries (om_Annotations (ing_Meta original))) IngressClassAnnotationKey \<noteq> Some class_value
                    then OtherClass
                    else if deleted original then BeingDeleted original else ReconcileIt original))"

section \<open>Laws of the queue\<close>

lemma lane_Add_set [simp]: "set (lane_Add key lane) = insert key (set lane)"
  by (auto simp: lane_Add_def)

lemma lane_Add_distinct: "distinct lane \<Longrightarrow> distinct (lane_Add key lane)"
  by (simp add: lane_Add_def)

definition queue_inv :: "work_queue \<Rightarrow> bool" where
  "queue_inv q \<longleftrightarrow> distinct (wq_fast q) \<and> distinct (wq_slow q)"

lemma EnqueueKey_parts [simp]:
  "wq_ShuttingDown (EnqueueKey key q) = wq_ShuttingDown q" "wq_slow (EnqueueKey key q) = wq_slow q"
  "set (wq_fast (EnqueueKey key q)) = (if wq_ShuttingDown q then {} else {key}) \<union> set (wq_fast q)"
  by (simp_all add: EnqueueKey_def)

lemma EnqueueSlowKey_parts [simp]:
  "wq_ShuttingDown (EnqueueSlowKey key q) = wq_ShuttingDown q" "wq_fast (EnqueueSlowKey key q) = wq_fast q"
  "set (wq_slow (EnqueueSlowKey key q)) = (if wq_ShuttingDown q then {} else {key}) \<union> set (wq_slow q)"
  by (simp_all add: EnqueueSlowKey_def)

lemma Enqueue_inv: "queue_inv q \<Longrightarrow> queue_inv (EnqueueKey key q) \<and> queue_inv (EnqueueSlowKey key q)"
  by (simp add: queue_inv_def EnqueueKey_def EnqueueSlowKey_def lane_Add_distinct)

lemma resync_fold:
  "\<not> wq_ShuttingDown q \<Longrightarrow>
   let q' = fold (\<lambda>obj. EnqueueSlow meta (Live obj)) items q
   in \<not> wq_ShuttingDown q' \<and> wq_fast q' = wq_fast q \<and>
      set (wq_slow q') = (\<lambda>obj. (om_Namespace (meta obj), om_Name (meta obj))) ` set items \<union> set (wq_slow q)"
  by (induction items arbitrary: q) (auto simp: EnqueueSlow_def Let_def)

lemma GlobalResync_slow:
  assumes "\<not> wq_ShuttingDown q"
  shows "wq_fast (GlobalResync meta items q) = wq_fast q"
    and "set (wq_slow (GlobalResync meta items q)) =
      (\<lambda>obj. (om_Namespace (meta obj), om_Name (meta obj))) ` set items \<union> set (wq_slow q)"
  using resync_fold [OF assms, of meta items] assms by (simp_all add: GlobalResync_def FilteredGlobalResync_def Let_def)

text \<open>A key survives the way through the queue.\<close>

lemma split_safeKey:
  assumes "CHR ''/'' \<notin> set ns" and "CHR ''/'' \<notin> set n"
  shows "SplitMetaNamespaceKey (safeKey (ns, n)) = (ns, n, None)"
  using assms by (simp add: SplitMetaNamespaceKey_def safeKey_def split_on_no_sep split_on_append_sep)

section \<open>Events of routes\<close>

lemma MakeHTTPRoute_meta:
  assumes "MakeHTTPRoute ctx ing rule = Some (Inr r, rule')"
  shows "om_Namespace (hr_Meta r) = om_Namespace (ing_Meta ing)"
    and "GetControllerOf (hr_Meta r) = Some (NewControllerRef (ing_Meta ing) ingress_apiVersion ingress_kind)"
    and "fmlookup (entries (om_Annotations (hr_Meta r))) IngressClassAnnotationKey =
      fmlookup (entries (om_Annotations (ing_Meta ing))) IngressClassAnnotationKey"
  using assms
  by (auto simp: MakeHTTPRoute_def Let_def GetControllerOf_def NewControllerRef_def fmlookup_FilterMap
      IngressClassAnnotationKey_def LastAppliedConfigAnnotation_def split: bind_splits option.splits)

definition class_accepted :: "object_meta \<Rightarrow> bool" where
  "class_accepted m \<longleftrightarrow> mapHasOrDefault (om_Annotations m) IngressClassAnnotationKey GatewayAPIIngressClassName True"

lemma filterFunc_Live [simp]: "filterFunc meta (Live obj) \<longleftrightarrow> class_accepted (meta obj)"
  by (simp add: filterFunc_def class_accepted_def)

text \<open>The notifications whose new state is an object.\<close>

definition about :: "'o \<Rightarrow> 'o notification \<Rightarrow> bool" where
  "about obj ev \<longleftrightarrow> ev = OnAdd (Live obj) \<or> (\<exists>older. ev = OnUpdate older (Live obj)) \<or> ev = OnDelete (Live obj)"

lemma handler_about:
  assumes "about obj ev" and "class_accepted (meta obj)"
  shows "FilteringResourceEventHandler (filterFunc meta) (HandleAll h) ev q = h (Live obj) q"
  using assms by (auto simp: about_def Let_def)

definition class_set :: "ingress \<Rightarrow> bool" where
  "class_set ing \<longleftrightarrow>
     fmlookup (entries (om_Annotations (ing_Meta ing))) IngressClassAnnotationKey = Some GatewayAPIIngressClassName"

lemma class_set_accepted: "class_set ing \<Longrightarrow> class_accepted (ing_Meta ing)"
  by (simp add: class_set_def class_accepted_def mapHasOrDefault_def)

lemma selects_class:
  assumes "CHR ''/'' \<notin> set ns" and "CHR ''/'' \<notin> set n" and "is_leader (ns, n)" and "getter ns n = Inr ing"
  shows "reconcile_selects is_leader getter deleted GatewayAPIIngressClassName (safeKey (ns, n)) =
    (if \<not> class_set ing then OtherClass else if deleted ing then BeingDeleted ing else ReconcileIt ing)"
  using assms(3,4) by (simp add: reconcile_selects_def split_safeKey [OF assms(1,2)] class_set_def)


definition classed_ingress :: ingress where
  "classed_ingress = sample_ingress\<lparr>ing_Meta := (ing_Meta sample_ingress)
     \<lparr>om_Annotations := Some (fmap_of_list [(IngressClassAnnotationKey, GatewayAPIIngressClassName)])\<rparr>\<rparr>"


section \<open>Configuration updates\<close>

lemma resync_eq: "resync ingresses name v = GlobalResync ing_Meta ingresses"
  by (cases v) (simp_all add: resync_def TypeFilter_def configsToResync_def fun_eq_iff)

definition ingress_keys :: "ingress list \<Rightarrow> namespaced_name set" where
  "ingress_keys ingresses = (\<lambda>ing. (om_Namespace (ing_Meta ing), om_Name (ing_Meta ing))) ` set ingresses"

lemma OnConfigChanged_callbacks:
  "OnConfigChanged s c = Some (s', out, calls) \<Longrightarrow>
   us_onAfterStore s' = us_onAfterStore s \<and>
   (if out = Stored then \<exists>value. calls = map (\<lambda>f. (f, cm_Name c, value)) (us_onAfterStore s) else calls = [])"
  by (auto simp: OnConfigChanged_def Let_def split: option.splits sum.splits)

lemma GlobalResync_inv: "queue_inv q \<Longrightarrow> queue_inv (GlobalResync meta items q)"
proof -
  have "queue_inv q \<Longrightarrow> queue_inv (fold (\<lambda>obj. EnqueueSlow meta (Live obj)) items q)" for q
    by (induction items arbitrary: q) (auto simp: EnqueueSlow_def Let_def Enqueue_inv)
  then show "queue_inv q \<Longrightarrow> queue_inv (GlobalResync meta items q)"
    by (simp add: GlobalResync_def FilteredGlobalResync_def)
qed

text \<open>C37. A ConfigMap that the store accepts puts every cached Ingress on the slow lane, once, and nothing else;
  the fast lane is left alone. One that it rejects enqueues nothing.\<close>

theorem config_update_resyncs:
  assumes "us_onAfterStore s = [()]" and "OnConfigChanged s c = Some (s', out, calls)" and "\<not> wq_ShuttingDown q"
    and "queue_inv q"
  shows "wq_fast (run_calls ingresses calls q) = wq_fast q \<and>
    set (wq_slow (run_calls ingresses calls q)) =
      (if out = Stored then ingress_keys ingresses else {}) \<union> set (wq_slow q) \<and>
    queue_inv (run_calls ingresses calls q)"
proof (cases "out = Stored")
  case True
  then obtain v where "calls = [((), cm_Name c, v)]"
    using OnConfigChanged_callbacks [OF assms(2)] assms(1) by auto
  then have "run_calls ingresses calls q = GlobalResync ing_Meta ingresses q" by (simp add: run_calls_def resync_eq)
  then show ?thesis
    using True GlobalResync_slow [OF assms(3), of ing_Meta ingresses] GlobalResync_inv [OF assms(4)]
    by (simp add: ingress_keys_def)
next
  case False
  then show ?thesis using OnConfigChanged_callbacks [OF assms(2)] assms(4) by (simp add: run_calls_def)
qed

lemma configStore_callbacks: "us_onAfterStore (configStore pg pn) = [()]"
  by (simp add: configStore_def NewStore_def NewUntypedStore_def registerConfig_def)

theorem config_update_resyncs_witness:
  "\<exists>s' out calls. OnConfigChanged (configStore (\<lambda>_. Inr default_gateway) (\<lambda>_. Inr ())) \<lparr>cm_Name = GatewayConfigName, cm_Data = None\<rparr> =
       Some (s', out, calls) \<and>
     set (wq_slow (run_calls [sample_ingress] calls \<lparr>wq_fast = [], wq_slow = [], wq_ShuttingDown = False\<rparr>)) = {(''ns'', ''ing'')}"
proof -
  let ?q = "\<lparr>wq_fast = [], wq_slow = [], wq_ShuttingDown = False\<rparr>"
  have "map_option (\<lambda>(s, out, calls). out) (OnConfigChanged (configStore (\<lambda>_. Inr default_gateway) (\<lambda>_. Inr ()))
      \<lparr>cm_Name = GatewayConfigName, cm_Data = None\<rparr>) = Some Stored"
    by (simp add: OnConfigChanged_def configStore_def NewStore_def NewUntypedStore_def registerConfig_def
        GatewayConfigName_def NetworkConfigName_def gateway_constructor_def Let_def)
  then obtain s' calls where run: "OnConfigChanged (configStore (\<lambda>_. Inr default_gateway) (\<lambda>_. Inr ()))
      \<lparr>cm_Name = GatewayConfigName, cm_Data = None\<rparr> = Some (s', Stored, calls)"
    by auto
  have "queue_inv ?q" by (simp add: queue_inv_def)
  then show ?thesis
    using run config_update_resyncs [OF configStore_callbacks run, of ?q "[sample_ingress]"]
    by (auto simp: ingress_keys_def sample_ingress_def)
qed

section \<open>What the filter lets through\<close>

text \<open>An Ingress without the class annotation passes the filter, so its events are queued, but the reconciler
  leaves it alone.\<close>

lemma unset_class_queued_and_skipped:
  assumes "fmlookup (entries (om_Annotations (ing_Meta ing))) IngressClassAnnotationKey = None"
    and "about ing ev" and "CHR ''/'' \<notin> set (om_Namespace (ing_Meta ing))" and "CHR ''/'' \<notin> set (om_Name (ing_Meta ing))"
    and "getter (om_Namespace (ing_Meta ing)) (om_Name (ing_Meta ing)) = Inr ing"
    and "is_leader (om_Namespace (ing_Meta ing), om_Name (ing_Meta ing))"
  shows "ingressHandler ev q = EnqueueKey (om_Namespace (ing_Meta ing), om_Name (ing_Meta ing)) q \<and>
    reconcile_selects is_leader getter deleted GatewayAPIIngressClassName
      (safeKey (om_Namespace (ing_Meta ing), om_Name (ing_Meta ing))) = OtherClass"
proof -
  have "class_accepted (ing_Meta ing)" using assms(1) by (simp add: class_accepted_def mapHasOrDefault_def)
  then show ?thesis
    using selects_class [OF assms(3,4), of is_leader getter ing deleted] assms(1,5,6)
    by (simp add: ingressHandler_def handler_about [OF assms(2)] Enqueue_def class_set_def Let_def)
qed

text \<open>A deletion that the informer only learns of later, as a tombstone, is dropped by the filter, although the
  handler behind it could read the object in the tombstone.\<close>

lemma tombstone_dropped:
  "httprouteHandler (OnDelete (DeletedFinalStateUnknown key r)) q = q"
  "ingressHandler (OnDelete (DeletedFinalStateUnknown key ing)) q = q"
  by (simp_all add: httprouteHandler_def ingressHandler_def filterFunc_def)

end
