(* ===== verification/FakeTesting.thy ===== *)
theory FakeTesting
  imports Tracker RestClient
begin

text \<open>
  The fake client machinery of \<open>k8s.io/client-go/testing\<close>: the actions a fake client records, reactors
  and the chain \<open>Invokes\<close> runs them through, and the reactor that applies actions to an object
  tracker. Objects have a type \<open>'u\<close> that holds every kind. The parser of selectors, the patch
  libraries and access to the metadata of an object form the environment.
\<close>

section \<open>Actions\<close>

type_synonym selector = "smap \<Rightarrow> bool"

datatype 'u action_kind =
    GetAction string
  | ListAction string string string            \<comment> \<open>kind, label selector, field selector\<close>
  | WatchAction string string string           \<comment> \<open>label selector, field selector, resource version\<close>
  | CreateAction 'u
  | UpdateAction 'u
  | DeleteAction string
  | DeleteCollectionAction string string
  | PatchAction string string string           \<comment> \<open>name, patch type, patch\<close>
  | PlainAction                                \<comment> \<open>a bare \<open>ActionImpl\<close>, as discovery makes\<close>

record 'u action =
  ac_Verb :: string
  ac_Resource :: group_version_resource
  ac_Namespace :: string
  ac_Subresource :: string
  ac_Action :: "'u action_kind"

definition action_of ::
  "string \<Rightarrow> group_version_resource \<Rightarrow> string \<Rightarrow> string \<Rightarrow> 'u action_kind \<Rightarrow> 'u action" where
  "action_of v gvr ns sub k =
     \<lparr>ac_Verb = v, ac_Resource = gvr, ac_Namespace = ns, ac_Subresource = sub, ac_Action = k\<rparr>"

definition NewGetAction :: "group_version_resource \<Rightarrow> string \<Rightarrow> string \<Rightarrow> 'u action" where
  "NewGetAction gvr ns name = action_of ''get'' gvr ns '''' (GetAction name)"

definition NewRootGetAction :: "group_version_resource \<Rightarrow> string \<Rightarrow> 'u action" where
  "NewRootGetAction gvr name = action_of ''get'' gvr '''' '''' (GetAction name)"

definition NewCreateAction :: "group_version_resource \<Rightarrow> string \<Rightarrow> 'u \<Rightarrow> 'u action" where
  "NewCreateAction gvr ns obj = action_of ''create'' gvr ns '''' (CreateAction obj)"

definition NewRootCreateAction :: "group_version_resource \<Rightarrow> 'u \<Rightarrow> 'u action" where
  "NewRootCreateAction gvr obj = action_of ''create'' gvr '''' '''' (CreateAction obj)"

definition NewUpdateAction :: "group_version_resource \<Rightarrow> string \<Rightarrow> 'u \<Rightarrow> 'u action" where
  "NewUpdateAction gvr ns obj = action_of ''update'' gvr ns '''' (UpdateAction obj)"

definition NewRootUpdateAction :: "group_version_resource \<Rightarrow> 'u \<Rightarrow> 'u action" where
  "NewRootUpdateAction gvr obj = action_of ''update'' gvr '''' '''' (UpdateAction obj)"

definition NewUpdateSubresourceAction :: "group_version_resource \<Rightarrow> string \<Rightarrow> string \<Rightarrow> 'u \<Rightarrow> 'u action" where
  "NewUpdateSubresourceAction gvr sub ns obj = action_of ''update'' gvr ns sub (UpdateAction obj)"

definition NewRootUpdateSubresourceAction :: "group_version_resource \<Rightarrow> string \<Rightarrow> 'u \<Rightarrow> 'u action" where
  "NewRootUpdateSubresourceAction gvr sub obj = action_of ''update'' gvr '''' sub (UpdateAction obj)"

definition NewDeleteAction :: "group_version_resource \<Rightarrow> string \<Rightarrow> string \<Rightarrow> 'u action" where
  "NewDeleteAction gvr ns name = action_of ''delete'' gvr ns '''' (DeleteAction name)"

definition NewRootDeleteAction :: "group_version_resource \<Rightarrow> string \<Rightarrow> 'u action" where
  "NewRootDeleteAction gvr name = action_of ''delete'' gvr '''' '''' (DeleteAction name)"

definition NewPatchSubresourceAction ::
  "group_version_resource \<Rightarrow> string \<Rightarrow> string \<Rightarrow> string \<Rightarrow> string \<Rightarrow> string list \<Rightarrow> 'u action" where
  "NewPatchSubresourceAction gvr ns name pt patch subs =
     action_of ''patch'' gvr ns (path_Join subs) (PatchAction name pt patch)"

definition NewRootPatchSubresourceAction ::
  "group_version_resource \<Rightarrow> string \<Rightarrow> string \<Rightarrow> string \<Rightarrow> string list \<Rightarrow> 'u action" where
  "NewRootPatchSubresourceAction gvr name pt patch subs =
     action_of ''patch'' gvr '''' (path_Join subs) (PatchAction name pt patch)"

section \<open>The environment\<close>

record 'u fake_env =
  fe_meta :: "'u \<Rightarrow> object_meta"
  fe_set_meta :: "(object_meta \<Rightarrow> object_meta) \<Rightarrow> 'u \<Rightarrow> 'u"
  fe_ParseLabels :: "string \<Rightarrow> selector option"
  fe_ParseFields :: "string \<Rightarrow> bool"
  fe_Patch :: "string \<Rightarrow> string \<Rightarrow> 'u \<Rightarrow> error + 'u"

text \<open>
  \<open>ExtractFromListOptions\<close> panics on a selector it cannot parse, which is \<open>None\<close>. Of the field selector
  only its text is kept; the tracker looks at neither.
\<close>

definition ExtractFromListOptions :: "'u fake_env \<Rightarrow> list_options \<Rightarrow> (selector \<times> string \<times> string) option" where
  "ExtractFromListOptions env opts =
     (case fe_ParseLabels env (lo_LabelSelector opts) of
        None \<Rightarrow> None
      | Some sel \<Rightarrow>
          if fe_ParseFields env (lo_FieldSelector opts)
          then Some (sel, lo_FieldSelector opts, lo_ResourceVersion opts) else None)"

definition NewListAction ::
  "'u fake_env \<Rightarrow> group_version_resource \<Rightarrow> string \<Rightarrow> string \<Rightarrow> list_options \<Rightarrow> 'u action option" where
  "NewListAction env gvr kind ns opts =
     map_option (\<lambda>_. action_of ''list'' gvr ns '''' (ListAction kind (lo_LabelSelector opts) (lo_FieldSelector opts)))
       (ExtractFromListOptions env opts)"

definition NewRootListAction ::
  "'u fake_env \<Rightarrow> group_version_resource \<Rightarrow> string \<Rightarrow> list_options \<Rightarrow> 'u action option" where
  "NewRootListAction env gvr kind opts =
     map_option (\<lambda>_. action_of ''list'' gvr '''' '''' (ListAction kind (lo_LabelSelector opts) (lo_FieldSelector opts)))
       (ExtractFromListOptions env opts)"

definition NewWatchAction ::
  "'u fake_env \<Rightarrow> group_version_resource \<Rightarrow> string \<Rightarrow> list_options \<Rightarrow> 'u action option" where
  "NewWatchAction env gvr ns opts =
     map_option (\<lambda>(_, _, rv). action_of ''watch'' gvr ns ''''
         (WatchAction (lo_LabelSelector opts) (lo_FieldSelector opts) rv))
       (ExtractFromListOptions env opts)"

definition NewRootWatchAction :: "'u fake_env \<Rightarrow> group_version_resource \<Rightarrow> list_options \<Rightarrow> 'u action option" where
  "NewRootWatchAction env gvr opts =
     map_option (\<lambda>(_, _, rv). action_of ''watch'' gvr '''' ''''
         (WatchAction (lo_LabelSelector opts) (lo_FieldSelector opts) rv))
       (ExtractFromListOptions env opts)"

definition NewDeleteCollectionAction ::
  "'u fake_env \<Rightarrow> group_version_resource \<Rightarrow> string \<Rightarrow> list_options \<Rightarrow> 'u action option" where
  "NewDeleteCollectionAction env gvr ns opts =
     map_option (\<lambda>_. action_of ''delete-collection'' gvr ns ''''
         (DeleteCollectionAction (lo_LabelSelector opts) (lo_FieldSelector opts)))
       (ExtractFromListOptions env opts)"

definition NewRootDeleteCollectionAction ::
  "'u fake_env \<Rightarrow> group_version_resource \<Rightarrow> list_options \<Rightarrow> 'u action option" where
  "NewRootDeleteCollectionAction env gvr opts =
     map_option (\<lambda>_. action_of ''delete-collection'' gvr '''' ''''
         (DeleteCollectionAction (lo_LabelSelector opts) (lo_FieldSelector opts)))
       (ExtractFromListOptions env opts)"

section \<open>Reactors\<close>

text \<open>The object a reaction returns: nil, one object, or a list of a kind.\<close>

datatype 'u reply = NilReply | ObjectReply 'u | ListReply string "'u list"

type_synonym 'u reaction = "'u action \<Rightarrow> 'u tracker \<Rightarrow> (bool \<times> 'u reply \<times> error option) \<times> 'u tracker"
type_synonym 'u watch_reaction = "'u action \<Rightarrow> 'u tracker \<Rightarrow> (bool \<times> nat option \<times> error option) \<times> 'u tracker"

record 'u simple_reactor =
  rx_Verb :: string
  rx_Resource :: string
  rx_Reaction :: "'u reaction"

record 'u simple_watch_reactor =
  wx_Resource :: string
  wx_Reaction :: "'u watch_reaction"

definition SimpleReactor_Handles :: "'u simple_reactor \<Rightarrow> 'u action \<Rightarrow> bool" where
  "SimpleReactor_Handles r a \<longleftrightarrow>
     (rx_Verb r = ''*'' \<or> rx_Verb r = ac_Verb a) \<and>
     (rx_Resource r = ''*'' \<or> rx_Resource r = gvr_Resource (ac_Resource a))"

definition SimpleWatchReactor_Handles :: "'u simple_watch_reactor \<Rightarrow> 'u action \<Rightarrow> bool" where
  "SimpleWatchReactor_Handles r a \<longleftrightarrow> wx_Resource r = ''*'' \<or> wx_Resource r = gvr_Resource (ac_Resource a)"

text \<open>The chains are fixed when the tests are set up; actions and objects change.\<close>

record 'u fake =
  fk_ReactionChain :: "'u simple_reactor list"
  fk_WatchReactionChain :: "'u simple_watch_reactor list"

record 'u fake_state =
  fs_actions :: "'u action list"
  fs_tracker :: "'u tracker"

definition AddReactor :: "string \<Rightarrow> string \<Rightarrow> 'u reaction \<Rightarrow> 'u fake \<Rightarrow> 'u fake" where
  "AddReactor v res f c = c\<lparr>fk_ReactionChain := fk_ReactionChain c @
     [\<lparr>rx_Verb = v, rx_Resource = res, rx_Reaction = f\<rparr>]\<rparr>"

definition PrependReactor :: "string \<Rightarrow> string \<Rightarrow> 'u reaction \<Rightarrow> 'u fake \<Rightarrow> 'u fake" where
  "PrependReactor v res f c = c\<lparr>fk_ReactionChain :=
     \<lparr>rx_Verb = v, rx_Resource = res, rx_Reaction = f\<rparr> # fk_ReactionChain c\<rparr>"

definition AddWatchReactor :: "string \<Rightarrow> 'u watch_reaction \<Rightarrow> 'u fake \<Rightarrow> 'u fake" where
  "AddWatchReactor res f c = c\<lparr>fk_WatchReactionChain := fk_WatchReactionChain c @
     [\<lparr>wx_Resource = res, wx_Reaction = f\<rparr>]\<rparr>"

text \<open>The first reactor that handles the action and says so answers; a reaction that declines may
  still have changed the tracker.\<close>

fun run_chain :: "'u simple_reactor list \<Rightarrow> 'u action \<Rightarrow> 'u reply \<Rightarrow> 'u tracker \<Rightarrow>
    ('u reply \<times> error option) \<times> 'u tracker" where
  "run_chain [] a dflt t = ((dflt, None), t)"
| "run_chain (r # rs) a dflt t =
     (if \<not> SimpleReactor_Handles r a then run_chain rs a dflt t
      else case rx_Reaction r a t of
             ((handled, ret, err), t') \<Rightarrow> if \<not> handled then run_chain rs a dflt t' else ((ret, err), t'))"

definition Invokes :: "'u fake \<Rightarrow> 'u action \<Rightarrow> 'u reply \<Rightarrow> 'u fake_state \<Rightarrow>
    ('u reply \<times> error option) \<times> 'u fake_state" where
  "Invokes c a dflt s =
     (case run_chain (fk_ReactionChain c) a dflt (fs_tracker s) of
        (res, t') \<Rightarrow> (res, \<lparr>fs_actions = fs_actions s @ [a], fs_tracker = t'\<rparr>))"

fun run_watch_chain :: "'u simple_watch_reactor list \<Rightarrow> 'u action \<Rightarrow> 'u tracker \<Rightarrow>
    (nat option \<times> error option) \<times> 'u tracker" where
  "run_watch_chain [] a t = ((None, Some (OtherError ''unhandled watch'')), t)"
| "run_watch_chain (r # rs) a t =
     (if \<not> SimpleWatchReactor_Handles r a then run_watch_chain rs a t
      else case wx_Reaction r a t of
             ((handled, ret, err), t') \<Rightarrow> if \<not> handled then run_watch_chain rs a t' else ((ret, err), t'))"

definition InvokesWatch :: "'u fake \<Rightarrow> 'u action \<Rightarrow> 'u fake_state \<Rightarrow> (nat option \<times> error option) \<times> 'u fake_state" where
  "InvokesWatch c a s =
     (case run_watch_chain (fk_WatchReactionChain c) a (fs_tracker s) of
        (res, t') \<Rightarrow> (res, \<lparr>fs_actions = fs_actions s @ [a], fs_tracker = t'\<rparr>))"

section \<open>The reactor over a tracker\<close>

text \<open>
  \<open>ObjectReaction\<close>. A create of a subresource is an update. A patch is applied to a copy and written
  back. The default branch declines the action, so its error is never seen.
\<close>

definition ObjectReaction :: "'u fake_env \<Rightarrow> 'u reaction" where
  "ObjectReaction env a t =
     (let gvr = ac_Resource a; ns = ac_Namespace a;
          answer = (\<lambda>r. case r of Inl e \<Rightarrow> (True, NilReply, Some e) | Inr obj \<Rightarrow> (True, ObjectReply obj, None))
      in case ac_Action a of
           ListAction kind _ _ \<Rightarrow> ((True, ListReply kind (tracker_List (fe_meta env) gvr ns t), None), t)
         | GetAction name \<Rightarrow> (answer (tracker_Get gvr ns name t), t)
         | CreateAction obj \<Rightarrow>
             (if ac_Subresource a = ''''
              then map_prod answer id (react_create (fe_meta env) (fe_set_meta env) gvr ns obj t)
              else map_prod answer id (react_update (fe_meta env) (fe_set_meta env) gvr ns obj t))
         | UpdateAction obj \<Rightarrow> map_prod answer id (react_update (fe_meta env) (fe_set_meta env) gvr ns obj t)
         | DeleteAction name \<Rightarrow>
             (case tracker_Delete gvr ns name t of (e, t') \<Rightarrow> ((True, NilReply, e), t'))
         | PatchAction name pt patch \<Rightarrow>
             (case tracker_Get gvr ns name t of
                Inl e \<Rightarrow> ((True, NilReply, Some e), t)
              | Inr obj \<Rightarrow>
                  (case fe_Patch env pt patch obj of
                     Inl e \<Rightarrow> ((True, NilReply, Some e), t)
                   | Inr obj' \<Rightarrow>
                       (case tracker_Update (fe_meta env) (fe_set_meta env) gvr obj' ns t of
                          (Some e, t') \<Rightarrow> ((True, NilReply, Some e), t')
                        | (None, t') \<Rightarrow> ((True, ObjectReply obj', None), t'))))
         | _ \<Rightarrow> ((False, NilReply, Some (OtherError ''no reaction implemented'')), t))"

text \<open>The watch reaction of \<open>NewSimpleClientset\<close>.\<close>

definition tracker_watch_reaction :: "'u watch_reaction" where
  "tracker_watch_reaction a t =
     (case tracker_Watch (ac_Resource a) (ac_Namespace a) t of (w, t') \<Rightarrow> ((True, Some w, None), t'))"

end
