(* ===== verification/FakeClients.thy ===== *)
theory FakeClients
  imports FakeTesting TypedClients RouteReconcile
begin

text \<open>
  The fake clients of the seven resources
  (\<open>pkg/client/gatewayapi/clientset/versioned/typed/apis/v1alpha1/fake\<close>), as records of the same
  interface as the typed clients, and the fake clientset that wires them to an object tracker
  (\<open>clientset/versioned/fake/clientset_generated.go\<close>). A type assertion that fails and an invalid
  selector panic; a nil object without an error is an outcome of its own.
\<close>

section \<open>Objects of every kind\<close>

datatype ('s, 't) any_object =
    HTTPRouteObject http_route
  | ResourceObject string "('s, 't) api_resource"       \<comment> \<open>of the other kinds, by name\<close>

fun any_meta :: "('s, 't) any_object \<Rightarrow> object_meta" where
  "any_meta (HTTPRouteObject r) = hr_Meta r"
| "any_meta (ResourceObject k r) = ar_Meta r"

fun any_set_meta :: "(object_meta \<Rightarrow> object_meta) \<Rightarrow> ('s, 't) any_object \<Rightarrow> ('s, 't) any_object" where
  "any_set_meta f (HTTPRouteObject r) = HTTPRouteObject (r\<lparr>hr_Meta := f (hr_Meta r)\<rparr>)"
| "any_set_meta f (ResourceObject k r) = ResourceObject k (r\<lparr>ar_Meta := f (ar_Meta r)\<rparr>)"

fun as_HTTPRoute :: "('s, 't) any_object \<Rightarrow> http_route option" where
  "as_HTTPRoute (HTTPRouteObject r) = Some r"
| "as_HTTPRoute (ResourceObject k r) = None"

fun as_resource :: "string \<Rightarrow> ('s, 't) any_object \<Rightarrow> ('s, 't) api_resource option" where
  "as_resource kind (HTTPRouteObject r) = None"
| "as_resource kind (ResourceObject k r) = (if k = kind then Some r else None)"

definition any_env ::
  "(string \<Rightarrow> selector option) \<Rightarrow> (string \<Rightarrow> bool) \<Rightarrow>
   (string \<Rightarrow> string \<Rightarrow> ('s, 't) any_object \<Rightarrow> error + ('s, 't) any_object) \<Rightarrow> ('s, 't) any_object fake_env" where
  "any_env parse_labels parse_fields patch = \<lparr>fe_meta = any_meta, fe_set_meta = any_set_meta,
     fe_ParseLabels = parse_labels, fe_ParseFields = parse_fields, fe_Patch = patch\<rparr>"

section \<open>Results\<close>

datatype fake_outcome =
    FakeError error
  | FakePanic string
  | FakeNil                     \<comment> \<open>a nil object and no error\<close>

text \<open>
  \<open>if obj == nil { return nil, err }; return obj.(*T), err\<close>
\<close>

definition object_result ::
  "('u \<Rightarrow> 'o option) \<Rightarrow> ('u reply \<times> error option) \<times> 'w \<Rightarrow> (fake_outcome + 'o) \<times> 'w" where
  "object_result assertion = map_prod (\<lambda>(obj, err).
     case obj of
       NilReply \<Rightarrow> (case err of Some e \<Rightarrow> Inl (FakeError e) | None \<Rightarrow> Inl FakeNil)
     | ObjectReply u \<Rightarrow>
         (case assertion u of
            None \<Rightarrow> Inl (FakePanic ''interface conversion'')
          | Some x \<Rightarrow> (case err of Some e \<Rightarrow> Inl (FakeError e) | None \<Rightarrow> Inr x))
     | ListReply kind items \<Rightarrow> Inl (FakePanic ''interface conversion'')) id"

text \<open>
  The end of a List: the items whose labels match the selector. A list of a kind holds objects of
  that kind only; here the items are converted together with the list.
\<close>

definition list_result ::
  "string \<Rightarrow> ('u \<Rightarrow> 'o option) \<Rightarrow> ('o \<Rightarrow> object_meta) \<Rightarrow> 'u fake_env \<Rightarrow> list_options \<Rightarrow>
   ('u reply \<times> error option) \<times> 'w \<Rightarrow> (fake_outcome + 'o list) \<times> 'w" where
  "list_result kind assertion meta env opts = map_prod (\<lambda>(obj, err).
     case obj of
       NilReply \<Rightarrow> (case err of Some e \<Rightarrow> Inl (FakeError e) | None \<Rightarrow> Inl FakeNil)
     | ObjectReply u \<Rightarrow> Inl (FakePanic ''interface conversion'')
     | ListReply k items \<Rightarrow>
         (case ExtractFromListOptions env opts of
            None \<Rightarrow> Inl (FakePanic ''invalid selector'')
          | Some (label, _, _) \<Rightarrow>
              (case (if k = kind then those (map assertion items) else None) of
                 None \<Rightarrow> Inl (FakePanic ''interface conversion'')
               | Some xs \<Rightarrow>
                   (case err of
                      Some e \<Rightarrow> Inl (FakeError e)
                    | None \<Rightarrow> Inr (filter (\<lambda>item. label (om_Labels (meta item))) xs))))) id"

text \<open>The action is built from the options first, and that may panic.\<close>

definition with_action :: "'u action option \<Rightarrow> ('u action \<Rightarrow> 'w \<Rightarrow> (fake_outcome + 'a) \<times> 'w) \<Rightarrow> 'w \<Rightarrow> (fake_outcome + 'a) \<times> 'w" where
  "with_action act f s = (case act of None \<Rightarrow> (Inl (FakePanic ''invalid selector''), s) | Some a \<Rightarrow> f a s)"

definition watch_result :: "(nat option \<times> error option) \<times> 'w \<Rightarrow> (fake_outcome + nat option) \<times> 'w" where
  "watch_result = map_prod (\<lambda>(w, err). case err of Some e \<Rightarrow> Inl (FakeError e) | None \<Rightarrow> Inr w) id"

definition error_of_call :: "('u reply \<times> error option) \<times> 'w \<Rightarrow> fake_outcome option \<times> 'w" where
  "error_of_call = map_prod (\<lambda>(_, err). map_option FakeError err) id"

definition gateway_gvr :: "string \<Rightarrow> group_version_resource" where
  "gateway_gvr res = \<lparr>gvr_Group = ''networking.x-k8s.io'', gvr_Version = ''v1alpha1'', gvr_Resource = res\<rparr>"

section \<open>The fake clients\<close>

definition backendpoliciesResource :: group_version_resource where
  "backendpoliciesResource = gateway_gvr ''backendpolicies''"

definition FakeBackendPolicies ::
  "('s, 't) api_resource \<Rightarrow> ('s, 't) any_object fake_env \<Rightarrow> ('s, 't) any_object fake \<Rightarrow> string \<Rightarrow> 
   (fake_outcome, ('s, 't) api_resource, ('s, 't) api_resource list, nat option, ('s, 't) any_object fake_state) typed_client" where
  "FakeBackendPolicies zero env c ns =
     \<lparr>tcl_Get = (\<lambda>name opts s. object_result (as_resource ''BackendPolicy'')
        (Invokes c (NewGetAction backendpoliciesResource ns name) (ObjectReply (ResourceObject ''BackendPolicy'' zero)) s)),
      tcl_List = (\<lambda>opts. with_action (NewListAction env backendpoliciesResource ''BackendPolicy'' ns opts) (\<lambda>a s.
        list_result ''BackendPolicy'' (as_resource ''BackendPolicy'') ar_Meta env opts (Invokes c a (ListReply ''BackendPolicy'' []) s))),
      tcl_Watch = (\<lambda>opts. with_action (NewWatchAction env backendpoliciesResource ns opts) (\<lambda>a s.
        watch_result (InvokesWatch c a s))),
      tcl_Create = (\<lambda>obj opts s. object_result (as_resource ''BackendPolicy'')
        (Invokes c (NewCreateAction backendpoliciesResource ns (ResourceObject ''BackendPolicy'' obj)) (ObjectReply (ResourceObject ''BackendPolicy'' zero)) s)),
      tcl_Update = (\<lambda>obj opts s. object_result (as_resource ''BackendPolicy'')
        (Invokes c (NewUpdateAction backendpoliciesResource ns (ResourceObject ''BackendPolicy'' obj)) (ObjectReply (ResourceObject ''BackendPolicy'' zero)) s)),
      tcl_UpdateStatus = (\<lambda>obj opts s. object_result (as_resource ''BackendPolicy'')
        (Invokes c (NewUpdateSubresourceAction backendpoliciesResource ''status'' ns (ResourceObject ''BackendPolicy'' obj)) (ObjectReply (ResourceObject ''BackendPolicy'' zero)) s)),
      tcl_Delete = (\<lambda>name opts s. error_of_call
        (Invokes c (NewDeleteAction backendpoliciesResource ns name) (ObjectReply (ResourceObject ''BackendPolicy'' zero)) s)),
      tcl_DeleteCollection = (\<lambda>opts list_opts s.
        case NewDeleteCollectionAction env backendpoliciesResource ns list_opts of
          None \<Rightarrow> (Some (FakePanic ''invalid selector''), s)
        | Some a \<Rightarrow> error_of_call (Invokes c a (ListReply ''BackendPolicy'' []) s)),
      tcl_Patch = (\<lambda>name pt bytes opts subresources s. object_result (as_resource ''BackendPolicy'')
        (Invokes c (NewPatchSubresourceAction backendpoliciesResource ns name pt bytes subresources) (ObjectReply (ResourceObject ''BackendPolicy'' zero)) s))\<rparr>"

definition gatewaysResource :: group_version_resource where
  "gatewaysResource = gateway_gvr ''gateways''"

definition FakeGateways ::
  "('s, 't) api_resource \<Rightarrow> ('s, 't) any_object fake_env \<Rightarrow> ('s, 't) any_object fake \<Rightarrow> string \<Rightarrow> 
   (fake_outcome, ('s, 't) api_resource, ('s, 't) api_resource list, nat option, ('s, 't) any_object fake_state) typed_client" where
  "FakeGateways zero env c ns =
     \<lparr>tcl_Get = (\<lambda>name opts s. object_result (as_resource ''Gateway'')
        (Invokes c (NewGetAction gatewaysResource ns name) (ObjectReply (ResourceObject ''Gateway'' zero)) s)),
      tcl_List = (\<lambda>opts. with_action (NewListAction env gatewaysResource ''Gateway'' ns opts) (\<lambda>a s.
        list_result ''Gateway'' (as_resource ''Gateway'') ar_Meta env opts (Invokes c a (ListReply ''Gateway'' []) s))),
      tcl_Watch = (\<lambda>opts. with_action (NewWatchAction env gatewaysResource ns opts) (\<lambda>a s.
        watch_result (InvokesWatch c a s))),
      tcl_Create = (\<lambda>obj opts s. object_result (as_resource ''Gateway'')
        (Invokes c (NewCreateAction gatewaysResource ns (ResourceObject ''Gateway'' obj)) (ObjectReply (ResourceObject ''Gateway'' zero)) s)),
      tcl_Update = (\<lambda>obj opts s. object_result (as_resource ''Gateway'')
        (Invokes c (NewUpdateAction gatewaysResource ns (ResourceObject ''Gateway'' obj)) (ObjectReply (ResourceObject ''Gateway'' zero)) s)),
      tcl_UpdateStatus = (\<lambda>obj opts s. object_result (as_resource ''Gateway'')
        (Invokes c (NewUpdateSubresourceAction gatewaysResource ''status'' ns (ResourceObject ''Gateway'' obj)) (ObjectReply (ResourceObject ''Gateway'' zero)) s)),
      tcl_Delete = (\<lambda>name opts s. error_of_call
        (Invokes c (NewDeleteAction gatewaysResource ns name) (ObjectReply (ResourceObject ''Gateway'' zero)) s)),
      tcl_DeleteCollection = (\<lambda>opts list_opts s.
        case NewDeleteCollectionAction env gatewaysResource ns list_opts of
          None \<Rightarrow> (Some (FakePanic ''invalid selector''), s)
        | Some a \<Rightarrow> error_of_call (Invokes c a (ListReply ''Gateway'' []) s)),
      tcl_Patch = (\<lambda>name pt bytes opts subresources s. object_result (as_resource ''Gateway'')
        (Invokes c (NewPatchSubresourceAction gatewaysResource ns name pt bytes subresources) (ObjectReply (ResourceObject ''Gateway'' zero)) s))\<rparr>"

definition gatewayclassesResource :: group_version_resource where
  "gatewayclassesResource = gateway_gvr ''gatewayclasses''"

definition FakeGatewayClasses ::
  "('s, 't) api_resource \<Rightarrow> ('s, 't) any_object fake_env \<Rightarrow> ('s, 't) any_object fake \<Rightarrow> 
   (fake_outcome, ('s, 't) api_resource, ('s, 't) api_resource list, nat option, ('s, 't) any_object fake_state) typed_client" where
  "FakeGatewayClasses zero env c =
     \<lparr>tcl_Get = (\<lambda>name opts s. object_result (as_resource ''GatewayClass'')
        (Invokes c (NewRootGetAction gatewayclassesResource name) (ObjectReply (ResourceObject ''GatewayClass'' zero)) s)),
      tcl_List = (\<lambda>opts. with_action (NewRootListAction env gatewayclassesResource ''GatewayClass'' opts) (\<lambda>a s.
        list_result ''GatewayClass'' (as_resource ''GatewayClass'') ar_Meta env opts (Invokes c a (ListReply ''GatewayClass'' []) s))),
      tcl_Watch = (\<lambda>opts. with_action (NewRootWatchAction env gatewayclassesResource opts) (\<lambda>a s.
        watch_result (InvokesWatch c a s))),
      tcl_Create = (\<lambda>obj opts s. object_result (as_resource ''GatewayClass'')
        (Invokes c (NewRootCreateAction gatewayclassesResource (ResourceObject ''GatewayClass'' obj)) (ObjectReply (ResourceObject ''GatewayClass'' zero)) s)),
      tcl_Update = (\<lambda>obj opts s. object_result (as_resource ''GatewayClass'')
        (Invokes c (NewRootUpdateAction gatewayclassesResource (ResourceObject ''GatewayClass'' obj)) (ObjectReply (ResourceObject ''GatewayClass'' zero)) s)),
      tcl_UpdateStatus = (\<lambda>obj opts s. object_result (as_resource ''GatewayClass'')
        (Invokes c (NewRootUpdateSubresourceAction gatewayclassesResource ''status'' (ResourceObject ''GatewayClass'' obj)) (ObjectReply (ResourceObject ''GatewayClass'' zero)) s)),
      tcl_Delete = (\<lambda>name opts s. error_of_call
        (Invokes c (NewRootDeleteAction gatewayclassesResource name) (ObjectReply (ResourceObject ''GatewayClass'' zero)) s)),
      tcl_DeleteCollection = (\<lambda>opts list_opts s.
        case NewRootDeleteCollectionAction env gatewayclassesResource list_opts of
          None \<Rightarrow> (Some (FakePanic ''invalid selector''), s)
        | Some a \<Rightarrow> error_of_call (Invokes c a (ListReply ''GatewayClass'' []) s)),
      tcl_Patch = (\<lambda>name pt bytes opts subresources s. object_result (as_resource ''GatewayClass'')
        (Invokes c (NewRootPatchSubresourceAction gatewayclassesResource name pt bytes subresources) (ObjectReply (ResourceObject ''GatewayClass'' zero)) s))\<rparr>"

definition FakeHTTPRoutes ::
  "('s, 't) any_object fake_env \<Rightarrow> ('s, 't) any_object fake \<Rightarrow> string \<Rightarrow> 
   (fake_outcome, http_route, http_route list, nat option, ('s, 't) any_object fake_state) typed_client" where
  "FakeHTTPRoutes env c ns =
     \<lparr>tcl_Get = (\<lambda>name opts s. object_result as_HTTPRoute
        (Invokes c (NewGetAction httproutesResource ns name) (ObjectReply (HTTPRouteObject empty_route)) s)),
      tcl_List = (\<lambda>opts. with_action (NewListAction env httproutesResource ''HTTPRoute'' ns opts) (\<lambda>a s.
        list_result ''HTTPRoute'' as_HTTPRoute hr_Meta env opts (Invokes c a (ListReply ''HTTPRoute'' []) s))),
      tcl_Watch = (\<lambda>opts. with_action (NewWatchAction env httproutesResource ns opts) (\<lambda>a s.
        watch_result (InvokesWatch c a s))),
      tcl_Create = (\<lambda>obj opts s. object_result as_HTTPRoute
        (Invokes c (NewCreateAction httproutesResource ns (HTTPRouteObject obj)) (ObjectReply (HTTPRouteObject empty_route)) s)),
      tcl_Update = (\<lambda>obj opts s. object_result as_HTTPRoute
        (Invokes c (NewUpdateAction httproutesResource ns (HTTPRouteObject obj)) (ObjectReply (HTTPRouteObject empty_route)) s)),
      tcl_UpdateStatus = (\<lambda>obj opts s. object_result as_HTTPRoute
        (Invokes c (NewUpdateSubresourceAction httproutesResource ''status'' ns (HTTPRouteObject obj)) (ObjectReply (HTTPRouteObject empty_route)) s)),
      tcl_Delete = (\<lambda>name opts s. error_of_call
        (Invokes c (NewDeleteAction httproutesResource ns name) (ObjectReply (HTTPRouteObject empty_route)) s)),
      tcl_DeleteCollection = (\<lambda>opts list_opts s.
        case NewDeleteCollectionAction env httproutesResource ns list_opts of
          None \<Rightarrow> (Some (FakePanic ''invalid selector''), s)
        | Some a \<Rightarrow> error_of_call (Invokes c a (ListReply ''HTTPRoute'' []) s)),
      tcl_Patch = (\<lambda>name pt bytes opts subresources s. object_result as_HTTPRoute
        (Invokes c (NewPatchSubresourceAction httproutesResource ns name pt bytes subresources) (ObjectReply (HTTPRouteObject empty_route)) s))\<rparr>"

definition tcproutesResource :: group_version_resource where
  "tcproutesResource = gateway_gvr ''tcproutes''"

definition FakeTCPRoutes ::
  "('s, 't) api_resource \<Rightarrow> ('s, 't) any_object fake_env \<Rightarrow> ('s, 't) any_object fake \<Rightarrow> string \<Rightarrow> 
   (fake_outcome, ('s, 't) api_resource, ('s, 't) api_resource list, nat option, ('s, 't) any_object fake_state) typed_client" where
  "FakeTCPRoutes zero env c ns =
     \<lparr>tcl_Get = (\<lambda>name opts s. object_result (as_resource ''TCPRoute'')
        (Invokes c (NewGetAction tcproutesResource ns name) (ObjectReply (ResourceObject ''TCPRoute'' zero)) s)),
      tcl_List = (\<lambda>opts. with_action (NewListAction env tcproutesResource ''TCPRoute'' ns opts) (\<lambda>a s.
        list_result ''TCPRoute'' (as_resource ''TCPRoute'') ar_Meta env opts (Invokes c a (ListReply ''TCPRoute'' []) s))),
      tcl_Watch = (\<lambda>opts. with_action (NewWatchAction env tcproutesResource ns opts) (\<lambda>a s.
        watch_result (InvokesWatch c a s))),
      tcl_Create = (\<lambda>obj opts s. object_result (as_resource ''TCPRoute'')
        (Invokes c (NewCreateAction tcproutesResource ns (ResourceObject ''TCPRoute'' obj)) (ObjectReply (ResourceObject ''TCPRoute'' zero)) s)),
      tcl_Update = (\<lambda>obj opts s. object_result (as_resource ''TCPRoute'')
        (Invokes c (NewUpdateAction tcproutesResource ns (ResourceObject ''TCPRoute'' obj)) (ObjectReply (ResourceObject ''TCPRoute'' zero)) s)),
      tcl_UpdateStatus = (\<lambda>obj opts s. object_result (as_resource ''TCPRoute'')
        (Invokes c (NewUpdateSubresourceAction tcproutesResource ''status'' ns (ResourceObject ''TCPRoute'' obj)) (ObjectReply (ResourceObject ''TCPRoute'' zero)) s)),
      tcl_Delete = (\<lambda>name opts s. error_of_call
        (Invokes c (NewDeleteAction tcproutesResource ns name) (ObjectReply (ResourceObject ''TCPRoute'' zero)) s)),
      tcl_DeleteCollection = (\<lambda>opts list_opts s.
        case NewDeleteCollectionAction env tcproutesResource ns list_opts of
          None \<Rightarrow> (Some (FakePanic ''invalid selector''), s)
        | Some a \<Rightarrow> error_of_call (Invokes c a (ListReply ''TCPRoute'' []) s)),
      tcl_Patch = (\<lambda>name pt bytes opts subresources s. object_result (as_resource ''TCPRoute'')
        (Invokes c (NewPatchSubresourceAction tcproutesResource ns name pt bytes subresources) (ObjectReply (ResourceObject ''TCPRoute'' zero)) s))\<rparr>"

definition tlsroutesResource :: group_version_resource where
  "tlsroutesResource = gateway_gvr ''tlsroutes''"

definition FakeTLSRoutes ::
  "('s, 't) api_resource \<Rightarrow> ('s, 't) any_object fake_env \<Rightarrow> ('s, 't) any_object fake \<Rightarrow> string \<Rightarrow> 
   (fake_outcome, ('s, 't) api_resource, ('s, 't) api_resource list, nat option, ('s, 't) any_object fake_state) typed_client" where
  "FakeTLSRoutes zero env c ns =
     \<lparr>tcl_Get = (\<lambda>name opts s. object_result (as_resource ''TLSRoute'')
        (Invokes c (NewGetAction tlsroutesResource ns name) (ObjectReply (ResourceObject ''TLSRoute'' zero)) s)),
      tcl_List = (\<lambda>opts. with_action (NewListAction env tlsroutesResource ''TLSRoute'' ns opts) (\<lambda>a s.
        list_result ''TLSRoute'' (as_resource ''TLSRoute'') ar_Meta env opts (Invokes c a (ListReply ''TLSRoute'' []) s))),
      tcl_Watch = (\<lambda>opts. with_action (NewWatchAction env tlsroutesResource ns opts) (\<lambda>a s.
        watch_result (InvokesWatch c a s))),
      tcl_Create = (\<lambda>obj opts s. object_result (as_resource ''TLSRoute'')
        (Invokes c (NewCreateAction tlsroutesResource ns (ResourceObject ''TLSRoute'' obj)) (ObjectReply (ResourceObject ''TLSRoute'' zero)) s)),
      tcl_Update = (\<lambda>obj opts s. object_result (as_resource ''TLSRoute'')
        (Invokes c (NewUpdateAction tlsroutesResource ns (ResourceObject ''TLSRoute'' obj)) (ObjectReply (ResourceObject ''TLSRoute'' zero)) s)),
      tcl_UpdateStatus = (\<lambda>obj opts s. object_result (as_resource ''TLSRoute'')
        (Invokes c (NewUpdateSubresourceAction tlsroutesResource ''status'' ns (ResourceObject ''TLSRoute'' obj)) (ObjectReply (ResourceObject ''TLSRoute'' zero)) s)),
      tcl_Delete = (\<lambda>name opts s. error_of_call
        (Invokes c (NewDeleteAction tlsroutesResource ns name) (ObjectReply (ResourceObject ''TLSRoute'' zero)) s)),
      tcl_DeleteCollection = (\<lambda>opts list_opts s.
        case NewDeleteCollectionAction env tlsroutesResource ns list_opts of
          None \<Rightarrow> (Some (FakePanic ''invalid selector''), s)
        | Some a \<Rightarrow> error_of_call (Invokes c a (ListReply ''TLSRoute'' []) s)),
      tcl_Patch = (\<lambda>name pt bytes opts subresources s. object_result (as_resource ''TLSRoute'')
        (Invokes c (NewPatchSubresourceAction tlsroutesResource ns name pt bytes subresources) (ObjectReply (ResourceObject ''TLSRoute'' zero)) s))\<rparr>"

definition udproutesResource :: group_version_resource where
  "udproutesResource = gateway_gvr ''udproutes''"

definition FakeUDPRoutes ::
  "('s, 't) api_resource \<Rightarrow> ('s, 't) any_object fake_env \<Rightarrow> ('s, 't) any_object fake \<Rightarrow> string \<Rightarrow> 
   (fake_outcome, ('s, 't) api_resource, ('s, 't) api_resource list, nat option, ('s, 't) any_object fake_state) typed_client" where
  "FakeUDPRoutes zero env c ns =
     \<lparr>tcl_Get = (\<lambda>name opts s. object_result (as_resource ''UDPRoute'')
        (Invokes c (NewGetAction udproutesResource ns name) (ObjectReply (ResourceObject ''UDPRoute'' zero)) s)),
      tcl_List = (\<lambda>opts. with_action (NewListAction env udproutesResource ''UDPRoute'' ns opts) (\<lambda>a s.
        list_result ''UDPRoute'' (as_resource ''UDPRoute'') ar_Meta env opts (Invokes c a (ListReply ''UDPRoute'' []) s))),
      tcl_Watch = (\<lambda>opts. with_action (NewWatchAction env udproutesResource ns opts) (\<lambda>a s.
        watch_result (InvokesWatch c a s))),
      tcl_Create = (\<lambda>obj opts s. object_result (as_resource ''UDPRoute'')
        (Invokes c (NewCreateAction udproutesResource ns (ResourceObject ''UDPRoute'' obj)) (ObjectReply (ResourceObject ''UDPRoute'' zero)) s)),
      tcl_Update = (\<lambda>obj opts s. object_result (as_resource ''UDPRoute'')
        (Invokes c (NewUpdateAction udproutesResource ns (ResourceObject ''UDPRoute'' obj)) (ObjectReply (ResourceObject ''UDPRoute'' zero)) s)),
      tcl_UpdateStatus = (\<lambda>obj opts s. object_result (as_resource ''UDPRoute'')
        (Invokes c (NewUpdateSubresourceAction udproutesResource ''status'' ns (ResourceObject ''UDPRoute'' obj)) (ObjectReply (ResourceObject ''UDPRoute'' zero)) s)),
      tcl_Delete = (\<lambda>name opts s. error_of_call
        (Invokes c (NewDeleteAction udproutesResource ns name) (ObjectReply (ResourceObject ''UDPRoute'' zero)) s)),
      tcl_DeleteCollection = (\<lambda>opts list_opts s.
        case NewDeleteCollectionAction env udproutesResource ns list_opts of
          None \<Rightarrow> (Some (FakePanic ''invalid selector''), s)
        | Some a \<Rightarrow> error_of_call (Invokes c a (ListReply ''UDPRoute'' []) s)),
      tcl_Patch = (\<lambda>name pt bytes opts subresources s. object_result (as_resource ''UDPRoute'')
        (Invokes c (NewPatchSubresourceAction udproutesResource ns name pt bytes subresources) (ObjectReply (ResourceObject ''UDPRoute'' zero)) s))\<rparr>"

end
