(* ===== verification/FakeClientset.thy ===== *)
theory FakeClientset
  imports FakeClients
begin

text \<open>
  The fake clientset (\<open>clientset/versioned/fake/clientset_generated.go\<close>) with the accessors of
  \<open>fake_apis_client.go\<close>: a tracker preset with objects, and reactors that apply actions to it. The
  lemmas relate the calls of a fake client to the tracker and say where preset objects can be found.
\<close>

section \<open>Presetting the tracker\<close>

definition any_kind :: "('s, 't) any_object \<Rightarrow> string" where
  "any_kind u = (case u of HTTPRouteObject _ \<Rightarrow> ''HTTPRoute'' | ResourceObject k _ \<Rightarrow> k)"

text \<open>The kinds registered by \<open>AddToScheme\<close> of the Gateway API that have fake clients.\<close>

definition registered_kinds :: "string list" where
  "registered_kinds = [''BackendPolicy'', ''Gateway'', ''GatewayClass'', ''HTTPRoute'', ''TCPRoute'', ''TLSRoute'', ''UDPRoute'']"

definition has_suffix :: "string \<Rightarrow> string \<Rightarrow> bool" where
  "has_suffix s suf \<longleftrightarrow> length suf \<le> length s \<and> drop (length s - length suf) s = suf"

text \<open>The plural resource of the guess.\<close>

definition UnsafeGuessKindToResource :: "string \<Rightarrow> string" where
  "UnsafeGuessKindToResource kindName =
     (if kindName = '''' then ''''
      else let singularName = to_lower kindName
           in if has_suffix singularName ''endpoints'' then singularName
              else if last singularName = CHR ''s'' then singularName @ ''es''
              else if last singularName = CHR ''y'' then butlast singularName @ ''ies''
              else singularName @ ''s'')"

definition tracker_Add :: "('s, 't) any_object \<Rightarrow> ('s, 't) any_object tracker \<Rightarrow> error option \<times> ('s, 't) any_object tracker" where
  "tracker_Add obj t =
     (if any_kind obj \<notin> List.set registered_kinds then (Some (OtherError ''no kind is registered for the type''), t)
      else tracker_add any_meta any_set_meta (gateway_gvr (UnsafeGuessKindToResource (any_kind obj))) obj
             (om_Namespace (any_meta obj)) False t)"

text \<open>The loop over the objects panics on the first error.\<close>

fun add_objects :: "('s, 't) any_object list \<Rightarrow> ('s, 't) any_object tracker \<Rightarrow> ('s, 't) any_object tracker option" where
  "add_objects [] t = Some t"
| "add_objects (obj # objs) t =
     (case tracker_Add obj t of (Some e, t') \<Rightarrow> None | (None, t') \<Rightarrow> add_objects objs t')"

definition NewSimpleClientset ::
  "('s, 't) any_object fake_env \<Rightarrow> ('s, 't) any_object list \<Rightarrow>
   (('s, 't) any_object fake \<times> ('s, 't) any_object fake_state) option" where
  "NewSimpleClientset env objs =
     (case add_objects objs NewObjectTracker of
        None \<Rightarrow> None
      | Some o' \<Rightarrow>
          Some (AddWatchReactor ''*'' tracker_watch_reaction
                  (AddReactor ''*'' ''*'' (ObjectReaction env)
                    \<lparr>fk_ReactionChain = [], fk_WatchReactionChain = []\<rparr>),
                \<lparr>fs_actions = [], fs_tracker = o'\<rparr>))"

section \<open>The accessors\<close>

record ('e, 'r, 'rl, 'o, 'ol, 'v, 'w) networking_client =
  nc_BackendPolicies :: "string \<Rightarrow> ('e, 'o, 'ol, 'v, 'w) typed_client"
  nc_Gateways :: "string \<Rightarrow> ('e, 'o, 'ol, 'v, 'w) typed_client"
  nc_GatewayClasses :: "('e, 'o, 'ol, 'v, 'w) typed_client"
  nc_HTTPRoutes :: "string \<Rightarrow> ('e, 'r, 'rl, 'v, 'w) typed_client"
  nc_TCPRoutes :: "string \<Rightarrow> ('e, 'o, 'ol, 'v, 'w) typed_client"
  nc_TLSRoutes :: "string \<Rightarrow> ('e, 'o, 'ol, 'v, 'w) typed_client"
  nc_UDPRoutes :: "string \<Rightarrow> ('e, 'o, 'ol, 'v, 'w) typed_client"

definition FakeNetworkingV1alpha1 ::
  "('s, 't) api_resource \<Rightarrow> ('s, 't) any_object fake_env \<Rightarrow> ('s, 't) any_object fake \<Rightarrow>
   (fake_outcome, http_route, http_route list, ('s, 't) api_resource, ('s, 't) api_resource list, nat option,
    ('s, 't) any_object fake_state) networking_client" where
  "FakeNetworkingV1alpha1 zero env c =
     \<lparr>nc_BackendPolicies = FakeBackendPolicies zero env c,
      nc_Gateways = FakeGateways zero env c,
      nc_GatewayClasses = FakeGatewayClasses zero env c,
      nc_HTTPRoutes = FakeHTTPRoutes env c,
      nc_TCPRoutes = FakeTCPRoutes zero env c,
      nc_TLSRoutes = FakeTLSRoutes zero env c,
      nc_UDPRoutes = FakeUDPRoutes zero env c\<rparr>"

section \<open>Calls over the tracker\<close>

text \<open>The clientset without reactors of a test in front.\<close>

definition simple_fake :: "'u fake_env \<Rightarrow> 'u fake" where
  "simple_fake env = \<lparr>fk_ReactionChain = [\<lparr>rx_Verb = ''*'', rx_Resource = ''*'', rx_Reaction = ObjectReaction env\<rparr>],
     fk_WatchReactionChain = [\<lparr>wx_Resource = ''*'', wx_Reaction = tracker_watch_reaction\<rparr>]\<rparr>"

lemma NewSimpleClientset_simple:
  "NewSimpleClientset env objs = Some (c, s) \<longleftrightarrow>
     c = simple_fake env \<and> fs_actions s = [] \<and> add_objects objs NewObjectTracker = Some (fs_tracker s)"
  by (cases s) (auto simp: NewSimpleClientset_def simple_fake_def AddReactor_def AddWatchReactor_def split: option.splits)

definition record_action :: "'u action \<Rightarrow> 'u tracker \<Rightarrow> 'u fake_state \<Rightarrow> 'u fake_state" where
  "record_action a t s = \<lparr>fs_actions = fs_actions s @ [a], fs_tracker = t\<rparr>"

lemma record_action_simps [simp]:
  "fs_actions (record_action a t s) = fs_actions s @ [a]" "fs_tracker (record_action a t s) = t"
  by (simp_all add: record_action_def)

lemma Invokes_simple:
  "Invokes (simple_fake env) a dflt s =
     (case ObjectReaction env a (fs_tracker s) of
        ((handled, ret, err), t) \<Rightarrow>
          (if handled then (ret, err) else (dflt, None), record_action a t s))"
  by (simp add: Invokes_def simple_fake_def SimpleReactor_Handles_def record_action_def
      split: prod.splits if_splits)

text \<open>What \<open>object_result\<close> makes of the answer to a read or a write.\<close>

definition typed_answer :: "('u \<Rightarrow> 'o option) \<Rightarrow> error + 'u \<Rightarrow> fake_outcome + 'o" where
  "typed_answer assertion r =
     (case r of
        Inl e \<Rightarrow> Inl (FakeError e)
      | Inr u \<Rightarrow> (case assertion u of None \<Rightarrow> Inl (FakePanic ''interface conversion'') | Some x \<Rightarrow> Inr x))"

lemmas action_defs = action_of_def NewGetAction_def NewRootGetAction_def NewCreateAction_def NewRootCreateAction_def
  NewUpdateAction_def NewRootUpdateAction_def NewUpdateSubresourceAction_def NewRootUpdateSubresourceAction_def
  NewDeleteAction_def NewRootDeleteAction_def NewPatchSubresourceAction_def NewRootPatchSubresourceAction_def

lemma invoke_get:
  "object_result f (Invokes (simple_fake env) (action_of v gvr ns sub (GetAction name)) dflt s) =
     (typed_answer f (tracker_Get gvr ns name (fs_tracker s)),
      record_action (action_of v gvr ns sub (GetAction name)) (fs_tracker s) s)"
  by (simp add: Invokes_simple ObjectReaction_def object_result_def typed_answer_def action_of_def Let_def
      split: sum.splits option.splits)

lemma invoke_create:
  "object_result f (Invokes (simple_fake env) (action_of v gvr ns '''' (CreateAction obj)) dflt s) =
     (case react_create (fe_meta env) (fe_set_meta env) gvr ns obj (fs_tracker s) of
        (r, t) \<Rightarrow> (typed_answer f r, record_action (action_of v gvr ns '''' (CreateAction obj)) t s))"
  by (simp add: Invokes_simple ObjectReaction_def object_result_def typed_answer_def action_of_def Let_def
      split: sum.splits option.splits prod.splits)

lemma invoke_update:
  "object_result f (Invokes (simple_fake env) (action_of v gvr ns sub (UpdateAction obj)) dflt s) =
     (case react_update (fe_meta env) (fe_set_meta env) gvr ns obj (fs_tracker s) of
        (r, t) \<Rightarrow> (typed_answer f r, record_action (action_of v gvr ns sub (UpdateAction obj)) t s))"
  by (simp add: Invokes_simple ObjectReaction_def object_result_def typed_answer_def action_of_def Let_def
      split: sum.splits option.splits prod.splits)

lemma invoke_delete:
  "error_of_call (Invokes (simple_fake env) (action_of v gvr ns sub (DeleteAction name)) dflt s) =
     (case tracker_Delete gvr ns name (fs_tracker s) of
        (e, t) \<Rightarrow> (map_option FakeError e, record_action (action_of v gvr ns sub (DeleteAction name)) t s))"
  by (simp add: Invokes_simple ObjectReaction_def error_of_call_def action_of_def Let_def split: prod.splits)

lemma invoke_delete_collection:
  "error_of_call (Invokes (simple_fake env) (action_of v gvr ns sub (DeleteCollectionAction l f)) dflt s) =
     (None, record_action (action_of v gvr ns sub (DeleteCollectionAction l f)) (fs_tracker s) s)"
  by (simp add: Invokes_simple ObjectReaction_def error_of_call_def action_of_def Let_def)


section \<open>A fake client is a store\<close>

text \<open>
  A client seen as the reconciler uses one: reading without looking at the recorded actions, and
  results with an ordinary error.
\<close>

fun outcome_error :: "fake_outcome \<Rightarrow> error" where
  "outcome_error (FakeError e) = e"
| "outcome_error (FakePanic msg) = OtherError msg"
| "outcome_error FakeNil = OtherError ''nil object''"

definition client_get :: "(string \<Rightarrow> (fake_outcome, 'o, 'l, 'v, 'w) typed_client) \<Rightarrow> string \<Rightarrow> string \<Rightarrow> 'w \<Rightarrow> error + 'o" where
  "client_get cl ns n s = map_sum outcome_error id (fst (tcl_Get (cl ns) n \<lparr>go_ResourceVersion = ''''\<rparr> s))"

definition client_create :: "(string \<Rightarrow> (fake_outcome, 'o, 'l, 'v, 'w) typed_client) \<Rightarrow> string \<Rightarrow> 'o \<Rightarrow> 'w \<Rightarrow> (error + 'o) \<times> 'w" where
  "client_create cl ns x s =
     map_prod (map_sum outcome_error id) id (tcl_Create (cl ns) x \<lparr>co_DryRun = [], co_FieldManager = ''''\<rparr> s)"

definition client_update :: "(string \<Rightarrow> (fake_outcome, 'o, 'l, 'v, 'w) typed_client) \<Rightarrow> string \<Rightarrow> 'o \<Rightarrow> 'w \<Rightarrow> (error + 'o) \<times> 'w" where
  "client_update cl ns x s =
     map_prod (map_sum outcome_error id) id (tcl_Update (cl ns) x \<lparr>uo_DryRun = [], uo_FieldManager = ''''\<rparr> s)"

text \<open>Routes are stored under their keys, and the resource holds nothing but routes.\<close>

definition routes_good :: "('s, 't) any_object fake_state \<Rightarrow> bool" where
  "routes_good s \<longleftrightarrow> tracker_good any_meta httproutesResource (fs_tracker s) \<and>
     fmpred (\<lambda>_ u. as_HTTPRoute u \<noteq> None) (objects_of httproutesResource (fs_tracker s))"

lemma as_HTTPRoute_Some [simp]: "as_HTTPRoute u = Some r \<longleftrightarrow> u = HTTPRouteObject r"
  by (cases u) simp_all

lemma as_resource_Some [simp]: "as_resource k u = Some r \<longleftrightarrow> u = ResourceObject k r"
  by (cases u) simp_all

lemma any_env_simps [simp]:
  "fe_meta (any_env p f d) = any_meta" "fe_set_meta (any_env p f d) = any_set_meta"
  by (simp_all add: any_env_def)

abbreviation simple_routes where
  "simple_routes p f d \<equiv> FakeHTTPRoutes (any_env p f d) (simple_fake (any_env p f d))"

lemma client_get_route:
  assumes "routes_good s"
  shows "client_get (simple_routes p f d) ns n s = (case tracker_Get httproutesResource ns n (fs_tracker s) of
     Inl e \<Rightarrow> Inl e | Inr u \<Rightarrow> Inr (the (as_HTTPRoute u)))"
proof -
  have "as_HTTPRoute u \<noteq> None" if "tracker_Get httproutesResource ns n (fs_tracker s) = Inr u" for u
    using assms that by (auto simp: routes_good_def tracker_Get_objects fmpred_iff split: option.splits)
  then show ?thesis
    by (auto simp: client_get_def FakeHTTPRoutes_def NewGetAction_def invoke_get typed_answer_def
        split: sum.splits option.splits)
qed

lemma client_writes_route:
  "client_create (simple_routes p f d) ns x s =
     (case react_create any_meta any_set_meta httproutesResource ns (HTTPRouteObject x) (fs_tracker s) of
        (r, t) \<Rightarrow> (map_sum outcome_error id (typed_answer as_HTTPRoute r),
                  record_action (NewCreateAction httproutesResource ns (HTTPRouteObject x)) t s))"
  "client_update (simple_routes p f d) ns x s =
     (case react_update any_meta any_set_meta httproutesResource ns (HTTPRouteObject x) (fs_tracker s) of
        (r, t) \<Rightarrow> (map_sum outcome_error id (typed_answer as_HTTPRoute r),
                  record_action (NewUpdateAction httproutesResource ns (HTTPRouteObject x)) t s))"
  by (simp_all add: client_create_def client_update_def FakeHTTPRoutes_def NewCreateAction_def NewUpdateAction_def
      invoke_create invoke_update split: prod.splits)

lemma any_set_meta_id: "any_set_meta (\<lambda>m. m\<lparr>om_Namespace := om_Namespace (any_meta x)\<rparr>) x = x"
  by (cases x) simp_all

interpretation any_routes: object_store "tracker_Get httproutesResource"
  "react_create any_meta any_set_meta httproutesResource" "react_update any_meta any_set_meta httproutesResource"
  any_meta "tracker_good any_meta httproutesResource"
  by (rule tracker_store_laws) (rule any_set_meta_id)

text \<open>All objects of a resource have a property if all that can be read have it.\<close>

lemma routes_good_iff:
  "routes_good s \<longleftrightarrow> tracker_good any_meta httproutesResource (fs_tracker s) \<and>
     (\<forall>ns n u. tracker_Get httproutesResource ns n (fs_tracker s) = Inr u \<longrightarrow> as_HTTPRoute u \<noteq> None)"
  by (auto simp: routes_good_def tracker_Get_objects fmpred_iff split: option.splits)

lemma read_cases:
  assumes "routes_good s" and "client_get (simple_routes p f d) ns n s = r"
  shows "case r of Inl e \<Rightarrow> tracker_Get httproutesResource ns n (fs_tracker s) = Inl e
    | Inr x \<Rightarrow> tracker_Get httproutesResource ns n (fs_tracker s) = Inr (HTTPRouteObject x)"
proof (cases "tracker_Get httproutesResource ns n (fs_tracker s)")
  case (Inr u)
  then have "as_HTTPRoute u \<noteq> None" using assms(1) unfolding routes_good_iff by blast
  then obtain x where "u = HTTPRouteObject x" by (cases u) simp_all
  with Inr show ?thesis using assms by (auto simp: client_get_route)
qed (use assms in \<open>auto simp: client_get_route\<close>)

text \<open>Reading after a change of the tracker that keeps the routes good.\<close>

lemma client_get_same:
  assumes "routes_good s" and "routes_good s'"
    and "tracker_Get httproutesResource ns n (fs_tracker s') = tracker_Get httproutesResource ns n (fs_tracker s)"
  shows "client_get (simple_routes p f d) ns n s' = client_get (simple_routes p f d) ns n s"
  using assms by (simp add: client_get_route)

lemma routes_good_written:
  assumes "routes_good w" and "tracker_good any_meta httproutesResource (fs_tracker w')"
    and "tracker_Get httproutesResource ns n (fs_tracker w') = Inr (HTTPRouteObject x)"
    and "\<forall>ns2 n2. (ns2, n2) \<noteq> (ns, n) \<longrightarrow>
      tracker_Get httproutesResource ns2 n2 (fs_tracker w') = tracker_Get httproutesResource ns2 n2 (fs_tracker w)"
  shows "routes_good w'"
  unfolding routes_good_iff
proof (intro conjI allI impI)
  fix ns2 n2 u
  assume u: "tracker_Get httproutesResource ns2 n2 (fs_tracker w') = Inr u"
  show "as_HTTPRoute u \<noteq> None"
  proof (cases "(ns2, n2) = (ns, n)")
    case True
    with u assms(3) show ?thesis by auto
  next
    case False
    then have "tracker_Get httproutesResource ns2 n2 (fs_tracker w) = Inr u" using u assms(4) by simp
    then show ?thesis using assms(1) unfolding routes_good_iff by blast
  qed
qed (fact assms(2))

interpretation fake_client: object_store "client_get (simple_routes p f d)" "client_create (simple_routes p f d)"
  "client_update (simple_routes p f d)" hr_Meta routes_good
  for p f and d :: "string \<Rightarrow> string \<Rightarrow> ('s, 't) any_object \<Rightarrow> error + ('s, 't) any_object"
proof
  fix w :: "('s, 't) any_object fake_state" and ns n x
  assume "routes_good w" "client_get (simple_routes p f d) ns n w = Inr x"
  then show "om_Namespace (hr_Meta x) = ns \<and> om_Name (hr_Meta x) = n"
    using read_cases [of w p f d ns n "Inr x"] any_routes.get_key [of "fs_tracker w" ns n "HTTPRouteObject x"]
    by (simp add: routes_good_def)
next
  fix w :: "('s, 't) any_object fake_state" and ns n e
  assume "routes_good w" "client_get (simple_routes p f d) ns n w = Inl e"
  then show "is_not_found e"
    using read_cases [of w p f d ns n "Inl e"] any_routes.get_error [of "fs_tracker w" ns n e]
    by (simp add: routes_good_def)
next
  fix w w' :: "('s, 't) any_object fake_state" and x ns n e r
  assume good: "routes_good w" and x: "om_Namespace (hr_Meta x) = ns" "om_Name (hr_Meta x) = n"
    and absent: "client_get (simple_routes p f d) ns n w = Inl e"
    and run: "client_create (simple_routes p f d) ns x w = (r, w')"
  obtain r0 t where c: "react_create any_meta any_set_meta httproutesResource ns (HTTPRouteObject x) (fs_tracker w) = (r0, t)"
    by fastforce
  note new = any_routes.create_absent [of "fs_tracker w" "HTTPRouteObject x" ns n e r0 t]
  have t: "r0 = Inr (HTTPRouteObject x)" "tracker_good any_meta httproutesResource t"
      "tracker_Get httproutesResource ns n t = Inr (HTTPRouteObject x)"
      "\<forall>ns2 n2. (ns2, n2) \<noteq> (ns, n) \<longrightarrow> tracker_Get httproutesResource ns2 n2 t = tracker_Get httproutesResource ns2 n2 (fs_tracker w)"
    using new good x c read_cases [OF good absent] by (simp_all add: routes_good_def)
  have w': "r = Inr x" "fs_tracker w' = t"
    using run c t(1) by (auto simp: client_writes_route typed_answer_def)
  have good': "routes_good w'"
    by (rule routes_good_written [OF good, of w' ns n x]) (use t w'(2) in simp_all)
  show "r = Inr x \<and> routes_good w' \<and> client_get (simple_routes p f d) ns n w' = Inr x \<and>
      (\<forall>ns2 n2. (ns2, n2) \<noteq> (ns, n) \<longrightarrow>
        client_get (simple_routes p f d) ns2 n2 w' = client_get (simple_routes p f d) ns2 n2 w)"
    using t good good' w' by (simp add: client_get_route)
next
  fix w w' :: "('s, 't) any_object fake_state" and x ns n y r
  assume good: "routes_good w" and x: "om_Namespace (hr_Meta x) = ns" "om_Name (hr_Meta x) = n"
    and present: "client_get (simple_routes p f d) ns n w = Inr y"
    and run: "client_create (simple_routes p f d) ns x w = (r, w')"
  obtain r0 t where c: "react_create any_meta any_set_meta httproutesResource ns (HTTPRouteObject x) (fs_tracker w) = (r0, t)"
    by fastforce
  note old = any_routes.create_present [of "fs_tracker w" "HTTPRouteObject x" ns n "HTTPRouteObject y" r0 t]
  have t: "\<exists>e. r0 = Inl e" "tracker_good any_meta httproutesResource t"
      "\<forall>ns2 n2. tracker_Get httproutesResource ns2 n2 t = tracker_Get httproutesResource ns2 n2 (fs_tracker w)"
    using old good x c read_cases [OF good present] by (simp_all add: routes_good_def)
  have w': "\<exists>e. r = Inl e" "fs_tracker w' = t"
    using run c t(1) by (auto simp: client_writes_route typed_answer_def)
  have good': "routes_good w'" using t good unfolding routes_good_iff w'(2) by simp
  show "(\<exists>e. r = Inl e) \<and> routes_good w' \<and>
      (\<forall>ns2 n2. client_get (simple_routes p f d) ns2 n2 w' = client_get (simple_routes p f d) ns2 n2 w)"
    using t good good' w' by (simp add: client_get_route)
next
  fix w w' :: "('s, 't) any_object fake_state" and x ns n y r
  assume good: "routes_good w" and x: "om_Namespace (hr_Meta x) = ns" "om_Name (hr_Meta x) = n"
    and present: "client_get (simple_routes p f d) ns n w = Inr y"
    and run: "client_update (simple_routes p f d) ns x w = (r, w')"
  obtain r0 t where c: "react_update any_meta any_set_meta httproutesResource ns (HTTPRouteObject x) (fs_tracker w) = (r0, t)"
    by fastforce
  note up = any_routes.update_present [of "fs_tracker w" "HTTPRouteObject x" ns n "HTTPRouteObject y" r0 t]
  have t: "r0 = Inr (HTTPRouteObject x)" "tracker_good any_meta httproutesResource t"
      "tracker_Get httproutesResource ns n t = Inr (HTTPRouteObject x)"
      "\<forall>ns2 n2. (ns2, n2) \<noteq> (ns, n) \<longrightarrow> tracker_Get httproutesResource ns2 n2 t = tracker_Get httproutesResource ns2 n2 (fs_tracker w)"
    using up good x c read_cases [OF good present] by (simp_all add: routes_good_def)
  have w': "r = Inr x" "fs_tracker w' = t"
    using run c t(1) by (auto simp: client_writes_route typed_answer_def)
  have good': "routes_good w'"
    by (rule routes_good_written [OF good, of w' ns n x]) (use t w'(2) in simp_all)
  show "r = Inr x \<and> routes_good w' \<and> client_get (simple_routes p f d) ns n w' = Inr x \<and>
      (\<forall>ns2 n2. (ns2, n2) \<noteq> (ns, n) \<longrightarrow>
        client_get (simple_routes p f d) ns2 n2 w' = client_get (simple_routes p f d) ns2 n2 w)"
    using t good good' w' by (simp add: client_get_route)
qed

interpretation fake_client_routes: route_client "client_get (simple_routes p f d)"
  "client_create (simple_routes p f d)" "client_update (simple_routes p f d)" routes_good for p f d
  by unfold_locales


section \<open>Preset objects\<close>

lemma guessed_resources:
  "map UnsafeGuessKindToResource registered_kinds =
     [''backendpolicies'', ''gatewaies'', ''gatewayclasses'', ''httproutes'', ''tcproutes'', ''tlsroutes'', ''udproutes'']"
  by code_simp

lemma guess_registered:
  "UnsafeGuessKindToResource ''HTTPRoute'' = ''httproutes''"
  "k \<in> List.set registered_kinds \<Longrightarrow> UnsafeGuessKindToResource k = ''httproutes'' \<Longrightarrow> k = ''HTTPRoute''"
  "k \<in> List.set registered_kinds \<Longrightarrow> UnsafeGuessKindToResource k \<noteq> ''gateways''"
  using guessed_resources by (auto simp: registered_kinds_def)

lemma httproutes_gvr: "httproutesResource = gateway_gvr ''httproutes''"
  by (simp add: httproutesResource_def gateway_gvr_def)

lemma gateway_gvr_inject [simp]: "gateway_gvr a = gateway_gvr b \<longleftrightarrow> a = b"
  by (auto simp: gateway_gvr_def)

text \<open>A successful addition puts the object, and nothing else, under its key.\<close>

lemma tracker_Add_None:
  assumes "tracker_Add obj t = (None, t')"
  shows "any_kind obj \<in> List.set registered_kinds \<and>
    fmlookup (objects_of (gateway_gvr (UnsafeGuessKindToResource (any_kind obj))) t)
      (om_Namespace (any_meta obj), om_Name (any_meta obj)) = None \<and>
    objects_of (gateway_gvr (UnsafeGuessKindToResource (any_kind obj))) t' =
      fmupd (om_Namespace (any_meta obj), om_Name (any_meta obj)) obj
        (objects_of (gateway_gvr (UnsafeGuessKindToResource (any_kind obj))) t) \<and>
    (\<forall>gvr. gvr \<noteq> gateway_gvr (UnsafeGuessKindToResource (any_kind obj)) \<longrightarrow> objects_of gvr t' = objects_of gvr t)"
proof -
  have same: "any_set_meta (\<lambda>m. m\<lparr>om_Namespace := om_Namespace (any_meta obj)\<rparr>) obj = obj"
    by (rule any_set_meta_id)
  then have own: "(if length (om_Namespace (any_meta obj)) = 0
      then any_set_meta (\<lambda>m. m\<lparr>om_Namespace := om_Namespace (any_meta obj)\<rparr>) obj else obj) = obj" by (simp only: if_cancel)
  show ?thesis using assms unfolding tracker_Add_def tracker_add_def Let_def own
    by (auto split: if_splits)
qed

definition add_inv :: "('s, 't) any_object tracker \<Rightarrow> bool" where
  "add_inv t \<longleftrightarrow> (\<forall>gvr. tracker_good any_meta gvr t) \<and> objects_of (gateway_gvr ''gateways'') t = fmempty \<and>
     fmpred (\<lambda>_ u. as_HTTPRoute u \<noteq> None) (objects_of httproutesResource t)"

lemma kind_of_route: "any_kind u = ''HTTPRoute'' \<Longrightarrow> as_HTTPRoute u \<noteq> None \<or> (\<exists>r. u = ResourceObject ''HTTPRoute'' r)"
  by (cases u) (simp_all add: any_kind_def)

text \<open>The kinds other than HTTPRoute, as \<open>ResourceObject\<close> is meant to hold.\<close>

definition proper :: "('s, 't) any_object \<Rightarrow> bool" where
  "proper u \<longleftrightarrow> (case u of HTTPRouteObject _ \<Rightarrow> True | ResourceObject k _ \<Rightarrow> k \<noteq> ''HTTPRoute'')"

lemma add_inv_Add:
  assumes "add_inv t" and "tracker_Add obj t = (None, t')" and "proper obj"
  shows "add_inv t'"
proof -
  let ?res = "UnsafeGuessKindToResource (any_kind obj)"
  note a = tracker_Add_None [OF assms(2)]
  have obj: "objects_of gvr t' = (if gvr = gateway_gvr ?res
      then fmupd (om_Namespace (any_meta obj), om_Name (any_meta obj)) obj (objects_of gvr t)
      else objects_of gvr t)" for gvr
    using a by auto
  have "tracker_good any_meta gvr t'" for gvr
    using assms(1) by (auto simp: add_inv_def tracker_good_def obj fmpred_iff split: if_splits)
  moreover have "objects_of (gateway_gvr ''gateways'') t' = fmempty"
    using assms(1) a guess_registered(3) [of "any_kind obj"] by (auto simp: add_inv_def obj)
  moreover have "fmpred (\<lambda>_ u. as_HTTPRoute u \<noteq> None) (objects_of httproutesResource t')"
  proof (cases "?res = ''httproutes''")
    case True
    then have "as_HTTPRoute obj \<noteq> None"
      using guess_registered(2) [of "any_kind obj"] a assms(3) kind_of_route [of obj] by (auto simp: proper_def)
    then show ?thesis using assms(1) by (simp add: add_inv_def obj fmpred_upd)
  next
    case False
    then show ?thesis using assms(1) by (simp add: add_inv_def obj httproutes_gvr)
  qed
  ultimately show ?thesis by (simp add: add_inv_def)
qed

lemma add_objects_inv:
  "add_objects objs t = Some t' \<Longrightarrow> list_all proper objs \<Longrightarrow> add_inv t \<Longrightarrow> add_inv t'"
  by (induction objs t rule: add_objects.induct) (auto split: prod.splits option.splits intro: add_inv_Add)

text \<open>What is stored stays, because a second object of the same key panics.\<close>

lemma add_objects_kept:
  "add_objects objs t = Some t' \<Longrightarrow> fmlookup (objects_of gvr t) key = Some u \<Longrightarrow> fmlookup (objects_of gvr t') key = Some u"
proof (induction objs t rule: add_objects.induct)
  case (2 obj objs t)
  then obtain t1 where a: "tracker_Add obj t = (None, t1)" "add_objects objs t1 = Some t'"
    by (auto split: prod.splits option.splits)
  note n = tracker_Add_None [OF a(1)]
  have "fmlookup (objects_of gvr t1) key = Some u"
    using n 2(3) by (cases "gvr = gateway_gvr (UnsafeGuessKindToResource (any_kind obj))") auto
  with 2(1) a show ?case by auto
qed simp

lemma add_objects_found:
  "add_objects objs t = Some t' \<Longrightarrow> u \<in> List.set objs \<Longrightarrow>
   fmlookup (objects_of (gateway_gvr (UnsafeGuessKindToResource (any_kind u))) t')
     (om_Namespace (any_meta u), om_Name (any_meta u)) = Some u"
proof (induction objs t rule: add_objects.induct)
  case (2 obj objs t)
  then obtain t1 where a: "tracker_Add obj t = (None, t1)" "add_objects objs t1 = Some t'"
    by (auto split: prod.splits option.splits)
  show ?case
  proof (cases "u \<in> List.set objs")
    case True
    with 2(1) a show ?thesis by auto
  next
    case False
    then have "u = obj" using 2(3) by simp
    with tracker_Add_None [OF a(1)] show ?thesis by (intro add_objects_kept [OF a(2)]) simp
  qed
qed simp

lemma add_inv_new: "add_inv NewObjectTracker"
  by (simp add: add_inv_def tracker_good_def)

lemma preset_routes_good:
  assumes "NewSimpleClientset env objs = Some (c, s)" and "list_all proper objs"
  shows "routes_good s" and "add_inv (fs_tracker s)"
proof -
  show inv: "add_inv (fs_tracker s)"
    using assms add_inv_new by (auto simp: NewSimpleClientset_simple intro: add_objects_inv)
  then show "routes_good s" by (simp add: add_inv_def routes_good_def)
qed


section \<open>Properties\<close>

text \<open>C23. Objects given to \<open>NewSimpleClientset\<close>: every HTTPRoute among them is found by the fake client of its
  namespace, but a Gateway never is. The tracker guesses the resource of a kind from its name, and
  the guess for a Gateway is \<open>gatewaies\<close>, while the fake client asks for \<open>gateways\<close>: whatever the
  clientset was given, the client of Gateways answers that nothing is there.\<close>

theorem preset_objects:
  assumes "NewSimpleClientset env objs = Some (c, s)" and "list_all proper objs"
  shows "list_all (\<lambda>u. case u of
        HTTPRouteObject r \<Rightarrow>
          fst (tcl_Get (FakeHTTPRoutes env c (om_Namespace (hr_Meta r))) (om_Name (hr_Meta r)) opts s) = Inr r
      | ResourceObject k x \<Rightarrow> True) objs \<and>
    fst (tcl_Get (FakeGateways zero env c ns) name opts s) = Inl (FakeError (NewNotFound name))"
proof -
  have c: "c = simple_fake env" and add: "add_objects objs NewObjectTracker = Some (fs_tracker s)"
    using assms(1) by (simp_all add: NewSimpleClientset_simple)
  have inv: "add_inv (fs_tracker s)" by (rule preset_routes_good(2) [OF assms])
  have route: "fst (tcl_Get (FakeHTTPRoutes env c (om_Namespace (hr_Meta r))) (om_Name (hr_Meta r)) opts s) = Inr r"
    if "HTTPRouteObject r \<in> List.set objs" for r
    using add_objects_found [OF add that]
    by (simp add: c FakeHTTPRoutes_def NewGetAction_def invoke_get typed_answer_def tracker_Get_objects
        any_kind_def guess_registered(1) httproutes_gvr)
  have "fst (tcl_Get (FakeGateways zero env c ns) name opts s) = Inl (FakeError (NewNotFound name))"
    using inv by (simp add: c FakeGateways_def NewGetAction_def invoke_get typed_answer_def tracker_Get_objects
        add_inv_def gatewaysResource_def)
  then show ?thesis using route by (auto simp: list_all_iff split: any_object.splits)
qed

definition small_env :: "(unit, unit) any_object fake_env" where
  "small_env = any_env (\<lambda>_. Some (\<lambda>_. True)) (\<lambda>_. True) (\<lambda>_ _ u. Inr u)"

definition named_route :: "string \<Rightarrow> string \<Rightarrow> http_route" where
  "named_route ns n = empty_route\<lparr>hr_Meta := empty_meta\<lparr>om_Namespace := ns, om_Name := n\<rparr>\<rparr>"

definition small_gateway :: "(unit, unit) api_resource" where
  "small_gateway = \<lparr>ar_Meta = empty_meta\<lparr>om_Namespace := ''ns'', om_Name := ''g''\<rparr>, ar_Spec = (), ar_Status = ()\<rparr>"

theorem preset_objects_witness:
  "\<exists>c s. NewSimpleClientset small_env [HTTPRouteObject (named_route ''ns'' ''a''), ResourceObject ''Gateway'' small_gateway] =
       Some (c, s) \<and>
     fst (tcl_Get (FakeHTTPRoutes small_env c ''ns'') ''a'' \<lparr>go_ResourceVersion = ''''\<rparr> s) = Inr (named_route ''ns'' ''a'') \<and>
     fst (tcl_Get (FakeGateways small_gateway small_env c ''ns'') ''g'' \<lparr>go_ResourceVersion = ''''\<rparr> s) =
       Inl (FakeError (NewNotFound ''g''))"
proof -
  let ?objs = "[HTTPRouteObject (named_route ''ns'' ''a''), ResourceObject ''Gateway'' small_gateway]"
  have "NewSimpleClientset small_env ?objs \<noteq> None" by code_simp
  then obtain c s where cs: "NewSimpleClientset small_env ?objs = Some (c, s)" by auto
  have "list_all proper ?objs" by (simp add: proper_def)
  from preset_objects [OF cs this] cs show ?thesis
    by (auto simp: named_route_def)
qed

lemma fake_actions:
  assumes run: "reconcileHTTPRoute (client_get (simple_routes p f d)) (client_create (simple_routes p f d))
      (client_update (simple_routes p f d)) ctx ing rule s = Some (r, rule', s', evs)"
    and d: "desired_route ctx ing rule = Some x"
  shows "\<exists>acts. fs_actions s' = fs_actions s @ acts \<and> length acts \<le> 1"
  using run unfolding reconcileHTTPRoute_desired [OF d]
  by (auto simp: client_writes_route split: sum.splits if_splits prod.splits)



text \<open>DeleteCollection of a fake client reports success and deletes nothing, whatever the options: the
  reactor over the tracker declines the action, and an action nobody handles succeeds. Only an
  invalid selector is noticed, by a panic.\<close>

theorem fake_delete_collection:
  assumes "ExtractFromListOptions env lopts = Some sel"
  shows "\<exists>a. tcl_DeleteCollection (FakeHTTPRoutes env (simple_fake env) ns) dopts lopts s =
    (None, s\<lparr>fs_actions := fs_actions s @ [a]\<rparr>) \<and> ac_Verb a = ''delete-collection'' \<and> ac_Namespace a = ns"
  using assms by (simp add: FakeHTTPRoutes_def NewDeleteCollectionAction_def invoke_delete_collection)
    (cases s, simp add: record_action_def action_of_def)

theorem fake_delete_collection_witness:
  "\<exists>c s lopts. NewSimpleClientset small_env [HTTPRouteObject (named_route ''ns'' ''a'')] = Some (c, s) \<and>
     (\<exists>a. tcl_DeleteCollection (FakeHTTPRoutes small_env (simple_fake small_env) ''ns'')
        \<lparr>do_GracePeriodSeconds = None, do_Preconditions = None, do_OrphanDependents = None,
         do_PropagationPolicy = None, do_DryRun = []\<rparr> lopts s = (None, s\<lparr>fs_actions := fs_actions s @ [a]\<rparr>))"
proof -
  let ?lopts = "\<lparr>lo_LabelSelector = '''', lo_FieldSelector = '''', lo_Watch = False, lo_AllowWatchBookmarks = False,
     lo_ResourceVersion = '''', lo_ResourceVersionMatch = '''', lo_TimeoutSeconds = None, lo_Limit = 0, lo_Continue = ''''\<rparr>"
  have "NewSimpleClientset small_env [HTTPRouteObject (named_route ''ns'' ''a'')] \<noteq> None" by code_simp
  then obtain c s where cs: "NewSimpleClientset small_env [HTTPRouteObject (named_route ''ns'' ''a'')] = Some (c, s)" by auto
  have "ExtractFromListOptions small_env ?lopts = Some (\<lambda>_. True, '''', '''')"
    by (simp add: ExtractFromListOptions_def small_env_def any_env_def)
  from fake_delete_collection [OF this] cs show ?thesis by blast
qed

end
