(* ===== verification/Listers.thy ===== *)
theory Listers
  imports FakeClients GatewayConfig
begin

text \<open>
  The listers of the seven resources (\<open>pkg/client/gatewayapi/listers/apis/v1alpha1\<close>) over the cache of
  an informer: an indexer of \<open>k8s.io/client-go/tools/cache\<close>, read by \<open>ListAll\<close> and
  \<open>ListAllByNamespace\<close> of its \<open>listers.go\<close>. A cache is a map from keys to objects; the order in which
  Go ranges over a map is the argument \<open>iter\<close>.
\<close>

section \<open>Indexers\<close>

text \<open>\<open>ix_byNamespace\<close>: the indexer has the index \<open>cache.NamespaceIndex\<close> by \<open>MetaNamespaceIndexFunc\<close>.\<close>

record 'o indexer =
  ix_items :: "(string, 'o) fmap"
  ix_byNamespace :: bool

record label_selector =
  sel_Empty :: bool
  sel_Matches :: selector

type_synonym 'o iteration = "(string, 'o) fmap \<Rightarrow> (string \<times> 'o) list"

definition indexer_List :: "'o iteration \<Rightarrow> 'o indexer \<Rightarrow> 'o list" where
  "indexer_List iter ix = map snd (iter (ix_items ix))"

definition indexer_GetByKey :: "'o indexer \<Rightarrow> string \<Rightarrow> 'o option" where
  "indexer_GetByKey ix key = fmlookup (ix_items ix) key"

text \<open>\<open>Index(NamespaceIndex, ...)\<close>, which fails without the index.\<close>

definition indexer_Index :: "'o iteration \<Rightarrow> ('o \<Rightarrow> object_meta) \<Rightarrow> 'o indexer \<Rightarrow> string \<Rightarrow> 'o list option" where
  "indexer_Index iter meta ix ns =
     (if ix_byNamespace ix
      then Some (map snd (filter (\<lambda>(k, x). om_Namespace (meta x) = ns) (iter (ix_items ix))))
      else None)"

definition select_items :: "label_selector \<Rightarrow> ('o \<Rightarrow> object_meta) \<Rightarrow> 'o list \<Rightarrow> 'o list" where
  "select_items sel meta items = filter (\<lambda>m. sel_Empty sel \<or> sel_Matches sel (om_Labels (meta m))) items"

definition ListAll :: "'o iteration \<Rightarrow> ('o \<Rightarrow> object_meta) \<Rightarrow> 'o indexer \<Rightarrow> label_selector \<Rightarrow> 'o list" where
  "ListAll iter meta ix sel = select_items sel meta (indexer_List iter ix)"

text \<open>Without the index it goes through all items, and always asks the selector.\<close>

definition ListAllByNamespace ::
  "'o iteration \<Rightarrow> ('o \<Rightarrow> object_meta) \<Rightarrow> 'o indexer \<Rightarrow> string \<Rightarrow> label_selector \<Rightarrow> 'o list" where
  "ListAllByNamespace iter meta ix ns sel =
     (if ns = '''' then select_items sel meta (indexer_List iter ix)
      else case indexer_Index iter meta ix ns of
             None \<Rightarrow> filter (\<lambda>m. om_Namespace (meta m) = ns \<and> sel_Matches sel (om_Labels (meta m))) (indexer_List iter ix)
           | Some items \<Rightarrow> select_items sel meta items)"

section \<open>Listers\<close>

record 'o namespace_lister =
  nl_List :: "label_selector \<Rightarrow> 'o list"
  nl_Get :: "string \<Rightarrow> error + 'o"

record 'o lister =
  ll_List :: "label_selector \<Rightarrow> 'o list"
  ll_Namespace :: "string \<Rightarrow> 'o namespace_lister"

record 'o cluster_lister =
  cl_List :: "label_selector \<Rightarrow> 'o list"
  cl_Get :: "string \<Rightarrow> error + 'o"

definition NewBackendPolicyLister :: "(('s, 't) api_resource) iteration \<Rightarrow> (('s, 't) api_resource) indexer \<Rightarrow> (('s, 't) api_resource) lister" where
  "NewBackendPolicyLister iter ix =
     \<lparr>ll_List = (\<lambda>sel. ListAll iter ar_Meta ix sel),
      ll_Namespace = (\<lambda>ns.
        \<lparr>nl_List = (\<lambda>sel. ListAllByNamespace iter ar_Meta ix ns sel),
         nl_Get = (\<lambda>name.
           case indexer_GetByKey ix (ns @ ''/'' @ name) of
             None \<Rightarrow> Inl (NewNotFound name)
           | Some obj \<Rightarrow> Inr obj)\<rparr>)\<rparr>"

definition NewGatewayLister :: "(('s, 't) api_resource) iteration \<Rightarrow> (('s, 't) api_resource) indexer \<Rightarrow> (('s, 't) api_resource) lister" where
  "NewGatewayLister iter ix =
     \<lparr>ll_List = (\<lambda>sel. ListAll iter ar_Meta ix sel),
      ll_Namespace = (\<lambda>ns.
        \<lparr>nl_List = (\<lambda>sel. ListAllByNamespace iter ar_Meta ix ns sel),
         nl_Get = (\<lambda>name.
           case indexer_GetByKey ix (ns @ ''/'' @ name) of
             None \<Rightarrow> Inl (NewNotFound name)
           | Some obj \<Rightarrow> Inr obj)\<rparr>)\<rparr>"

definition NewGatewayClassLister :: "(('s, 't) api_resource) iteration \<Rightarrow> (('s, 't) api_resource) indexer \<Rightarrow> (('s, 't) api_resource) cluster_lister" where
  "NewGatewayClassLister iter ix =
     \<lparr>cl_List = (\<lambda>sel. ListAll iter ar_Meta ix sel),
      cl_Get = (\<lambda>name.
        case indexer_GetByKey ix name of
          None \<Rightarrow> Inl (NewNotFound name)
        | Some obj \<Rightarrow> Inr obj)\<rparr>"

definition NewHTTPRouteLister :: "(http_route) iteration \<Rightarrow> (http_route) indexer \<Rightarrow> (http_route) lister" where
  "NewHTTPRouteLister iter ix =
     \<lparr>ll_List = (\<lambda>sel. ListAll iter hr_Meta ix sel),
      ll_Namespace = (\<lambda>ns.
        \<lparr>nl_List = (\<lambda>sel. ListAllByNamespace iter hr_Meta ix ns sel),
         nl_Get = (\<lambda>name.
           case indexer_GetByKey ix (ns @ ''/'' @ name) of
             None \<Rightarrow> Inl (NewNotFound name)
           | Some obj \<Rightarrow> Inr obj)\<rparr>)\<rparr>"

definition NewTCPRouteLister :: "(('s, 't) api_resource) iteration \<Rightarrow> (('s, 't) api_resource) indexer \<Rightarrow> (('s, 't) api_resource) lister" where
  "NewTCPRouteLister iter ix =
     \<lparr>ll_List = (\<lambda>sel. ListAll iter ar_Meta ix sel),
      ll_Namespace = (\<lambda>ns.
        \<lparr>nl_List = (\<lambda>sel. ListAllByNamespace iter ar_Meta ix ns sel),
         nl_Get = (\<lambda>name.
           case indexer_GetByKey ix (ns @ ''/'' @ name) of
             None \<Rightarrow> Inl (NewNotFound name)
           | Some obj \<Rightarrow> Inr obj)\<rparr>)\<rparr>"

definition NewTLSRouteLister :: "(('s, 't) api_resource) iteration \<Rightarrow> (('s, 't) api_resource) indexer \<Rightarrow> (('s, 't) api_resource) lister" where
  "NewTLSRouteLister iter ix =
     \<lparr>ll_List = (\<lambda>sel. ListAll iter ar_Meta ix sel),
      ll_Namespace = (\<lambda>ns.
        \<lparr>nl_List = (\<lambda>sel. ListAllByNamespace iter ar_Meta ix ns sel),
         nl_Get = (\<lambda>name.
           case indexer_GetByKey ix (ns @ ''/'' @ name) of
             None \<Rightarrow> Inl (NewNotFound name)
           | Some obj \<Rightarrow> Inr obj)\<rparr>)\<rparr>"

definition NewUDPRouteLister :: "(('s, 't) api_resource) iteration \<Rightarrow> (('s, 't) api_resource) indexer \<Rightarrow> (('s, 't) api_resource) lister" where
  "NewUDPRouteLister iter ix =
     \<lparr>ll_List = (\<lambda>sel. ListAll iter ar_Meta ix sel),
      ll_Namespace = (\<lambda>ns.
        \<lparr>nl_List = (\<lambda>sel. ListAllByNamespace iter ar_Meta ix ns sel),
         nl_Get = (\<lambda>name.
           case indexer_GetByKey ix (ns @ ''/'' @ name) of
             None \<Rightarrow> Inl (NewNotFound name)
           | Some obj \<Rightarrow> Inr obj)\<rparr>)\<rparr>"

section \<open>Laws\<close>

text \<open>Every object of a cache is stored under its key, and names hold no slash.\<close>

definition keyed :: "('o \<Rightarrow> object_meta) \<Rightarrow> 'o indexer \<Rightarrow> bool" where
  "keyed meta ix \<longleftrightarrow> fmpred (\<lambda>k x. k = MetaNamespaceKey (meta x) \<and>
     CHR ''/'' \<notin> set (om_Name (meta x)) \<and> CHR ''/'' \<notin> set (om_Namespace (meta x))) (ix_items ix)"

definition iterates_items :: "'o iteration \<Rightarrow> 'o indexer \<Rightarrow> bool" where
  "iterates_items iter ix \<longleftrightarrow> distinct (map fst (iter (ix_items ix))) \<and>
     set (iter (ix_items ix)) = {(k, x). fmlookup (ix_items ix) k = Some x}"

lemma iterates_itemsI: "iterates iter id \<Longrightarrow> iterates_items iter ix"
  by (simp add: iterates_def iterates_items_def)

text \<open>An empty selector matches everything.\<close>

definition selector_ok :: "label_selector \<Rightarrow> bool" where
  "selector_ok sel \<longleftrightarrow> (\<forall>m. sel_Empty sel \<longrightarrow> sel_Matches sel m)"

lemma set_indexer_List:
  "iterates_items iter ix \<Longrightarrow> set (indexer_List iter ix) = {x. \<exists>k. fmlookup (ix_items ix) k = Some x}"
  by (force simp: indexer_List_def iterates_items_def)

lemma set_select_items:
  "selector_ok sel \<Longrightarrow> set (select_items sel meta xs) = {x \<in> set xs. sel_Matches sel (om_Labels (meta x))}"
  by (auto simp: select_items_def selector_ok_def)

lemma set_ListAllByNamespace:
  assumes "iterates_items iter ix" and "selector_ok sel"
  shows "set (ListAllByNamespace iter meta ix ns sel) =
    {x. (\<exists>k. fmlookup (ix_items ix) k = Some x) \<and> (ns = '''' \<or> om_Namespace (meta x) = ns) \<and>
        sel_Matches sel (om_Labels (meta x))}"
proof (cases "ns = ''''")
  case True
  then show ?thesis
    by (auto simp: ListAllByNamespace_def set_indexer_List [OF assms(1)] set_select_items [OF assms(2)])
next
  case False
  have "set (map snd (filter (\<lambda>(k, x). om_Namespace (meta x) = ns) (iter (ix_items ix)))) =
      {x. (\<exists>k. fmlookup (ix_items ix) k = Some x) \<and> om_Namespace (meta x) = ns}"
    using assms(1) by (force simp: iterates_items_def)
  with False show ?thesis
    by (auto simp: ListAllByNamespace_def indexer_Index_def set_indexer_List [OF assms(1)]
        set_select_items [OF assms(2)])
qed

text \<open>Looking an object up by namespace and name.\<close>

lemma keyed_lookup:
  assumes "keyed meta ix"
  shows "indexer_GetByKey ix (ns @ ''/'' @ name) = Some x \<longleftrightarrow>
    (\<exists>k. fmlookup (ix_items ix) k = Some x) \<and> ns \<noteq> '''' \<and> om_Namespace (meta x) = ns \<and> om_Name (meta x) = name"
  (is "?l \<longleftrightarrow> ?r")
proof
  assume ?l
  then have look: "fmlookup (ix_items ix) (ns @ ''/'' @ name) = Some x" by (simp add: indexer_GetByKey_def)
  with assms have key: "ns @ ''/'' @ name = MetaNamespaceKey (meta x)"
      and names: "CHR ''/'' \<notin> set (om_Name (meta x))" "CHR ''/'' \<notin> set (om_Namespace (meta x))"
    by (auto simp: keyed_def fmpred_iff)
  have nsne: "om_Namespace (meta x) \<noteq> ''''"
  proof
    assume "om_Namespace (meta x) = ''''"
    then have "ns @ ''/'' @ name = om_Name (meta x)" using key by (simp add: MetaNamespaceKey_def)
    then have "CHR ''/'' \<in> set (om_Name (meta x))" by (metis in_set_conv_decomp append_Cons append_Nil)
    with names show False by simp
  qed
  then have eq: "ns @ ''/'' @ name = om_Namespace (meta x) @ ''/'' @ om_Name (meta x)"
    using key by (simp add: MetaNamespaceKey_def)
  have "count_list (ns @ ''/'' @ name) (CHR ''/'') = 1"
    unfolding eq using names by (simp add: count_notin)
  then have "CHR ''/'' \<notin> set ns" by (simp add: count_list_0_iff)
  then have "split_on CHR ''/'' (ns @ ''/'' @ name) = ns # split_on CHR ''/'' name"
    using split_on_append_sep [of "CHR ''/''" ns name] by simp
  moreover have "split_on CHR ''/'' (om_Namespace (meta x) @ ''/'' @ om_Name (meta x)) = [om_Namespace (meta x), om_Name (meta x)]"
    using names split_on_append_sep [of "CHR ''/''" "om_Namespace (meta x)" "om_Name (meta x)"]
    by (simp add: split_on_no_sep)
  ultimately have "ns = om_Namespace (meta x)" using eq by simp
  then show ?r using eq look nsne by auto
next
  assume r: ?r
  then obtain k where k: "fmlookup (ix_items ix) k = Some x" by blast
  with assms have "k = MetaNamespaceKey (meta x)" by (auto simp: keyed_def fmpred_iff)
  with r k show ?l by (auto simp: indexer_GetByKey_def MetaNamespaceKey_def)
qed


section \<open>Properties\<close>


text \<open>A cache with two routes.\<close>

definition cached_route :: "string \<Rightarrow> http_route" where
  "cached_route n = empty_route\<lparr>hr_Meta := empty_meta\<lparr>om_Namespace := ''ns'', om_Name := n\<rparr>\<rparr>"

definition small_cache :: "http_route indexer" where
  "small_cache = \<lparr>ix_items = fmap_of_list [(''ns/a'', cached_route ''a''), (''ns/b'', cached_route ''b'')],
     ix_byNamespace = True\<rparr>"

lemma small_cache_ok: "keyed hr_Meta small_cache" "iterates_items range_strings small_cache"
proof -
  show "keyed hr_Meta small_cache"
    by (auto simp: keyed_def small_cache_def fmpred_iff fmlookup_of_list cached_route_def MetaNamespaceKey_def split: if_splits)
  show "iterates_items range_strings small_cache" by (rule iterates_itemsI [OF iterates_range_strings])
qed


definition synced :: "http_route indexer \<Rightarrow> http_route tracker \<Rightarrow> bool" where
  "synced ix t \<longleftrightarrow> keyed hr_Meta ix \<and>
     (\<forall>r. (\<exists>k. fmlookup (ix_items ix) k = Some r) \<longleftrightarrow> (\<exists>k. fmlookup (objects_of httproutesResource t) k = Some r))"

lemma lister_Get_store:
  assumes "synced ix t" and "route_store_good t" and "ns \<noteq> ''''"
  shows "nl_Get (ll_Namespace (NewHTTPRouteLister iter ix) ns) name = route_get ns name t"
proof -
  have "indexer_GetByKey ix (ns @ ''/'' @ name) = Some r \<longleftrightarrow> fmlookup (objects_of httproutesResource t) (ns, name) = Some r" for r
  proof -
    have "indexer_GetByKey ix (ns @ ''/'' @ name) = Some r \<longleftrightarrow>
        (\<exists>k. fmlookup (objects_of httproutesResource t) k = Some r) \<and> om_Namespace (hr_Meta r) = ns \<and> om_Name (hr_Meta r) = name"
      using assms(1,3) keyed_lookup [of hr_Meta ix ns name r] by (simp add: synced_def)
    also have "\<dots> \<longleftrightarrow> fmlookup (objects_of httproutesResource t) (ns, name) = Some r"
      using assms(2) by (auto simp: tracker_good_def fmpred_iff)
    finally show ?thesis .
  qed
  then have "indexer_GetByKey ix (ns @ ''/'' @ name) = fmlookup (objects_of httproutesResource t) (ns, name)"
    by (metis option.exhaust_sel option.distinct(1))
  then show ?thesis by (simp add: NewHTTPRouteLister_def tracker_Get_objects)
qed

text \<open>C21. Once the cache of the informer holds the routes of the store, the reconciler cannot tell the
  lister from the store: every read in a namespace, a failing one included, gives the same answer,
  and so a reconciliation that reads through the lister runs as one that reads the store.\<close>

theorem lister_reads_store:
  assumes "synced ix t" and "route_store_good t" and "om_Namespace (ing_Meta ing) \<noteq> ''''"
  shows "reconcileHTTPRoute (\<lambda>ns name _. nl_Get (ll_Namespace (NewHTTPRouteLister iter ix) ns) name)
      route_create route_update ctx ing rule t =
    reconcileHTTPRoute route_get route_create route_update ctx ing rule t"
  using lister_Get_store [OF assms] by (simp add: reconcileHTTPRoute_def)


theorem lister_reads_store_witness:
  "\<exists>t. fst (route_create ''ns'' (cached_route ''a'') NewObjectTracker) = Inr (cached_route ''a'') \<and>
     t = snd (route_create ''ns'' (cached_route ''a'') NewObjectTracker) \<and>
     reconcileHTTPRoute (\<lambda>ns name _. nl_Get (ll_Namespace (NewHTTPRouteLister range_strings
         (small_cache\<lparr>ix_items := fmap_of_list [(''ns/a'', cached_route ''a'')]\<rparr>)) ns) name)
       route_create route_update small_ctx small_ingress small_rule t =
     reconcileHTTPRoute route_get route_create route_update small_ctx small_ingress small_rule t"
proof -
  let ?t = "snd (route_create ''ns'' (cached_route ''a'') NewObjectTracker)"
  let ?ix = "small_cache\<lparr>ix_items := fmap_of_list [(''ns/a'', cached_route ''a'')]\<rparr>"
  have t: "objects_of httproutesResource ?t = fmap_of_list [((''ns'', ''a''), cached_route ''a'')]" by code_simp
  have "keyed hr_Meta ?ix"
    by (auto simp: keyed_def small_cache_def fmpred_iff fmlookup_of_list cached_route_def MetaNamespaceKey_def split: if_splits)
  then have "synced ?ix ?t" by (auto simp: synced_def t fmlookup_of_list small_cache_def split: if_splits)
  moreover have "route_store_good ?t"
    unfolding tracker_good_def t by (auto simp: fmpred_iff fmlookup_of_list cached_route_def split: if_splits)
  moreover have "om_Namespace (ing_Meta small_ingress) \<noteq> ''''" by code_simp
  ultimately have "reconcileHTTPRoute (\<lambda>ns name _. nl_Get (ll_Namespace (NewHTTPRouteLister range_strings ?ix) ns) name)
       route_create route_update small_ctx small_ingress small_rule ?t =
     reconcileHTTPRoute route_get route_create route_update small_ctx small_ingress small_rule ?t"
    by (rule lister_reads_store)
  moreover have "fst (route_create ''ns'' (cached_route ''a'') NewObjectTracker) = Inr (cached_route ''a'')" by code_simp
  ultimately show ?thesis by blast
qed

end
