(* ===== verification/Informers.thy ===== *)
theory Informers
  imports FakeClientset Listers
begin

text \<open>
  The generated informers (\<open>pkg/client/gatewayapi/informers/externalversions\<close>): the shared informer factory
  of \<open>factory.go\<close>, the accessors that lead from it to the informer of a resource, and \<open>generic.go\<close>.
  Factories and informers are shared through pointers, so they live in an explicit heap and a pointer
  is a position in it. A shared informer of \<open>k8s.io/client-go/tools/cache\<close> is what
  \<open>NewSharedIndexInformer\<close> is called with; what its reflector makes of these functions is not modelled.
  The methods of the factory hold its lock throughout, so each is one step.
\<close>

section \<open>State\<close>

text \<open>\<open>reflect.TypeOf\<close> of the objects the informers are for.\<close>

datatype resource_type =
  BackendPolicyType | GatewayType | GatewayClassType | HTTPRouteType | TCPRouteType | TLSRouteType | UDPRouteType

datatype ('rl, 'ol) items = RouteItems 'rl | ResourceItems 'ol

text \<open>A \<open>TweakListOptionsFunc\<close> changes the options in place. It is a closure, so it may read the variables
  of the program: the state \<open>'w\<close>.\<close>

type_synonym 'w tweak = "'w \<Rightarrow> list_options \<Rightarrow> list_options"

record ('e, 'i, 'v, 'w) shared_informer =
  si_List :: "list_options \<Rightarrow> 'w \<Rightarrow> ('e + 'i) \<times> 'w"
  si_Watch :: "list_options \<Rightarrow> 'w \<Rightarrow> ('e + 'v) \<times> 'w"
  si_ObjectType :: resource_type
  si_Resync :: go_int
  si_Indexers :: "string list"

record ('e, 'r, 'rl, 'o, 'ol, 'v, 'w) shared_factory =
  sf_client :: "('e, 'r, 'rl, 'o, 'ol, 'v, 'w) networking_client"
  sf_namespace :: string
  sf_tweakListOptions :: "'w tweak option"
  sf_defaultResync :: go_int
  sf_customResync :: "(resource_type, go_int) fmap"
  sf_informers :: "(resource_type, nat) fmap"
  sf_startedInformers :: "(resource_type, bool) fmap"

text \<open>\<open>ih_runs\<close> lists the goroutines \<open>go informer.Run(stopCh)\<close> that were started, in order.\<close>

record ('e, 'r, 'rl, 'o, 'ol, 'v, 'w) informer_heap =
  ih_factories :: "('e, 'r, 'rl, 'o, 'ol, 'v, 'w) shared_factory list"
  ih_informers :: "('e, ('rl, 'ol) items, 'v, 'w) shared_informer list"
  ih_runs :: "(nat \<times> nat) list"

definition empty_heap :: "('e, 'r, 'rl, 'o, 'ol, 'v, 'w) informer_heap" where
  "empty_heap = \<lparr>ih_factories = [], ih_informers = [], ih_runs = []\<rparr>"

abbreviation factory_at :: "('e, 'r, 'rl, 'o, 'ol, 'v, 'w) informer_heap \<Rightarrow> nat \<Rightarrow> ('e, 'r, 'rl, 'o, 'ol, 'v, 'w) shared_factory" where
  "factory_at h f \<equiv> ih_factories h ! f"

definition upd_factory :: "nat \<Rightarrow> (('e, 'r, 'rl, 'o, 'ol, 'v, 'w) shared_factory \<Rightarrow> ('e, 'r, 'rl, 'o, 'ol, 'v, 'w) shared_factory) \<Rightarrow> ('e, 'r, 'rl, 'o, 'ol, 'v, 'w) informer_heap \<Rightarrow> ('e, 'r, 'rl, 'o, 'ol, 'v, 'w) informer_heap" where
  "upd_factory f g h = h\<lparr>ih_factories := (ih_factories h)[f := g (factory_at h f)]\<rparr>"

section \<open>The factory\<close>

type_synonym ('e, 'r, 'rl, 'o, 'ol, 'v, 'w) factory_option = "('e, 'r, 'rl, 'o, 'ol, 'v, 'w) shared_factory \<Rightarrow> ('e, 'r, 'rl, 'o, 'ol, 'v, 'w) shared_factory"

text \<open>The entries of \<open>resyncConfig\<close>, each with the type of its key, in the order the map is ranged over.\<close>

definition WithCustomResyncConfig ::
  "(resource_type \<times> go_int) list \<Rightarrow> ('e, 'r, 'rl, 'o, 'ol, 'v, 'w) factory_option" where
  "WithCustomResyncConfig resyncConfig factory =
     factory\<lparr>sf_customResync := fold (\<lambda>(k, v). fmupd k v) resyncConfig (sf_customResync factory)\<rparr>"

definition WithTweakListOptions :: "'w tweak option \<Rightarrow> ('e, 'r, 'rl, 'o, 'ol, 'v, 'w) factory_option" where
  "WithTweakListOptions tweakListOptions factory = factory\<lparr>sf_tweakListOptions := tweakListOptions\<rparr>"

definition WithNamespace :: "string \<Rightarrow> ('e, 'r, 'rl, 'o, 'ol, 'v, 'w) factory_option" where
  "WithNamespace namespace factory = factory\<lparr>sf_namespace := namespace\<rparr>"

definition NamespaceAll :: string where
  "NamespaceAll = ''''"

definition NewSharedInformerFactoryWithOptions ::
  "('e, 'r, 'rl, 'o, 'ol, 'v, 'w) networking_client \<Rightarrow> go_int \<Rightarrow> ('e, 'r, 'rl, 'o, 'ol, 'v, 'w) factory_option list \<Rightarrow> ('e, 'r, 'rl, 'o, 'ol, 'v, 'w) informer_heap \<Rightarrow> nat \<times> ('e, 'r, 'rl, 'o, 'ol, 'v, 'w) informer_heap" where
  "NewSharedInformerFactoryWithOptions client defaultResync opts h =
     (let factory = \<lparr>sf_client = client, sf_namespace = NamespaceAll, sf_tweakListOptions = None,
            sf_defaultResync = defaultResync, sf_customResync = fmempty, sf_informers = fmempty,
            sf_startedInformers = fmempty\<rparr>
      in (length (ih_factories h), h\<lparr>ih_factories := ih_factories h @ [fold (\<lambda>opt. opt) opts factory]\<rparr>))"

definition NewSharedInformerFactory :: "('e, 'r, 'rl, 'o, 'ol, 'v, 'w) networking_client \<Rightarrow> go_int \<Rightarrow> ('e, 'r, 'rl, 'o, 'ol, 'v, 'w) informer_heap \<Rightarrow> nat \<times> ('e, 'r, 'rl, 'o, 'ol, 'v, 'w) informer_heap" where
  "NewSharedInformerFactory client defaultResync h = NewSharedInformerFactoryWithOptions client defaultResync [] h"

definition NewFilteredSharedInformerFactory ::
  "('e, 'r, 'rl, 'o, 'ol, 'v, 'w) networking_client \<Rightarrow> go_int \<Rightarrow> string \<Rightarrow> 'w tweak option \<Rightarrow> ('e, 'r, 'rl, 'o, 'ol, 'v, 'w) informer_heap \<Rightarrow> nat \<times> ('e, 'r, 'rl, 'o, 'ol, 'v, 'w) informer_heap" where
  "NewFilteredSharedInformerFactory client defaultResync namespace tweakListOptions h =
     NewSharedInformerFactoryWithOptions client defaultResync
       [WithNamespace namespace, WithTweakListOptions tweakListOptions] h"

text \<open>\<open>order\<close> is the order in which the map of informers is ranged over; a type missing from
  \<open>startedInformers\<close> reads as false.\<close>

definition is_started :: "('e, 'r, 'rl, 'o, 'ol, 'v, 'w) shared_factory \<Rightarrow> resource_type \<Rightarrow> bool" where
  "is_started factory typ = (fmlookup (sf_startedInformers factory) typ = Some True)"

definition start_informer :: "nat \<Rightarrow> nat \<Rightarrow> resource_type \<times> nat \<Rightarrow> ('e, 'r, 'rl, 'o, 'ol, 'v, 'w) informer_heap \<Rightarrow> ('e, 'r, 'rl, 'o, 'ol, 'v, 'w) informer_heap" where
  "start_informer f stopCh entry h =
     (let (informerType, informer) = entry
      in if \<not> is_started (factory_at h f) informerType
         then upd_factory f (\<lambda>F. F\<lparr>sf_startedInformers := fmupd informerType True (sf_startedInformers F)\<rparr>)
                (h\<lparr>ih_runs := ih_runs h @ [(informer, stopCh)]\<rparr>)
         else h)"

definition factory_Start ::
  "((resource_type, nat) fmap \<Rightarrow> (resource_type \<times> nat) list) \<Rightarrow> nat \<Rightarrow> nat \<Rightarrow> ('e, 'r, 'rl, 'o, 'ol, 'v, 'w) informer_heap \<Rightarrow> ('e, 'r, 'rl, 'o, 'ol, 'v, 'w) informer_heap" where
  "factory_Start order f stopCh h = fold (start_informer f stopCh) (order (sf_informers (factory_at h f))) h"

text \<open>\<open>hasSynced\<close> is the answer of \<open>cache.WaitForCacheSync\<close> for an informer.\<close>

definition WaitForCacheSync :: "(nat \<Rightarrow> bool) \<Rightarrow> nat \<Rightarrow> ('e, 'r, 'rl, 'o, 'ol, 'v, 'w) informer_heap \<Rightarrow> (resource_type, bool) fmap" where
  "WaitForCacheSync hasSynced f h =
     (let informers = fmfilter (is_started (factory_at h f)) (sf_informers (factory_at h f))
      in fmmap hasSynced informers)"

definition InformerFor ::
  "nat \<Rightarrow> resource_type \<Rightarrow> (('e, 'r, 'rl, 'o, 'ol, 'v, 'w) networking_client \<Rightarrow> go_int \<Rightarrow> ('e, ('rl, 'ol) items, 'v, 'w) shared_informer) \<Rightarrow> ('e, 'r, 'rl, 'o, 'ol, 'v, 'w) informer_heap \<Rightarrow> nat \<times> ('e, 'r, 'rl, 'o, 'ol, 'v, 'w) informer_heap" where
  "InformerFor f informerType newFunc h =
     (let F = factory_at h f
      in case fmlookup (sf_informers F) informerType of
           Some informer \<Rightarrow> (informer, h)
         | None \<Rightarrow>
             let resyncPeriod = (case fmlookup (sf_customResync F) informerType of
                                   Some d \<Rightarrow> d | None \<Rightarrow> sf_defaultResync F);
                 informer = length (ih_informers h)
             in (informer,
                 upd_factory f (\<lambda>F. F\<lparr>sf_informers := fmupd informerType informer (sf_informers F)\<rparr>)
                   (h\<lparr>ih_informers := ih_informers h @ [newFunc (sf_client F) resyncPeriod]\<rparr>)))"

section \<open>The informers of the resources\<close>

definition NamespaceIndex :: string where
  "NamespaceIndex = ''namespace''"

definition tweaked :: "'w tweak option \<Rightarrow> 'w \<Rightarrow> list_options \<Rightarrow> list_options" where
  "tweaked tweak w opts = (case tweak of Some g \<Rightarrow> g w opts | None \<Rightarrow> opts)"

definition as_items :: "('l \<Rightarrow> ('rl, 'ol) items) \<Rightarrow> ('e + 'l) \<times> 'w \<Rightarrow> ('e + ('rl, 'ol) items) \<times> 'w" where
  "as_items c r = (case r of (Inl e, w) \<Rightarrow> (Inl e, w) | (Inr l, w) \<Rightarrow> (Inr (c l), w))"

text \<open>The struct behind the informers of a namespaced resource, and that of gateway classes.\<close>

record 'w informer_source =
  ri_factory :: nat
  ri_tweak :: "'w tweak option"
  ri_namespace :: string

record 'w cluster_source =
  ci_factory :: nat
  ci_tweak :: "'w tweak option"

text \<open>A lister reads the indexer of the shared informer: the argument \<open>indexer_of\<close>.\<close>

definition NewFilteredBackendPolicyInformer ::
  "('e, 'r, 'rl, 'o, 'ol, 'v, 'w) networking_client \<Rightarrow> string \<Rightarrow> go_int \<Rightarrow> string list \<Rightarrow> 'w tweak option \<Rightarrow>
   ('e, ('rl, 'ol) items, 'v, 'w) shared_informer" where
  "NewFilteredBackendPolicyInformer client ns resyncPeriod indexers tweak =
     \<lparr>si_List = (\<lambda>opts w. as_items ResourceItems (tcl_List (nc_BackendPolicies client ns) (tweaked tweak w opts) w)),
      si_Watch = (\<lambda>opts w. tcl_Watch (nc_BackendPolicies client ns) (tweaked tweak w opts) w),
      si_ObjectType = BackendPolicyType, si_Resync = resyncPeriod, si_Indexers = indexers\<rparr>"

definition NewBackendPolicyInformer ::
  "('e, 'r, 'rl, 'o, 'ol, 'v, 'w) networking_client \<Rightarrow> string \<Rightarrow> go_int \<Rightarrow> string list \<Rightarrow> ('e, ('rl, 'ol) items, 'v, 'w) shared_informer" where
  "NewBackendPolicyInformer client ns resyncPeriod indexers =
     NewFilteredBackendPolicyInformer client ns resyncPeriod indexers None"

definition backendPolicy_defaultInformer ::
  "'w informer_source \<Rightarrow> ('e, 'r, 'rl, 'o, 'ol, 'v, 'w) networking_client \<Rightarrow> go_int \<Rightarrow> ('e, ('rl, 'ol) items, 'v, 'w) shared_informer" where
  "backendPolicy_defaultInformer f client resyncPeriod =
     NewFilteredBackendPolicyInformer client (ri_namespace f) resyncPeriod [NamespaceIndex] (ri_tweak f)"

definition backendPolicy_Informer :: "'w informer_source \<Rightarrow> ('e, 'r, 'rl, 'o, 'ol, 'v, 'w) informer_heap \<Rightarrow> nat \<times> ('e, 'r, 'rl, 'o, 'ol, 'v, 'w) informer_heap" where
  "backendPolicy_Informer f h = InformerFor (ri_factory f) BackendPolicyType (backendPolicy_defaultInformer f) h"

definition backendPolicy_Lister ::
  "(('s, 't) api_resource) iteration \<Rightarrow> (nat \<Rightarrow> (('s, 't) api_resource) indexer) \<Rightarrow> 'w informer_source \<Rightarrow> ('e, 'r, 'rl, 'o, 'ol, 'v, 'w) informer_heap \<Rightarrow>
   (('s, 't) api_resource) lister \<times> ('e, 'r, 'rl, 'o, 'ol, 'v, 'w) informer_heap" where
  "backendPolicy_Lister iter indexer_of f h =
     (let (informer, h') = backendPolicy_Informer f h in (NewBackendPolicyLister iter (indexer_of informer), h'))"

definition NewFilteredGatewayInformer ::
  "('e, 'r, 'rl, 'o, 'ol, 'v, 'w) networking_client \<Rightarrow> string \<Rightarrow> go_int \<Rightarrow> string list \<Rightarrow> 'w tweak option \<Rightarrow>
   ('e, ('rl, 'ol) items, 'v, 'w) shared_informer" where
  "NewFilteredGatewayInformer client ns resyncPeriod indexers tweak =
     \<lparr>si_List = (\<lambda>opts w. as_items ResourceItems (tcl_List (nc_Gateways client ns) (tweaked tweak w opts) w)),
      si_Watch = (\<lambda>opts w. tcl_Watch (nc_Gateways client ns) (tweaked tweak w opts) w),
      si_ObjectType = GatewayType, si_Resync = resyncPeriod, si_Indexers = indexers\<rparr>"

definition NewGatewayInformer ::
  "('e, 'r, 'rl, 'o, 'ol, 'v, 'w) networking_client \<Rightarrow> string \<Rightarrow> go_int \<Rightarrow> string list \<Rightarrow> ('e, ('rl, 'ol) items, 'v, 'w) shared_informer" where
  "NewGatewayInformer client ns resyncPeriod indexers =
     NewFilteredGatewayInformer client ns resyncPeriod indexers None"

definition gateway_defaultInformer ::
  "'w informer_source \<Rightarrow> ('e, 'r, 'rl, 'o, 'ol, 'v, 'w) networking_client \<Rightarrow> go_int \<Rightarrow> ('e, ('rl, 'ol) items, 'v, 'w) shared_informer" where
  "gateway_defaultInformer f client resyncPeriod =
     NewFilteredGatewayInformer client (ri_namespace f) resyncPeriod [NamespaceIndex] (ri_tweak f)"

definition gateway_Informer :: "'w informer_source \<Rightarrow> ('e, 'r, 'rl, 'o, 'ol, 'v, 'w) informer_heap \<Rightarrow> nat \<times> ('e, 'r, 'rl, 'o, 'ol, 'v, 'w) informer_heap" where
  "gateway_Informer f h = InformerFor (ri_factory f) GatewayType (gateway_defaultInformer f) h"

definition gateway_Lister ::
  "(('s, 't) api_resource) iteration \<Rightarrow> (nat \<Rightarrow> (('s, 't) api_resource) indexer) \<Rightarrow> 'w informer_source \<Rightarrow> ('e, 'r, 'rl, 'o, 'ol, 'v, 'w) informer_heap \<Rightarrow>
   (('s, 't) api_resource) lister \<times> ('e, 'r, 'rl, 'o, 'ol, 'v, 'w) informer_heap" where
  "gateway_Lister iter indexer_of f h =
     (let (informer, h') = gateway_Informer f h in (NewGatewayLister iter (indexer_of informer), h'))"

definition NewFilteredGatewayClassInformer ::
  "('e, 'r, 'rl, 'o, 'ol, 'v, 'w) networking_client \<Rightarrow> go_int \<Rightarrow> string list \<Rightarrow> 'w tweak option \<Rightarrow>
   ('e, ('rl, 'ol) items, 'v, 'w) shared_informer" where
  "NewFilteredGatewayClassInformer client resyncPeriod indexers tweak =
     \<lparr>si_List = (\<lambda>opts w. as_items ResourceItems (tcl_List (nc_GatewayClasses client) (tweaked tweak w opts) w)),
      si_Watch = (\<lambda>opts w. tcl_Watch (nc_GatewayClasses client) (tweaked tweak w opts) w),
      si_ObjectType = GatewayClassType, si_Resync = resyncPeriod, si_Indexers = indexers\<rparr>"

definition NewGatewayClassInformer ::
  "('e, 'r, 'rl, 'o, 'ol, 'v, 'w) networking_client \<Rightarrow> go_int \<Rightarrow> string list \<Rightarrow> ('e, ('rl, 'ol) items, 'v, 'w) shared_informer" where
  "NewGatewayClassInformer client resyncPeriod indexers =
     NewFilteredGatewayClassInformer client resyncPeriod indexers None"

definition gatewayClass_defaultInformer ::
  "'w cluster_source \<Rightarrow> ('e, 'r, 'rl, 'o, 'ol, 'v, 'w) networking_client \<Rightarrow> go_int \<Rightarrow> ('e, ('rl, 'ol) items, 'v, 'w) shared_informer" where
  "gatewayClass_defaultInformer f client resyncPeriod =
     NewFilteredGatewayClassInformer client resyncPeriod [NamespaceIndex] (ci_tweak f)"

definition gatewayClass_Informer :: "'w cluster_source \<Rightarrow> ('e, 'r, 'rl, 'o, 'ol, 'v, 'w) informer_heap \<Rightarrow> nat \<times> ('e, 'r, 'rl, 'o, 'ol, 'v, 'w) informer_heap" where
  "gatewayClass_Informer f h = InformerFor (ci_factory f) GatewayClassType (gatewayClass_defaultInformer f) h"

definition gatewayClass_Lister ::
  "(('s, 't) api_resource) iteration \<Rightarrow> (nat \<Rightarrow> (('s, 't) api_resource) indexer) \<Rightarrow> 'w cluster_source \<Rightarrow> ('e, 'r, 'rl, 'o, 'ol, 'v, 'w) informer_heap \<Rightarrow>
   (('s, 't) api_resource) cluster_lister \<times> ('e, 'r, 'rl, 'o, 'ol, 'v, 'w) informer_heap" where
  "gatewayClass_Lister iter indexer_of f h =
     (let (informer, h') = gatewayClass_Informer f h in (NewGatewayClassLister iter (indexer_of informer), h'))"

definition NewFilteredHTTPRouteInformer ::
  "('e, 'r, 'rl, 'o, 'ol, 'v, 'w) networking_client \<Rightarrow> string \<Rightarrow> go_int \<Rightarrow> string list \<Rightarrow> 'w tweak option \<Rightarrow>
   ('e, ('rl, 'ol) items, 'v, 'w) shared_informer" where
  "NewFilteredHTTPRouteInformer client ns resyncPeriod indexers tweak =
     \<lparr>si_List = (\<lambda>opts w. as_items RouteItems (tcl_List (nc_HTTPRoutes client ns) (tweaked tweak w opts) w)),
      si_Watch = (\<lambda>opts w. tcl_Watch (nc_HTTPRoutes client ns) (tweaked tweak w opts) w),
      si_ObjectType = HTTPRouteType, si_Resync = resyncPeriod, si_Indexers = indexers\<rparr>"

definition NewHTTPRouteInformer ::
  "('e, 'r, 'rl, 'o, 'ol, 'v, 'w) networking_client \<Rightarrow> string \<Rightarrow> go_int \<Rightarrow> string list \<Rightarrow> ('e, ('rl, 'ol) items, 'v, 'w) shared_informer" where
  "NewHTTPRouteInformer client ns resyncPeriod indexers =
     NewFilteredHTTPRouteInformer client ns resyncPeriod indexers None"

definition hTTPRoute_defaultInformer ::
  "'w informer_source \<Rightarrow> ('e, 'r, 'rl, 'o, 'ol, 'v, 'w) networking_client \<Rightarrow> go_int \<Rightarrow> ('e, ('rl, 'ol) items, 'v, 'w) shared_informer" where
  "hTTPRoute_defaultInformer f client resyncPeriod =
     NewFilteredHTTPRouteInformer client (ri_namespace f) resyncPeriod [NamespaceIndex] (ri_tweak f)"

definition hTTPRoute_Informer :: "'w informer_source \<Rightarrow> ('e, 'r, 'rl, 'o, 'ol, 'v, 'w) informer_heap \<Rightarrow> nat \<times> ('e, 'r, 'rl, 'o, 'ol, 'v, 'w) informer_heap" where
  "hTTPRoute_Informer f h = InformerFor (ri_factory f) HTTPRouteType (hTTPRoute_defaultInformer f) h"

definition hTTPRoute_Lister ::
  "(http_route) iteration \<Rightarrow> (nat \<Rightarrow> (http_route) indexer) \<Rightarrow> 'w informer_source \<Rightarrow> ('e, 'r, 'rl, 'o, 'ol, 'v, 'w) informer_heap \<Rightarrow>
   (http_route) lister \<times> ('e, 'r, 'rl, 'o, 'ol, 'v, 'w) informer_heap" where
  "hTTPRoute_Lister iter indexer_of f h =
     (let (informer, h') = hTTPRoute_Informer f h in (NewHTTPRouteLister iter (indexer_of informer), h'))"

definition NewFilteredTCPRouteInformer ::
  "('e, 'r, 'rl, 'o, 'ol, 'v, 'w) networking_client \<Rightarrow> string \<Rightarrow> go_int \<Rightarrow> string list \<Rightarrow> 'w tweak option \<Rightarrow>
   ('e, ('rl, 'ol) items, 'v, 'w) shared_informer" where
  "NewFilteredTCPRouteInformer client ns resyncPeriod indexers tweak =
     \<lparr>si_List = (\<lambda>opts w. as_items ResourceItems (tcl_List (nc_TCPRoutes client ns) (tweaked tweak w opts) w)),
      si_Watch = (\<lambda>opts w. tcl_Watch (nc_TCPRoutes client ns) (tweaked tweak w opts) w),
      si_ObjectType = TCPRouteType, si_Resync = resyncPeriod, si_Indexers = indexers\<rparr>"

definition NewTCPRouteInformer ::
  "('e, 'r, 'rl, 'o, 'ol, 'v, 'w) networking_client \<Rightarrow> string \<Rightarrow> go_int \<Rightarrow> string list \<Rightarrow> ('e, ('rl, 'ol) items, 'v, 'w) shared_informer" where
  "NewTCPRouteInformer client ns resyncPeriod indexers =
     NewFilteredTCPRouteInformer client ns resyncPeriod indexers None"

definition tCPRoute_defaultInformer ::
  "'w informer_source \<Rightarrow> ('e, 'r, 'rl, 'o, 'ol, 'v, 'w) networking_client \<Rightarrow> go_int \<Rightarrow> ('e, ('rl, 'ol) items, 'v, 'w) shared_informer" where
  "tCPRoute_defaultInformer f client resyncPeriod =
     NewFilteredTCPRouteInformer client (ri_namespace f) resyncPeriod [NamespaceIndex] (ri_tweak f)"

definition tCPRoute_Informer :: "'w informer_source \<Rightarrow> ('e, 'r, 'rl, 'o, 'ol, 'v, 'w) informer_heap \<Rightarrow> nat \<times> ('e, 'r, 'rl, 'o, 'ol, 'v, 'w) informer_heap" where
  "tCPRoute_Informer f h = InformerFor (ri_factory f) TCPRouteType (tCPRoute_defaultInformer f) h"

definition tCPRoute_Lister ::
  "(('s, 't) api_resource) iteration \<Rightarrow> (nat \<Rightarrow> (('s, 't) api_resource) indexer) \<Rightarrow> 'w informer_source \<Rightarrow> ('e, 'r, 'rl, 'o, 'ol, 'v, 'w) informer_heap \<Rightarrow>
   (('s, 't) api_resource) lister \<times> ('e, 'r, 'rl, 'o, 'ol, 'v, 'w) informer_heap" where
  "tCPRoute_Lister iter indexer_of f h =
     (let (informer, h') = tCPRoute_Informer f h in (NewTCPRouteLister iter (indexer_of informer), h'))"

definition NewFilteredTLSRouteInformer ::
  "('e, 'r, 'rl, 'o, 'ol, 'v, 'w) networking_client \<Rightarrow> string \<Rightarrow> go_int \<Rightarrow> string list \<Rightarrow> 'w tweak option \<Rightarrow>
   ('e, ('rl, 'ol) items, 'v, 'w) shared_informer" where
  "NewFilteredTLSRouteInformer client ns resyncPeriod indexers tweak =
     \<lparr>si_List = (\<lambda>opts w. as_items ResourceItems (tcl_List (nc_TLSRoutes client ns) (tweaked tweak w opts) w)),
      si_Watch = (\<lambda>opts w. tcl_Watch (nc_TLSRoutes client ns) (tweaked tweak w opts) w),
      si_ObjectType = TLSRouteType, si_Resync = resyncPeriod, si_Indexers = indexers\<rparr>"

definition NewTLSRouteInformer ::
  "('e, 'r, 'rl, 'o, 'ol, 'v, 'w) networking_client \<Rightarrow> string \<Rightarrow> go_int \<Rightarrow> string list \<Rightarrow> ('e, ('rl, 'ol) items, 'v, 'w) shared_informer" where
  "NewTLSRouteInformer client ns resyncPeriod indexers =
     NewFilteredTLSRouteInformer client ns resyncPeriod indexers None"

definition tLSRoute_defaultInformer ::
  "'w informer_source \<Rightarrow> ('e, 'r, 'rl, 'o, 'ol, 'v, 'w) networking_client \<Rightarrow> go_int \<Rightarrow> ('e, ('rl, 'ol) items, 'v, 'w) shared_informer" where
  "tLSRoute_defaultInformer f client resyncPeriod =
     NewFilteredTLSRouteInformer client (ri_namespace f) resyncPeriod [NamespaceIndex] (ri_tweak f)"

definition tLSRoute_Informer :: "'w informer_source \<Rightarrow> ('e, 'r, 'rl, 'o, 'ol, 'v, 'w) informer_heap \<Rightarrow> nat \<times> ('e, 'r, 'rl, 'o, 'ol, 'v, 'w) informer_heap" where
  "tLSRoute_Informer f h = InformerFor (ri_factory f) TLSRouteType (tLSRoute_defaultInformer f) h"

definition tLSRoute_Lister ::
  "(('s, 't) api_resource) iteration \<Rightarrow> (nat \<Rightarrow> (('s, 't) api_resource) indexer) \<Rightarrow> 'w informer_source \<Rightarrow> ('e, 'r, 'rl, 'o, 'ol, 'v, 'w) informer_heap \<Rightarrow>
   (('s, 't) api_resource) lister \<times> ('e, 'r, 'rl, 'o, 'ol, 'v, 'w) informer_heap" where
  "tLSRoute_Lister iter indexer_of f h =
     (let (informer, h') = tLSRoute_Informer f h in (NewTLSRouteLister iter (indexer_of informer), h'))"

definition NewFilteredUDPRouteInformer ::
  "('e, 'r, 'rl, 'o, 'ol, 'v, 'w) networking_client \<Rightarrow> string \<Rightarrow> go_int \<Rightarrow> string list \<Rightarrow> 'w tweak option \<Rightarrow>
   ('e, ('rl, 'ol) items, 'v, 'w) shared_informer" where
  "NewFilteredUDPRouteInformer client ns resyncPeriod indexers tweak =
     \<lparr>si_List = (\<lambda>opts w. as_items ResourceItems (tcl_List (nc_UDPRoutes client ns) (tweaked tweak w opts) w)),
      si_Watch = (\<lambda>opts w. tcl_Watch (nc_UDPRoutes client ns) (tweaked tweak w opts) w),
      si_ObjectType = UDPRouteType, si_Resync = resyncPeriod, si_Indexers = indexers\<rparr>"

definition NewUDPRouteInformer ::
  "('e, 'r, 'rl, 'o, 'ol, 'v, 'w) networking_client \<Rightarrow> string \<Rightarrow> go_int \<Rightarrow> string list \<Rightarrow> ('e, ('rl, 'ol) items, 'v, 'w) shared_informer" where
  "NewUDPRouteInformer client ns resyncPeriod indexers =
     NewFilteredUDPRouteInformer client ns resyncPeriod indexers None"

definition uDPRoute_defaultInformer ::
  "'w informer_source \<Rightarrow> ('e, 'r, 'rl, 'o, 'ol, 'v, 'w) networking_client \<Rightarrow> go_int \<Rightarrow> ('e, ('rl, 'ol) items, 'v, 'w) shared_informer" where
  "uDPRoute_defaultInformer f client resyncPeriod =
     NewFilteredUDPRouteInformer client (ri_namespace f) resyncPeriod [NamespaceIndex] (ri_tweak f)"

definition uDPRoute_Informer :: "'w informer_source \<Rightarrow> ('e, 'r, 'rl, 'o, 'ol, 'v, 'w) informer_heap \<Rightarrow> nat \<times> ('e, 'r, 'rl, 'o, 'ol, 'v, 'w) informer_heap" where
  "uDPRoute_Informer f h = InformerFor (ri_factory f) UDPRouteType (uDPRoute_defaultInformer f) h"

definition uDPRoute_Lister ::
  "(('s, 't) api_resource) iteration \<Rightarrow> (nat \<Rightarrow> (('s, 't) api_resource) indexer) \<Rightarrow> 'w informer_source \<Rightarrow> ('e, 'r, 'rl, 'o, 'ol, 'v, 'w) informer_heap \<Rightarrow>
   (('s, 't) api_resource) lister \<times> ('e, 'r, 'rl, 'o, 'ol, 'v, 'w) informer_heap" where
  "uDPRoute_Lister iter indexer_of f h =
     (let (informer, h') = uDPRoute_Informer f h in (NewUDPRouteLister iter (indexer_of informer), h'))"

section \<open>The accessors\<close>

record 'w group_version =
  vs_factory :: nat
  vs_namespace :: string
  vs_tweak :: "'w tweak option"

record 'w api_group =
  ag_factory :: nat
  ag_namespace :: string
  ag_tweak :: "'w tweak option"

definition v1alpha1_New :: "nat \<Rightarrow> string \<Rightarrow> 'w tweak option \<Rightarrow> 'w group_version" where
  "v1alpha1_New f namespace tweak = \<lparr>vs_factory = f, vs_namespace = namespace, vs_tweak = tweak\<rparr>"

definition version_BackendPolicies :: "'w group_version \<Rightarrow> 'w informer_source" where
  "version_BackendPolicies v = \<lparr>ri_factory = vs_factory v, ri_tweak = vs_tweak v, ri_namespace = vs_namespace v\<rparr>"

definition version_Gateways :: "'w group_version \<Rightarrow> 'w informer_source" where
  "version_Gateways v = \<lparr>ri_factory = vs_factory v, ri_tweak = vs_tweak v, ri_namespace = vs_namespace v\<rparr>"

definition version_GatewayClasses :: "'w group_version \<Rightarrow> 'w cluster_source" where
  "version_GatewayClasses v = \<lparr>ci_factory = vs_factory v, ci_tweak = vs_tweak v\<rparr>"

definition version_HTTPRoutes :: "'w group_version \<Rightarrow> 'w informer_source" where
  "version_HTTPRoutes v = \<lparr>ri_factory = vs_factory v, ri_tweak = vs_tweak v, ri_namespace = vs_namespace v\<rparr>"

definition version_TCPRoutes :: "'w group_version \<Rightarrow> 'w informer_source" where
  "version_TCPRoutes v = \<lparr>ri_factory = vs_factory v, ri_tweak = vs_tweak v, ri_namespace = vs_namespace v\<rparr>"

definition version_TLSRoutes :: "'w group_version \<Rightarrow> 'w informer_source" where
  "version_TLSRoutes v = \<lparr>ri_factory = vs_factory v, ri_tweak = vs_tweak v, ri_namespace = vs_namespace v\<rparr>"

definition version_UDPRoutes :: "'w group_version \<Rightarrow> 'w informer_source" where
  "version_UDPRoutes v = \<lparr>ri_factory = vs_factory v, ri_tweak = vs_tweak v, ri_namespace = vs_namespace v\<rparr>"

definition apis_New :: "nat \<Rightarrow> string \<Rightarrow> 'w tweak option \<Rightarrow> 'w api_group" where
  "apis_New f namespace tweak = \<lparr>ag_factory = f, ag_namespace = namespace, ag_tweak = tweak\<rparr>"

definition group_V1alpha1 :: "'w api_group \<Rightarrow> 'w group_version" where
  "group_V1alpha1 g = v1alpha1_New (ag_factory g) (ag_namespace g) (ag_tweak g)"

definition factory_Networking :: "nat \<Rightarrow> ('e, 'r, 'rl, 'o, 'ol, 'v, 'w) informer_heap \<Rightarrow> 'w api_group" where
  "factory_Networking f h = apis_New f (sf_namespace (factory_at h f)) (sf_tweakListOptions (factory_at h f))"

record generic_informer =
  gi_informer :: nat
  gi_resource :: "string \<times> string"

datatype informer_error = NoInformerFound group_version_resource

definition ForResource ::
  "nat \<Rightarrow> group_version_resource \<Rightarrow> ('e, 'r, 'rl, 'o, 'ol, 'v, 'w) informer_heap \<Rightarrow> (informer_error + generic_informer) \<times> ('e, 'r, 'rl, 'o, 'ol, 'v, 'w) informer_heap" where
  "ForResource f resource h =
     (let found = (\<lambda>(informer, h').
            (Inr \<lparr>gi_informer = informer, gi_resource = (gvr_Group resource, gvr_Resource resource)\<rparr>, h'))
      in if resource = gateway_gvr ''backendpolicies''
      then found (backendPolicy_Informer (version_BackendPolicies (group_V1alpha1 (factory_Networking f h))) h)
      else if resource = gateway_gvr ''gateways''
      then found (gateway_Informer (version_Gateways (group_V1alpha1 (factory_Networking f h))) h)
      else if resource = gateway_gvr ''gatewayclasses''
      then found (gatewayClass_Informer (version_GatewayClasses (group_V1alpha1 (factory_Networking f h))) h)
      else if resource = gateway_gvr ''httproutes''
      then found (hTTPRoute_Informer (version_HTTPRoutes (group_V1alpha1 (factory_Networking f h))) h)
      else if resource = gateway_gvr ''tcproutes''
      then found (tCPRoute_Informer (version_TCPRoutes (group_V1alpha1 (factory_Networking f h))) h)
      else if resource = gateway_gvr ''tlsroutes''
      then found (tLSRoute_Informer (version_TLSRoutes (group_V1alpha1 (factory_Networking f h))) h)
      else if resource = gateway_gvr ''udproutes''
      then found (uDPRoute_Informer (version_UDPRoutes (group_V1alpha1 (factory_Networking f h))) h)
      else (Inl (NoInformerFound resource), h))"

section \<open>Calls on the heap\<close>

text \<open>The accessor of a resource, as callers reach it from the factory.\<close>

fun typed_Informer :: "nat \<Rightarrow> resource_type \<Rightarrow> ('e, 'r, 'rl, 'o, 'ol, 'v, 'w) informer_heap \<Rightarrow> nat \<times> ('e, 'r, 'rl, 'o, 'ol, 'v, 'w) informer_heap" where
  "typed_Informer f BackendPolicyType h = backendPolicy_Informer (version_BackendPolicies (group_V1alpha1 (factory_Networking f h))) h"
| "typed_Informer f GatewayType h = gateway_Informer (version_Gateways (group_V1alpha1 (factory_Networking f h))) h"
| "typed_Informer f GatewayClassType h = gatewayClass_Informer (version_GatewayClasses (group_V1alpha1 (factory_Networking f h))) h"
| "typed_Informer f HTTPRouteType h = hTTPRoute_Informer (version_HTTPRoutes (group_V1alpha1 (factory_Networking f h))) h"
| "typed_Informer f TCPRouteType h = tCPRoute_Informer (version_TCPRoutes (group_V1alpha1 (factory_Networking f h))) h"
| "typed_Informer f TLSRouteType h = tLSRoute_Informer (version_TLSRoutes (group_V1alpha1 (factory_Networking f h))) h"
| "typed_Informer f UDPRouteType h = uDPRoute_Informer (version_UDPRoutes (group_V1alpha1 (factory_Networking f h))) h"

declare typed_Informer.simps [simp del]

fun resource_of :: "resource_type \<Rightarrow> string" where
  "resource_of BackendPolicyType = ''backendpolicies''"
| "resource_of GatewayType = ''gateways''"
| "resource_of GatewayClassType = ''gatewayclasses''"
| "resource_of HTTPRouteType = ''httproutes''"
| "resource_of TCPRouteType = ''tcproutes''"
| "resource_of TLSRouteType = ''tlsroutes''"
| "resource_of UDPRouteType = ''udproutes''"

text \<open>What the informer of a type is to be: over the client of the factory, in its namespace, with its
  tweak and the resync period of the type.\<close>

definition resync_for :: "('e, 'r, 'rl, 'o, 'ol, 'v, 'w) shared_factory \<Rightarrow> resource_type \<Rightarrow> go_int" where
  "resync_for F t = (case fmlookup (sf_customResync F) t of Some d \<Rightarrow> d | None \<Rightarrow> sf_defaultResync F)"

fun informer_spec :: "('e, 'r, 'rl, 'o, 'ol, 'v, 'w) shared_factory \<Rightarrow> resource_type \<Rightarrow> ('e, ('rl, 'ol) items, 'v, 'w) shared_informer" where
  "informer_spec F BackendPolicyType = NewFilteredBackendPolicyInformer (sf_client F) (sf_namespace F)
     (resync_for F BackendPolicyType) [NamespaceIndex] (sf_tweakListOptions F)"
| "informer_spec F GatewayType = NewFilteredGatewayInformer (sf_client F) (sf_namespace F)
     (resync_for F GatewayType) [NamespaceIndex] (sf_tweakListOptions F)"
| "informer_spec F GatewayClassType = NewFilteredGatewayClassInformer (sf_client F)
     (resync_for F GatewayClassType) [NamespaceIndex] (sf_tweakListOptions F)"
| "informer_spec F HTTPRouteType = NewFilteredHTTPRouteInformer (sf_client F) (sf_namespace F)
     (resync_for F HTTPRouteType) [NamespaceIndex] (sf_tweakListOptions F)"
| "informer_spec F TCPRouteType = NewFilteredTCPRouteInformer (sf_client F) (sf_namespace F)
     (resync_for F TCPRouteType) [NamespaceIndex] (sf_tweakListOptions F)"
| "informer_spec F TLSRouteType = NewFilteredTLSRouteInformer (sf_client F) (sf_namespace F)
     (resync_for F TLSRouteType) [NamespaceIndex] (sf_tweakListOptions F)"
| "informer_spec F UDPRouteType = NewFilteredUDPRouteInformer (sf_client F) (sf_namespace F)
     (resync_for F UDPRouteType) [NamespaceIndex] (sf_tweakListOptions F)"

lemma resync_for_upd [simp]:
  "resync_for (F\<lparr>sf_informers := m\<rparr>) t = resync_for F t"
  "resync_for (F\<lparr>sf_startedInformers := s\<rparr>) t = resync_for F t"
  by (simp_all add: resync_for_def cong: option.case_cong)

lemma informer_spec_informers [simp]: "informer_spec (F\<lparr>sf_informers := m\<rparr>) t = informer_spec F t"
  by (cases t) simp_all

lemma informer_spec_started [simp]: "informer_spec (F\<lparr>sf_startedInformers := s\<rparr>) t = informer_spec F t"
  by (cases t) simp_all

lemma informer_spec_type [simp]: "si_ObjectType (informer_spec F t) = t"
  by (cases t) (simp_all add: NewFilteredBackendPolicyInformer_def NewFilteredGatewayInformer_def
      NewFilteredGatewayClassInformer_def NewFilteredHTTPRouteInformer_def NewFilteredTCPRouteInformer_def
      NewFilteredTLSRouteInformer_def NewFilteredUDPRouteInformer_def)

abbreviation slot :: "('e, 'r, 'rl, 'o, 'ol, 'v, 'w) informer_heap \<Rightarrow> nat \<Rightarrow> resource_type \<Rightarrow> nat option" where
  "slot h f t \<equiv> fmlookup (sf_informers (factory_at h f)) t"

lemmas accessor_defs = typed_Informer.simps backendPolicy_Informer_def gateway_Informer_def gatewayClass_Informer_def
  hTTPRoute_Informer_def tCPRoute_Informer_def tLSRoute_Informer_def uDPRoute_Informer_def
  version_BackendPolicies_def version_Gateways_def version_GatewayClasses_def version_HTTPRoutes_def
  version_TCPRoutes_def version_TLSRoutes_def version_UDPRoutes_def group_V1alpha1_def v1alpha1_New_def
  apis_New_def factory_Networking_def

lemmas default_informer_defs = backendPolicy_defaultInformer_def gateway_defaultInformer_def
  gatewayClass_defaultInformer_def hTTPRoute_defaultInformer_def tCPRoute_defaultInformer_def
  tLSRoute_defaultInformer_def uDPRoute_defaultInformer_def

lemma typed_Informer_known: "slot h f t = Some p \<Longrightarrow> typed_Informer f t h = (p, h)"
  by (cases t) (simp_all add: accessor_defs InformerFor_def)

definition with_informer :: "nat \<Rightarrow> resource_type \<Rightarrow> ('e, 'r, 'rl, 'o, 'ol, 'v, 'w) informer_heap \<Rightarrow> ('e, 'r, 'rl, 'o, 'ol, 'v, 'w) informer_heap" where
  "with_informer f t h = h\<lparr>ih_informers := ih_informers h @ [informer_spec (factory_at h f) t],
     ih_factories := (ih_factories h)[f := (factory_at h f)
       \<lparr>sf_informers := fmupd t (length (ih_informers h)) (sf_informers (factory_at h f))\<rparr>]\<rparr>"

lemma typed_Informer_fresh:
  "slot h f t = None \<Longrightarrow> typed_Informer f t h = (length (ih_informers h), with_informer f t h)"
  by (cases t) (simp_all add: accessor_defs InformerFor_def default_informer_defs with_informer_def
      upd_factory_def resync_for_def Let_def)

lemma ForResource_typed:
  "ForResource f (gateway_gvr (resource_of t)) h =
     (case typed_Informer f t h of (p, h') \<Rightarrow>
        (Inr \<lparr>gi_informer = p, gi_resource = (''networking.x-k8s.io'', resource_of t)\<rparr>, h'))"
  by (cases t) (simp_all add: ForResource_def gateway_gvr_def typed_Informer.simps)

lemma ForResource_other:
  assumes "\<And>t. gvr \<noteq> gateway_gvr (resource_of t)"
  shows "ForResource f gvr h = (Inl (NoInformerFound gvr), h)"
  using assms [of BackendPolicyType] assms [of GatewayType] assms [of GatewayClassType]
    assms [of HTTPRouteType] assms [of TCPRouteType] assms [of TLSRouteType] assms [of UDPRouteType]
  by (simp add: ForResource_def)

lemma ForResource_heap:
  "snd (ForResource f gvr h) = h \<or> (\<exists>t. snd (ForResource f gvr h) = snd (typed_Informer f t h))"
proof (cases "\<exists>t. gvr = gateway_gvr (resource_of t)")
  case True
  then obtain t where "gvr = gateway_gvr (resource_of t)" ..
  then have "snd (ForResource f gvr h) = snd (typed_Informer f t h)"
    by (simp add: ForResource_typed split: prod.split)
  then show ?thesis by blast
next
  case False
  then show ?thesis using ForResource_other [of gvr f h] by auto
qed

section \<open>Providers of shared objects\<close>

text \<open>
  What the clients of a factory rely on. Asking for a key gives its object and keeps everything given
  before; whoever asks again, at any later time, gets the same object and changes nothing.
\<close>

fun ask_all :: "('k \<Rightarrow> 's \<Rightarrow> 'p \<times> 's) \<Rightarrow> 'k list \<Rightarrow> 's \<Rightarrow> 'p list \<times> 's" where
  "ask_all ask [] s = ([], s)"
| "ask_all ask (k # ks) s = (let (p, s1) = ask k s; (ps, s2) = ask_all ask ks s1 in (p # ps, s2))"

locale shared_provider =
  fixes ask :: "'k \<Rightarrow> 's \<Rightarrow> 'p \<times> 's"
    and held :: "'k \<Rightarrow> 's \<Rightarrow> 'p option"
    and valid :: "'s \<Rightarrow> bool"
    and later :: "'s \<Rightarrow> 's \<Rightarrow> bool"
    and known :: "'k \<Rightarrow> 's \<Rightarrow> bool"
  assumes ask_valid: "valid s \<Longrightarrow> known k s \<Longrightarrow> ask k s = (p, s') \<Longrightarrow> valid s' \<and> later s s' \<and> held k s' = Some p"
    and ask_held: "held k s = Some p \<Longrightarrow> ask k s = (p, s)"
    and later_refl: "later s s"
    and later_trans: "later s s' \<Longrightarrow> later s' s'' \<Longrightarrow> later s s''"
    and later_known: "later s s' \<Longrightarrow> known k s \<Longrightarrow> known k s'"
    and later_held: "later s s' \<Longrightarrow> known k s \<Longrightarrow> held k s = Some p \<Longrightarrow> held k s' = Some p"
begin

lemma ask_again:
  assumes "valid s" and "known k s" and "ask k s = (p, s1)" and "later s1 s2"
  shows "ask k s2 = (p, s2)" and "held k s2 = Some p" and "later s s2" and "known k s2"
proof -
  note first = ask_valid [OF assms(1-3)]
  show all: "later s s2" using later_trans first assms(4) by blast
  then show "known k s2" using later_known assms(2) by blast
  show "held k s2 = Some p" using later_held [OF assms(4)] later_known first assms(2) by blast
  then show "ask k s2 = (p, s2)" by (rule ask_held)
qed

lemma ask_all_held:
  assumes "valid s" and "\<forall>k \<in> set ks. known k s" and "ask_all ask ks s = (ps, s')"
  shows "valid s' \<and> later s s' \<and> list_all2 (\<lambda>k p. held k s' = Some p) ks ps"
  using assms
proof (induction ks arbitrary: s ps)
  case Nil
  then show ?case by (simp add: later_refl)
next
  case (Cons k ks)
  obtain p s1 where one: "ask k s = (p, s1)" by fastforce
  obtain qs where rest: "ask_all ask ks s1 = (qs, s')" "ps = p # qs"
    using Cons.prems(3) one by (auto simp: Let_def split: prod.splits)
  have "known k s" using Cons.prems(2) by simp
  note first = ask_valid [OF Cons.prems(1) this one]
  have "\<forall>r \<in> set ks. known r s1" using Cons.prems(2) first later_known by auto
  note ih = Cons.IH [OF conjunct1 [OF first] this rest(1)]
  have "later s1 s'" using ih by blast
  from ask_again [OF Cons.prems(1) \<open>known k s\<close> one this] show ?case using ih rest(2) by simp
qed

end

section \<open>Sharing\<close>

text \<open>What an option of the constructor leaves alone.\<close>

definition configures :: "('e, 'r, 'rl, 'o, 'ol, 'v, 'w) factory_option \<Rightarrow> bool" where
  "configures opt \<longleftrightarrow> (\<forall>F. sf_informers (opt F) = sf_informers F \<and> sf_startedInformers (opt F) = sf_startedInformers F)"

lemma configures_options [simp]:
  "configures (WithNamespace ns)" "configures (WithTweakListOptions tw)" "configures (WithCustomResyncConfig cs)"
  by (simp_all add: configures_def WithNamespace_def WithTweakListOptions_def WithCustomResyncConfig_def)

lemma fold_configures:
  "\<forall>opt \<in> set opts. configures opt \<Longrightarrow>
   sf_informers (fold (\<lambda>opt. opt) opts F) = sf_informers F \<and>
   sf_startedInformers (fold (\<lambda>opt. opt) opts F) = sf_startedInformers F"
  by (induction opts arbitrary: F) (auto simp: configures_def)

definition ranges :: "((resource_type, nat) fmap \<Rightarrow> (resource_type \<times> nat) list) \<Rightarrow> bool" where
  "ranges order \<longleftrightarrow> (\<forall>m. distinct (map fst (order m)) \<and> (\<forall>t p. (t, p) \<in> set (order m) \<longleftrightarrow> fmlookup m t = Some p))"

inductive heap_step :: "((resource_type, nat) fmap \<Rightarrow> (resource_type \<times> nat) list) \<Rightarrow> ('e, 'r, 'rl, 'o, 'ol, 'v, 'w) informer_heap \<Rightarrow> ('e, 'r, 'rl, 'o, 'ol, 'v, 'w) informer_heap \<Rightarrow> bool"
  for order where
  NewFactory: "\<forall>opt \<in> set opts. configures opt \<Longrightarrow>
    heap_step order h (snd (NewSharedInformerFactoryWithOptions client d opts h))"
| GetInformer: "f < length (ih_factories h) \<Longrightarrow> heap_step order h (snd (typed_Informer f t h))"
| GetResource: "f < length (ih_factories h) \<Longrightarrow> heap_step order h (snd (ForResource f gvr h))"
| StartAll: "f < length (ih_factories h) \<Longrightarrow> heap_step order h (factory_Start order f stopCh h)"

definition heap_inv :: "('e, 'r, 'rl, 'o, 'ol, 'v, 'w) informer_heap \<Rightarrow> bool" where
  "heap_inv h \<longleftrightarrow>
     (\<forall>f < length (ih_factories h). \<forall>t p. slot h f t = Some p \<longrightarrow>
        p < length (ih_informers h) \<and> ih_informers h ! p = informer_spec (factory_at h f) t) \<and>
     (\<forall>f < length (ih_factories h). \<forall>g < length (ih_factories h). \<forall>t s p.
        slot h f t = Some p \<longrightarrow> slot h g s = Some p \<longrightarrow> f = g \<and> t = s) \<and>
     distinct (map fst (ih_runs h)) \<and>
     (\<forall>p \<in> fst ` set (ih_runs h). \<exists>f < length (ih_factories h). \<exists>t. slot h f t = Some p \<and> is_started (factory_at h f) t) \<and>
     (\<forall>f < length (ih_factories h). \<forall>t. is_started (factory_at h f) t \<longrightarrow>
        (\<exists>p. slot h f t = Some p \<and> p \<in> fst ` set (ih_runs h)))"

lemma inv_slot:
  "heap_inv h \<Longrightarrow> f < length (ih_factories h) \<Longrightarrow> slot h f t = Some p \<Longrightarrow>
   p < length (ih_informers h) \<and> ih_informers h ! p = informer_spec (factory_at h f) t"
  by (simp add: heap_inv_def)

lemma inv_unique:
  "heap_inv h \<Longrightarrow> f < length (ih_factories h) \<Longrightarrow> g < length (ih_factories h) \<Longrightarrow>
   slot h f t = Some p \<Longrightarrow> slot h g s = Some p \<Longrightarrow> f = g \<and> t = s"
  unfolding heap_inv_def by (elim conjE) meson

lemma inv_distinct: "heap_inv h \<Longrightarrow> distinct (map fst (ih_runs h))"
  by (simp add: heap_inv_def)

lemma inv_run:
  assumes "heap_inv h" and "p \<in> fst ` set (ih_runs h)"
  obtains f t where "f < length (ih_factories h)" "slot h f t = Some p" "is_started (factory_at h f) t"
  using assms unfolding heap_inv_def by (elim conjE) (drule (1) bspec, elim exE conjE, rule that)

lemma inv_started:
  assumes "heap_inv h" and "f < length (ih_factories h)" and "is_started (factory_at h f) t"
  obtains p where "slot h f t = Some p" "p \<in> fst ` set (ih_runs h)"
  using assms unfolding heap_inv_def by (elim conjE) metis

lemma heap_invI:
  assumes "\<And>f t p. f < length (ih_factories h) \<Longrightarrow> slot h f t = Some p \<Longrightarrow>
      p < length (ih_informers h) \<and> ih_informers h ! p = informer_spec (factory_at h f) t"
    and "\<And>f g t s p. f < length (ih_factories h) \<Longrightarrow> g < length (ih_factories h) \<Longrightarrow>
      slot h f t = Some p \<Longrightarrow> slot h g s = Some p \<Longrightarrow> f = g \<and> t = s"
    and "distinct (map fst (ih_runs h))"
    and "\<And>p. p \<in> fst ` set (ih_runs h) \<Longrightarrow>
      \<exists>f < length (ih_factories h). \<exists>t. slot h f t = Some p \<and> is_started (factory_at h f) t"
    and "\<And>f t. f < length (ih_factories h) \<Longrightarrow> is_started (factory_at h f) t \<Longrightarrow>
      \<exists>p. slot h f t = Some p \<and> p \<in> fst ` set (ih_runs h)"
  shows "heap_inv h"
  unfolding heap_inv_def
proof (intro conjI allI impI ballI, goal_cases)
  case (1 f t p) then show ?case using assms(1) by blast
next
  case (2 f t p) then show ?case using assms(1) by blast
next
  case (3 f g t s p) then show ?case using assms(2) [OF 3] by simp
next
  case (4 f g t s p) then show ?case using assms(2) [OF 4] by simp
next
  case 5 show ?case by (rule assms(3))
next
  case (6 p) then show ?case by (rule assms(4))
next
  case (7 f t) then show ?case by (rule assms(5))
qed

text \<open>What later heaps keep.\<close>

definition heap_le :: "('e, 'r, 'rl, 'o, 'ol, 'v, 'w) informer_heap \<Rightarrow> ('e, 'r, 'rl, 'o, 'ol, 'v, 'w) informer_heap \<Rightarrow> bool" where
  "heap_le h h' \<longleftrightarrow> length (ih_factories h) \<le> length (ih_factories h') \<and>
     (\<forall>f < length (ih_factories h).
        (\<forall>t p. slot h f t = Some p \<longrightarrow> slot h' f t = Some p) \<and>
        (\<forall>t. informer_spec (factory_at h' f) t = informer_spec (factory_at h f) t) \<and>
        (\<forall>t. is_started (factory_at h f) t \<longrightarrow> is_started (factory_at h' f) t))"

lemma heap_le_refl [simp]: "heap_le h h"
  by (simp add: heap_le_def)

lemma heap_le_trans: "heap_le h h' \<Longrightarrow> heap_le h' h'' \<Longrightarrow> heap_le h h''"
  unfolding heap_le_def by simp

lemma heap_le_slot: "heap_le h h' \<Longrightarrow> f < length (ih_factories h) \<Longrightarrow> slot h f t = Some p \<Longrightarrow> slot h' f t = Some p"
  by (simp add: heap_le_def)

lemma heap_le_spec:
  "heap_le h h' \<Longrightarrow> f < length (ih_factories h) \<Longrightarrow>
   informer_spec (factory_at h' f) t = informer_spec (factory_at h f) t"
  by (simp add: heap_le_def)

lemma with_informer_parts:
  assumes "f < length (ih_factories h)"
  shows "length (ih_factories (with_informer f t h)) = length (ih_factories h)"
    "length (ih_informers (with_informer f t h)) = Suc (length (ih_informers h))"
    "ih_runs (with_informer f t h) = ih_runs h"
    "slot (with_informer f t h) g s = (if g = f \<and> s = t then Some (length (ih_informers h)) else slot h g s)"
    "informer_spec (factory_at (with_informer f t h) g) s = informer_spec (factory_at h g) s"
    "is_started (factory_at (with_informer f t h) g) s = is_started (factory_at h g) s"
    "p < length (ih_informers h) \<Longrightarrow> ih_informers (with_informer f t h) ! p = ih_informers h ! p"
    "ih_informers (with_informer f t h) ! length (ih_informers h) = informer_spec (factory_at h f) t"
  using assms by (auto simp: with_informer_def nth_list_update is_started_def nth_append)

lemma with_informer_inv:
  assumes "heap_inv h" and f: "f < length (ih_factories h)" and "slot h f t = None"
  shows "heap_inv (with_informer f t h) \<and> heap_le h (with_informer f t h)"
proof -
  note parts = with_informer_parts [OF f]
  have less: "slot h g s = Some p \<Longrightarrow> g < length (ih_factories h) \<Longrightarrow> p < length (ih_informers h)" for g s p
    using inv_slot [OF assms(1)] by blast
  have "heap_inv (with_informer f t h)"
  proof (rule heap_invI, unfold parts, goal_cases)
    case (1 g s p)
    show ?case
    proof (cases "g = f \<and> s = t")
      case True
      then show ?thesis using 1 parts(8) by auto
    next
      case False
      then show ?thesis using 1 less [of g s p] inv_slot [OF assms(1), of g s p] by (auto simp: parts)
    qed
  next
    case (2 g g' s s' p)
    then show ?case using less [of g s p] less [of g' s' p] inv_unique [OF assms(1), of g g' s p s']
      by (auto split: if_splits)
  next
    case 3
    then show ?case using inv_distinct [OF assms(1)] .
  next
    case (4 p)
    then obtain g s where "g < length (ih_factories h)" "slot h g s = Some p" "is_started (factory_at h g) s"
      using inv_run [OF assms(1)] by blast
    then show ?case using assms(3) by (intro exI [of _ g] conjI exI [of _ s]) auto
  next
    case (5 g s)
    then obtain p where "slot h g s = Some p" "p \<in> fst ` set (ih_runs h)"
      using inv_started [OF assms(1)] by blast
    then show ?case using assms(3) by (intro exI [of _ p]) auto
  qed
  moreover have "heap_le h (with_informer f t h)"
    using assms(3) by (auto simp: heap_le_def parts)
  ultimately show ?thesis ..
qed

lemma typed_Informer_inv:
  assumes "heap_inv h" and "f < length (ih_factories h)" and "typed_Informer f t h = (p, h')"
  shows "heap_inv h' \<and> heap_le h h' \<and> slot h' f t = Some p"
proof (cases "slot h f t")
  case None
  then show ?thesis using assms(3) with_informer_inv [OF assms(1,2) None]
    by (auto simp: typed_Informer_fresh with_informer_parts(4) [OF assms(2)])
next
  case (Some q)
  then show ?thesis using assms by (simp add: typed_Informer_known)
qed

text \<open>The factories of the heap are such a provider, for the pairs of a factory and a type.\<close>

interpretation factories: shared_provider "\<lambda>(f, t). typed_Informer f t" "\<lambda>(f, t) h. slot h f t" heap_inv heap_le
    "\<lambda>(f, t) h. f < length (ih_factories h)"
  by unfold_locales
     (auto simp: typed_Informer_known dest: typed_Informer_inv heap_le_slot intro: heap_le_trans,
       auto simp: heap_le_def)

lemma start_informer_parts:
  assumes "f < length (ih_factories h)"
  shows "length (ih_factories (start_informer f c (t, p) h)) = length (ih_factories h)"
    "ih_informers (start_informer f c (t, p) h) = ih_informers h"
    "ih_runs (start_informer f c (t, p) h) = ih_runs h @ (if is_started (factory_at h f) t then [] else [(p, c)])"
    "slot (start_informer f c (t, p) h) g s = slot h g s"
    "informer_spec (factory_at (start_informer f c (t, p) h) g) s = informer_spec (factory_at h g) s"
    "is_started (factory_at (start_informer f c (t, p) h) g) s \<longleftrightarrow> is_started (factory_at h g) s \<or> g = f \<and> s = t"
  using assms by (auto simp: start_informer_def upd_factory_def nth_list_update is_started_def)

lemma start_informer_inv:
  assumes "heap_inv h" and f: "f < length (ih_factories h)" and slot: "slot h f t = Some p"
  shows "heap_inv (start_informer f c (t, p) h) \<and> heap_le h (start_informer f c (t, p) h)"
proof -
  note parts = start_informer_parts [OF f]
  have fresh: "p \<notin> fst ` set (ih_runs h)" if "\<not> is_started (factory_at h f) t"
  proof
    assume "p \<in> fst ` set (ih_runs h)"
    then obtain g s where g: "g < length (ih_factories h)" "slot h g s = Some p" "is_started (factory_at h g) s"
      by (rule inv_run [OF assms(1)])
    then show False using that inv_unique [OF assms(1) g(1) f g(2) slot] by blast
  qed
  have "heap_inv (start_informer f c (t, p) h)"
  proof (rule heap_invI, unfold parts, goal_cases)
    case (1 g s q)
    then show ?case using inv_slot [OF assms(1)] by blast
  next
    case (2 g g' s s' q)
    then show ?case using inv_unique [OF assms(1)] by blast
  next
    case 3
    then show ?case using inv_distinct [OF assms(1)] fresh by simp
  next
    case (4 q)
    then consider "q \<in> fst ` set (ih_runs h)" | "q = p" by (auto split: if_splits)
    then show ?case
    proof cases
      case 1
      then show ?thesis using inv_run [OF assms(1), of q] by blast
    next
      case 2
      then show ?thesis using f slot by blast
    qed
  next
    case (5 g s)
    then consider "is_started (factory_at h g) s" | "g = f" "s = t" "\<not> is_started (factory_at h g) s" by blast
    then show ?case
    proof cases
      case 1
      then obtain q where "slot h g s = Some q" "q \<in> fst ` set (ih_runs h)"
        using 5 inv_started [OF assms(1)] by blast
      then show ?thesis by auto
    next
      case 2
      then show ?thesis using slot by auto
    qed
  qed
  moreover have "heap_le h (start_informer f c (t, p) h)"
    by (simp add: heap_le_def parts)
  ultimately show ?thesis ..
qed

lemma start_fold:
  fixes c :: nat
  assumes "heap_inv h" and "f < length (ih_factories h)" and "\<forall>(t, p) \<in> set es. slot h f t = Some p"
  defines "h' \<equiv> fold (start_informer f c) es h"
  shows "heap_inv h' \<and> heap_le h h' \<and> (\<forall>g. sf_informers (factory_at h' g) = sf_informers (factory_at h g)) \<and>
    (\<forall>(t, p) \<in> set es. is_started (factory_at h' f) t)"
  using assms(1-3) unfolding h'_def
proof (induction es arbitrary: h)
  case Nil
  then show ?case by simp
next
  case (Cons e es)
  obtain t p where e: "e = (t, p)" by fastforce
  let ?k = "start_informer f c e h"
  note parts = start_informer_parts [OF Cons.prems(2), of c t p]
  have same: "sf_informers (factory_at ?k g) = sf_informers (factory_at h g)" for g
    using parts(4) by (intro fmap_ext) (simp add: e)
  have k: "heap_inv ?k \<and> heap_le h ?k"
    using start_informer_inv [OF Cons.prems(1,2)] Cons.prems(3) by (auto simp: e)
  have f: "f < length (ih_factories ?k)" using Cons.prems(2) parts(1) by (simp add: e)
  have es: "\<forall>(t, p) \<in> set es. slot ?k f t = Some p" using Cons.prems(3) by (simp add: same)
  note ih = Cons.IH [OF conjunct1 [OF k] f es]
  have "is_started (factory_at ?k f) t" using parts(6) by (simp add: e)
  moreover have "heap_le ?k (fold (start_informer f c) es ?k)" using ih by blast
  ultimately have "is_started (factory_at (fold (start_informer f c) es ?k) f) t"
    using f unfolding heap_le_def by blast
  then show ?case using ih k same heap_le_trans by (auto simp: e)
qed

lemma factory_Start_inv:
  fixes c :: nat
  assumes "ranges order" and "heap_inv h" and "f < length (ih_factories h)"
  defines "h' \<equiv> factory_Start order f c h"
  shows "heap_inv h' \<and> heap_le h h' \<and> (\<forall>t p. slot h f t = Some p \<longrightarrow> is_started (factory_at h' f) t) \<and>
    sf_informers (factory_at h' f) = sf_informers (factory_at h f)"
proof -
  have es: "\<forall>(t, p) \<in> set (order (sf_informers (factory_at h f))). slot h f t = Some p"
    using assms(1) by (auto simp: ranges_def)
  show ?thesis
    using start_fold [OF assms(2,3) es, of c] assms(1) by (auto simp: h'_def factory_Start_def ranges_def)
qed

lemma heap_step_inv:
  assumes "ranges order" and "heap_step order h h'" and "heap_inv h"
  shows "heap_inv h' \<and> heap_le h h'"
  using assms(2,3)
proof cases
  case (NewFactory opts client d)
  let ?F = "\<lparr>sf_client = client, sf_namespace = NamespaceAll, sf_tweakListOptions = None,
    sf_defaultResync = d, sf_customResync = fmempty, sf_informers = fmempty, sf_startedInformers = fmempty\<rparr>"
  let ?G = "fold (\<lambda>opt. opt) opts ?F"
  have new: "sf_informers ?G = fmempty" "\<not> is_started ?G t" for t
    using fold_configures [OF NewFactory(2), of ?F] by (simp_all add: is_started_def)
  have h': "h' = h\<lparr>ih_factories := ih_factories h @ [?G]\<rparr>"
    using NewFactory(1) by (simp add: NewSharedInformerFactoryWithOptions_def)
  have at: "factory_at h' f = (if f = length (ih_factories h) then ?G else factory_at h f)"
    if "f < length (ih_factories h')" for f
    using that by (auto simp: h' nth_append less_Suc_eq)
  have old: "f < length (ih_factories h)" if "f < length (ih_factories h')" "slot h' f t = Some p" for f t p
    using that at [OF that(1)] new(1) by (auto simp: h' less_Suc_eq split: if_splits)
  have runs: "ih_runs h' = ih_runs h" "ih_informers h' = ih_informers h" "length (ih_factories h') = Suc (length (ih_factories h))"
    by (simp_all add: h')
  have keep: "factory_at h' f = factory_at h f" if "f < length (ih_factories h)" for f
    using that by (simp add: h' nth_append)
  have "heap_inv h'"
  proof (rule heap_invI, goal_cases)
    case (1 f t p)
    then show ?case using inv_slot [OF assms(3) old [OF 1]] keep [OF old [OF 1]] by (simp add: runs)
  next
    case (2 f g t s p)
    note f = old [OF 2(1,3)] and g = old [OF 2(2,4)]
    show ?case using 2(3,4) inv_unique [OF assms(3) f g] by (simp add: keep [OF f] keep [OF g])
  next
    case 3
    then show ?case using inv_distinct [OF assms(3)] by (simp add: runs)
  next
    case (4 p)
    then obtain f t where f: "f < length (ih_factories h)" "slot h f t = Some p" "is_started (factory_at h f) t"
      using inv_run [OF assms(3), of p] by (auto simp: runs)
    then show ?case using keep [OF f(1)] by (intro exI [of _ f]) (auto simp: runs)
  next
    case (5 f t)
    then have f: "f < length (ih_factories h)" using at [OF 5(1)] new(2) by (auto simp: h' less_Suc_eq split: if_splits)
    then obtain p where "slot h f t = Some p" "p \<in> fst ` set (ih_runs h)"
      using 5 keep [OF f] inv_started [OF assms(3) f] by auto
    then show ?case using keep [OF f] by (auto simp: runs)
  qed
  moreover have "heap_le h h'" by (auto simp: heap_le_def h' nth_append)
  ultimately show ?thesis ..
next
  case (GetInformer f t)
  then show ?thesis using typed_Informer_inv [OF assms(3), of f t] by (cases "typed_Informer f t h") auto
next
  case (GetResource f gvr)
  then consider "h' = h" | t where "h' = snd (typed_Informer f t h)" using ForResource_heap [of f gvr h] by auto
  then show ?thesis
  proof cases
    case 1
    then show ?thesis using assms(3) by simp
  next
    case (2 t)
    then show ?thesis using typed_Informer_inv [OF assms(3) GetResource(2), of t] by (cases "typed_Informer f t h") auto
  qed
next
  case (StartAll f c)
  then show ?thesis using factory_Start_inv [OF assms(1,3)] by blast
qed

lemma heap_steps_inv:
  assumes "ranges order" and "(heap_step order)\<^sup>*\<^sup>* h h'" and "heap_inv h"
  shows "heap_inv h' \<and> heap_le h h'"
  using assms(2,3)
proof (induction rule: rtranclp_induct)
  case base
  then show ?case by simp
next
  case (step k k')
  then show ?case using heap_step_inv [OF assms(1) step.hyps(2)] heap_le_trans by blast
qed

lemma empty_heap_inv [simp]: "heap_inv empty_heap"
  by (simp add: heap_inv_def empty_heap_def)

lemma filter_fresh_key: "p \<notin> fst ` set rs \<Longrightarrow> filter (\<lambda>(q, c). q = p) rs = []"
  by (induction rs) auto

lemma filter_distinct_keys:
  "distinct (map fst rs) \<Longrightarrow> length (filter (\<lambda>(q, c). q = p) rs) \<le> 1"
proof (induction rs)
  case (Cons r rs)
  show ?case
  proof (cases "fst r = p")
    case True
    then have "filter (\<lambda>(q, c). q = p) rs = []" using Cons.prems by (intro filter_fresh_key) auto
    then show ?thesis by (simp split: prod.split)
  next
    case False
    then show ?thesis using Cons by (auto split: prod.split)
  qed
qed simp

lemma heap_run_once: "heap_inv h \<Longrightarrow> length (filter (\<lambda>(q, c). q = p) (ih_runs h)) \<le> 1"
  by (rule filter_distinct_keys [OF inv_distinct])

lemma heap_run_exactly_once:
  assumes "heap_inv h" and "p \<in> fst ` set (ih_runs h)"
  shows "length (filter (\<lambda>(q, c). q = p) (ih_runs h)) = 1"
proof -
  have "filter (\<lambda>(q, c). q = p) (ih_runs h) \<noteq> []"
    using assms(2) by (auto simp: filter_empty_conv)
  then have "0 < length (filter (\<lambda>(q, c). q = p) (ih_runs h))" by blast
  then show ?thesis using heap_run_once [OF assms(1), of p] by linarith
qed

lemma other_informer:
  assumes "heap_inv h" and "f < length (ih_factories h)" and "g < length (ih_factories h)"
    and "slot h f t = Some p" and "(g, s) \<noteq> (f, t)"
  shows "fst (typed_Informer g s h) \<noteq> p"
proof (cases "slot h g s")
  case None
  then show ?thesis using inv_slot [OF assms(1,2,4)] by (simp add: typed_Informer_fresh)
next
  case (Some q)
  then show ?thesis using inv_unique [OF assms(1,3,2), of s p t] assms(4,5) by (auto simp: typed_Informer_known)
qed

text \<open>C34. Informers are shared. Once a factory has been asked for the informer of a type, every later request,
  whatever happened in between, gives the same one. It lists and watches through the client of that
  factory, in its namespace and with its tweak. No other factory and no other type ever gets it, and it
  is run at most once.\<close>

theorem informers_shared:
  assumes "ranges order" and "(heap_step order)\<^sup>*\<^sup>* empty_heap h" and "f < length (ih_factories h)"
    and "typed_Informer f t h = (p, h1)" and "(heap_step order)\<^sup>*\<^sup>* h1 h2"
  shows "typed_Informer f t h2 = (p, h2) \<and> ih_informers h2 ! p = informer_spec (factory_at h f) t \<and>
    (\<forall>g < length (ih_factories h2). \<forall>s. (g, s) \<noteq> (f, t) \<longrightarrow> fst (typed_Informer g s h2) \<noteq> p) \<and>
    length (filter (\<lambda>(q, c). q = p) (ih_runs h2)) \<le> 1"
proof -
  have h: "heap_inv h" using heap_steps_inv [OF assms(1,2)] by simp
  have h1: "heap_inv h1" using typed_Informer_inv [OF h assms(3,4)] by simp
  have h2: "heap_inv h2" "heap_le h1 h2" using heap_steps_inv [OF assms(1,5) h1] by simp_all
  note again = factories.ask_again [of h "(f, t)" p h1 h2, simplified, OF h assms(3,4) h2(2)]
  note p = again(2) and f2 = again(4)
  have "informer_spec (factory_at h2 f) t = informer_spec (factory_at h f) t"
    by (rule heap_le_spec [OF again(3) assms(3)])
  then show ?thesis
    using p inv_slot [OF h2(1) f2 p] heap_run_once [OF h2(1)] other_informer [OF h2(1) f2 _ p]
    by (simp add: typed_Informer_known)
qed

text \<open>An order, and a heap with one factory over the fake clients.\<close>

definition declared_order :: "(resource_type, nat) fmap \<Rightarrow> (resource_type \<times> nat) list" where
  "declared_order m = [(t, the (fmlookup m t)). t \<leftarrow> [BackendPolicyType, GatewayType, GatewayClassType, HTTPRouteType,
     TCPRouteType, TLSRouteType, UDPRouteType], fmlookup m t \<noteq> None]"

lemma ranges_declared_order: "ranges declared_order"
  unfolding ranges_def
proof (intro allI conjI)
  fix m
  show "distinct (map fst (declared_order m))" by (auto simp: declared_order_def)
next
  fix m t p
  show "((t, p) \<in> set (declared_order m)) = (fmlookup m t = Some p)"
    by (cases t) (auto simp: declared_order_def)
qed

abbreviation small_client where
  "small_client \<equiv> FakeNetworkingV1alpha1 small_gateway small_env (simple_fake small_env)"

definition small_heap where
  "small_heap = snd (NewFilteredSharedInformerFactory small_client 0 ''ns'' None empty_heap)"

lemma small_heap_reached: "(heap_step order)\<^sup>*\<^sup>* empty_heap small_heap" "length (ih_factories small_heap) = 1"
proof -
  have "heap_step order empty_heap small_heap"
    unfolding small_heap_def NewFilteredSharedInformerFactory_def by (rule NewFactory) simp
  then show "(heap_step order)\<^sup>*\<^sup>* empty_heap small_heap" ..
  show "length (ih_factories small_heap) = 1"
    by (simp add: small_heap_def NewFilteredSharedInformerFactory_def NewSharedInformerFactoryWithOptions_def empty_heap_def)
qed

theorem informers_shared_witness:
  "\<exists>p h1. typed_Informer 0 HTTPRouteType small_heap = (p, h1) \<and>
     typed_Informer 0 HTTPRouteType (factory_Start declared_order 0 7 h1) = (p, factory_Start declared_order 0 7 h1)"
proof -
  obtain p h1 where get: "typed_Informer 0 HTTPRouteType small_heap = (p, h1)" by fastforce
  have f: "0 < length (ih_factories small_heap)" by (simp add: small_heap_reached(2))
  have "heap_inv small_heap" using heap_steps_inv [OF ranges_declared_order small_heap_reached(1)] by simp
  then have "0 < length (ih_factories h1)"
    using typed_Informer_inv [OF _ f get] f unfolding heap_le_def by auto
  then have "heap_step declared_order h1 (factory_Start declared_order 0 7 h1)" by (rule StartAll)
  then have "(heap_step declared_order)\<^sup>*\<^sup>* h1 (factory_Start declared_order 0 7 h1)" ..
  then show ?thesis
    using informers_shared [OF ranges_declared_order small_heap_reached(1) f get] get by blast
qed

text \<open>\<open>Start\<close> runs every informer the factory has been asked for, each exactly once however often it is
  called: a second call changes nothing. \<open>WaitForCacheSync\<close> then reports on exactly these.\<close>

theorem started_once:
  assumes "ranges order" and "(heap_step order)\<^sup>*\<^sup>* empty_heap h" and "f < length (ih_factories h)"
  shows "(\<forall>t p. slot h f t = Some p \<longrightarrow>
      length (filter (\<lambda>(q, c). q = p) (ih_runs (factory_Start order f c h))) = 1) \<and>
    factory_Start order f c' (factory_Start order f c h) = factory_Start order f c h \<and>
    (\<forall>t. fmlookup (WaitForCacheSync hasSynced f (factory_Start order f c h)) t = map_option hasSynced (slot h f t))"
proof -
  let ?h = "factory_Start order f c h"
  have h: "heap_inv h" using heap_steps_inv [OF assms(1,2)] by simp
  note s = factory_Start_inv [OF assms(1) h assms(3), of c]
  have started: "is_started (factory_at ?h f) t" if "slot h f t = Some p" for t p using s that by blast
  have f: "f < length (ih_factories ?h)" using s assms(3) unfolding heap_le_def by simp
  have "length (filter (\<lambda>(q, c). q = p) (ih_runs ?h)) = 1" if "slot h f t = Some p" for t p
  proof -
    note run = started [OF that]
    have "slot ?h f t = Some p" using s that by simp
    moreover obtain q where "slot ?h f t = Some q" "q \<in> fst ` set (ih_runs ?h)"
      by (rule inv_started [OF conjunct1 [OF s] f run])
    ultimately show ?thesis using heap_run_exactly_once [of ?h p] s that by simp
  qed
  moreover have again: "fold (start_informer f c') es ?h = ?h"
    if "\<forall>e \<in> set es. is_started (factory_at ?h f) (fst e)" for es
    using that by (induction es) (auto simp: start_informer_def split: prod.split)
  have "\<forall>e \<in> set (order (sf_informers (factory_at ?h f))). is_started (factory_at ?h f) (fst e)"
    using assms(1) s started by (auto simp: ranges_def)
  from again [OF this] have "factory_Start order f c' ?h = ?h"
    unfolding factory_Start_def [of order f c'] .
  moreover have "fmlookup (WaitForCacheSync hasSynced f ?h) t = map_option hasSynced (slot h f t)" for t
    using s started [of t] by (cases "slot h f t") (auto simp: WaitForCacheSync_def Let_def)
  ultimately show ?thesis by blast
qed

theorem started_once_witness:
  "let h = snd (typed_Informer 0 HTTPRouteType small_heap) in
   slot h 0 HTTPRouteType \<noteq> None \<and>
   fmlookup (WaitForCacheSync (\<lambda>_. True) 0 (factory_Start declared_order 0 7 h)) HTTPRouteType = Some True"
proof -
  let ?h = "snd (typed_Informer 0 HTTPRouteType small_heap)"
  have f: "0 < length (ih_factories small_heap)" by (simp add: small_heap_reached(2))
  have "heap_inv small_heap" using heap_steps_inv [OF ranges_declared_order small_heap_reached(1)] by simp
  then have h: "slot ?h 0 HTTPRouteType \<noteq> None" "0 < length (ih_factories ?h)"
    using typed_Informer_inv [OF _ f surjective_pairing, of HTTPRouteType] f unfolding heap_le_def by (auto simp del: length_greater_0_conv)
  have "heap_step declared_order small_heap ?h" by (rule GetInformer [OF f])
  then have "(heap_step declared_order)\<^sup>*\<^sup>* empty_heap ?h"
    by (rule rtranclp.rtrancl_into_rtrancl [OF small_heap_reached(1)])
  from started_once [OF ranges_declared_order this h(2), of 7 7 "\<lambda>_. True"] h(1) show ?thesis
    by (auto simp: Let_def)
qed

end
