(* ===== verification/Clientset.thy ===== *)
theory Clientset
  imports FakeClientset
begin

text \<open>
  The real clientset (\<open>clientset/versioned/clientset.go\<close>) and the client of the group under it
  (\<open>typed/apis/v1alpha1/apis_client.go\<close>): how they are built from a configuration and what their
  accessors give. Arguments stand for what lies outside the repository's own code: building a REST
  client and a discovery client from a configuration, and the token bucket of \<open>flowcontrol\<close>.
\<close>

section \<open>Configurations\<close>

text \<open>The fields of \<open>rest.Config\<close> that are read or set here. Of the float \<open>QPS\<close> only the comparison with 0 is
  asked. Serializers are named by a string.\<close>

record 'lim rest_config =
  rcf_Host :: string
  rcf_APIPath :: string
  rcf_GroupVersion :: "(string \<times> string) option"
  rcf_NegotiatedSerializer :: "string option"
  rcf_UserAgent :: string
  rcf_QPS :: rat
  rcf_Burst :: go_int
  rcf_RateLimiter :: "'lim option"

text \<open>One REST client serves all types; its decoders and encoders are here split into those for routes and
  those for the other resources.\<close>

record ('rl, 'o, 'ol, 'w) rest_views =
  rv_routes :: "(http_route, 'rl, 'w) rest_client"
  rv_others :: "('o, 'ol, 'w) rest_client"

text \<open>What the constructors call: \<open>rest.DefaultKubernetesUserAgent\<close>, \<open>rest.RESTClientFor\<close>,
  \<open>discovery.NewDiscoveryClientForConfig\<close>, \<open>discovery.NewDiscoveryClient\<close> and
  \<open>flowcontrol.NewTokenBucketRateLimiter\<close>.\<close>

record ('lim, 'rl, 'o, 'ol, 'w, 'd) client_env =
  ce_UserAgent :: string
  ce_RESTClientFor :: "'lim rest_config \<Rightarrow> error + ('rl, 'o, 'ol, 'w) rest_views"
  ce_DiscoveryForConfig :: "'lim rest_config \<Rightarrow> error + 'd"
  ce_Discovery :: "('rl, 'o, 'ol, 'w) rest_views \<Rightarrow> 'd"
  ce_TokenBucket :: "rat \<Rightarrow> go_int \<Rightarrow> 'lim"

datatype client_error = BurstRequired | ClientError error

section \<open>The client of the group\<close>

record ('rl, 'o, 'ol, 'w) networking_rest =
  nr_restClient :: "('rl, 'o, 'ol, 'w) rest_views"

definition SchemeGroupVersion :: "string \<times> string" where
  "SchemeGroupVersion = (''networking.x-k8s.io'', ''v1alpha1'')"

definition setConfigDefaults :: "string \<Rightarrow> 'lim rest_config \<Rightarrow> error option \<times> 'lim rest_config" where
  "setConfigDefaults userAgent config =
     (let config = config\<lparr>rcf_GroupVersion := Some SchemeGroupVersion, rcf_APIPath := ''/apis'',
                          rcf_NegotiatedSerializer := Some ''WithoutConversion''\<rparr>;
          config = (if rcf_UserAgent config = '''' then config\<lparr>rcf_UserAgent := userAgent\<rparr> else config)
      in (None, config))"

definition group_NewForConfig ::
  "('lim, 'rl, 'o, 'ol, 'w, 'd) client_env \<Rightarrow> 'lim rest_config \<Rightarrow> error + ('rl, 'o, 'ol, 'w) networking_rest" where
  "group_NewForConfig env c =
     (case setConfigDefaults (ce_UserAgent env) c of
        (Some err, _) \<Rightarrow> Inl err
      | (None, config) \<Rightarrow>
          (case ce_RESTClientFor env config of
             Inl err \<Rightarrow> Inl err
           | Inr client \<Rightarrow> Inr \<lparr>nr_restClient = client\<rparr>))"

text \<open>A panic is \<open>None\<close>.\<close>

definition group_NewForConfigOrDie ::
  "('lim, 'rl, 'o, 'ol, 'w, 'd) client_env \<Rightarrow> 'lim rest_config \<Rightarrow> ('rl, 'o, 'ol, 'w) networking_rest option" where
  "group_NewForConfigOrDie env c = (case group_NewForConfig env c of Inl err \<Rightarrow> None | Inr client \<Rightarrow> Some client)"

definition group_New :: "('rl, 'o, 'ol, 'w) rest_views \<Rightarrow> ('rl, 'o, 'ol, 'w) networking_rest" where
  "group_New c = \<lparr>nr_restClient = c\<rparr>"

definition RESTClient :: "('rl, 'o, 'ol, 'w) networking_rest option \<Rightarrow> ('rl, 'o, 'ol, 'w) rest_views option" where
  "RESTClient c = (case c of None \<Rightarrow> None | Some n \<Rightarrow> Some (nr_restClient n))"

definition NetworkingV1alpha1Client ::
  "('rl, ('s, 't) api_resource, 'ol, 'w) networking_rest \<Rightarrow>
   (rest_error, http_route, 'rl, ('s, 't) api_resource, 'ol, watch_stream, 'w) networking_client" where
  "NetworkingV1alpha1Client c =
     \<lparr>nc_BackendPolicies = newBackendPolicies (rv_others (nr_restClient c)),
      nc_Gateways = newGateways (rv_others (nr_restClient c)),
      nc_GatewayClasses = newGatewayClasses (rv_others (nr_restClient c)),
      nc_HTTPRoutes = newHTTPRoutes (rv_routes (nr_restClient c)),
      nc_TCPRoutes = newTCPRoutes (rv_others (nr_restClient c)),
      nc_TLSRoutes = newTLSRoutes (rv_others (nr_restClient c)),
      nc_UDPRoutes = newUDPRoutes (rv_others (nr_restClient c))\<rparr>"

section \<open>The clientset\<close>

record ('rl, 'o, 'ol, 'w, 'd) clientset =
  cs_DiscoveryClient :: 'd
  cs_networkingV1alpha1 :: "('rl, 'o, 'ol, 'w) networking_rest"

definition clientset_NetworkingV1alpha1 where
  "clientset_NetworkingV1alpha1 c = NetworkingV1alpha1Client (cs_networkingV1alpha1 c)"

definition clientset_Discovery :: "('rl, 'o, 'ol, 'w, 'd) clientset option \<Rightarrow> 'd option" where
  "clientset_Discovery c = (case c of None \<Rightarrow> None | Some cs \<Rightarrow> Some (cs_DiscoveryClient cs))"

definition clientset_NewForConfig ::
  "('lim, 'rl, 'o, 'ol, 'w, 'd) client_env \<Rightarrow> 'lim rest_config \<Rightarrow> client_error + ('rl, 'o, 'ol, 'w, 'd) clientset" where
  "clientset_NewForConfig env c =
     (if rcf_RateLimiter c = None \<and> 0 < rcf_QPS c \<and> sint (rcf_Burst c) \<le> 0 then Inl BurstRequired
      else
        let configShallowCopy =
              (if rcf_RateLimiter c = None \<and> 0 < rcf_QPS c
               then c\<lparr>rcf_RateLimiter := Some (ce_TokenBucket env (rcf_QPS c) (rcf_Burst c))\<rparr> else c)
        in case group_NewForConfig env configShallowCopy of
             Inl err \<Rightarrow> Inl (ClientError err)
           | Inr networking \<Rightarrow>
               (case ce_DiscoveryForConfig env configShallowCopy of
                  Inl err \<Rightarrow> Inl (ClientError err)
                | Inr disc \<Rightarrow> Inr \<lparr>cs_DiscoveryClient = disc, cs_networkingV1alpha1 = networking\<rparr>))"

definition clientset_NewForConfigOrDie ::
  "('lim, 'rl, 'o, 'ol, 'w, 'd) client_env \<Rightarrow> 'lim rest_config \<Rightarrow> ('rl, 'o, 'ol, 'w, 'd) clientset option" where
  "clientset_NewForConfigOrDie env c =
     (case group_NewForConfigOrDie env c of
        None \<Rightarrow> None
      | Some networking \<Rightarrow>
          (case ce_DiscoveryForConfig env c of
             Inl err \<Rightarrow> None
           | Inr disc \<Rightarrow> Some \<lparr>cs_DiscoveryClient = disc, cs_networkingV1alpha1 = networking\<rparr>))"

definition clientset_New ::
  "('lim, 'rl, 'o, 'ol, 'w, 'd) client_env \<Rightarrow> ('rl, 'o, 'ol, 'w) rest_views \<Rightarrow> ('rl, 'o, 'ol, 'w, 'd) clientset" where
  "clientset_New env c = \<lparr>cs_DiscoveryClient = ce_Discovery env c, cs_networkingV1alpha1 = group_New c\<rparr>"

section \<open>Laws\<close>

text \<open>The configuration a client of the group is built from.\<close>

definition group_config :: "('lim, 'rl, 'o, 'ol, 'w, 'd) client_env \<Rightarrow> 'lim rest_config \<Rightarrow> 'lim rest_config" where
  "group_config env c = c\<lparr>rcf_GroupVersion := Some SchemeGroupVersion, rcf_APIPath := ''/apis'',
     rcf_NegotiatedSerializer := Some ''WithoutConversion'',
     rcf_UserAgent := if rcf_UserAgent c = '''' then ce_UserAgent env else rcf_UserAgent c\<rparr>"

lemma group_NewForConfig_eq:
  "group_NewForConfig env c = map_sum id (\<lambda>client. \<lparr>nr_restClient = client\<rparr>) (ce_RESTClientFor env (group_config env c))"
  by (cases "ce_RESTClientFor env (group_config env c)")
     (auto simp: group_NewForConfig_def setConfigDefaults_def group_config_def Let_def)

lemma group_NewForConfigOrDie_None [simp]:
  "group_NewForConfigOrDie env c = None \<longleftrightarrow> (\<exists>err. ce_RESTClientFor env (group_config env c) = Inl err)"
  by (cases "ce_RESTClientFor env (group_config env c)")
     (auto simp: group_NewForConfigOrDie_def group_NewForConfig_eq)

definition bad_burst :: "'lim rest_config \<Rightarrow> bool" where
  "bad_burst c \<longleftrightarrow> rcf_RateLimiter c = None \<and> 0 < rcf_QPS c \<and> sint (rcf_Burst c) \<le> 0"

definition limited :: "('lim, 'rl, 'o, 'ol, 'w, 'd) client_env \<Rightarrow> 'lim rest_config \<Rightarrow> 'lim rest_config" where
  "limited env c = (if rcf_RateLimiter c = None \<and> 0 < rcf_QPS c
     then c\<lparr>rcf_RateLimiter := Some (ce_TokenBucket env (rcf_QPS c) (rcf_Burst c))\<rparr> else c)"

text \<open>\<open>NewForConfig\<close> refuses a positive rate without a positive burst and without a limiter; otherwise, for a positive rate, it gives both
  clients one and the same limiter. \<open>NewForConfigOrDie\<close> makes no such check: it panics exactly when a
  client cannot be built, and builds them from the configuration as it is.\<close>

theorem clientset_config_checks:
  "(clientset_NewForConfig env c = Inl BurstRequired \<longleftrightarrow> bad_burst c) \<and>
   (\<forall>cs. clientset_NewForConfig env c = Inr cs \<longleftrightarrow> \<not> bad_burst c \<and>
      ce_RESTClientFor env (group_config env (limited env c)) = Inr (nr_restClient (cs_networkingV1alpha1 cs)) \<and>
      ce_DiscoveryForConfig env (limited env c) = Inr (cs_DiscoveryClient cs)) \<and>
   (\<forall>cs. clientset_NewForConfigOrDie env c = Some cs \<longleftrightarrow>
      ce_RESTClientFor env (group_config env c) = Inr (nr_restClient (cs_networkingV1alpha1 cs)) \<and>
      ce_DiscoveryForConfig env c = Inr (cs_DiscoveryClient cs))"
proof (intro conjI allI, goal_cases)
  case 1
  show ?case
    by (auto simp: clientset_NewForConfig_def bad_burst_def Let_def split: sum.splits)
next
  case (2 cs)
  show ?case
    by (cases cs; cases "ce_RESTClientFor env (group_config env (limited env c))";
        cases "ce_DiscoveryForConfig env (limited env c)")
       (auto simp: clientset_NewForConfig_def bad_burst_def limited_def group_NewForConfig_eq Let_def split: if_splits)
next
  case (3 cs)
  show ?case
    by (cases cs; cases "ce_RESTClientFor env (group_config env c)"; cases "ce_DiscoveryForConfig env c")
       (auto simp: clientset_NewForConfigOrDie_def group_NewForConfigOrDie_def group_NewForConfig_eq)
qed

end
