(* ===== verification/Injection.thy ===== *)
theory Injection
  imports Informers Clientset
begin

text \<open>
  The generated injection packages (\<open>pkg/client/gatewayapi/injection\<close>) and the registry of
  \<open>vendor/knative.dev/pkg/injection\<close> that runs them: how a context gets its client, its informer
  factories and its informers, and how they are read back. A context is a record with one field per
  kind of key, so a type assertion on what a key holds is a match on that field; a panic is \<open>None\<close>.
  The calls of the logger before a panic are left out.
\<close>

section \<open>Variables\<close>

text \<open>
  A closure captures variables, not values, and before Go 1.22 all rounds of a loop share one loop
  variable (\<open>go.mod\<close> asks for Go 1.16). The variables that closures capture are cells of the state
  the clients run on.
\<close>

record 'u go_env =
  ge_vars :: "string list"
  ge_rest :: 'u

definition over_rest :: "('u \<Rightarrow> 'a \<times> 'u) \<Rightarrow> 'u go_env \<Rightarrow> 'a \<times> 'u go_env" where
  "over_rest m w = (let (x, u) = m (ge_rest w) in (x, w\<lparr>ge_rest := u\<rparr>))"

definition lift_client :: "('e, 'o, 'l, 'v, 'u) typed_client \<Rightarrow> ('e, 'o, 'l, 'v, 'u go_env) typed_client" where
  "lift_client c =
     \<lparr>tcl_Get = (\<lambda>name opts. over_rest (tcl_Get c name opts)),
      tcl_List = (\<lambda>opts. over_rest (tcl_List c opts)),
      tcl_Watch = (\<lambda>opts. over_rest (tcl_Watch c opts)),
      tcl_Create = (\<lambda>obj opts. over_rest (tcl_Create c obj opts)),
      tcl_Update = (\<lambda>obj opts. over_rest (tcl_Update c obj opts)),
      tcl_UpdateStatus = (\<lambda>obj opts. over_rest (tcl_UpdateStatus c obj opts)),
      tcl_Delete = (\<lambda>name opts. over_rest (tcl_Delete c name opts)),
      tcl_DeleteCollection = (\<lambda>opts list_opts. over_rest (tcl_DeleteCollection c opts list_opts)),
      tcl_Patch = (\<lambda>name pt bytes opts subs. over_rest (tcl_Patch c name pt bytes opts subs))\<rparr>"

definition lift_networking ::
  "('e, 'r, 'rl, 'o, 'ol, 'v, 'u) networking_client \<Rightarrow> ('e, 'r, 'rl, 'o, 'ol, 'v, 'u go_env) networking_client" where
  "lift_networking n =
     \<lparr>nc_BackendPolicies = (\<lambda>ns. lift_client (nc_BackendPolicies n ns)),
      nc_Gateways = (\<lambda>ns. lift_client (nc_Gateways n ns)),
      nc_GatewayClasses = lift_client (nc_GatewayClasses n),
      nc_HTTPRoutes = (\<lambda>ns. lift_client (nc_HTTPRoutes n ns)),
      nc_TCPRoutes = (\<lambda>ns. lift_client (nc_TCPRoutes n ns)),
      nc_TLSRoutes = (\<lambda>ns. lift_client (nc_TLSRoutes n ns)),
      nc_UDPRoutes = (\<lambda>ns. lift_client (nc_UDPRoutes n ns))\<rparr>"

section \<open>Contexts\<close>

datatype ('e, 'r, 'rl, 'o, 'ol, 'v, 'w) client_value = RealClient "('e, 'r, 'rl, 'o, 'ol, 'v, 'w) networking_client" | FakeClient "('e, 'r, 'rl, 'o, 'ol, 'v, 'w) networking_client"

fun as_interface :: "('e, 'r, 'rl, 'o, 'ol, 'v, 'w) client_value \<Rightarrow> ('e, 'r, 'rl, 'o, 'ol, 'v, 'w) networking_client" where
  "as_interface (RealClient c) = c"
| "as_interface (FakeClient c) = c"

datatype 'w any_source = Namespaced "'w informer_source" | ClusterWide "'w cluster_source"

record ('e, 'r, 'rl, 'o, 'ol, 'v, 'w) inj_context =
  ij_client :: "('e, 'r, 'rl, 'o, 'ol, 'v, 'w) client_value option"
  ij_namespace :: "string option"
  ij_resync :: "go_int option"
  ij_labels :: "string list option"
  ij_factory :: "nat option"
  ij_filtered :: "string \<rightharpoonup> nat"
  ij_informers :: "resource_type \<rightharpoonup> 'w any_source"
  ij_filteredInformers :: "resource_type \<times> string \<rightharpoonup> 'w any_source"

definition GetNamespaceScope :: "('e, 'r, 'rl, 'o, 'ol, 'v, 'w) inj_context \<Rightarrow> string" where
  "GetNamespaceScope ctx = (case ij_namespace ctx of None \<Rightarrow> '''' | Some ns \<Rightarrow> ns)"

definition HasNamespaceScope :: "('e, 'r, 'rl, 'o, 'ol, 'v, 'w) inj_context \<Rightarrow> bool" where
  "HasNamespaceScope ctx \<longleftrightarrow> GetNamespaceScope ctx \<noteq> ''''"

text \<open>\<open>DefaultResyncPeriod\<close>: ten hours, in nanoseconds.\<close>

definition GetResyncPeriod :: "('e, 'r, 'rl, 'o, 'ol, 'v, 'w) inj_context \<Rightarrow> go_int" where
  "GetResyncPeriod ctx = (case ij_resync ctx of None \<Rightarrow> 36000000000000 | Some rp \<Rightarrow> rp)"

definition WithSelectors :: "('e, 'r, 'rl, 'o, 'ol, 'v, 'w) inj_context \<Rightarrow> string list \<Rightarrow> ('e, 'r, 'rl, 'o, 'ol, 'v, 'w) inj_context" where
  "WithSelectors ctx selector = ctx\<lparr>ij_labels := Some selector\<rparr>"

section \<open>Clients\<close>

definition client_withClient where
  "client_withClient env cfg ctx =
     (case clientset_NewForConfigOrDie env cfg of
        None \<Rightarrow> None
      | Some cs \<Rightarrow> Some (ctx\<lparr>ij_client := Some (RealClient (clientset_NetworkingV1alpha1 cs))\<rparr>))"

definition client_Get :: "('e, 'r, 'rl, 'o, 'ol, 'v, 'w) inj_context \<Rightarrow> ('e, 'r, 'rl, 'o, 'ol, 'v, 'w) networking_client option" where
  "client_Get ctx = (case ij_client ctx of None \<Rightarrow> None | Some untyped \<Rightarrow> Some (as_interface untyped))"

text \<open>A new fake clientset starts with an empty record of actions and its own tracker.\<close>

definition fake_With where
  "fake_With zero env objects ctx w =
     (case NewSimpleClientset env objects of
        None \<Rightarrow> None
      | Some (cs, s) \<Rightarrow>
          Some (ctx\<lparr>ij_client := Some (FakeClient (lift_networking (FakeNetworkingV1alpha1 zero env cs)))\<rparr>, cs, w\<lparr>ge_rest := s\<rparr>))"

definition fake_withClient where
  "fake_withClient zero env cfg ctx w = (case fake_With zero env [] ctx w of None \<Rightarrow> None | Some (ctx, _, w) \<Rightarrow> Some (ctx, w))"

definition fake_Get :: "('e, 'r, 'rl, 'o, 'ol, 'v, 'w) inj_context \<Rightarrow> ('e, 'r, 'rl, 'o, 'ol, 'v, 'w) networking_client option" where
  "fake_Get ctx = (case ij_client ctx of Some (FakeClient c) \<Rightarrow> Some c | _ \<Rightarrow> None)"

section \<open>Factories\<close>

definition namespace_option :: "('e, 'r, 'rl, 'o, 'ol, 'v, 'w) inj_context \<Rightarrow> ('e, 'r, 'rl, 'o, 'ol, 'v, 'w) factory_option list" where
  "namespace_option ctx = (if HasNamespaceScope ctx then [WithNamespace (GetNamespaceScope ctx)] else [])"

definition factory_withInformerFactory :: "('e, 'r, 'rl, 'o, 'ol, 'v, 'w) inj_context \<Rightarrow> ('e, 'r, 'rl, 'o, 'ol, 'v, 'w) informer_heap \<Rightarrow> (('e, 'r, 'rl, 'o, 'ol, 'v, 'w) inj_context \<times> ('e, 'r, 'rl, 'o, 'ol, 'v, 'w) informer_heap) option" where
  "factory_withInformerFactory ctx h =
     (case client_Get ctx of
        None \<Rightarrow> None
      | Some c \<Rightarrow>
          let opts = namespace_option ctx;
              (f, h) = NewSharedInformerFactoryWithOptions c (GetResyncPeriod ctx) opts h
          in Some (ctx\<lparr>ij_factory := Some f\<rparr>, h))"

definition factory_Get :: "('e, 'r, 'rl, 'o, 'ol, 'v, 'w) inj_context \<Rightarrow> nat option" where
  "factory_Get ctx = ij_factory ctx"

definition fake_withInformerFactory :: "('e, 'r, 'rl, 'o, 'ol, 'v, 'w) inj_context \<Rightarrow> ('e, 'r, 'rl, 'o, 'ol, 'v, 'w) informer_heap \<Rightarrow> (('e, 'r, 'rl, 'o, 'ol, 'v, 'w) inj_context \<times> ('e, 'r, 'rl, 'o, 'ol, 'v, 'w) informer_heap) option" where
  "fake_withInformerFactory ctx h =
     (case fake_Get ctx of
        None \<Rightarrow> None
      | Some c \<Rightarrow>
          let opts = namespace_option ctx;
              (f, h) = NewSharedInformerFactoryWithOptions c (GetResyncPeriod ctx) opts h
          in Some (ctx\<lparr>ij_factory := Some f\<rparr>, h))"

text \<open>The filtered factories: cell \<open>a\<close> is the loop variable, which the closure given to
  \<open>WithTweakListOptions\<close> captures.\<close>

definition capture_selector :: "nat \<Rightarrow> 'u go_env tweak" where
  "capture_selector a w l = l\<lparr>lo_LabelSelector := ge_vars w ! a\<rparr>"

fun filtered_factories ::
  "nat \<Rightarrow> ('e, 'r, 'rl, 'o, 'ol, 'v, 'u go_env) networking_client \<Rightarrow> string list \<Rightarrow> ('e, 'r, 'rl, 'o, 'ol, 'v, 'u go_env) inj_context \<Rightarrow> ('e, 'r, 'rl, 'o, 'ol, 'v, 'u go_env) informer_heap \<Rightarrow> 'u go_env \<Rightarrow> ('e, 'r, 'rl, 'o, 'ol, 'v, 'u go_env) inj_context \<times> ('e, 'r, 'rl, 'o, 'ol, 'v, 'u go_env) informer_heap \<times> 'u go_env" where
  "filtered_factories a c [] ctx h w = (ctx, h, w)"
| "filtered_factories a c (selector # labelSelectors) ctx h w =
     (let w = w\<lparr>ge_vars := (ge_vars w)[a := selector]\<rparr>;
          opts = namespace_option ctx @ [WithTweakListOptions (Some (capture_selector a))];
          (f, h) = NewSharedInformerFactoryWithOptions c (GetResyncPeriod ctx) opts h;
          ctx = ctx\<lparr>ij_filtered := (ij_filtered ctx)(selector \<mapsto> f)\<rparr>
      in filtered_factories a c labelSelectors ctx h w)"

definition filtered_withInformerFactory ::
  "('e, 'r, 'rl, 'o, 'ol, 'v, 'u go_env) inj_context \<Rightarrow> ('e, 'r, 'rl, 'o, 'ol, 'v, 'u go_env) informer_heap \<Rightarrow> 'u go_env \<Rightarrow> (('e, 'r, 'rl, 'o, 'ol, 'v, 'u go_env) inj_context \<times> ('e, 'r, 'rl, 'o, 'ol, 'v, 'u go_env) informer_heap \<times> 'u go_env) option" where
  "filtered_withInformerFactory ctx h w =
     (case client_Get ctx of
        None \<Rightarrow> None
      | Some c \<Rightarrow>
          (case ij_labels ctx of
             None \<Rightarrow> None
           | Some labelSelectors \<Rightarrow>
               Some (filtered_factories (length (ge_vars w)) c labelSelectors ctx h (w\<lparr>ge_vars := ge_vars w @ ['''']\<rparr>))))"

definition filtered_Get :: "('e, 'r, 'rl, 'o, 'ol, 'v, 'w) inj_context \<Rightarrow> string \<Rightarrow> nat option" where
  "filtered_Get ctx selector = ij_filtered ctx selector"

definition fake_filtered_withInformerFactory ::
  "('e, 'r, 'rl, 'o, 'ol, 'v, 'u go_env) inj_context \<Rightarrow> ('e, 'r, 'rl, 'o, 'ol, 'v, 'u go_env) informer_heap \<Rightarrow> 'u go_env \<Rightarrow> (('e, 'r, 'rl, 'o, 'ol, 'v, 'u go_env) inj_context \<times> ('e, 'r, 'rl, 'o, 'ol, 'v, 'u go_env) informer_heap \<times> 'u go_env) option" where
  "fake_filtered_withInformerFactory ctx h w =
     (case fake_Get ctx of
        None \<Rightarrow> None
      | Some c \<Rightarrow>
          (case ij_labels ctx of
             None \<Rightarrow> None
           | Some labelSelectors \<Rightarrow>
               Some (filtered_factories (length (ge_vars w)) c labelSelectors ctx h (w\<lparr>ge_vars := ge_vars w @ ['''']\<rparr>))))"

section \<open>Informers\<close>

text \<open>A loop over the selectors that threads the context, the informers so far and the heap.\<close>

fun each_selector ::
  "(string \<Rightarrow> ('e, 'r, 'rl, 'o, 'ol, 'v, 'w) inj_context \<Rightarrow> nat list \<Rightarrow> ('e, 'r, 'rl, 'o, 'ol, 'v, 'w) informer_heap \<Rightarrow> (('e, 'r, 'rl, 'o, 'ol, 'v, 'w) inj_context \<times> nat list \<times> ('e, 'r, 'rl, 'o, 'ol, 'v, 'w) informer_heap) option) \<Rightarrow>
   string list \<Rightarrow> ('e, 'r, 'rl, 'o, 'ol, 'v, 'w) inj_context \<Rightarrow> nat list \<Rightarrow> ('e, 'r, 'rl, 'o, 'ol, 'v, 'w) informer_heap \<Rightarrow> (('e, 'r, 'rl, 'o, 'ol, 'v, 'w) inj_context \<times> nat list \<times> ('e, 'r, 'rl, 'o, 'ol, 'v, 'w) informer_heap) option" where
  "each_selector body [] ctx infs h = Some (ctx, infs, h)"
| "each_selector body (selector # labelSelectors) ctx infs h =
     (case body selector ctx infs h of
        None \<Rightarrow> None
      | Some (ctx, infs, h) \<Rightarrow> each_selector body labelSelectors ctx infs h)"

definition backendPolicy_withInformer :: "('e, 'r, 'rl, 'o, 'ol, 'v, 'w) inj_context \<Rightarrow> ('e, 'r, 'rl, 'o, 'ol, 'v, 'w) informer_heap \<Rightarrow> (('e, 'r, 'rl, 'o, 'ol, 'v, 'w) inj_context \<times> nat \<times> ('e, 'r, 'rl, 'o, 'ol, 'v, 'w) informer_heap) option" where
  "backendPolicy_withInformer ctx h =
     (case factory_Get ctx of
        None \<Rightarrow> None
      | Some f \<Rightarrow>
          let src = version_BackendPolicies (group_V1alpha1 (factory_Networking f h));
              ctx = ctx\<lparr>ij_informers := (ij_informers ctx)(BackendPolicyType \<mapsto> Namespaced src)\<rparr>;
              (informer, h) = backendPolicy_Informer src h
          in Some (ctx, informer, h))"

definition backendPolicy_Get :: "('e, 'r, 'rl, 'o, 'ol, 'v, 'w) inj_context \<Rightarrow> 'w informer_source option" where
  "backendPolicy_Get ctx = (case ij_informers ctx BackendPolicyType of Some (Namespaced src) \<Rightarrow> Some src | _ \<Rightarrow> None)"

definition fake_backendPolicy_withInformer :: "('e, 'r, 'rl, 'o, 'ol, 'v, 'w) inj_context \<Rightarrow> ('e, 'r, 'rl, 'o, 'ol, 'v, 'w) informer_heap \<Rightarrow> (('e, 'r, 'rl, 'o, 'ol, 'v, 'w) inj_context \<times> nat \<times> ('e, 'r, 'rl, 'o, 'ol, 'v, 'w) informer_heap) option" where
  "fake_backendPolicy_withInformer ctx h =
     (case factory_Get ctx of
        None \<Rightarrow> None
      | Some f \<Rightarrow>
          let src = version_BackendPolicies (group_V1alpha1 (factory_Networking f h));
              ctx = ctx\<lparr>ij_informers := (ij_informers ctx)(BackendPolicyType \<mapsto> Namespaced src)\<rparr>;
              (informer, h) = backendPolicy_Informer src h
          in Some (ctx, informer, h))"

definition filtered_backendPolicy_withInformer :: "('e, 'r, 'rl, 'o, 'ol, 'v, 'w) inj_context \<Rightarrow> ('e, 'r, 'rl, 'o, 'ol, 'v, 'w) informer_heap \<Rightarrow> (('e, 'r, 'rl, 'o, 'ol, 'v, 'w) inj_context \<times> nat list \<times> ('e, 'r, 'rl, 'o, 'ol, 'v, 'w) informer_heap) option" where
  "filtered_backendPolicy_withInformer ctx h =
     (case ij_labels ctx of
        None \<Rightarrow> None
      | Some labelSelectors \<Rightarrow>
          each_selector (\<lambda>selector ctx infs h.
            (case filtered_Get ctx selector of
               None \<Rightarrow> None
             | Some f \<Rightarrow>
                 let src = version_BackendPolicies (group_V1alpha1 (factory_Networking f h));
                     ctx = ctx\<lparr>ij_filteredInformers := (ij_filteredInformers ctx)((BackendPolicyType, selector) \<mapsto> Namespaced src)\<rparr>;
                     (informer, h) = backendPolicy_Informer src h
                 in Some (ctx, infs @ [informer], h)))
          labelSelectors ctx [] h)"

definition filtered_backendPolicy_Get :: "('e, 'r, 'rl, 'o, 'ol, 'v, 'w) inj_context \<Rightarrow> string \<Rightarrow> 'w informer_source option" where
  "filtered_backendPolicy_Get ctx selector =
     (case ij_filteredInformers ctx (BackendPolicyType, selector) of Some (Namespaced src) \<Rightarrow> Some src | _ \<Rightarrow> None)"

definition fake_filtered_backendPolicy_withInformer :: "('e, 'r, 'rl, 'o, 'ol, 'v, 'w) inj_context \<Rightarrow> ('e, 'r, 'rl, 'o, 'ol, 'v, 'w) informer_heap \<Rightarrow> (('e, 'r, 'rl, 'o, 'ol, 'v, 'w) inj_context \<times> nat list \<times> ('e, 'r, 'rl, 'o, 'ol, 'v, 'w) informer_heap) option" where
  "fake_filtered_backendPolicy_withInformer ctx h =
     (case ij_labels ctx of
        None \<Rightarrow> None
      | Some labelSelectors \<Rightarrow>
          each_selector (\<lambda>selector ctx infs h.
            (case filtered_Get ctx selector of
               None \<Rightarrow> None
             | Some f \<Rightarrow>
                 let src = version_BackendPolicies (group_V1alpha1 (factory_Networking f h));
                     ctx = ctx\<lparr>ij_filteredInformers := (ij_filteredInformers ctx)((BackendPolicyType, selector) \<mapsto> Namespaced src)\<rparr>;
                     (informer, h) = backendPolicy_Informer src h
                 in Some (ctx, infs @ [informer], h)))
          labelSelectors ctx [] h)"

definition gateway_withInformer :: "('e, 'r, 'rl, 'o, 'ol, 'v, 'w) inj_context \<Rightarrow> ('e, 'r, 'rl, 'o, 'ol, 'v, 'w) informer_heap \<Rightarrow> (('e, 'r, 'rl, 'o, 'ol, 'v, 'w) inj_context \<times> nat \<times> ('e, 'r, 'rl, 'o, 'ol, 'v, 'w) informer_heap) option" where
  "gateway_withInformer ctx h =
     (case factory_Get ctx of
        None \<Rightarrow> None
      | Some f \<Rightarrow>
          let src = version_Gateways (group_V1alpha1 (factory_Networking f h));
              ctx = ctx\<lparr>ij_informers := (ij_informers ctx)(GatewayType \<mapsto> Namespaced src)\<rparr>;
              (informer, h) = gateway_Informer src h
          in Some (ctx, informer, h))"

definition gateway_Get :: "('e, 'r, 'rl, 'o, 'ol, 'v, 'w) inj_context \<Rightarrow> 'w informer_source option" where
  "gateway_Get ctx = (case ij_informers ctx GatewayType of Some (Namespaced src) \<Rightarrow> Some src | _ \<Rightarrow> None)"

definition fake_gateway_withInformer :: "('e, 'r, 'rl, 'o, 'ol, 'v, 'w) inj_context \<Rightarrow> ('e, 'r, 'rl, 'o, 'ol, 'v, 'w) informer_heap \<Rightarrow> (('e, 'r, 'rl, 'o, 'ol, 'v, 'w) inj_context \<times> nat \<times> ('e, 'r, 'rl, 'o, 'ol, 'v, 'w) informer_heap) option" where
  "fake_gateway_withInformer ctx h =
     (case factory_Get ctx of
        None \<Rightarrow> None
      | Some f \<Rightarrow>
          let src = version_Gateways (group_V1alpha1 (factory_Networking f h));
              ctx = ctx\<lparr>ij_informers := (ij_informers ctx)(GatewayType \<mapsto> Namespaced src)\<rparr>;
              (informer, h) = gateway_Informer src h
          in Some (ctx, informer, h))"

definition filtered_gateway_withInformer :: "('e, 'r, 'rl, 'o, 'ol, 'v, 'w) inj_context \<Rightarrow> ('e, 'r, 'rl, 'o, 'ol, 'v, 'w) informer_heap \<Rightarrow> (('e, 'r, 'rl, 'o, 'ol, 'v, 'w) inj_context \<times> nat list \<times> ('e, 'r, 'rl, 'o, 'ol, 'v, 'w) informer_heap) option" where
  "filtered_gateway_withInformer ctx h =
     (case ij_labels ctx of
        None \<Rightarrow> None
      | Some labelSelectors \<Rightarrow>
          each_selector (\<lambda>selector ctx infs h.
            (case filtered_Get ctx selector of
               None \<Rightarrow> None
             | Some f \<Rightarrow>
                 let src = version_Gateways (group_V1alpha1 (factory_Networking f h));
                     ctx = ctx\<lparr>ij_filteredInformers := (ij_filteredInformers ctx)((GatewayType, selector) \<mapsto> Namespaced src)\<rparr>;
                     (informer, h) = gateway_Informer src h
                 in Some (ctx, infs @ [informer], h)))
          labelSelectors ctx [] h)"

definition filtered_gateway_Get :: "('e, 'r, 'rl, 'o, 'ol, 'v, 'w) inj_context \<Rightarrow> string \<Rightarrow> 'w informer_source option" where
  "filtered_gateway_Get ctx selector =
     (case ij_filteredInformers ctx (GatewayType, selector) of Some (Namespaced src) \<Rightarrow> Some src | _ \<Rightarrow> None)"

definition fake_filtered_gateway_withInformer :: "('e, 'r, 'rl, 'o, 'ol, 'v, 'w) inj_context \<Rightarrow> ('e, 'r, 'rl, 'o, 'ol, 'v, 'w) informer_heap \<Rightarrow> (('e, 'r, 'rl, 'o, 'ol, 'v, 'w) inj_context \<times> nat list \<times> ('e, 'r, 'rl, 'o, 'ol, 'v, 'w) informer_heap) option" where
  "fake_filtered_gateway_withInformer ctx h =
     (case ij_labels ctx of
        None \<Rightarrow> None
      | Some labelSelectors \<Rightarrow>
          each_selector (\<lambda>selector ctx infs h.
            (case filtered_Get ctx selector of
               None \<Rightarrow> None
             | Some f \<Rightarrow>
                 let src = version_Gateways (group_V1alpha1 (factory_Networking f h));
                     ctx = ctx\<lparr>ij_filteredInformers := (ij_filteredInformers ctx)((GatewayType, selector) \<mapsto> Namespaced src)\<rparr>;
                     (informer, h) = gateway_Informer src h
                 in Some (ctx, infs @ [informer], h)))
          labelSelectors ctx [] h)"

definition gatewayClass_withInformer :: "('e, 'r, 'rl, 'o, 'ol, 'v, 'w) inj_context \<Rightarrow> ('e, 'r, 'rl, 'o, 'ol, 'v, 'w) informer_heap \<Rightarrow> (('e, 'r, 'rl, 'o, 'ol, 'v, 'w) inj_context \<times> nat \<times> ('e, 'r, 'rl, 'o, 'ol, 'v, 'w) informer_heap) option" where
  "gatewayClass_withInformer ctx h =
     (case factory_Get ctx of
        None \<Rightarrow> None
      | Some f \<Rightarrow>
          let src = version_GatewayClasses (group_V1alpha1 (factory_Networking f h));
              ctx = ctx\<lparr>ij_informers := (ij_informers ctx)(GatewayClassType \<mapsto> ClusterWide src)\<rparr>;
              (informer, h) = gatewayClass_Informer src h
          in Some (ctx, informer, h))"

definition gatewayClass_Get :: "('e, 'r, 'rl, 'o, 'ol, 'v, 'w) inj_context \<Rightarrow> 'w cluster_source option" where
  "gatewayClass_Get ctx = (case ij_informers ctx GatewayClassType of Some (ClusterWide src) \<Rightarrow> Some src | _ \<Rightarrow> None)"

definition fake_gatewayClass_withInformer :: "('e, 'r, 'rl, 'o, 'ol, 'v, 'w) inj_context \<Rightarrow> ('e, 'r, 'rl, 'o, 'ol, 'v, 'w) informer_heap \<Rightarrow> (('e, 'r, 'rl, 'o, 'ol, 'v, 'w) inj_context \<times> nat \<times> ('e, 'r, 'rl, 'o, 'ol, 'v, 'w) informer_heap) option" where
  "fake_gatewayClass_withInformer ctx h =
     (case factory_Get ctx of
        None \<Rightarrow> None
      | Some f \<Rightarrow>
          let src = version_GatewayClasses (group_V1alpha1 (factory_Networking f h));
              ctx = ctx\<lparr>ij_informers := (ij_informers ctx)(GatewayClassType \<mapsto> ClusterWide src)\<rparr>;
              (informer, h) = gatewayClass_Informer src h
          in Some (ctx, informer, h))"

definition filtered_gatewayClass_withInformer :: "('e, 'r, 'rl, 'o, 'ol, 'v, 'w) inj_context \<Rightarrow> ('e, 'r, 'rl, 'o, 'ol, 'v, 'w) informer_heap \<Rightarrow> (('e, 'r, 'rl, 'o, 'ol, 'v, 'w) inj_context \<times> nat list \<times> ('e, 'r, 'rl, 'o, 'ol, 'v, 'w) informer_heap) option" where
  "filtered_gatewayClass_withInformer ctx h =
     (case ij_labels ctx of
        None \<Rightarrow> None
      | Some labelSelectors \<Rightarrow>
          each_selector (\<lambda>selector ctx infs h.
            (case filtered_Get ctx selector of
               None \<Rightarrow> None
             | Some f \<Rightarrow>
                 let src = version_GatewayClasses (group_V1alpha1 (factory_Networking f h));
                     ctx = ctx\<lparr>ij_filteredInformers := (ij_filteredInformers ctx)((GatewayClassType, selector) \<mapsto> ClusterWide src)\<rparr>;
                     (informer, h) = gatewayClass_Informer src h
                 in Some (ctx, infs @ [informer], h)))
          labelSelectors ctx [] h)"

definition filtered_gatewayClass_Get :: "('e, 'r, 'rl, 'o, 'ol, 'v, 'w) inj_context \<Rightarrow> string \<Rightarrow> 'w cluster_source option" where
  "filtered_gatewayClass_Get ctx selector =
     (case ij_filteredInformers ctx (GatewayClassType, selector) of Some (ClusterWide src) \<Rightarrow> Some src | _ \<Rightarrow> None)"

definition fake_filtered_gatewayClass_withInformer :: "('e, 'r, 'rl, 'o, 'ol, 'v, 'w) inj_context \<Rightarrow> ('e, 'r, 'rl, 'o, 'ol, 'v, 'w) informer_heap \<Rightarrow> (('e, 'r, 'rl, 'o, 'ol, 'v, 'w) inj_context \<times> nat list \<times> ('e, 'r, 'rl, 'o, 'ol, 'v, 'w) informer_heap) option" where
  "fake_filtered_gatewayClass_withInformer ctx h =
     (case ij_labels ctx of
        None \<Rightarrow> None
      | Some labelSelectors \<Rightarrow>
          each_selector (\<lambda>selector ctx infs h.
            (case filtered_Get ctx selector of
               None \<Rightarrow> None
             | Some f \<Rightarrow>
                 let src = version_GatewayClasses (group_V1alpha1 (factory_Networking f h));
                     ctx = ctx\<lparr>ij_filteredInformers := (ij_filteredInformers ctx)((GatewayClassType, selector) \<mapsto> ClusterWide src)\<rparr>;
                     (informer, h) = gatewayClass_Informer src h
                 in Some (ctx, infs @ [informer], h)))
          labelSelectors ctx [] h)"

definition hTTPRoute_withInformer :: "('e, 'r, 'rl, 'o, 'ol, 'v, 'w) inj_context \<Rightarrow> ('e, 'r, 'rl, 'o, 'ol, 'v, 'w) informer_heap \<Rightarrow> (('e, 'r, 'rl, 'o, 'ol, 'v, 'w) inj_context \<times> nat \<times> ('e, 'r, 'rl, 'o, 'ol, 'v, 'w) informer_heap) option" where
  "hTTPRoute_withInformer ctx h =
     (case factory_Get ctx of
        None \<Rightarrow> None
      | Some f \<Rightarrow>
          let src = version_HTTPRoutes (group_V1alpha1 (factory_Networking f h));
              ctx = ctx\<lparr>ij_informers := (ij_informers ctx)(HTTPRouteType \<mapsto> Namespaced src)\<rparr>;
              (informer, h) = hTTPRoute_Informer src h
          in Some (ctx, informer, h))"

definition hTTPRoute_Get :: "('e, 'r, 'rl, 'o, 'ol, 'v, 'w) inj_context \<Rightarrow> 'w informer_source option" where
  "hTTPRoute_Get ctx = (case ij_informers ctx HTTPRouteType of Some (Namespaced src) \<Rightarrow> Some src | _ \<Rightarrow> None)"

definition fake_hTTPRoute_withInformer :: "('e, 'r, 'rl, 'o, 'ol, 'v, 'w) inj_context \<Rightarrow> ('e, 'r, 'rl, 'o, 'ol, 'v, 'w) informer_heap \<Rightarrow> (('e, 'r, 'rl, 'o, 'ol, 'v, 'w) inj_context \<times> nat \<times> ('e, 'r, 'rl, 'o, 'ol, 'v, 'w) informer_heap) option" where
  "fake_hTTPRoute_withInformer ctx h =
     (case factory_Get ctx of
        None \<Rightarrow> None
      | Some f \<Rightarrow>
          let src = version_HTTPRoutes (group_V1alpha1 (factory_Networking f h));
              ctx = ctx\<lparr>ij_informers := (ij_informers ctx)(HTTPRouteType \<mapsto> Namespaced src)\<rparr>;
              (informer, h) = hTTPRoute_Informer src h
          in Some (ctx, informer, h))"

definition filtered_hTTPRoute_withInformer :: "('e, 'r, 'rl, 'o, 'ol, 'v, 'w) inj_context \<Rightarrow> ('e, 'r, 'rl, 'o, 'ol, 'v, 'w) informer_heap \<Rightarrow> (('e, 'r, 'rl, 'o, 'ol, 'v, 'w) inj_context \<times> nat list \<times> ('e, 'r, 'rl, 'o, 'ol, 'v, 'w) informer_heap) option" where
  "filtered_hTTPRoute_withInformer ctx h =
     (case ij_labels ctx of
        None \<Rightarrow> None
      | Some labelSelectors \<Rightarrow>
          each_selector (\<lambda>selector ctx infs h.
            (case filtered_Get ctx selector of
               None \<Rightarrow> None
             | Some f \<Rightarrow>
                 let src = version_HTTPRoutes (group_V1alpha1 (factory_Networking f h));
                     ctx = ctx\<lparr>ij_filteredInformers := (ij_filteredInformers ctx)((HTTPRouteType, selector) \<mapsto> Namespaced src)\<rparr>;
                     (informer, h) = hTTPRoute_Informer src h
                 in Some (ctx, infs @ [informer], h)))
          labelSelectors ctx [] h)"

definition filtered_hTTPRoute_Get :: "('e, 'r, 'rl, 'o, 'ol, 'v, 'w) inj_context \<Rightarrow> string \<Rightarrow> 'w informer_source option" where
  "filtered_hTTPRoute_Get ctx selector =
     (case ij_filteredInformers ctx (HTTPRouteType, selector) of Some (Namespaced src) \<Rightarrow> Some src | _ \<Rightarrow> None)"

definition fake_filtered_hTTPRoute_withInformer :: "('e, 'r, 'rl, 'o, 'ol, 'v, 'w) inj_context \<Rightarrow> ('e, 'r, 'rl, 'o, 'ol, 'v, 'w) informer_heap \<Rightarrow> (('e, 'r, 'rl, 'o, 'ol, 'v, 'w) inj_context \<times> nat list \<times> ('e, 'r, 'rl, 'o, 'ol, 'v, 'w) informer_heap) option" where
  "fake_filtered_hTTPRoute_withInformer ctx h =
     (case ij_labels ctx of
        None \<Rightarrow> None
      | Some labelSelectors \<Rightarrow>
          each_selector (\<lambda>selector ctx infs h.
            (case filtered_Get ctx selector of
               None \<Rightarrow> None
             | Some f \<Rightarrow>
                 let src = version_HTTPRoutes (group_V1alpha1 (factory_Networking f h));
                     ctx = ctx\<lparr>ij_filteredInformers := (ij_filteredInformers ctx)((HTTPRouteType, selector) \<mapsto> Namespaced src)\<rparr>;
                     (informer, h) = hTTPRoute_Informer src h
                 in Some (ctx, infs @ [informer], h)))
          labelSelectors ctx [] h)"

definition tCPRoute_withInformer :: "('e, 'r, 'rl, 'o, 'ol, 'v, 'w) inj_context \<Rightarrow> ('e, 'r, 'rl, 'o, 'ol, 'v, 'w) informer_heap \<Rightarrow> (('e, 'r, 'rl, 'o, 'ol, 'v, 'w) inj_context \<times> nat \<times> ('e, 'r, 'rl, 'o, 'ol, 'v, 'w) informer_heap) option" where
  "tCPRoute_withInformer ctx h =
     (case factory_Get ctx of
        None \<Rightarrow> None
      | Some f \<Rightarrow>
          let src = version_TCPRoutes (group_V1alpha1 (factory_Networking f h));
              ctx = ctx\<lparr>ij_informers := (ij_informers ctx)(TCPRouteType \<mapsto> Namespaced src)\<rparr>;
              (informer, h) = tCPRoute_Informer src h
          in Some (ctx, informer, h))"

definition tCPRoute_Get :: "('e, 'r, 'rl, 'o, 'ol, 'v, 'w) inj_context \<Rightarrow> 'w informer_source option" where
  "tCPRoute_Get ctx = (case ij_informers ctx TCPRouteType of Some (Namespaced src) \<Rightarrow> Some src | _ \<Rightarrow> None)"

definition fake_tCPRoute_withInformer :: "('e, 'r, 'rl, 'o, 'ol, 'v, 'w) inj_context \<Rightarrow> ('e, 'r, 'rl, 'o, 'ol, 'v, 'w) informer_heap \<Rightarrow> (('e, 'r, 'rl, 'o, 'ol, 'v, 'w) inj_context \<times> nat \<times> ('e, 'r, 'rl, 'o, 'ol, 'v, 'w) informer_heap) option" where
  "fake_tCPRoute_withInformer ctx h =
     (case factory_Get ctx of
        None \<Rightarrow> None
      | Some f \<Rightarrow>
          let src = version_TCPRoutes (group_V1alpha1 (factory_Networking f h));
              ctx = ctx\<lparr>ij_informers := (ij_informers ctx)(TCPRouteType \<mapsto> Namespaced src)\<rparr>;
              (informer, h) = tCPRoute_Informer src h
          in Some (ctx, informer, h))"

definition filtered_tCPRoute_withInformer :: "('e, 'r, 'rl, 'o, 'ol, 'v, 'w) inj_context \<Rightarrow> ('e, 'r, 'rl, 'o, 'ol, 'v, 'w) informer_heap \<Rightarrow> (('e, 'r, 'rl, 'o, 'ol, 'v, 'w) inj_context \<times> nat list \<times> ('e, 'r, 'rl, 'o, 'ol, 'v, 'w) informer_heap) option" where
  "filtered_tCPRoute_withInformer ctx h =
     (case ij_labels ctx of
        None \<Rightarrow> None
      | Some labelSelectors \<Rightarrow>
          each_selector (\<lambda>selector ctx infs h.
            (case filtered_Get ctx selector of
               None \<Rightarrow> None
             | Some f \<Rightarrow>
                 let src = version_TCPRoutes (group_V1alpha1 (factory_Networking f h));
                     ctx = ctx\<lparr>ij_filteredInformers := (ij_filteredInformers ctx)((TCPRouteType, selector) \<mapsto> Namespaced src)\<rparr>;
                     (informer, h) = tCPRoute_Informer src h
                 in Some (ctx, infs @ [informer], h)))
          labelSelectors ctx [] h)"

definition filtered_tCPRoute_Get :: "('e, 'r, 'rl, 'o, 'ol, 'v, 'w) inj_context \<Rightarrow> string \<Rightarrow> 'w informer_source option" where
  "filtered_tCPRoute_Get ctx selector =
     (case ij_filteredInformers ctx (TCPRouteType, selector) of Some (Namespaced src) \<Rightarrow> Some src | _ \<Rightarrow> None)"

definition fake_filtered_tCPRoute_withInformer :: "('e, 'r, 'rl, 'o, 'ol, 'v, 'w) inj_context \<Rightarrow> ('e, 'r, 'rl, 'o, 'ol, 'v, 'w) informer_heap \<Rightarrow> (('e, 'r, 'rl, 'o, 'ol, 'v, 'w) inj_context \<times> nat list \<times> ('e, 'r, 'rl, 'o, 'ol, 'v, 'w) informer_heap) option" where
  "fake_filtered_tCPRoute_withInformer ctx h =
     (case ij_labels ctx of
        None \<Rightarrow> None
      | Some labelSelectors \<Rightarrow>
          each_selector (\<lambda>selector ctx infs h.
            (case filtered_Get ctx selector of
               None \<Rightarrow> None
             | Some f \<Rightarrow>
                 let src = version_TCPRoutes (group_V1alpha1 (factory_Networking f h));
                     ctx = ctx\<lparr>ij_filteredInformers := (ij_filteredInformers ctx)((TCPRouteType, selector) \<mapsto> Namespaced src)\<rparr>;
                     (informer, h) = tCPRoute_Informer src h
                 in Some (ctx, infs @ [informer], h)))
          labelSelectors ctx [] h)"

definition tLSRoute_withInformer :: "('e, 'r, 'rl, 'o, 'ol, 'v, 'w) inj_context \<Rightarrow> ('e, 'r, 'rl, 'o, 'ol, 'v, 'w) informer_heap \<Rightarrow> (('e, 'r, 'rl, 'o, 'ol, 'v, 'w) inj_context \<times> nat \<times> ('e, 'r, 'rl, 'o, 'ol, 'v, 'w) informer_heap) option" where
  "tLSRoute_withInformer ctx h =
     (case factory_Get ctx of
        None \<Rightarrow> None
      | Some f \<Rightarrow>
          let src = version_TLSRoutes (group_V1alpha1 (factory_Networking f h));
              ctx = ctx\<lparr>ij_informers := (ij_informers ctx)(TLSRouteType \<mapsto> Namespaced src)\<rparr>;
              (informer, h) = tLSRoute_Informer src h
          in Some (ctx, informer, h))"

definition tLSRoute_Get :: "('e, 'r, 'rl, 'o, 'ol, 'v, 'w) inj_context \<Rightarrow> 'w informer_source option" where
  "tLSRoute_Get ctx = (case ij_informers ctx TLSRouteType of Some (Namespaced src) \<Rightarrow> Some src | _ \<Rightarrow> None)"

definition fake_tLSRoute_withInformer :: "('e, 'r, 'rl, 'o, 'ol, 'v, 'w) inj_context \<Rightarrow> ('e, 'r, 'rl, 'o, 'ol, 'v, 'w) informer_heap \<Rightarrow> (('e, 'r, 'rl, 'o, 'ol, 'v, 'w) inj_context \<times> nat \<times> ('e, 'r, 'rl, 'o, 'ol, 'v, 'w) informer_heap) option" where
  "fake_tLSRoute_withInformer ctx h =
     (case factory_Get ctx of
        None \<Rightarrow> None
      | Some f \<Rightarrow>
          let src = version_TLSRoutes (group_V1alpha1 (factory_Networking f h));
              ctx = ctx\<lparr>ij_informers := (ij_informers ctx)(TLSRouteType \<mapsto> Namespaced src)\<rparr>;
              (informer, h) = tLSRoute_Informer src h
          in Some (ctx, informer, h))"

definition filtered_tLSRoute_withInformer :: "('e, 'r, 'rl, 'o, 'ol, 'v, 'w) inj_context \<Rightarrow> ('e, 'r, 'rl, 'o, 'ol, 'v, 'w) informer_heap \<Rightarrow> (('e, 'r, 'rl, 'o, 'ol, 'v, 'w) inj_context \<times> nat list \<times> ('e, 'r, 'rl, 'o, 'ol, 'v, 'w) informer_heap) option" where
  "filtered_tLSRoute_withInformer ctx h =
     (case ij_labels ctx of
        None \<Rightarrow> None
      | Some labelSelectors \<Rightarrow>
          each_selector (\<lambda>selector ctx infs h.
            (case filtered_Get ctx selector of
               None \<Rightarrow> None
             | Some f \<Rightarrow>
                 let src = version_TLSRoutes (group_V1alpha1 (factory_Networking f h));
                     ctx = ctx\<lparr>ij_filteredInformers := (ij_filteredInformers ctx)((TLSRouteType, selector) \<mapsto> Namespaced src)\<rparr>;
                     (informer, h) = tLSRoute_Informer src h
                 in Some (ctx, infs @ [informer], h)))
          labelSelectors ctx [] h)"

definition filtered_tLSRoute_Get :: "('e, 'r, 'rl, 'o, 'ol, 'v, 'w) inj_context \<Rightarrow> string \<Rightarrow> 'w informer_source option" where
  "filtered_tLSRoute_Get ctx selector =
     (case ij_filteredInformers ctx (TLSRouteType, selector) of Some (Namespaced src) \<Rightarrow> Some src | _ \<Rightarrow> None)"

definition fake_filtered_tLSRoute_withInformer :: "('e, 'r, 'rl, 'o, 'ol, 'v, 'w) inj_context \<Rightarrow> ('e, 'r, 'rl, 'o, 'ol, 'v, 'w) informer_heap \<Rightarrow> (('e, 'r, 'rl, 'o, 'ol, 'v, 'w) inj_context \<times> nat list \<times> ('e, 'r, 'rl, 'o, 'ol, 'v, 'w) informer_heap) option" where
  "fake_filtered_tLSRoute_withInformer ctx h =
     (case ij_labels ctx of
        None \<Rightarrow> None
      | Some labelSelectors \<Rightarrow>
          each_selector (\<lambda>selector ctx infs h.
            (case filtered_Get ctx selector of
               None \<Rightarrow> None
             | Some f \<Rightarrow>
                 let src = version_TLSRoutes (group_V1alpha1 (factory_Networking f h));
                     ctx = ctx\<lparr>ij_filteredInformers := (ij_filteredInformers ctx)((TLSRouteType, selector) \<mapsto> Namespaced src)\<rparr>;
                     (informer, h) = tLSRoute_Informer src h
                 in Some (ctx, infs @ [informer], h)))
          labelSelectors ctx [] h)"

definition uDPRoute_withInformer :: "('e, 'r, 'rl, 'o, 'ol, 'v, 'w) inj_context \<Rightarrow> ('e, 'r, 'rl, 'o, 'ol, 'v, 'w) informer_heap \<Rightarrow> (('e, 'r, 'rl, 'o, 'ol, 'v, 'w) inj_context \<times> nat \<times> ('e, 'r, 'rl, 'o, 'ol, 'v, 'w) informer_heap) option" where
  "uDPRoute_withInformer ctx h =
     (case factory_Get ctx of
        None \<Rightarrow> None
      | Some f \<Rightarrow>
          let src = version_UDPRoutes (group_V1alpha1 (factory_Networking f h));
              ctx = ctx\<lparr>ij_informers := (ij_informers ctx)(UDPRouteType \<mapsto> Namespaced src)\<rparr>;
              (informer, h) = uDPRoute_Informer src h
          in Some (ctx, informer, h))"

definition uDPRoute_Get :: "('e, 'r, 'rl, 'o, 'ol, 'v, 'w) inj_context \<Rightarrow> 'w informer_source option" where
  "uDPRoute_Get ctx = (case ij_informers ctx UDPRouteType of Some (Namespaced src) \<Rightarrow> Some src | _ \<Rightarrow> None)"

definition fake_uDPRoute_withInformer :: "('e, 'r, 'rl, 'o, 'ol, 'v, 'w) inj_context \<Rightarrow> ('e, 'r, 'rl, 'o, 'ol, 'v, 'w) informer_heap \<Rightarrow> (('e, 'r, 'rl, 'o, 'ol, 'v, 'w) inj_context \<times> nat \<times> ('e, 'r, 'rl, 'o, 'ol, 'v, 'w) informer_heap) option" where
  "fake_uDPRoute_withInformer ctx h =
     (case factory_Get ctx of
        None \<Rightarrow> None
      | Some f \<Rightarrow>
          let src = version_UDPRoutes (group_V1alpha1 (factory_Networking f h));
              ctx = ctx\<lparr>ij_informers := (ij_informers ctx)(UDPRouteType \<mapsto> Namespaced src)\<rparr>;
              (informer, h) = uDPRoute_Informer src h
          in Some (ctx, informer, h))"

definition filtered_uDPRoute_withInformer :: "('e, 'r, 'rl, 'o, 'ol, 'v, 'w) inj_context \<Rightarrow> ('e, 'r, 'rl, 'o, 'ol, 'v, 'w) informer_heap \<Rightarrow> (('e, 'r, 'rl, 'o, 'ol, 'v, 'w) inj_context \<times> nat list \<times> ('e, 'r, 'rl, 'o, 'ol, 'v, 'w) informer_heap) option" where
  "filtered_uDPRoute_withInformer ctx h =
     (case ij_labels ctx of
        None \<Rightarrow> None
      | Some labelSelectors \<Rightarrow>
          each_selector (\<lambda>selector ctx infs h.
            (case filtered_Get ctx selector of
               None \<Rightarrow> None
             | Some f \<Rightarrow>
                 let src = version_UDPRoutes (group_V1alpha1 (factory_Networking f h));
                     ctx = ctx\<lparr>ij_filteredInformers := (ij_filteredInformers ctx)((UDPRouteType, selector) \<mapsto> Namespaced src)\<rparr>;
                     (informer, h) = uDPRoute_Informer src h
                 in Some (ctx, infs @ [informer], h)))
          labelSelectors ctx [] h)"

definition filtered_uDPRoute_Get :: "('e, 'r, 'rl, 'o, 'ol, 'v, 'w) inj_context \<Rightarrow> string \<Rightarrow> 'w informer_source option" where
  "filtered_uDPRoute_Get ctx selector =
     (case ij_filteredInformers ctx (UDPRouteType, selector) of Some (Namespaced src) \<Rightarrow> Some src | _ \<Rightarrow> None)"

definition fake_filtered_uDPRoute_withInformer :: "('e, 'r, 'rl, 'o, 'ol, 'v, 'w) inj_context \<Rightarrow> ('e, 'r, 'rl, 'o, 'ol, 'v, 'w) informer_heap \<Rightarrow> (('e, 'r, 'rl, 'o, 'ol, 'v, 'w) inj_context \<times> nat list \<times> ('e, 'r, 'rl, 'o, 'ol, 'v, 'w) informer_heap) option" where
  "fake_filtered_uDPRoute_withInformer ctx h =
     (case ij_labels ctx of
        None \<Rightarrow> None
      | Some labelSelectors \<Rightarrow>
          each_selector (\<lambda>selector ctx infs h.
            (case filtered_Get ctx selector of
               None \<Rightarrow> None
             | Some f \<Rightarrow>
                 let src = version_UDPRoutes (group_V1alpha1 (factory_Networking f h));
                     ctx = ctx\<lparr>ij_filteredInformers := (ij_filteredInformers ctx)((UDPRouteType, selector) \<mapsto> Namespaced src)\<rparr>;
                     (informer, h) = uDPRoute_Informer src h
                 in Some (ctx, infs @ [informer], h)))
          labelSelectors ctx [] h)"

section \<open>The registry\<close>

text \<open>\<open>injection.Default\<close> and \<open>injection.Fake\<close>. Dynamic clients and duck factories are left out: nothing here
  registers one. A client injector gets the configuration, of any type; the injectors of the filtered
  factories are the only ones that touch the variables.\<close>

record ('e, 'r, 'rl, 'o, 'ol, 'v, 'w, 'cfg) registry =
  rg_clients :: "('cfg \<Rightarrow> ('e, 'r, 'rl, 'o, 'ol, 'v, 'w) inj_context \<Rightarrow> 'w \<Rightarrow> (('e, 'r, 'rl, 'o, 'ol, 'v, 'w) inj_context \<times> 'w) option) list"
  rg_factories :: "(('e, 'r, 'rl, 'o, 'ol, 'v, 'w) inj_context \<Rightarrow> ('e, 'r, 'rl, 'o, 'ol, 'v, 'w) informer_heap \<Rightarrow> 'w \<Rightarrow> (('e, 'r, 'rl, 'o, 'ol, 'v, 'w) inj_context \<times> ('e, 'r, 'rl, 'o, 'ol, 'v, 'w) informer_heap \<times> 'w) option) list"
  rg_informers :: "(('e, 'r, 'rl, 'o, 'ol, 'v, 'w) inj_context \<Rightarrow> ('e, 'r, 'rl, 'o, 'ol, 'v, 'w) informer_heap \<Rightarrow> (('e, 'r, 'rl, 'o, 'ol, 'v, 'w) inj_context \<times> nat \<times> ('e, 'r, 'rl, 'o, 'ol, 'v, 'w) informer_heap) option) list"
  rg_filteredInformers :: "(('e, 'r, 'rl, 'o, 'ol, 'v, 'w) inj_context \<Rightarrow> ('e, 'r, 'rl, 'o, 'ol, 'v, 'w) informer_heap \<Rightarrow> (('e, 'r, 'rl, 'o, 'ol, 'v, 'w) inj_context \<times> nat list \<times> ('e, 'r, 'rl, 'o, 'ol, 'v, 'w) informer_heap) option) list"

definition RegisterClient where "RegisterClient ci i = i\<lparr>rg_clients := rg_clients i @ [ci]\<rparr>"
definition RegisterInformerFactory where "RegisterInformerFactory ifi i = i\<lparr>rg_factories := rg_factories i @ [ifi]\<rparr>"
definition RegisterInformer where "RegisterInformer ii i = i\<lparr>rg_informers := rg_informers i @ [ii]\<rparr>"
definition RegisterFilteredInformers where
  "RegisterFilteredInformers fii i = i\<lparr>rg_filteredInformers := rg_filteredInformers i @ [fii]\<rparr>"

fun run_clients :: "('cfg \<Rightarrow> ('e, 'r, 'rl, 'o, 'ol, 'v, 'w) inj_context \<Rightarrow> 'w \<Rightarrow> (('e, 'r, 'rl, 'o, 'ol, 'v, 'w) inj_context \<times> 'w) option) list \<Rightarrow> 'cfg \<Rightarrow> ('e, 'r, 'rl, 'o, 'ol, 'v, 'w) inj_context \<Rightarrow> 'w \<Rightarrow> (('e, 'r, 'rl, 'o, 'ol, 'v, 'w) inj_context \<times> 'w) option" where
  "run_clients [] cfg ctx w = Some (ctx, w)"
| "run_clients (ci # cis) cfg ctx w =
     (case ci cfg ctx w of None \<Rightarrow> None | Some (ctx, w) \<Rightarrow> run_clients cis cfg ctx w)"

fun run_factories ::
  "(('e, 'r, 'rl, 'o, 'ol, 'v, 'w) inj_context \<Rightarrow> ('e, 'r, 'rl, 'o, 'ol, 'v, 'w) informer_heap \<Rightarrow> 'w \<Rightarrow> (('e, 'r, 'rl, 'o, 'ol, 'v, 'w) inj_context \<times> ('e, 'r, 'rl, 'o, 'ol, 'v, 'w) informer_heap \<times> 'w) option) list \<Rightarrow> ('e, 'r, 'rl, 'o, 'ol, 'v, 'w) inj_context \<Rightarrow> ('e, 'r, 'rl, 'o, 'ol, 'v, 'w) informer_heap \<Rightarrow> 'w \<Rightarrow> (('e, 'r, 'rl, 'o, 'ol, 'v, 'w) inj_context \<times> ('e, 'r, 'rl, 'o, 'ol, 'v, 'w) informer_heap \<times> 'w) option" where
  "run_factories [] ctx h w = Some (ctx, h, w)"
| "run_factories (ifi # ifis) ctx h w =
     (case ifi ctx h w of None \<Rightarrow> None | Some (ctx, h, w) \<Rightarrow> run_factories ifis ctx h w)"

fun run_informers ::
  "(('e, 'r, 'rl, 'o, 'ol, 'v, 'w) inj_context \<Rightarrow> ('e, 'r, 'rl, 'o, 'ol, 'v, 'w) informer_heap \<Rightarrow> (('e, 'r, 'rl, 'o, 'ol, 'v, 'w) inj_context \<times> nat \<times> ('e, 'r, 'rl, 'o, 'ol, 'v, 'w) informer_heap) option) list \<Rightarrow> ('e, 'r, 'rl, 'o, 'ol, 'v, 'w) inj_context \<Rightarrow> nat list \<Rightarrow> ('e, 'r, 'rl, 'o, 'ol, 'v, 'w) informer_heap \<Rightarrow> (('e, 'r, 'rl, 'o, 'ol, 'v, 'w) inj_context \<times> nat list \<times> ('e, 'r, 'rl, 'o, 'ol, 'v, 'w) informer_heap) option" where
  "run_informers [] ctx informers h = Some (ctx, informers, h)"
| "run_informers (ii # iis) ctx informers h =
     (case ii ctx h of None \<Rightarrow> None | Some (ctx, src, h) \<Rightarrow> run_informers iis ctx (informers @ [src]) h)"

fun run_filtered ::
  "(('e, 'r, 'rl, 'o, 'ol, 'v, 'w) inj_context \<Rightarrow> ('e, 'r, 'rl, 'o, 'ol, 'v, 'w) informer_heap \<Rightarrow> (('e, 'r, 'rl, 'o, 'ol, 'v, 'w) inj_context \<times> nat list \<times> ('e, 'r, 'rl, 'o, 'ol, 'v, 'w) informer_heap) option) list \<Rightarrow> ('e, 'r, 'rl, 'o, 'ol, 'v, 'w) inj_context \<Rightarrow> nat list \<Rightarrow> ('e, 'r, 'rl, 'o, 'ol, 'v, 'w) informer_heap \<Rightarrow> (('e, 'r, 'rl, 'o, 'ol, 'v, 'w) inj_context \<times> nat list \<times> ('e, 'r, 'rl, 'o, 'ol, 'v, 'w) informer_heap) option" where
  "run_filtered [] ctx informers h = Some (ctx, informers, h)"
| "run_filtered (fii # fiis) ctx informers h =
     (case fii ctx h of None \<Rightarrow> None | Some (ctx, infs, h) \<Rightarrow> run_filtered fiis ctx (informers @ infs) h)"

definition SetupInformers where
  "SetupInformers i cfg ctx h w =
     (case run_clients (rg_clients i) cfg ctx w of None \<Rightarrow> None | Some (ctx, w) \<Rightarrow>
      (case run_factories (rg_factories i) ctx h w of None \<Rightarrow> None | Some (ctx, h, w) \<Rightarrow>
       (case run_informers (rg_informers i) ctx [] h of None \<Rightarrow> None | Some (ctx, informers, h) \<Rightarrow>
        (case run_filtered (rg_filteredInformers i) ctx informers h of None \<Rightarrow> None | Some (ctx, informers, h) \<Rightarrow>
           Some (ctx, informers, h, w)))))"

text \<open>The \<open>init\<close> functions of the packages.\<close>

definition init_client where
  "init_client env = RegisterClient (\<lambda>cfg ctx w. map_option (\<lambda>ctx. (ctx, w)) (client_withClient env cfg ctx))"
definition init_fake_client where "init_fake_client zero env = RegisterClient (fake_withClient zero env)"
definition init_factory where
  "init_factory = RegisterInformerFactory (\<lambda>ctx h w. map_option (\<lambda>(ctx, h). (ctx, h, w)) (factory_withInformerFactory ctx h))"
definition init_fake_factory where
  "init_fake_factory = RegisterInformerFactory (\<lambda>ctx h w. map_option (\<lambda>(ctx, h). (ctx, h, w)) (fake_withInformerFactory ctx h))"
definition init_filtered_factory where "init_filtered_factory = RegisterInformerFactory filtered_withInformerFactory"
definition init_fake_filtered_factory where
  "init_fake_filtered_factory = RegisterInformerFactory fake_filtered_withInformerFactory"

definition init_backendPolicy where "init_backendPolicy = RegisterInformer backendPolicy_withInformer"
definition init_filtered_backendPolicy where "init_filtered_backendPolicy = RegisterFilteredInformers filtered_backendPolicy_withInformer"
definition init_fake_backendPolicy where "init_fake_backendPolicy = RegisterInformer fake_backendPolicy_withInformer"
definition init_fake_filtered_backendPolicy where "init_fake_filtered_backendPolicy = RegisterFilteredInformers fake_filtered_backendPolicy_withInformer"
definition init_gateway where "init_gateway = RegisterInformer gateway_withInformer"
definition init_filtered_gateway where "init_filtered_gateway = RegisterFilteredInformers filtered_gateway_withInformer"
definition init_fake_gateway where "init_fake_gateway = RegisterInformer fake_gateway_withInformer"
definition init_fake_filtered_gateway where "init_fake_filtered_gateway = RegisterFilteredInformers fake_filtered_gateway_withInformer"
definition init_gatewayClass where "init_gatewayClass = RegisterInformer gatewayClass_withInformer"
definition init_filtered_gatewayClass where "init_filtered_gatewayClass = RegisterFilteredInformers filtered_gatewayClass_withInformer"
definition init_fake_gatewayClass where "init_fake_gatewayClass = RegisterInformer fake_gatewayClass_withInformer"
definition init_fake_filtered_gatewayClass where "init_fake_filtered_gatewayClass = RegisterFilteredInformers fake_filtered_gatewayClass_withInformer"
definition init_hTTPRoute where "init_hTTPRoute = RegisterInformer hTTPRoute_withInformer"
definition init_filtered_hTTPRoute where "init_filtered_hTTPRoute = RegisterFilteredInformers filtered_hTTPRoute_withInformer"
definition init_fake_hTTPRoute where "init_fake_hTTPRoute = RegisterInformer fake_hTTPRoute_withInformer"
definition init_fake_filtered_hTTPRoute where "init_fake_filtered_hTTPRoute = RegisterFilteredInformers fake_filtered_hTTPRoute_withInformer"
definition init_tCPRoute where "init_tCPRoute = RegisterInformer tCPRoute_withInformer"
definition init_filtered_tCPRoute where "init_filtered_tCPRoute = RegisterFilteredInformers filtered_tCPRoute_withInformer"
definition init_fake_tCPRoute where "init_fake_tCPRoute = RegisterInformer fake_tCPRoute_withInformer"
definition init_fake_filtered_tCPRoute where "init_fake_filtered_tCPRoute = RegisterFilteredInformers fake_filtered_tCPRoute_withInformer"
definition init_tLSRoute where "init_tLSRoute = RegisterInformer tLSRoute_withInformer"
definition init_filtered_tLSRoute where "init_filtered_tLSRoute = RegisterFilteredInformers filtered_tLSRoute_withInformer"
definition init_fake_tLSRoute where "init_fake_tLSRoute = RegisterInformer fake_tLSRoute_withInformer"
definition init_fake_filtered_tLSRoute where "init_fake_filtered_tLSRoute = RegisterFilteredInformers fake_filtered_tLSRoute_withInformer"
definition init_uDPRoute where "init_uDPRoute = RegisterInformer uDPRoute_withInformer"
definition init_filtered_uDPRoute where "init_filtered_uDPRoute = RegisterFilteredInformers filtered_uDPRoute_withInformer"
definition init_fake_uDPRoute where "init_fake_uDPRoute = RegisterInformer fake_uDPRoute_withInformer"
definition init_fake_filtered_uDPRoute where "init_fake_filtered_uDPRoute = RegisterFilteredInformers fake_filtered_uDPRoute_withInformer"

section \<open>Filtered factories\<close>

text \<open>What a factory of the context is to be, but for its tweak.\<close>

definition scoped_factory :: "('e, 'r, 'rl, 'o, 'ol, 'v, 'w) networking_client \<Rightarrow> ('e, 'r, 'rl, 'o, 'ol, 'v, 'w) inj_context \<Rightarrow> 'w tweak option \<Rightarrow> ('e, 'r, 'rl, 'o, 'ol, 'v, 'w) shared_factory" where
  "scoped_factory c ctx tweak = \<lparr>sf_client = c, sf_namespace = GetNamespaceScope ctx, sf_tweakListOptions = tweak,
     sf_defaultResync = GetResyncPeriod ctx, sf_customResync = fmempty, sf_informers = fmempty,
     sf_startedInformers = fmempty\<rparr>"

definition with_factory :: "('e, 'r, 'rl, 'o, 'ol, 'v, 'w) shared_factory \<Rightarrow> ('e, 'r, 'rl, 'o, 'ol, 'v, 'w) informer_heap \<Rightarrow> ('e, 'r, 'rl, 'o, 'ol, 'v, 'w) informer_heap" where
  "with_factory F h = h\<lparr>ih_factories := ih_factories h @ [F]\<rparr>"

lemma New_scoped:
  "NewSharedInformerFactoryWithOptions c (GetResyncPeriod ctx) (namespace_option ctx) h =
     (length (ih_factories h), with_factory (scoped_factory c ctx None) h)"
  "NewSharedInformerFactoryWithOptions c (GetResyncPeriod ctx) (namespace_option ctx @ [WithTweakListOptions tw]) h =
     (length (ih_factories h), with_factory (scoped_factory c ctx tw) h)"
  by (auto simp: NewSharedInformerFactoryWithOptions_def namespace_option_def HasNamespaceScope_def NamespaceAll_def
      WithNamespace_def WithTweakListOptions_def scoped_factory_def with_factory_def)

lemma with_factory_inv:
  assumes "heap_inv h"
  shows "heap_inv (with_factory (scoped_factory c ctx tw) h)" "heap_le h (with_factory (scoped_factory c ctx tw) h)"
proof -
  have "\<forall>opt \<in> set (namespace_option ctx @ [WithTweakListOptions tw]). configures opt"
    by (simp add: namespace_option_def)
  then have "heap_step declared_order h (with_factory (scoped_factory c ctx tw) h)"
    using heap_step.NewFactory [of "namespace_option ctx @ [WithTweakListOptions tw]" declared_order h c "GetResyncPeriod ctx"]
    by (simp only: New_scoped(2) snd_conv)
  then show "heap_inv (with_factory (scoped_factory c ctx tw) h)" "heap_le h (with_factory (scoped_factory c ctx tw) h)"
    using heap_step_inv [OF ranges_declared_order _ assms] by blast+
qed

lemma scope_filtered [simp]:
  "GetNamespaceScope (ctx\<lparr>ij_filtered := m\<rparr>) = GetNamespaceScope ctx"
  "GetResyncPeriod (ctx\<lparr>ij_filtered := m\<rparr>) = GetResyncPeriod ctx"
  "scoped_factory c (ctx\<lparr>ij_filtered := m\<rparr>) tw = scoped_factory c ctx tw"
  by (simp_all add: GetNamespaceScope_def GetResyncPeriod_def scoped_factory_def cong: option.case_cong)

lemma filtered_factories_correct:
  assumes "filtered_factories a c sels ctx h w = (ctx', h', w')" and "heap_inv h" and "a < length (ge_vars w)"
  shows "heap_inv h' \<and> heap_le h h' \<and>
    ge_vars w' ! a = (if sels = [] then ge_vars w ! a else last sels) \<and>
    (\<forall>s \<in> set sels. \<exists>f < length (ih_factories h'). ij_filtered ctx' s = Some f \<and>
       (\<forall>t. informer_spec (factory_at h' f) t = informer_spec (scoped_factory c ctx (Some (capture_selector a))) t)) \<and>
    (\<forall>s. s \<notin> set sels \<longrightarrow> ij_filtered ctx' s = ij_filtered ctx s)"
  using assms
proof (induction sels arbitrary: ctx h w)
  case Nil
  then show ?case by simp
next
  case (Cons s sels)
  let ?w = "w\<lparr>ge_vars := (ge_vars w)[a := s]\<rparr>"
  let ?F = "scoped_factory c ctx (Some (capture_selector a))"
  let ?h = "with_factory ?F h"
  let ?ctx = "ctx\<lparr>ij_filtered := (ij_filtered ctx)(s \<mapsto> length (ih_factories h))\<rparr>"
  have run: "filtered_factories a c sels ?ctx ?h ?w = (ctx', h', w')"
    using Cons.prems(1) by (simp add: New_scoped Let_def)
  have inv: "heap_inv ?h" "heap_le h ?h" using with_factory_inv [OF Cons.prems(2)] by blast+
  have a: "a < length (ge_vars ?w)" using Cons.prems(3) by simp
  note ih = Cons.IH [OF run inv(1) a]
  have new: "length (ih_factories h) < length (ih_factories ?h)" "factory_at ?h (length (ih_factories h)) = ?F"
    by (simp_all add: with_factory_def)
  have le: "heap_le ?h h'" using ih by blast
  have "\<exists>f < length (ih_factories h'). ij_filtered ctx' r = Some f \<and>
      (\<forall>t. informer_spec (factory_at h' f) t = informer_spec ?F t)" if "r \<in> set (s # sels)" for r
  proof (cases "r \<in> set sels")
    case True
    then show ?thesis using ih by simp
  next
    case False
    then have "ij_filtered ctx' r = Some (length (ih_factories h))" using ih that by auto
    moreover have "length (ih_factories h) < length (ih_factories h')" using le new(1) by (simp add: heap_le_def)
    moreover have "informer_spec (factory_at h' (length (ih_factories h))) t = informer_spec ?F t" for t
      using le new by (simp add: heap_le_def)
    ultimately show ?thesis by blast
  qed
  then show ?case using ih heap_le_trans [OF inv(2) le] Cons.prems(3) by auto
qed

text \<open>The loop of the informers: the context keeps its factories, and each round gives the informer of
  the factory of its selector.\<close>

lemma each_selector_run:
  assumes "\<And>s ctx infs h f. ij_filtered ctx s = Some f \<Longrightarrow>
      body s ctx infs h = (case typed_Informer f t h of (p, h') \<Rightarrow> Some (upd s f h ctx, infs @ [p], h'))"
    and "\<And>s f h ctx. ij_filtered (upd s f h ctx) = ij_filtered ctx" and "ij_filtered ctx = fs"
    and "\<forall>s \<in> set sels. fs s \<noteq> None"
    and "ask_all (\<lambda>(f, t). typed_Informer f t) (map (\<lambda>s. (the (fs s), t)) sels) h = (ps, h')"
  shows "\<exists>ctx'. each_selector body sels ctx infs h = Some (ctx', infs @ ps, h')"
  using assms(3-5)
proof (induction sels arbitrary: ctx infs h ps)
  case (Cons s sels)
  then obtain f where f: "fs s = Some f" by auto
  obtain p k where get: "typed_Informer f t h = (p, k)" by fastforce
  obtain qs where qs: "ask_all (\<lambda>(f, t). typed_Informer f t) (map (\<lambda>s. (the (fs s), t)) sels) k = (qs, h')" "ps = p # qs"
    using Cons.prems(3) by (auto simp: f get Let_def split: prod.splits)
  have "body s ctx infs h = Some (upd s f h ctx, infs @ [p], k)"
    using assms(1) [of ctx s f infs h] by (simp add: Cons.prems(1) f get)
  then show ?case
    using Cons.IH [OF _ _ qs(1), of "upd s f h ctx" "infs @ [p]"] Cons.prems(1,2) qs(2) by (simp add: assms(2))
qed simp

lemma each_selector_informers:
  assumes "\<And>s ctx infs h f. ij_filtered ctx s = Some f \<Longrightarrow>
      body s ctx infs h = (case typed_Informer f t h of (p, h') \<Rightarrow> Some (upd s f h ctx, infs @ [p], h'))"
    and "\<And>s f h ctx. ij_filtered (upd s f h ctx) = ij_filtered ctx"
    and "heap_inv h" and "\<forall>s \<in> set sels. \<exists>f < length (ih_factories h). ij_filtered ctx s = Some f"
  shows "\<exists>ctx' ps h'. each_selector body sels ctx infs h = Some (ctx', infs @ ps, h') \<and> heap_inv h' \<and> heap_le h h' \<and>
    list_all2 (\<lambda>s p. slot h' (the (ij_filtered ctx s)) t = Some p) sels ps"
proof -
  let ?ks = "map (\<lambda>s. (the (ij_filtered ctx s), t)) sels"
  obtain ps h' where all: "ask_all (\<lambda>(f, t). typed_Informer f t) ?ks h = (ps, h')" by fastforce
  have "\<forall>k \<in> set ?ks. (\<lambda>(f, t) h. f < length (ih_factories h)) k h" using assms(4) by fastforce
  note held = factories.ask_all_held [OF assms(3) this all]
  have "\<forall>s \<in> set sels. ij_filtered ctx s \<noteq> None" using assms(4) by auto
  note run = each_selector_run [where body = body and upd = upd and infs = infs, OF assms(1,2) refl this all]
  show ?thesis using run held by (auto simp: list_all2_map1)
qed

lemma filtered_labels:
  "filtered_factories a c sels ctx h w = (ctx', h', w') \<Longrightarrow> ij_labels ctx' = ij_labels ctx"
  by (induction sels arbitrary: ctx h w) (auto simp: Let_def split: prod.splits)

lemma filtered_route_informers:
  assumes "ij_labels ctx = Some sels" and "heap_inv h"
    and "\<forall>s \<in> set sels. \<exists>f < length (ih_factories h). ij_filtered ctx s = Some f"
  shows "\<exists>ctx' ps h'. filtered_hTTPRoute_withInformer ctx h = Some (ctx', ps, h') \<and> heap_inv h' \<and> heap_le h h' \<and>
    list_all2 (\<lambda>s p. slot h' (the (ij_filtered ctx s)) HTTPRouteType = Some p) sels ps"
  using each_selector_informers [where t = HTTPRouteType and infs = "[]" and
      upd = "\<lambda>s f h ctx. ctx\<lparr>ij_filteredInformers := (ij_filteredInformers ctx)((HTTPRouteType, s) \<mapsto>
        Namespaced (version_HTTPRoutes (group_V1alpha1 (factory_Networking f h))))\<rparr>" and
      body = "\<lambda>selector ctx infs h. (case filtered_Get ctx selector of None \<Rightarrow> None
        | Some f \<Rightarrow> let src = version_HTTPRoutes (group_V1alpha1 (factory_Networking f h));
              ctx = ctx\<lparr>ij_filteredInformers := (ij_filteredInformers ctx)((HTTPRouteType, selector) \<mapsto> Namespaced src)\<rparr>;
              (informer, h) = hTTPRoute_Informer src h
          in Some (ctx, infs @ [informer], h))", OF _ _ assms(2,3)]
  by (simp add: filtered_hTTPRoute_withInformer_def assms(1) filtered_Get_def typed_Informer.simps Let_def)

lemma scoped_route_informer:
  "informer_spec (scoped_factory c ctx tw) HTTPRouteType =
     NewFilteredHTTPRouteInformer c (GetNamespaceScope ctx) (GetResyncPeriod ctx) [NamespaceIndex] tw"
  by (simp add: scoped_factory_def resync_for_def)

text \<open>C33. The informers of filtered factories. Each selector gets an informer of its own factory, but what it
  lists and watches are the routes selected by the last selector of the context, whichever selector
  it was made for: the closures of all factories share the loop variable.\<close>

theorem filtered_last_selector:
  fixes w :: "'u go_env"
  assumes "heap_inv h" and "filtered_withInformerFactory ctx h w = Some (ctx1, h1, w1)"
    and "ij_labels ctx = Some sels" and "client_Get ctx = Some c"
  shows "\<exists>ctx2 infs h2. filtered_hTTPRoute_withInformer ctx1 h1 = Some (ctx2, infs, h2) \<and> length infs = length sels \<and>
    (\<forall>i < length sels. \<forall>opts w2. ge_vars w2 = ge_vars w1 \<longrightarrow>
       si_List (ih_informers h2 ! (infs ! i)) opts w2 =
         as_items RouteItems (tcl_List (nc_HTTPRoutes c (GetNamespaceScope ctx)) (opts\<lparr>lo_LabelSelector := last sels\<rparr>) w2) \<and>
       si_Watch (ih_informers h2 ! (infs ! i)) opts w2 =
         tcl_Watch (nc_HTTPRoutes c (GetNamespaceScope ctx)) (opts\<lparr>lo_LabelSelector := last sels\<rparr>) w2)"
proof -
  let ?a = "length (ge_vars w)"
  let ?F = "scoped_factory c ctx (Some (capture_selector ?a))"
  have run: "filtered_factories ?a c sels ctx h (w\<lparr>ge_vars := ge_vars w @ ['''']\<rparr>) = (ctx1, h1, w1)"
    using assms(2-4) by (simp add: filtered_withInformerFactory_def)
  from filtered_factories_correct [OF run assms(1)]
  have made: "heap_inv h1" "sels \<noteq> [] \<longrightarrow> ge_vars w1 ! ?a = last sels"
    "\<forall>s \<in> set sels. \<exists>f < length (ih_factories h1). ij_filtered ctx1 s = Some f \<and>
       (\<forall>t. informer_spec (factory_at h1 f) t = informer_spec ?F t)"
    by simp_all
  have labels: "ij_labels ctx1 = Some sels" using filtered_labels [OF run] assms(3) by simp
  from made(3) have some: "\<forall>s \<in> set sels. \<exists>f < length (ih_factories h1). ij_filtered ctx1 s = Some f" by blast
  obtain ctx2 infs h2 where got: "filtered_hTTPRoute_withInformer ctx1 h1 = Some (ctx2, infs, h2)"
      "heap_inv h2" "heap_le h1 h2" "list_all2 (\<lambda>s p. slot h2 (the (ij_filtered ctx1 s)) HTTPRouteType = Some p) sels infs"
    using filtered_route_informers [OF labels made(1) some] by blast
  have informer: "ih_informers h2 ! (infs ! i) = informer_spec ?F HTTPRouteType" if "i < length sels" for i
  proof -
    have "sels ! i \<in> set sels" using that by simp
    then obtain f where f: "f < length (ih_factories h1)" "ij_filtered ctx1 (sels ! i) = Some f"
        "informer_spec (factory_at h1 f) HTTPRouteType = informer_spec ?F HTTPRouteType"
      using made(3) by blast
    have "slot h2 f HTTPRouteType = Some (infs ! i)" using list_all2_nthD [OF got(4) that] f(2) by simp
    moreover have "f < length (ih_factories h2)" using got(3) f(1) by (simp add: heap_le_def)
    ultimately have "ih_informers h2 ! (infs ! i) = informer_spec (factory_at h2 f) HTTPRouteType"
      using inv_slot [OF got(2)] by blast
    then show ?thesis using heap_le_spec [OF got(3) f(1)] f(3) by (simp only:)
  qed
  have cell: "capture_selector ?a w2 opts = opts\<lparr>lo_LabelSelector := last sels\<rparr>"
    if "i < length sels" "ge_vars w2 = ge_vars w1" for i opts and w2 :: "'u go_env"
    using that made(2) by (auto simp: capture_selector_def)
  have "length infs = length sels" using got(4) by (simp add: list_all2_lengthD)
  then show ?thesis
    using got(1) informer [unfolded scoped_route_informer] cell
    by (intro exI [of _ ctx2] exI [of _ infs] exI [of _ h2])
       (auto simp: NewFilteredHTTPRouteInformer_def tweaked_def)
qed

section \<open>Setting up the informers\<close>

definition empty_registry where
  "empty_registry = \<lparr>rg_clients = [], rg_factories = [], rg_informers = [], rg_filteredInformers = []\<rparr>"

text \<open>By the type of the resource: the injectors, the \<open>init\<close> functions, and the informer that \<open>Get\<close> leads to.\<close>

fun withInformer_of :: "resource_type \<Rightarrow> ('e, 'r, 'rl, 'o, 'ol, 'v, 'w) inj_context \<Rightarrow> ('e, 'r, 'rl, 'o, 'ol, 'v, 'w) informer_heap \<Rightarrow> (('e, 'r, 'rl, 'o, 'ol, 'v, 'w) inj_context \<times> nat \<times> ('e, 'r, 'rl, 'o, 'ol, 'v, 'w) informer_heap) option" where
  "withInformer_of BackendPolicyType = backendPolicy_withInformer"
| "withInformer_of GatewayType = gateway_withInformer"
| "withInformer_of GatewayClassType = gatewayClass_withInformer"
| "withInformer_of HTTPRouteType = hTTPRoute_withInformer"
| "withInformer_of TCPRouteType = tCPRoute_withInformer"
| "withInformer_of TLSRouteType = tLSRoute_withInformer"
| "withInformer_of UDPRouteType = uDPRoute_withInformer"

fun init_of :: "resource_type \<Rightarrow> ('e, 'r, 'rl, 'o, 'ol, 'v, 'w, 'cfg) registry \<Rightarrow> ('e, 'r, 'rl, 'o, 'ol, 'v, 'w, 'cfg) registry" where
  "init_of BackendPolicyType = init_backendPolicy"
| "init_of GatewayType = init_gateway"
| "init_of GatewayClassType = init_gatewayClass"
| "init_of HTTPRouteType = init_hTTPRoute"
| "init_of TCPRouteType = init_tCPRoute"
| "init_of TLSRouteType = init_tLSRoute"
| "init_of UDPRouteType = init_uDPRoute"

fun Get_Informer :: "resource_type \<Rightarrow> ('e, 'r, 'rl, 'o, 'ol, 'v, 'w) inj_context \<Rightarrow> ('e, 'r, 'rl, 'o, 'ol, 'v, 'w) informer_heap \<Rightarrow> (nat \<times> ('e, 'r, 'rl, 'o, 'ol, 'v, 'w) informer_heap) option" where
  "Get_Informer BackendPolicyType ctx h = map_option (\<lambda>src. backendPolicy_Informer src h) (backendPolicy_Get ctx)"
| "Get_Informer GatewayType ctx h = map_option (\<lambda>src. gateway_Informer src h) (gateway_Get ctx)"
| "Get_Informer GatewayClassType ctx h = map_option (\<lambda>src. gatewayClass_Informer src h) (gatewayClass_Get ctx)"
| "Get_Informer HTTPRouteType ctx h = map_option (\<lambda>src. hTTPRoute_Informer src h) (hTTPRoute_Get ctx)"
| "Get_Informer TCPRouteType ctx h = map_option (\<lambda>src. tCPRoute_Informer src h) (tCPRoute_Get ctx)"
| "Get_Informer TLSRouteType ctx h = map_option (\<lambda>src. tLSRoute_Informer src h) (tLSRoute_Get ctx)"
| "Get_Informer UDPRouteType ctx h = map_option (\<lambda>src. uDPRoute_Informer src h) (uDPRoute_Get ctx)"

fun source_of :: "resource_type \<Rightarrow> nat \<Rightarrow> string \<Rightarrow> 'w tweak option \<Rightarrow> 'w any_source" where
  "source_of GatewayClassType f ns tw = ClusterWide \<lparr>ci_factory = f, ci_tweak = tw\<rparr>"
| "source_of _ f ns tw = Namespaced \<lparr>ri_factory = f, ri_tweak = tw, ri_namespace = ns\<rparr>"

lemma withInformer_of_eq:
  "withInformer_of t ctx h = (case ij_factory ctx of None \<Rightarrow> None | Some f \<Rightarrow>
     (case typed_Informer f t h of (p, h') \<Rightarrow>
        Some (ctx\<lparr>ij_informers := (ij_informers ctx)(t \<mapsto> source_of t f (sf_namespace (factory_at h f)) (sf_tweakListOptions (factory_at h f)))\<rparr>, p, h')))"
  by (cases t)
     (simp_all add: backendPolicy_withInformer_def gateway_withInformer_def gatewayClass_withInformer_def
       hTTPRoute_withInformer_def tCPRoute_withInformer_def tLSRoute_withInformer_def uDPRoute_withInformer_def
       factory_Get_def accessor_defs Let_def split: option.split)

lemma Get_Informer_known:
  assumes "ij_informers ctx t = Some (source_of t f ns tw)" and "slot h f t = Some p"
  shows "Get_Informer t ctx h = Some (p, h)"
  using assms
  by (cases t)
     (simp_all add: backendPolicy_Get_def gateway_Get_def gatewayClass_Get_def hTTPRoute_Get_def tCPRoute_Get_def
       tLSRoute_Get_def uDPRoute_Get_def backendPolicy_Informer_def gateway_Informer_def gatewayClass_Informer_def
       hTTPRoute_Informer_def tCPRoute_Informer_def tLSRoute_Informer_def uDPRoute_Informer_def InformerFor_def)

lemma init_of_parts [simp]:
  "rg_clients (init_of t r) = rg_clients r" "rg_factories (init_of t r) = rg_factories r"
  "rg_informers (init_of t r) = rg_informers r @ [withInformer_of t]"
  "rg_filteredInformers (init_of t r) = rg_filteredInformers r"
  by (cases t; simp add: init_backendPolicy_def init_gateway_def init_gatewayClass_def init_hTTPRoute_def
      init_tCPRoute_def init_tLSRoute_def init_uDPRoute_def RegisterInformer_def)+

lemma registered_informers:
  "rg_clients (fold init_of ts r) = rg_clients r" "rg_factories (fold init_of ts r) = rg_factories r"
  "rg_informers (fold init_of ts r) = rg_informers r @ map withInformer_of ts"
  "rg_filteredInformers (fold init_of ts r) = rg_filteredInformers r"
  by (induction ts arbitrary: r) simp_all

text \<open>Running the informer injectors over a context that has its factory.\<close>

lemma run_informers_run:
  assumes "ij_factory ctx = Some f" and "ask_all (\<lambda>(f, t). typed_Informer f t) (map (Pair f) ts) h = (ps, h')"
  shows "\<exists>ctx'. run_informers (map withInformer_of ts) ctx infs h = Some (ctx', infs @ ps, h') \<and>
    ij_client ctx' = ij_client ctx \<and>
    (\<forall>t. if t \<in> set ts then \<exists>ns tw. ij_informers ctx' t = Some (source_of t f ns tw)
         else ij_informers ctx' t = ij_informers ctx t)"
  using assms
proof (induction ts arbitrary: ctx infs h ps)
  case (Cons t ts)
  obtain p k where get: "typed_Informer f t h = (p, k)" by fastforce
  obtain qs where qs: "ask_all (\<lambda>(f, t). typed_Informer f t) (map (Pair f) ts) k = (qs, h')" "ps = p # qs"
    using Cons.prems(2) by (auto simp: get Let_def split: prod.splits)
  let ?ctx = "ctx\<lparr>ij_informers := (ij_informers ctx)(t \<mapsto>
    source_of t f (sf_namespace (factory_at h f)) (sf_tweakListOptions (factory_at h f)))\<rparr>"
  have "ij_factory ?ctx = Some f" using Cons.prems(1) by simp
  from Cons.IH [OF this qs(1), of "infs @ [p]"] obtain ctx' where
    rest: "run_informers (map withInformer_of ts) ?ctx (infs @ [p]) k = Some (ctx', (infs @ [p]) @ qs, h')"
      "ij_client ctx' = ij_client ?ctx"
      "\<And>r. if r \<in> set ts then \<exists>ns tw. ij_informers ctx' r = Some (source_of r f ns tw)
        else ij_informers ctx' r = ij_informers ?ctx r"
    by blast
  have "run_informers (map withInformer_of (t # ts)) ctx infs h = Some (ctx', infs @ ps, h')"
    using rest(1) qs(2) by (simp add: withInformer_of_eq Cons.prems(1) get)
  moreover have "if r \<in> set (t # ts) then \<exists>ns tw. ij_informers ctx' r = Some (source_of r f ns tw)
      else ij_informers ctx' r = ij_informers ctx r" for r
    using rest(3) [of r] by (auto split: if_splits)
  ultimately show ?case using rest(2) by auto
qed simp

lemma run_informers_correct:
  assumes "ij_factory ctx = Some f" and "heap_inv h" and "f < length (ih_factories h)"
  shows "\<exists>ctx' ps h'. run_informers (map withInformer_of ts) ctx infs h = Some (ctx', infs @ ps, h') \<and>
    heap_inv h' \<and> heap_le h h' \<and> ij_client ctx' = ij_client ctx \<and>
    list_all2 (\<lambda>t p. slot h' f t = Some p \<and> (\<exists>ns tw. ij_informers ctx' t = Some (source_of t f ns tw))) ts ps"
proof -
  obtain ps h' where all: "ask_all (\<lambda>(f, t). typed_Informer f t) (map (Pair f) ts) h = (ps, h')" by fastforce
  have "\<forall>k \<in> set (map (Pair f) ts). (\<lambda>(f, t) h. f < length (ih_factories h)) k h" using assms(3) by auto
  note held = factories.ask_all_held [OF assms(2) this all]
  obtain ctx' where run: "run_informers (map withInformer_of ts) ctx infs h = Some (ctx', infs @ ps, h')"
      "ij_client ctx' = ij_client ctx" "\<forall>t \<in> set ts. \<exists>ns tw. ij_informers ctx' t = Some (source_of t f ns tw)"
    using run_informers_run [OF assms(1) all] by metis
  have "list_all2 (\<lambda>t p. slot h' f t = Some p) ts ps" using held by (auto simp: list_all2_map1)
  then have "list_all2 (\<lambda>t p. slot h' f t = Some p \<and> (\<exists>ns tw. ij_informers ctx' t = Some (source_of t f ns tw))) ts ps"
    using run(3) by (auto simp: list_all2_conv_all_nth)
  then show ?thesis using run(1,2) held by blast
qed

definition registered where
  "registered env ts = fold init_of ts (init_factory (init_client env empty_registry))"

lemma setup_correct:
  assumes "heap_inv h" and "clientset_NewForConfigOrDie env cfg = Some cs"
  shows "\<exists>ctx' infs h'. SetupInformers (registered env ts) cfg ctx h w = Some (ctx', infs, h', w) \<and>
       client_Get ctx' = Some (clientset_NetworkingV1alpha1 cs) \<and> length infs = length ts \<and>
       (\<forall>i < length ts. Get_Informer (ts ! i) ctx' h' = Some (infs ! i, h') \<and>
          ih_informers h' ! (infs ! i) =
            informer_spec (scoped_factory (clientset_NetworkingV1alpha1 cs) ctx None) (ts ! i))"
proof -
  let ?c = "clientset_NetworkingV1alpha1 cs"
  let ?F = "scoped_factory ?c ctx None"
  let ?h = "with_factory ?F h"
  let ?f = "length (ih_factories h)"
  let ?ctx1 = "ctx\<lparr>ij_client := Some (RealClient ?c)\<rparr>"
  let ?ctx = "?ctx1\<lparr>ij_factory := Some ?f\<rparr>"
  have inv: "heap_inv ?h" using with_factory_inv [OF assms(1)] by blast
  have new: "?f < length (ih_factories ?h)" "factory_at ?h ?f = ?F" by (simp_all add: with_factory_def)
  have same: "scoped_factory c ?ctx1 tw = scoped_factory c ctx tw" for c tw
    by (simp add: scoped_factory_def GetNamespaceScope_def GetResyncPeriod_def cong: option.case_cong)
  have "ij_factory ?ctx = Some ?f" by simp
  from run_informers_correct [OF this inv new(1), of ts "[]"] obtain ctx' ps h' where
    run: "run_informers (map withInformer_of ts) ?ctx [] ?h = Some (ctx', ps, h')"
      "heap_inv h'" "heap_le ?h h'" "ij_client ctx' = ij_client ?ctx"
      "list_all2 (\<lambda>t p. slot h' ?f t = Some p \<and> (\<exists>ns tw. ij_informers ctx' t = Some (source_of t ?f ns tw))) ts ps"
    by auto
  have "SetupInformers (registered env ts) cfg ctx h w = Some (ctx', ps, h', w)"
    using run(1) assms(2)
    by (simp add: registered_def SetupInformers_def registered_informers init_factory_def RegisterInformerFactory_def
        init_client_def RegisterClient_def client_withClient_def empty_registry_def factory_withInformerFactory_def
        client_Get_def New_scoped same)
  moreover have "client_Get ctx' = Some ?c" using run(4) by (simp add: client_Get_def)
  moreover have "Get_Informer (ts ! i) ctx' h' = Some (ps ! i, h') \<and> ih_informers h' ! (ps ! i) = informer_spec ?F (ts ! i)"
    if "i < length ts" for i
  proof -
    note at = list_all2_nthD [OF run(5) that]
    obtain ns tw where k: "slot h' ?f (ts ! i) = Some (ps ! i)" "ij_informers ctx' (ts ! i) = Some (source_of (ts ! i) ?f ns tw)"
      using at by blast
    have f: "?f < length (ih_factories h')" using run(3) new(1) by (simp add: heap_le_def)
    have "informer_spec (factory_at h' ?f) (ts ! i) = informer_spec ?F (ts ! i)"
      using run(3) new by (simp add: heap_le_def)
    then show ?thesis using Get_Informer_known [OF k(2,1)] inv_slot [OF run(2) f k(1)] by simp
  qed
  moreover have "length ps = length ts" using run(5) by (simp add: list_all2_lengthD)
  ultimately show ?thesis by blast
qed

lemma run_informers_untouched:
  "run_informers (map withInformer_of ts) ctx infs h = Some (ctx', infs', h') \<Longrightarrow> t \<notin> set ts \<Longrightarrow>
   ij_informers ctx' t = ij_informers ctx t"
  by (induction ts arbitrary: ctx infs h) (auto simp: withInformer_of_eq split: option.splits prod.splits)

lemma setup_untouched:
  assumes "SetupInformers (registered env ts) cfg ctx h w = Some (ctx', infs, h', w')" and "t \<notin> set ts"
  shows "ij_informers ctx' t = ij_informers ctx t"
  using assms run_informers_untouched [of ts _ "[]" _ ctx' infs h' t]
  by (fastforce simp: registered_def SetupInformers_def registered_informers init_factory_def RegisterInformerFactory_def
      init_client_def RegisterClient_def client_withClient_def empty_registry_def factory_withInformerFactory_def Let_def
      split: option.splits prod.splits)

lemma setup_panics:
  "clientset_NewForConfigOrDie env cfg = None \<Longrightarrow> SetupInformers (registered env ts) cfg ctx h w = None"
  by (simp add: registered_def SetupInformers_def registered_informers init_factory_def RegisterInformerFactory_def
      init_client_def RegisterClient_def client_withClient_def empty_registry_def)

text \<open>C35. Setting up the informers of any resources, in the order their packages are initialised. When the
  client can be built, setup succeeds; afterwards \<open>Get\<close> of each of these packages leads to the very
  informer that setup returned to be started, and that informer is over the injected client, in the
  namespace and with the resync period of the context. When the client cannot be built, setup panics.\<close>

theorem injection_ready:
  assumes "heap_inv h"
  shows "case clientset_NewForConfigOrDie env cfg of
     None \<Rightarrow> SetupInformers (registered env ts) cfg ctx h w = None
   | Some cs \<Rightarrow> \<exists>ctx' infs h'. SetupInformers (registered env ts) cfg ctx h w = Some (ctx', infs, h', w) \<and>
       client_Get ctx' = Some (clientset_NetworkingV1alpha1 cs) \<and> length infs = length ts \<and>
       (\<forall>i < length ts. Get_Informer (ts ! i) ctx' h' = Some (infs ! i, h') \<and>
          ih_informers h' ! (infs ! i) =
            informer_spec (scoped_factory (clientset_NetworkingV1alpha1 cs) ctx None) (ts ! i))"
proof (cases "clientset_NewForConfigOrDie env cfg")
  case None
  then show ?thesis by (simp add: setup_panics)
next
  case (Some cs)
  show ?thesis unfolding Some option.case by (rule setup_correct [OF assms Some])
qed

section \<open>Samples\<close>

text \<open>A context with the fake clients and two selectors, and a REST client for which every request fails.\<close>

definition sample_context :: "(fake_outcome, http_route, http_route list, (unit, unit) api_resource, (unit, unit) api_resource list,
    nat option, (unit, unit) any_object fake_state go_env) inj_context" where
  "sample_context = \<lparr>ij_client = Some (FakeClient (lift_networking small_client)), ij_namespace = Some ''ns'', ij_resync = None,
     ij_labels = Some [''app=a'', ''app=b''], ij_factory = None, ij_filtered = Map.empty, ij_informers = Map.empty,
     ij_filteredInformers = Map.empty\<rparr>"

definition sample_world :: "(unit, unit) any_object fake_state go_env" where
  "sample_world = \<lparr>ge_vars = [], ge_rest = \<lparr>fs_actions = [], fs_tracker = NewObjectTracker\<rparr>\<rparr>"

theorem filtered_last_selector_witness:
  "\<exists>ctx1 h1 w1 ctx2 infs h2.
     filtered_withInformerFactory sample_context empty_heap sample_world = Some (ctx1, h1, w1) \<and>
     filtered_hTTPRoute_withInformer ctx1 h1 = Some (ctx2, infs, h2) \<and> length infs = 2 \<and>
     (\<forall>opts. si_List (ih_informers h2 ! (infs ! 0)) opts w1 =
        as_items RouteItems (tcl_List (nc_HTTPRoutes (lift_networking small_client) ''ns'')
          (opts\<lparr>lo_LabelSelector := ''app=b''\<rparr>) w1))"
proof -
  have c: "client_Get sample_context = Some (lift_networking small_client)" "ij_labels sample_context = Some [''app=a'', ''app=b'']"
      "GetNamespaceScope sample_context = ''ns''"
    by (simp_all add: client_Get_def sample_context_def GetNamespaceScope_def)
  obtain ctx1 h1 w1 where run: "filtered_withInformerFactory sample_context empty_heap sample_world = Some (ctx1, h1, w1)"
    by (cases "filtered_withInformerFactory sample_context empty_heap sample_world")
       (auto simp: filtered_withInformerFactory_def c)
  from filtered_last_selector [OF empty_heap_inv run c(2,1)] obtain ctx2 infs h2 where
    "filtered_hTTPRoute_withInformer ctx1 h1 = Some (ctx2, infs, h2)" "length infs = 2"
    "\<forall>opts. si_List (ih_informers h2 ! (infs ! 0)) opts w1 =
        as_items RouteItems (tcl_List (nc_HTTPRoutes (lift_networking small_client) ''ns'')
          (opts\<lparr>lo_LabelSelector := ''app=b''\<rparr>) w1)"
    by (auto simp: c(3))
  with run show ?thesis by blast
qed

definition down_client :: "'o \<Rightarrow> ('o, unit, unit) rest_client" where
  "down_client zero = \<lparr>rc_basePath = ''/'', rc_versionedAPIPath = ''/apis/networking.x-k8s.io/v1alpha1'',
     rc_timeout = 0, rc_ContentType = ''application/json'', rc_AcceptContentTypes = '''',
     rc_EncodeParameters = (\<lambda>_. Inr fmempty), rc_Encode = (\<lambda>_. Inr ''{}''), rc_ParseMediaType = Inr, rc_Decoder = Inr,
     rc_newObject = zero, rc_newList = (),
     rc_DecodeObject = (\<lambda>_ _. Inr DecodedOther), rc_DecodeList = (\<lambda>_ _. Inr DecodedOther),
     rc_DecodeStatus = (\<lambda>_ _. None), rc_StreamDecoder = (\<lambda>_. None), rc_Throttle = (\<lambda>w. (None, w)),
     rc_Transport = (\<lambda>hq w.
       (Inl \<lparr>ne_IsConnectionReset = False, ne_IsProbableEOF = False, ne_IsTimeout = True, ne_error = OtherError ''down''\<rparr>, w))\<rparr>"

definition down_env :: "(unit, unit, (unit, unit) api_resource, unit, unit, unit) client_env" where
  "down_env = \<lparr>ce_UserAgent = ''agent'',
     ce_RESTClientFor = (\<lambda>config. if rcf_GroupVersion config = None then Inl (OtherError ''no group'')
        else Inr \<lparr>rv_routes = down_client empty_route, rv_others = down_client small_gateway\<rparr>),
     ce_DiscoveryForConfig = (\<lambda>_. Inr ()), ce_Discovery = (\<lambda>_. ()), ce_TokenBucket = (\<lambda>_ _. ())\<rparr>"

definition down_config :: "unit rest_config" where
  "down_config = \<lparr>rcf_Host = ''host'', rcf_APIPath = '''', rcf_GroupVersion = None, rcf_NegotiatedSerializer = None,
     rcf_UserAgent = '''', rcf_QPS = 5, rcf_Burst = 0, rcf_RateLimiter = None\<rparr>"

definition blank_context :: "('e, 'r, 'rl, 'o, 'ol, 'v, 'w) inj_context" where
  "blank_context = \<lparr>ij_client = None, ij_namespace = None, ij_resync = None, ij_labels = None, ij_factory = None,
     ij_filtered = Map.empty, ij_informers = Map.empty, ij_filteredInformers = Map.empty\<rparr>"

theorem injection_ready_witness:
  "\<exists>ctx' infs h'. SetupInformers (registered down_env [GatewayType, HTTPRouteType]) down_config blank_context empty_heap () =
       Some (ctx', infs, h', ()) \<and> length infs = 2 \<and> Get_Informer HTTPRouteType ctx' h' = Some (infs ! 1, h')"
proof -
  have "clientset_NewForConfigOrDie down_env down_config \<noteq> None"
    by (simp add: clientset_NewForConfigOrDie_def group_NewForConfigOrDie_def group_NewForConfig_eq down_env_def group_config_def)
  then obtain cs where cs: "clientset_NewForConfigOrDie down_env down_config = Some cs" by blast
  show ?thesis
    using injection_ready [OF empty_heap_inv, where env = down_env and cfg = down_config and ts = "[GatewayType, HTTPRouteType]" and ctx = blank_context and w = "()"]
    by (fastforce simp: cs)
qed

text \<open>The configuration of the sample is one that \<open>NewForConfig\<close> refuses.\<close>

lemma down_config_burst: "clientset_NewForConfig down_env down_config = Inl BurstRequired"
  by (simp add: clientset_NewForConfig_def down_config_def)

end
