(* ===== verification/Prober.thy ===== *)
theory Prober
  imports ProbeHeader ProbeTargets GoPath
begin

text \<open>
  The status prober (knative.dev/networking/pkg/status/status.go), whose verdict makes an Ingress
  Ready: it probes every URL of an Ingress on every pod of the gateway until each answers with the
  hash of the Ingress, with 15 workers over a queue and two goroutines per pod.

  The workers, the goroutines, the calls of \<open>IsReady\<close> and the cancellations run concurrently, so the
  prober is a step relation: an operation on an atomic counter, a critical section under \<open>mu\<close> and
  an operation of the queue are one step each, and any two steps of different threads interleave.
  Pointers are indices into the heaps \<open>pb_ings\<close>, \<open>pb_pods\<close>, \<open>pb_items\<close> and \<open>pb_ctxs\<close>, which only grow.

  \<^item> The program counter of the worker that holds an item is kept with the item, and that of the
    goroutine that waits for the cancellation of a pod with the pod.
  \<^item> The answer of a probe is chosen by the environment, and so are the probe targets.
  \<^item> Left out: the logger, \<open>lastAccessed\<close> (written and never read), the delays of the queue (an item
    that is to be retried may become ready at any time), and \<open>deepCopy\<close> of a URL, which is the URL.
\<close>

section \<open>One probe\<close>

definition ProbePath :: string where
  "ProbePath = ''/healthz''"

record probe_request =
  pq_url :: url
  pq_address :: "string \<times> string"
  pq_headers :: "(string \<times> string) list"

record probe_response =
  pr_StatusCode :: int
  pr_Header :: "(string, string) fmap"

text \<open>\<open>Header.Get\<close> of a missing header is the empty string.\<close>

definition header_Get :: "probe_response \<Rightarrow> string \<Rightarrow> string" where
  "header_Get r name = (case fmlookup (pr_Header r) name of None \<Rightarrow> '''' | Some v \<Rightarrow> v)"

type_synonym verifier = "probe_response \<Rightarrow> error + bool"

definition probeVerifier :: "string \<Rightarrow> verifier" where
  "probeVerifier expected r =
     (if pr_StatusCode r = 200 then
        (let hash = header_Get r HashHeaderName in
         if hash = '''' then Inr True
         else if hash = expected then Inr True
         else Inl (OtherError ''unexpected hash''))
      else if pr_StatusCode r = 404 \<or> pr_StatusCode r = 503 then Inl (OtherError ''unexpected status code'')
      else Inr True)"

text \<open>
  \<open>prober.Do\<close>: the answer of the transport, or its error, and the verifiers in order. The first that
  refuses the answer decides.
\<close>

fun run_verifiers :: "verifier list \<Rightarrow> probe_response \<Rightarrow> error + bool" where
  "run_verifiers [] r = Inr True"
| "run_verifiers (vo # ops) r =
     (case vo r of
        Inl err \<Rightarrow> Inl err
      | Inr ok \<Rightarrow> if \<not> ok then Inr False else run_verifiers ops r)"

definition probe_Do :: "error + probe_response \<Rightarrow> verifier list \<Rightarrow> error + bool" where
  "probe_Do answer ops =
     (case answer of
        Inl err \<Rightarrow> Inl (Wrapped ''error roundtripping'' err)
      | Inr resp \<Rightarrow> run_verifiers ops resp)"

section \<open>State\<close>

record ingress_state =
  igs_hash :: string
  igs_ing :: ingress
  igs_pendingCount :: int
  igs_cancelled :: bool                                          \<comment> \<open>\<open>ingCtx\<close> is done\<close>
  igs_targets :: "probe_target list"                \<comment> \<open>\<open>targets\<close> of the \<open>IsReady\<close> that made it\<close>
  igs_todo :: "string list"                         \<comment> \<open>what is left of its range over \<open>workItems\<close>\<close>

text \<open>Where the goroutine that runs \<open>onProbingCancellation\<close> is.\<close>

datatype canceller =
    Awaiting            \<comment> \<open>at \<open><-podCtx.Done()\<close>, or again at the head of its loop\<close>
  | Loaded int          \<comment> \<open>has read a positive count\<close>
  | Swapped             \<comment> \<open>has set the count to zero\<close>
  | Finished

record pod_state =
  pds_ingress :: nat    \<comment> \<open>its context is a child of that of this Ingress state\<close>
  pds_ip :: string
  pds_ipCtx :: nat      \<comment> \<open>the context of its IP\<close>
  pds_pendingCount :: int
  pds_cancelled :: bool \<comment> \<open>its \<open>cancel\<close> was called\<close>
  pds_canceller :: canceller

datatype stage =
    Delayed                       \<comment> \<open>waits to be added to the queue\<close>
  | Queued
  | Probing                       \<comment> \<open>a worker has got it and sends the request\<close>
  | Answered "error + probe_response"
  | Verified probe_response       \<comment> \<open>in \<open>onProbingSuccess\<close>\<close>
  | LastOfPod probe_response      \<comment> \<open>decremented the count of the pod to zero\<close>
  | PodDone probe_response        \<comment> \<open>and cancelled the context of the pod\<close>
  | Passed probe_response
  | Dropped                       \<comment> \<open>will not be probed again\<close>

record work_item =
  wi_ingressState :: nat
  wi_podState :: nat
  wi_url :: url
  wi_podIP :: string
  wi_podPort :: string
  wi_stage :: stage

text \<open>A call of \<open>IsReady\<close> past its first critical section.\<close>

datatype call =
    Listing string ingress        \<comment> \<open>lists the targets\<close>
  | Registering nat               \<comment> \<open>in the range over \<open>workItems\<close>\<close>

record prober =
  pb_ingressStates :: "(namespaced_name, nat) fmap"
  pb_podContexts :: "(string, nat) fmap"
  pb_ings :: "ingress_state list"
  pb_pods :: "pod_state list"
  pb_ctxs :: "bool list"                                         \<comment> \<open>contexts of IPs: done or not\<close>
  pb_items :: "work_item list"
  pb_calls :: "(namespaced_name, call) fmap"
  pb_callbacks :: "nat list"                                     \<comment> \<open>calls of \<open>readyCallback\<close>, latest first\<close>
  pb_sent :: "probe_request list"                                \<comment> \<open>requests, latest first\<close>
  pb_shutdown :: bool                                            \<comment> \<open>the queue was shut down\<close>

definition probeConcurrency :: nat where
  "probeConcurrency = 15"

definition NewProber :: prober where
  "NewProber = \<lparr>pb_ingressStates = fmempty, pb_podContexts = fmempty, pb_ings = [], pb_pods = [],
     pb_ctxs = [], pb_items = [], pb_calls = fmempty, pb_callbacks = [], pb_sent = [],
     pb_shutdown = False\<rparr>"

text \<open>Writing through a pointer.\<close>

definition upd_ing :: "nat \<Rightarrow> (ingress_state \<Rightarrow> ingress_state) \<Rightarrow> prober \<Rightarrow> prober" where
  "upd_ing s f p = p\<lparr>pb_ings := (pb_ings p)[s := f (pb_ings p ! s)]\<rparr>"

definition upd_pod :: "nat \<Rightarrow> (pod_state \<Rightarrow> pod_state) \<Rightarrow> prober \<Rightarrow> prober" where
  "upd_pod j f p = p\<lparr>pb_pods := (pb_pods p)[j := f (pb_pods p ! j)]\<rparr>"

definition set_stage :: "nat \<Rightarrow> stage \<Rightarrow> prober \<Rightarrow> prober" where
  "set_stage i st p = p\<lparr>pb_items := (pb_items p)[i := (pb_items p ! i)\<lparr>wi_stage := st\<rparr>]\<rparr>"

text \<open>\<open>podCtx\<close> is done: its own cancel function or that of its parent was called.\<close>

definition pod_done :: "prober \<Rightarrow> nat \<Rightarrow> bool" where
  "pod_done p j \<longleftrightarrow>
     pds_cancelled (pb_pods p ! j) \<or> igs_cancelled (pb_ings p ! pds_ingress (pb_pods p ! j))"

section \<open>IsReady\<close>

text \<open>The first critical section: a known hash is answered, another version is cancelled.\<close>

definition IsReady_lookup :: "namespaced_name \<Rightarrow> string \<Rightarrow> prober \<Rightarrow> bool option \<times> prober" where
  "IsReady_lookup key hash p =
     (case fmlookup (pb_ingressStates p) key of
        None \<Rightarrow> (None, p)
      | Some s \<Rightarrow>
          (if igs_hash (pb_ings p ! s) = hash then (Some (igs_pendingCount (pb_ings p ! s) = 0), p)
           else (None, (upd_ing s (\<lambda>st. st\<lparr>igs_cancelled := True\<rparr>) p)
                   \<lparr>pb_ingressStates := fmdrop key (pb_ingressStates p)\<rparr>)))"

text \<open>\<open>workItems\<close>: the URLs and ports to probe on each IP.\<close>

definition add_url :: "string \<Rightarrow> string \<Rightarrow> url \<Rightarrow> (string, (url \<times> string) list) fmap \<Rightarrow>
    (string, (url \<times> string) list) fmap" where
  "add_url ip port u m =
     fmupd ip ((case fmlookup m ip of None \<Rightarrow> [] | Some its \<Rightarrow> its) @ [(u, port)]) m"

definition add_target :: "probe_target \<Rightarrow> (string, (url \<times> string) list) fmap \<Rightarrow>
    (string, (url \<times> string) list) fmap" where
  "add_target t m =
     fold (\<lambda>ip. fold (add_url ip (pt_PodPort t)) (pt_URLs t)) (sorted_list_of_fset (pt_PodIPs t)) m"

definition work_items :: "probe_target list \<Rightarrow> (string, (url \<times> string) list) fmap" where
  "work_items targets = fold add_target targets fmempty"

definition igs_workItems :: "ingress_state \<Rightarrow> (string, (url \<times> string) list) fmap" where
  "igs_workItems st = work_items (igs_targets st)"

definition new_ingress_state :: "string \<Rightarrow> ingress \<Rightarrow> probe_target list \<Rightarrow> string list \<Rightarrow> ingress_state" where
  "new_ingress_state hash ing targets order =
     \<lparr>igs_hash = hash, igs_ing = ing, igs_pendingCount = int (length order), igs_cancelled = False,
      igs_targets = targets, igs_todo = order\<rparr>"

definition IsReady_listed ::
  "namespaced_name \<Rightarrow> string \<Rightarrow> ingress \<Rightarrow> probe_target list \<Rightarrow> string list \<Rightarrow> prober \<Rightarrow> prober" where
  "IsReady_listed key hash ing targets order p =
     p\<lparr>pb_ings := pb_ings p @ [new_ingress_state hash ing targets order],
       pb_calls := fmupd key (Registering (length (pb_ings p))) (pb_calls p)\<rparr>"

text \<open>The context of an IP, made when there is none.\<close>

definition ip_context :: "string \<Rightarrow> prober \<Rightarrow> nat \<times> prober" where
  "ip_context ip p =
     (case fmlookup (pb_podContexts p) ip of
        Some c \<Rightarrow> (c, p)
      | None \<Rightarrow> (length (pb_ctxs p),
          p\<lparr>pb_ctxs := pb_ctxs p @ [False],
            pb_podContexts := fmupd ip (length (pb_ctxs p)) (pb_podContexts p)\<rparr>))"

definition new_item :: "nat \<Rightarrow> nat \<Rightarrow> string \<Rightarrow> bool \<Rightarrow> url \<times> string \<Rightarrow> work_item" where
  "new_item s j ip shut = (\<lambda>(u, port).
     \<lparr>wi_ingressState = s, wi_podState = j, wi_url = u, wi_podIP = ip, wi_podPort = port,
      wi_stage = (if shut then Dropped else Delayed)\<rparr>)"

text \<open>The body of the loop over \<open>workItems\<close>: the pod state, its two goroutines and its items.\<close>

definition IsReady_register :: "nat \<Rightarrow> prober \<Rightarrow> prober" where
  "IsReady_register s p =
     (case igs_todo (pb_ings p ! s) of
        [] \<Rightarrow> p
      | ip # rest \<Rightarrow>
          (let ipWorkItems = (case fmlookup (igs_workItems (pb_ings p ! s)) ip of None \<Rightarrow> [] | Some its \<Rightarrow> its);
               (c, p1) = ip_context ip p;
               podState = \<lparr>pds_ingress = s, pds_ip = ip, pds_ipCtx = c,
                 pds_pendingCount = int (length ipWorkItems), pds_cancelled = False,
                 pds_canceller = Awaiting\<rparr>;
               p2 = upd_ing s (\<lambda>st. st\<lparr>igs_todo := rest\<rparr>) p1
           in p2\<lparr>pb_pods := pb_pods p @ [podState],
                 pb_items := pb_items p @
                   map (new_item s (length (pb_pods p)) ip (pb_shutdown p)) ipWorkItems\<rparr>))"

definition IsReady_publish :: "namespaced_name \<Rightarrow> nat \<Rightarrow> prober \<Rightarrow> bool \<times> prober" where
  "IsReady_publish key s p =
     (igs_workItems (pb_ings p ! s) = fmempty,
      p\<lparr>pb_ingressStates := fmupd key s (pb_ingressStates p),
        pb_calls := fmdrop key (pb_calls p)\<rparr>)"


text \<open>
  A call of \<open>IsReady\<close> that runs without another thread in between. The map \<open>workItems\<close> is ranged over
  in the order of its keys here; the steps below allow every order.
\<close>

definition IsReady ::
  "(ingress_spec \<Rightarrow> error + string) \<Rightarrow> (string \<Rightarrow> string) \<Rightarrow> (ingress \<Rightarrow> error + probe_target list) \<Rightarrow>
   ingress \<Rightarrow> prober \<Rightarrow> (error + bool) \<times> prober" where
  "IsReady marshal sha256 list_targets ing p =
     (let key = (om_Namespace (ing_Meta ing), om_Name (ing_Meta ing)) in
      case ComputeHash marshal sha256 ing of
        Inl err \<Rightarrow> (Inl (Wrapped ''failed to compute the hash of the Ingress'' err), p)
      | Inr bytes \<Rightarrow>
          (case IsReady_lookup key (hex_string bytes) p of
             (Some ready, p1) \<Rightarrow> (Inr ready, p1)
           | (None, p1) \<Rightarrow>
               (case list_targets ing of
                  Inl err \<Rightarrow> (Inl err, p1)
                | Inr targets \<Rightarrow>
                    (let order = sorted_list_of_fset (fmdom (work_items targets));
                         s = length (pb_ings p1);
                         p2 = IsReady_listed key (hex_string bytes) ing targets order p1;
                         p3 = fold (\<lambda>_. IsReady_register s) order p2;
                         (ready, p4) = IsReady_publish key s p3
                     in (Inr ready, p4)))))"

section \<open>Workers\<close>

text \<open>The stages in which a worker holds an item.\<close>

fun busy :: "stage \<Rightarrow> bool" where
  "busy Probing = True"
| "busy (Answered _) = True"
| "busy (Verified _) = True"
| "busy (LastOfPod _) = True"
| "busy (PodDone _) = True"
| "busy _ = False"

text \<open>The delay of an item is over: the queue no longer accepts it once it is shut down.\<close>

definition deliver :: "nat \<Rightarrow> prober \<Rightarrow> prober option" where
  "deliver i p =
     (if i < length (pb_items p) \<and> wi_stage (pb_items p ! i) = Delayed
      then Some (set_stage i (if pb_shutdown p then Dropped else Queued) p) else None)"

text \<open>\<open>processWorkItem\<close>, up to the request. A shut down queue still hands out what it holds.\<close>

definition request_of :: "work_item \<Rightarrow> probe_request" where
  "request_of it =
     \<lparr>pq_url = (wi_url it)\<lparr>u_Path := path_Join [u_Path (wi_url it), ProbePath]\<rparr>,
      pq_address = (wi_podIP it, wi_podPort it),
      pq_headers = [(''User-Agent'', ''Knative-Ingress-Probe''), (''K-Network-Probe'', ''probe''),
        (HashHeaderName, HashHeaderValue)]\<rparr>"

definition get_item :: "nat \<Rightarrow> prober \<Rightarrow> prober option" where
  "get_item i p =
     (if i < length (pb_items p) \<and> wi_stage (pb_items p ! i) = Queued \<and>
         length (filter (\<lambda>it. busy (wi_stage it)) (pb_items p)) < probeConcurrency
      then Some ((set_stage i Probing p)\<lparr>pb_sent := request_of (pb_items p ! i) # pb_sent p\<rparr>)
      else None)"

definition answer_item :: "nat \<Rightarrow> error + probe_response \<Rightarrow> prober \<Rightarrow> prober option" where
  "answer_item i answer p =
     (if i < length (pb_items p) \<and> wi_stage (pb_items p ! i) = Probing
      then Some (set_stage i (Answered answer) p) else None)"

text \<open>
  After the request: a cancelled item is forgotten, a failed one queued again with a delay (which
  a shut down queue ignores), and a verified one goes on to \<open>onProbingSuccess\<close>.
\<close>

definition settled_stage :: "prober \<Rightarrow> work_item \<Rightarrow> error + probe_response \<Rightarrow> stage" where
  "settled_stage p it answer =
     (if pod_done p (wi_podState it) then Dropped
      else (case answer of
          Inr resp \<Rightarrow>
            (case probe_Do (Inr resp) [probeVerifier (igs_hash (pb_ings p ! wi_ingressState it))] of
               Inr True \<Rightarrow> Verified resp
             | _ \<Rightarrow> if pb_shutdown p then Dropped else Delayed)
        | Inl err \<Rightarrow> if pb_shutdown p then Dropped else Delayed))"

definition settle_item :: "nat \<Rightarrow> prober \<Rightarrow> prober option" where
  "settle_item i p =
     (if i < length (pb_items p) then
        (case wi_stage (pb_items p ! i) of
           Answered answer \<Rightarrow> Some (set_stage i (settled_stage p (pb_items p ! i) answer) p)
         | _ \<Rightarrow> None)
      else None)"

text \<open>\<open>ingressState.pendingCount.Dec() == 0\<close>, and the callback.\<close>

definition dec_ingress :: "nat \<Rightarrow> prober \<Rightarrow> prober" where
  "dec_ingress s p =
     (let n = igs_pendingCount (pb_ings p ! s) - 1;
          p1 = upd_ing s (\<lambda>st. st\<lparr>igs_pendingCount := n\<rparr>) p
      in if n = 0 then p1\<lparr>pb_callbacks := s # pb_callbacks p\<rparr> else p1)"

text \<open>The three steps of \<open>onProbingSuccess\<close>.\<close>

definition success_dec_pod :: "nat \<Rightarrow> prober \<Rightarrow> prober option" where
  "success_dec_pod i p =
     (if i < length (pb_items p) then
        (case wi_stage (pb_items p ! i) of
           Verified resp \<Rightarrow>
             (let j = wi_podState (pb_items p ! i);
                  n = pds_pendingCount (pb_pods p ! j) - 1
              in Some (set_stage i (if n = 0 then LastOfPod resp else Passed resp)
                   (upd_pod j (\<lambda>pd. pd\<lparr>pds_pendingCount := n\<rparr>) p)))
         | _ \<Rightarrow> None)
      else None)"

definition success_cancel_pod :: "nat \<Rightarrow> prober \<Rightarrow> prober option" where
  "success_cancel_pod i p =
     (if i < length (pb_items p) then
        (case wi_stage (pb_items p ! i) of
           LastOfPod resp \<Rightarrow> Some (set_stage i (PodDone resp)
             (upd_pod (wi_podState (pb_items p ! i)) (\<lambda>pd. pd\<lparr>pds_cancelled := True\<rparr>) p))
         | _ \<Rightarrow> None)
      else None)"

definition success_dec_ingress :: "nat \<Rightarrow> prober \<Rightarrow> prober option" where
  "success_dec_ingress i p =
     (if i < length (pb_items p) then
        (case wi_stage (pb_items p ! i) of
           PodDone resp \<Rightarrow>
             Some (dec_ingress (wi_ingressState (pb_items p ! i)) (set_stage i (Passed resp) p))
         | _ \<Rightarrow> None)
      else None)"

section \<open>The goroutines of a pod\<close>

text \<open>One joins the two contexts: a pod is cancelled once the context of its IP is done.\<close>

definition join_contexts :: "nat \<Rightarrow> prober \<Rightarrow> prober option" where
  "join_contexts j p =
     (if j < length (pb_pods p) \<and> pb_ctxs p ! pds_ipCtx (pb_pods p ! j)
      then Some (upd_pod j (\<lambda>pd. pd\<lparr>pds_cancelled := True\<rparr>) p) else None)"

text \<open>The other runs \<open>onProbingCancellation\<close>: read the count, swap it for zero, tell the Ingress.\<close>

definition cancel_load :: "nat \<Rightarrow> prober \<Rightarrow> prober option" where
  "cancel_load j p =
     (if j < length (pb_pods p) \<and> pds_canceller (pb_pods p ! j) = Awaiting \<and> pod_done p j
      then (let n = pds_pendingCount (pb_pods p ! j)
            in Some (upd_pod j (\<lambda>pd. pd\<lparr>pds_canceller := (if n \<le> 0 then Finished else Loaded n)\<rparr>) p))
      else None)"

definition cancel_swap :: "nat \<Rightarrow> prober \<Rightarrow> prober option" where
  "cancel_swap j p =
     (if j < length (pb_pods p) then
        (case pds_canceller (pb_pods p ! j) of
           Loaded n \<Rightarrow>
             Some (upd_pod j (\<lambda>pd. if pds_pendingCount pd = n
                then pd\<lparr>pds_pendingCount := 0, pds_canceller := Swapped\<rparr>
                else pd\<lparr>pds_canceller := Awaiting\<rparr>) p)
         | _ \<Rightarrow> None)
      else None)"

definition cancel_dec_ingress :: "nat \<Rightarrow> prober \<Rightarrow> prober option" where
  "cancel_dec_ingress j p =
     (if j < length (pb_pods p) \<and> pds_canceller (pb_pods p ! j) = Swapped
      then Some (dec_ingress (pds_ingress (pb_pods p ! j))
        (upd_pod j (\<lambda>pd. pd\<lparr>pds_canceller := Finished\<rparr>) p))
      else None)"

section \<open>Cancellation from outside\<close>

definition CancelIngressProbingByKey :: "namespaced_name \<Rightarrow> prober \<Rightarrow> prober" where
  "CancelIngressProbingByKey key p =
     (case fmlookup (pb_ingressStates p) key of
        None \<Rightarrow> p
      | Some s \<Rightarrow> (upd_ing s (\<lambda>st. st\<lparr>igs_cancelled := True\<rparr>) p)
          \<lparr>pb_ingressStates := fmdrop key (pb_ingressStates p)\<rparr>)"

text \<open>The pod is given by its IP.\<close>

definition CancelPodProbing :: "string \<Rightarrow> prober \<Rightarrow> prober" where
  "CancelPodProbing ip p =
     (case fmlookup (pb_podContexts p) ip of
        None \<Rightarrow> p
      | Some c \<Rightarrow> p\<lparr>pb_ctxs := (pb_ctxs p)[c := True],
          pb_podContexts := fmdrop ip (pb_podContexts p)\<rparr>)"

text \<open>\<open>workQueue.ShutDown\<close>, once the channel given to \<open>Start\<close> is closed.\<close>

definition ShutDown :: "prober \<Rightarrow> prober" where
  "ShutDown p = p\<lparr>pb_shutdown := True\<rparr>"

section \<open>Steps\<close>

datatype event =
    Internal
  | Returns namespaced_name string "error + bool"   \<comment> \<open>an \<open>IsReady\<close> of an Ingress with this hash\<close>
  | PodCancelled string

definition ingress_key :: "ingress \<Rightarrow> namespaced_name" where
  "ingress_key ing = (om_Namespace (ing_Meta ing), om_Name (ing_Meta ing))"

text \<open>
  \<open>hash_of\<close> is the hash of an Ingress in hexadecimal. \<open>IsReady\<close> is not called for an Ingress whose
  last call has not returned, which its comment demands and the work queue of the controller
  ensures; calls for different Ingresses interleave.
\<close>

inductive prober_step :: "(ingress \<Rightarrow> string) \<Rightarrow> prober \<Rightarrow> event \<Rightarrow> prober \<Rightarrow> bool" for hash_of where
  lookup_hit: "fmlookup (pb_calls p) (ingress_key ing) = None \<Longrightarrow>
    IsReady_lookup (ingress_key ing) (hash_of ing) p = (Some r, p') \<Longrightarrow>
    prober_step hash_of p (Returns (ingress_key ing) (hash_of ing) (Inr r)) p'"
| lookup_miss: "fmlookup (pb_calls p) (ingress_key ing) = None \<Longrightarrow>
    IsReady_lookup (ingress_key ing) (hash_of ing) p = (None, p') \<Longrightarrow>
    prober_step hash_of p Internal
      (p'\<lparr>pb_calls := fmupd (ingress_key ing) (Listing (hash_of ing) ing) (pb_calls p')\<rparr>)"
| list_error: "fmlookup (pb_calls p) key = Some (Listing hash ing) \<Longrightarrow>
    prober_step hash_of p (Returns key hash (Inl err)) (p\<lparr>pb_calls := fmdrop key (pb_calls p)\<rparr>)"
| list_ok: "fmlookup (pb_calls p) key = Some (Listing hash ing) \<Longrightarrow>
    distinct order \<Longrightarrow> set order = fset (fmdom (work_items targets)) \<Longrightarrow>
    prober_step hash_of p Internal (IsReady_listed key hash ing targets order p)"
| register_ip: "fmlookup (pb_calls p) key = Some (Registering s) \<Longrightarrow> igs_todo (pb_ings p ! s) \<noteq> [] \<Longrightarrow>
    prober_step hash_of p Internal (IsReady_register s p)"
| publish: "fmlookup (pb_calls p) key = Some (Registering s) \<Longrightarrow> igs_todo (pb_ings p ! s) = [] \<Longrightarrow>
    IsReady_publish key s p = (r, p') \<Longrightarrow>
    prober_step hash_of p (Returns key (igs_hash (pb_ings p ! s)) (Inr r)) p'"
| deliver: "deliver i p = Some p' \<Longrightarrow> prober_step hash_of p Internal p'"
| get: "get_item i p = Some p' \<Longrightarrow> prober_step hash_of p Internal p'"
| answer: "answer_item i a p = Some p' \<Longrightarrow> prober_step hash_of p Internal p'"
| settle: "settle_item i p = Some p' \<Longrightarrow> prober_step hash_of p Internal p'"
| dec_pod: "success_dec_pod i p = Some p' \<Longrightarrow> prober_step hash_of p Internal p'"
| cancel_pod: "success_cancel_pod i p = Some p' \<Longrightarrow> prober_step hash_of p Internal p'"
| tell_ingress: "success_dec_ingress i p = Some p' \<Longrightarrow> prober_step hash_of p Internal p'"
| join: "join_contexts j p = Some p' \<Longrightarrow> prober_step hash_of p Internal p'"
| load: "cancel_load j p = Some p' \<Longrightarrow> prober_step hash_of p Internal p'"
| swap: "cancel_swap j p = Some p' \<Longrightarrow> prober_step hash_of p Internal p'"
| tell_cancelled: "cancel_dec_ingress j p = Some p' \<Longrightarrow> prober_step hash_of p Internal p'"
| cancel_ingress: "prober_step hash_of p Internal (CancelIngressProbingByKey key p)"
| cancel_ip: "prober_step hash_of p (PodCancelled ip) (CancelPodProbing ip p)"
| shut_down: "prober_step hash_of p Internal (ShutDown p)"

text \<open>The states reached by steps whose events are allowed.\<close>

inductive reachable :: "(ingress \<Rightarrow> string) \<Rightarrow> (event \<Rightarrow> bool) \<Rightarrow> prober \<Rightarrow> bool" for hash_of allowed where
  start: "reachable hash_of allowed NewProber"
| step: "reachable hash_of allowed p \<Longrightarrow> prober_step hash_of p e p' \<Longrightarrow> allowed e \<Longrightarrow>
    reachable hash_of allowed p'"


section \<open>Counting\<close>

definition count_of :: "('a \<Rightarrow> bool) \<Rightarrow> 'a list \<Rightarrow> int" where
  "count_of P xs = int (length (filter P xs))"

lemma count_of_simps [simp]:
  "count_of P [] = 0"
  "count_of P (xs @ ys) = count_of P xs + count_of P ys"
  "0 \<le> count_of P xs"
  by (simp_all add: count_of_def)

lemma count_of_Cons [simp]: "count_of P (x # xs) = of_bool (P x) + count_of P xs"
  by (simp add: count_of_def)

lemma count_of_update:
  assumes "i < length xs"
  shows "count_of P (xs[i := y]) = count_of P xs - of_bool (P (xs ! i)) + of_bool (P y)"
proof -
  from assms have "count_of P xs = count_of P (take i xs @ xs ! i # drop (Suc i) xs)"
    by (simp add: id_take_nth_drop [symmetric])
  with assms show ?thesis by (simp add: upd_conv_take_nth_drop)
qed

lemma count_of_update_same:
  "P y = P (xs ! i) \<Longrightarrow> count_of P (xs[i := y]) = count_of P xs"
  by (cases "i < length xs") (simp_all add: count_of_update list_update_beyond)

lemma count_of_0_iff: "count_of P xs = 0 \<longleftrightarrow> (\<forall>x \<in> set xs. \<not> P x)"
  by (simp add: count_of_def filter_empty_conv)

lemma count_of_pos_iff: "0 < count_of P xs \<longleftrightarrow> (\<exists>x \<in> set xs. P x)"
  using count_of_0_iff [of P xs] by (smt (verit) count_of_simps(3))

lemma count_of_positive: "i < length xs \<Longrightarrow> P (xs ! i) \<Longrightarrow> 0 < count_of P xs"
  by (auto simp: count_of_pos_iff)

lemma count_of_all: "(\<forall>x \<in> set xs. P x) \<Longrightarrow> count_of P xs = int (length xs)"
  by (simp add: count_of_def)

lemma count_of_none: "(\<And>x. x \<in> set xs \<Longrightarrow> \<not> P x) \<Longrightarrow> count_of P xs = 0"
  by (simp add: count_of_0_iff)

section \<open>Fields after an operation\<close>

lemma upd_ing_simps [simp]:
  "pb_ingressStates (upd_ing s f p) = pb_ingressStates p" "pb_podContexts (upd_ing s f p) = pb_podContexts p"
  "pb_pods (upd_ing s f p) = pb_pods p" "pb_ctxs (upd_ing s f p) = pb_ctxs p"
  "pb_items (upd_ing s f p) = pb_items p" "pb_calls (upd_ing s f p) = pb_calls p"
  "pb_callbacks (upd_ing s f p) = pb_callbacks p" "pb_sent (upd_ing s f p) = pb_sent p"
  "pb_shutdown (upd_ing s f p) = pb_shutdown p"
  "pb_ings (upd_ing s f p) = (pb_ings p)[s := f (pb_ings p ! s)]"
  by (simp_all add: upd_ing_def)

lemma upd_pod_simps [simp]:
  "pb_ingressStates (upd_pod s f p) = pb_ingressStates p" "pb_podContexts (upd_pod s f p) = pb_podContexts p"
  "pb_ings (upd_pod s f p) = pb_ings p" "pb_ctxs (upd_pod s f p) = pb_ctxs p"
  "pb_items (upd_pod s f p) = pb_items p" "pb_calls (upd_pod s f p) = pb_calls p"
  "pb_callbacks (upd_pod s f p) = pb_callbacks p" "pb_sent (upd_pod s f p) = pb_sent p"
  "pb_shutdown (upd_pod s f p) = pb_shutdown p"
  "pb_pods (upd_pod s f p) = (pb_pods p)[s := f (pb_pods p ! s)]"
  by (simp_all add: upd_pod_def)

lemma set_stage_simps [simp]:
  "pb_ingressStates (set_stage i st p) = pb_ingressStates p" "pb_podContexts (set_stage i st p) = pb_podContexts p"
  "pb_pods (set_stage i st p) = pb_pods p" "pb_ctxs (set_stage i st p) = pb_ctxs p"
  "pb_ings (set_stage i st p) = pb_ings p" "pb_calls (set_stage i st p) = pb_calls p"
  "pb_callbacks (set_stage i st p) = pb_callbacks p" "pb_sent (set_stage i st p) = pb_sent p"
  "pb_shutdown (set_stage i st p) = pb_shutdown p"
  "pb_items (set_stage i st p) = (pb_items p)[i := (pb_items p ! i)\<lparr>wi_stage := st\<rparr>]"
  by (simp_all add: set_stage_def)

lemma dec_ingress_simps [simp]:
  "pb_ingressStates (dec_ingress s p) = pb_ingressStates p" "pb_podContexts (dec_ingress s p) = pb_podContexts p"
  "pb_pods (dec_ingress s p) = pb_pods p" "pb_ctxs (dec_ingress s p) = pb_ctxs p"
  "pb_items (dec_ingress s p) = pb_items p" "pb_calls (dec_ingress s p) = pb_calls p"
  "pb_sent (dec_ingress s p) = pb_sent p" "pb_shutdown (dec_ingress s p) = pb_shutdown p"
  "pb_ings (dec_ingress s p) = (pb_ings p)
     [s := (pb_ings p ! s)\<lparr>igs_pendingCount := igs_pendingCount (pb_ings p ! s) - 1\<rparr>]"
  "pb_callbacks (dec_ingress s p) =
     (if igs_pendingCount (pb_ings p ! s) = 1 then s # pb_callbacks p else pb_callbacks p)"
  by (simp_all add: dec_ingress_def Let_def)

lemma new_item_simps [simp]:
  "wi_ingressState (new_item s j ip shut it) = s" "wi_podState (new_item s j ip shut it) = j"
  "wi_url (new_item s j ip shut it) = fst it" "wi_podPort (new_item s j ip shut it) = snd it"
  "wi_podIP (new_item s j ip shut it) = ip"
  "wi_stage (new_item s j ip shut it) = (if shut then Dropped else Delayed)"
  by (simp_all add: new_item_def split: prod.splits)

lemmas worker_defs = deliver_def get_item_def answer_item_def settle_item_def success_dec_pod_def
  success_cancel_pod_def success_dec_ingress_def
lemmas goroutine_defs = join_contexts_def cancel_load_def cancel_swap_def cancel_dec_ingress_def
lemmas manager_defs = CancelIngressProbingByKey_def CancelPodProbing_def ShutDown_def
lemmas call_defs = IsReady_lookup_def IsReady_listed_def new_ingress_state_def IsReady_publish_def
lemmas register_defs = IsReady_register_def ip_context_def
lemmas step_defs = worker_defs goroutine_defs manager_defs call_defs register_defs
lemmas step_splits = option.splits if_splits stage.splits canceller.splits list.splits prod.splits
  sum.splits bool.splits

end
