(* ===== verification/ControllerSetup.thy ===== *)
theory ControllerSetup
  imports Controller Injection Prober
begin

text \<open>
  \<open>NewController\<close> of \<open>controller.go\<close> over an injected context: what it takes from the context, what it hands to
  the reconciler, and to which informers it attaches which handlers. The informers of Ingresses and of
  endpoints are those of Knative: their cached Ingresses and their lister of endpoints are arguments.
\<close>

section \<open>The controller\<close>

text \<open>A handler is attached to an informer: the pointer it is paired with. \<open>wc_watched\<close> are the ConfigMaps that the
  store has watched, \<open>wc_listTargets\<close> is what the prober lists its targets with.\<close>

record ('e, 'r, 'rl, 'o, 'ol, 'v, 'w, 'g, 'n, 'm) wired_controller =
  wc_gwapiclient :: "('e, 'r, 'rl, 'o, 'ol, 'v, 'w) networking_client"
  wc_httprouteLister :: "http_route lister"
  wc_filterFunc :: "ingress handled \<Rightarrow> bool"
  wc_configStore :: "('n, unit) untyped_store"
  wc_watched :: "string fset"
  wc_resync :: "('n, unit) ConfigStore.call list \<Rightarrow> work_queue \<Rightarrow> work_queue"
  wc_ingressHandler :: "ingress notification \<Rightarrow> work_queue \<Rightarrow> work_queue"
  wc_httprouteHandler :: "nat \<times> (http_route notification \<Rightarrow> work_queue \<Rightarrow> work_queue)"
  wc_gatewayHandler :: "nat \<times> ('g notification \<Rightarrow> work_queue \<Rightarrow> work_queue)"
  wc_statusManager :: prober
  wc_listTargets :: "'m ctx \<Rightarrow> ingress \<Rightarrow> (error + probe_target list) option"
  wc_readyCallback :: "ingress \<Rightarrow> work_queue \<Rightarrow> work_queue"

definition NewController where
  "NewController iter indexer_of gateway_meta parse_gateway parse_network ingresses get_endpoints ctx h =
     (case hTTPRoute_Get ctx of None \<Rightarrow> None | Some httprouteInformer \<Rightarrow>
      (case gateway_Get ctx of None \<Rightarrow> None | Some gatewayInformer \<Rightarrow>
       (case client_Get ctx of None \<Rightarrow> None | Some client \<Rightarrow>
         let (lister, h) = hTTPRoute_Lister iter indexer_of httprouteInformer h;
             (httproutes, h) = hTTPRoute_Informer httprouteInformer h;
             (gateways, h) = gateway_Informer gatewayInformer h
         in Some (\<lparr>wc_gwapiclient = client, wc_httprouteLister = lister, wc_filterFunc = filterFunc ing_Meta,
                   wc_configStore = configStore parse_gateway parse_network,
                   wc_watched = fmdom (us_constructors (configStore parse_gateway parse_network)),
                   wc_resync = run_calls ingresses,
                   wc_ingressHandler = ingressHandler,
                   wc_httprouteHandler = (httproutes, httprouteHandler),
                   wc_gatewayHandler = (gateways, gatewayHandler gateway_meta),
                   wc_statusManager = NewProber, wc_listTargets = ListProbeTargets get_endpoints,
                   wc_readyCallback = readyCallback\<rparr>, h))))"

section \<open>The controller over the injected informers\<close>

lemma controller_informers:
  assumes "Get_Informer HTTPRouteType ctx h = Some (p, h)" and "Get_Informer GatewayType ctx h = Some (q, h)"
    and "client_Get ctx = Some c"
  shows "\<exists>ct. NewController iter indexer_of meta pg pn ings ge ctx h = Some (ct, h) \<and> wc_gwapiclient ct = c \<and>
    wc_httprouteLister ct = NewHTTPRouteLister iter (indexer_of p) \<and>
    wc_httprouteHandler ct = (p, httprouteHandler) \<and> wc_gatewayHandler ct = (q, gatewayHandler meta)"
  using assms by (auto simp: NewController_def hTTPRoute_Lister_def Let_def split: option.splits)



end
