(* ===== verification/ProberInv.thy ===== *)
theory ProberInv
  imports Prober
begin

text \<open>
  The invariant of the status prober: the pointers are valid, every state has one owner, the counts
  count what is outstanding, what counts as probed was verified, and everything listed is probed.
  Each part is kept by every step, so all hold in every reachable state.
\<close>

declare split_paired_All [simp del] split_paired_Ex [simp del]

lemma nth_update: "(xs[t := y]) ! s = (if s = t \<and> t < length xs then y else xs ! s)"
  by (cases "t < length xs") (auto simp: nth_list_update list_update_beyond)

lemma CancelIngressProbingByKey_alt:
  "CancelIngressProbingByKey k p = p \<or>
   (\<exists>s. fmlookup (pb_ingressStates p) k = Some s \<and> CancelIngressProbingByKey k p =
     (upd_ing s (\<lambda>st. st\<lparr>igs_cancelled := True\<rparr>) p)\<lparr>pb_ingressStates := fmdrop k (pb_ingressStates p)\<rparr>)"
  by (auto simp: CancelIngressProbingByKey_def split: option.splits)

lemma IsReady_lookup_miss:
  "IsReady_lookup k h p = (None, p') \<Longrightarrow> p' = CancelIngressProbingByKey k p"
  by (auto simp: IsReady_lookup_def CancelIngressProbingByKey_def split: option.splits if_splits)

lemma IsReady_lookup_hit:
  "IsReady_lookup k h p = (Some r, p') \<longleftrightarrow>
   p' = p \<and> (\<exists>s. fmlookup (pb_ingressStates p) k = Some s \<and> igs_hash (pb_ings p ! s) = h \<and>
     r = (igs_pendingCount (pb_ings p ! s) = 0))"
  by (auto simp: IsReady_lookup_def split: option.splits if_splits)

lemma cancel_calls [simp]: "pb_calls (CancelIngressProbingByKey k p) = pb_calls p"
  by (simp add: CancelIngressProbingByKey_def split: option.splits)

section \<open>The steps, case by case\<close>

text \<open>An item that has been taken off the count of its pod.\<close>

fun counted_off :: "stage \<Rightarrow> bool" where
  "counted_off (LastOfPod _) = True"
| "counted_off (PodDone _) = True"
| "counted_off (Passed _) = True"
| "counted_off _ = False"

text \<open>A step of a worker that counts nothing: the item moves to the stage \<open>st\<close>.\<close>

definition quiet :: "prober \<Rightarrow> nat \<Rightarrow> stage \<Rightarrow> bool" where
  "quiet p i st \<longleftrightarrow> i < length (pb_items p) \<and> \<not> counted_off (wi_stage (pb_items p ! i)) \<and> \<not> counted_off st \<and>
     (\<forall>r. wi_stage (pb_items p ! i) \<noteq> Verified r) \<and>
     (\<forall>r. st = Verified r \<longrightarrow>
        probeVerifier (igs_hash (pb_ings p ! wi_ingressState (pb_items p ! i))) r = Inr True) \<and>
     (st = Dropped \<longrightarrow> pb_shutdown p \<or> pod_done p (wi_podState (pb_items p ! i))) \<and>
     (busy st \<longrightarrow> busy (wi_stage (pb_items p ! i)) \<or>
        count_of (\<lambda>it. busy (wi_stage it)) (pb_items p) < int probeConcurrency)"

lemma deliver_Some: "deliver i p = Some p' \<Longrightarrow> \<exists>st. quiet p i st \<and> p' = (set_stage i st p)\<lparr>pb_sent := pb_sent p\<rparr>"
  by (intro exI [of _ "if pb_shutdown p then Dropped else Queued"])
     (auto simp: deliver_def quiet_def set_stage_def split: if_splits)

lemma get_item_Some:
  "get_item i p = Some p' \<Longrightarrow> \<exists>st q. quiet p i st \<and> p' = (set_stage i st p)\<lparr>pb_sent := q\<rparr>"
  by (intro exI [of _ Probing]) (auto simp: get_item_def quiet_def count_of_def split: if_splits)

lemma answer_item_Some:
  "answer_item i a p = Some p' \<Longrightarrow> \<exists>st. quiet p i st \<and> p' = (set_stage i st p)\<lparr>pb_sent := pb_sent p\<rparr>"
  by (intro exI [of _ "Answered a"]) (auto simp: answer_item_def quiet_def set_stage_def split: if_splits)

lemma set_stage_sent: "set_stage i st p = (set_stage i st p)\<lparr>pb_sent := pb_sent p\<rparr>"
  by (simp add: set_stage_def)

lemma probe_Do_single: "probe_Do (Inr r) [vo] = Inr True \<longleftrightarrow> vo r = Inr True"
  by (auto simp: probe_Do_def split: sum.splits if_splits)

lemma settled_stage_quiet:
  "\<not> counted_off (settled_stage p it a)"
  "settled_stage p it a = Verified r \<Longrightarrow>
     probeVerifier (igs_hash (pb_ings p ! wi_ingressState it)) r = Inr True"
  "settled_stage p it a = Dropped \<Longrightarrow> pb_shutdown p \<or> pod_done p (wi_podState it)"
  by (auto simp: settled_stage_def probe_Do_single split: if_splits sum.splits bool.splits)

lemma settle_item_Some:
  assumes "settle_item i p = Some p'"
  shows "\<exists>st. quiet p i st \<and> p' = (set_stage i st p)\<lparr>pb_sent := pb_sent p\<rparr>"
proof -
  from assms obtain a where "i < length (pb_items p)" "wi_stage (pb_items p ! i) = Answered a"
    and "p' = set_stage i (settled_stage p (pb_items p ! i) a) p"
    by (auto simp: settle_item_def split: if_splits stage.splits)
  then show ?thesis
    by (intro exI [of _ "settled_stage p (pb_items p ! i) a"]) (auto simp: quiet_def settled_stage_quiet set_stage_def)
qed

lemma success_dec_pod_Some:
  assumes "success_dec_pod i p = Some p'"
  obtains r n where "i < length (pb_items p)" "wi_stage (pb_items p ! i) = Verified r"
    "n = pds_pendingCount (pb_pods p ! wi_podState (pb_items p ! i)) - 1"
    "p' = set_stage i (if n = 0 then LastOfPod r else Passed r)
       (upd_pod (wi_podState (pb_items p ! i)) (\<lambda>pd. pd\<lparr>pds_pendingCount := n\<rparr>) p)"
  using assms by (auto simp: success_dec_pod_def Let_def split: if_splits stage.splits)

lemma success_cancel_pod_Some:
  assumes "success_cancel_pod i p = Some p'"
  obtains r where "i < length (pb_items p)" "wi_stage (pb_items p ! i) = LastOfPod r"
    "p' = set_stage i (PodDone r) (upd_pod (wi_podState (pb_items p ! i)) (\<lambda>pd. pd\<lparr>pds_cancelled := True\<rparr>) p)"
  using assms by (auto simp: success_cancel_pod_def split: if_splits stage.splits)

lemma success_dec_ingress_Some:
  assumes "success_dec_ingress i p = Some p'"
  obtains r where "i < length (pb_items p)" "wi_stage (pb_items p ! i) = PodDone r"
    "p' = dec_ingress (wi_ingressState (pb_items p ! i)) (set_stage i (Passed r) p)"
  using assms by (auto simp: success_dec_ingress_def split: if_splits stage.splits)

lemma cancel_swap_Some:
  assumes "cancel_swap j p = Some p'"
  obtains (swapped) n where "j < length (pb_pods p)" "pds_canceller (pb_pods p ! j) = Loaded n"
      "pds_pendingCount (pb_pods p ! j) = n"
      "p' = upd_pod j (\<lambda>pd. pd\<lparr>pds_pendingCount := 0, pds_canceller := Swapped\<rparr>) p"
    | (missed) n where "j < length (pb_pods p)" "pds_canceller (pb_pods p ! j) = Loaded n"
      "p' = upd_pod j (\<lambda>pd. pd\<lparr>pds_canceller := Awaiting\<rparr>) p"
  using assms by (auto simp: cancel_swap_def upd_pod_def split: if_splits canceller.splits)

lemma step_cases [consumes 1, case_names hit miss list_error list_ok register publish quiet dec_pod
    cancel_pod tell join load swapped missed tell_cancelled cancel_ingress cancel_ip shut_down]:
  assumes "prober_step hash_of p e p'"
  obtains
    k s where "p' = p" "fmlookup (pb_ingressStates p) k = Some s"
      "e = Returns k (igs_hash (pb_ings p ! s)) (Inr (igs_pendingCount (pb_ings p ! s) = 0))"
  | ing where "e = Internal" "p' = (CancelIngressProbingByKey (ingress_key ing) p)
      \<lparr>pb_calls := fmupd (ingress_key ing) (Listing (hash_of ing) ing) (pb_calls p)\<rparr>"
  | key hash err where "e = Returns key hash (Inl err)" "p' = p\<lparr>pb_calls := fmdrop key (pb_calls p)\<rparr>"
  | key hash ing order targets where "e = Internal" "fmlookup (pb_calls p) key = Some (Listing hash ing)"
      "distinct order" "set order = fset (fmdom (work_items targets))"
      "p' = IsReady_listed key hash ing targets order p"
  | key s where "e = Internal" "fmlookup (pb_calls p) key = Some (Registering s)"
      "igs_todo (pb_ings p ! s) \<noteq> []" "p' = IsReady_register s p"
  | key s where "fmlookup (pb_calls p) key = Some (Registering s)" "igs_todo (pb_ings p ! s) = []"
      "e = Returns key (igs_hash (pb_ings p ! s)) (Inr (igs_workItems (pb_ings p ! s) = fmempty))"
      "p' = p\<lparr>pb_ingressStates := fmupd key s (pb_ingressStates p), pb_calls := fmdrop key (pb_calls p)\<rparr>"
  | i st q where "e = Internal" "quiet p i st" "p' = (set_stage i st p)\<lparr>pb_sent := q\<rparr>"
  | i r n where "e = Internal" "i < length (pb_items p)" "wi_stage (pb_items p ! i) = Verified r"
      "n = pds_pendingCount (pb_pods p ! wi_podState (pb_items p ! i)) - 1"
      "p' = set_stage i (if n = 0 then LastOfPod r else Passed r)
         (upd_pod (wi_podState (pb_items p ! i)) (\<lambda>pd. pd\<lparr>pds_pendingCount := n\<rparr>) p)"
  | i r where "e = Internal" "i < length (pb_items p)" "wi_stage (pb_items p ! i) = LastOfPod r"
      "p' = set_stage i (PodDone r) (upd_pod (wi_podState (pb_items p ! i)) (\<lambda>pd. pd\<lparr>pds_cancelled := True\<rparr>) p)"
  | i r where "e = Internal" "i < length (pb_items p)" "wi_stage (pb_items p ! i) = PodDone r"
      "p' = dec_ingress (wi_ingressState (pb_items p ! i)) (set_stage i (Passed r) p)"
  | j where "e = Internal" "j < length (pb_pods p)" "pb_ctxs p ! pds_ipCtx (pb_pods p ! j)"
      "p' = upd_pod j (\<lambda>pd. pd\<lparr>pds_cancelled := True\<rparr>) p"
  | j where "e = Internal" "j < length (pb_pods p)" "pds_canceller (pb_pods p ! j) = Awaiting" "pod_done p j"
      "p' = upd_pod j (\<lambda>pd. pd\<lparr>pds_canceller :=
         (if pds_pendingCount (pb_pods p ! j) \<le> 0 then Finished else Loaded (pds_pendingCount (pb_pods p ! j)))\<rparr>) p"
  | j n where "e = Internal" "j < length (pb_pods p)" "pds_canceller (pb_pods p ! j) = Loaded n"
      "pds_pendingCount (pb_pods p ! j) = n"
      "p' = upd_pod j (\<lambda>pd. pd\<lparr>pds_pendingCount := 0, pds_canceller := Swapped\<rparr>) p"
  | j n where "e = Internal" "j < length (pb_pods p)" "pds_canceller (pb_pods p ! j) = Loaded n"
      "p' = upd_pod j (\<lambda>pd. pd\<lparr>pds_canceller := Awaiting\<rparr>) p"
  | j where "e = Internal" "j < length (pb_pods p)" "pds_canceller (pb_pods p ! j) = Swapped"
      "p' = dec_ingress (pds_ingress (pb_pods p ! j)) (upd_pod j (\<lambda>pd. pd\<lparr>pds_canceller := Finished\<rparr>) p)"
  | key where "e = Internal" "p' = CancelIngressProbingByKey key p"
  | ip where "e = PodCancelled ip" "p' = CancelPodProbing ip p"
  | "e = Internal" "p' = ShutDown p"
  using assms
proof (cases rule: prober_step.cases)
  case (lookup_hit ing r)
  then show ?thesis by (auto simp: IsReady_lookup_hit intro: that(1))
next
  case (lookup_miss ing p'')
  then show ?thesis by (auto dest!: IsReady_lookup_miss intro: that(2))
next
  case (publish key s r)
  then show ?thesis by (auto simp: IsReady_publish_def intro: that(6))
next
  case (deliver i)
  then show ?thesis by (metis deliver_Some that(7))
next
  case (get i)
  then show ?thesis by (metis get_item_Some that(7))
next
  case (answer i a)
  then show ?thesis by (metis answer_item_Some that(7))
next
  case (settle i)
  then show ?thesis by (metis settle_item_Some that(7))
next
  case (dec_pod i)
  then show ?thesis by (metis success_dec_pod_Some that(8))
next
  case (cancel_pod i)
  then show ?thesis by (metis success_cancel_pod_Some that(9))
next
  case (tell_ingress i)
  then show ?thesis by (metis success_dec_ingress_Some that(10))
next
  case (join j)
  then show ?thesis by (auto simp: join_contexts_def intro: that(11) split: if_splits)
next
  case (load j)
  then show ?thesis by (auto simp: cancel_load_def Let_def intro: that(12) split: if_splits)
next
  case (swap j)
  then show ?thesis by (metis cancel_swap_Some that(13,14))
next
  case (tell_cancelled j)
  then show ?thesis by (auto simp: cancel_dec_ingress_def intro: that(15) split: if_splits)
next
  case (list_error key hash ing err)
  then show ?thesis by - (rule that(3), assumption+)
next
  case (list_ok key hash ing order targets)
  then show ?thesis by - (rule that(4), assumption+)
next
  case (register_ip key s)
  then show ?thesis by - (rule that(5), assumption+)
next
  case (cancel_ingress key)
  then show ?thesis by - (rule that(16), assumption+)
next
  case (cancel_ip ip)
  then show ?thesis by - (rule that(17), assumption+)
next
  case (shut_down)
  then show ?thesis by - (rule that(18), assumption+)
qed


section \<open>Fields after a cancellation\<close>

lemma igs_workItems_simps [simp]:
  "igs_workItems (st\<lparr>igs_pendingCount := n\<rparr>) = igs_workItems st"
  "igs_workItems (st\<lparr>igs_cancelled := c\<rparr>) = igs_workItems st"
  "igs_workItems (st\<lparr>igs_todo := ips\<rparr>) = igs_workItems st"
  by (simp_all add: igs_workItems_def)

lemma cancel_simps [simp]:
  "pb_pods (CancelIngressProbingByKey k p) = pb_pods p" "pb_ctxs (CancelIngressProbingByKey k p) = pb_ctxs p"
  "pb_items (CancelIngressProbingByKey k p) = pb_items p"
  "pb_podContexts (CancelIngressProbingByKey k p) = pb_podContexts p"
  "pb_callbacks (CancelIngressProbingByKey k p) = pb_callbacks p"
  "pb_sent (CancelIngressProbingByKey k p) = pb_sent p"
  "pb_shutdown (CancelIngressProbingByKey k p) = pb_shutdown p"
  "length (pb_ings (CancelIngressProbingByKey k p)) = length (pb_ings p)"
  "fmlookup (pb_ingressStates (CancelIngressProbingByKey k p)) k' =
     (if k' = k then None else fmlookup (pb_ingressStates p) k')"
  by (auto simp: CancelIngressProbingByKey_def split: option.splits)

lemma cancel_ings [simp]:
  "igs_hash (pb_ings (CancelIngressProbingByKey k p) ! s) = igs_hash (pb_ings p ! s)"
  "igs_ing (pb_ings (CancelIngressProbingByKey k p) ! s) = igs_ing (pb_ings p ! s)"
  "igs_pendingCount (pb_ings (CancelIngressProbingByKey k p) ! s) = igs_pendingCount (pb_ings p ! s)"
  "igs_workItems (pb_ings (CancelIngressProbingByKey k p) ! s) = igs_workItems (pb_ings p ! s)"
  "igs_todo (pb_ings (CancelIngressProbingByKey k p) ! s) = igs_todo (pb_ings p ! s)"
  by (auto simp: CancelIngressProbingByKey_def nth_update split: option.splits)

lemma cancel_cancelled:
  "s < length (pb_ings p) \<Longrightarrow> igs_cancelled (pb_ings (CancelIngressProbingByKey k p) ! s) \<longleftrightarrow>
     igs_cancelled (pb_ings p ! s) \<or> fmlookup (pb_ingressStates p) k = Some s"
  by (auto simp: CancelIngressProbingByKey_def nth_update split: option.splits)

lemma cancel_pod_simps [simp]:
  "pb_ings (CancelPodProbing ip p) = pb_ings p" "pb_pods (CancelPodProbing ip p) = pb_pods p"
  "pb_items (CancelPodProbing ip p) = pb_items p" "pb_calls (CancelPodProbing ip p) = pb_calls p"
  "pb_ingressStates (CancelPodProbing ip p) = pb_ingressStates p"
  "pb_callbacks (CancelPodProbing ip p) = pb_callbacks p" "pb_sent (CancelPodProbing ip p) = pb_sent p"
  "pb_shutdown (CancelPodProbing ip p) = pb_shutdown p"
  "length (pb_ctxs (CancelPodProbing ip p)) = length (pb_ctxs p)"
  by (auto simp: CancelPodProbing_def split: option.splits)

lemma cancel_pod_ctxs: "pb_ctxs p ! c \<Longrightarrow> pb_ctxs (CancelPodProbing ip p) ! c"
  by (auto simp: CancelPodProbing_def nth_update split: option.splits)

lemma shut_down_simps [simp]:
  "pb_ings (ShutDown p) = pb_ings p" "pb_pods (ShutDown p) = pb_pods p" "pb_items (ShutDown p) = pb_items p"
  "pb_calls (ShutDown p) = pb_calls p" "pb_ingressStates (ShutDown p) = pb_ingressStates p"
  "pb_callbacks (ShutDown p) = pb_callbacks p" "pb_sent (ShutDown p) = pb_sent p"
  "pb_shutdown (ShutDown p)" "pb_ctxs (ShutDown p) = pb_ctxs p" "pb_podContexts (ShutDown p) = pb_podContexts p"
  by (simp_all add: ShutDown_def)

lemma listed_simps [simp]:
  "pb_ings (IsReady_listed k h ing ts order p) = pb_ings p @ [new_ingress_state h ing ts order]"
  "pb_pods (IsReady_listed k h ing ts order p) = pb_pods p" "pb_items (IsReady_listed k h ing ts order p) = pb_items p"
  "pb_calls (IsReady_listed k h ing ts order p) = fmupd k (Registering (length (pb_ings p))) (pb_calls p)"
  "pb_ingressStates (IsReady_listed k h ing ts order p) = pb_ingressStates p"
  "pb_callbacks (IsReady_listed k h ing ts order p) = pb_callbacks p"
  "pb_sent (IsReady_listed k h ing ts order p) = pb_sent p"
  "pb_ctxs (IsReady_listed k h ing ts order p) = pb_ctxs p"
  "pb_podContexts (IsReady_listed k h ing ts order p) = pb_podContexts p"
  "pb_shutdown (IsReady_listed k h ing ts order p) = pb_shutdown p"
  by (simp_all add: IsReady_listed_def)

lemma new_ingress_state_simps [simp]:
  "igs_hash (new_ingress_state h ing ts order) = h" "igs_ing (new_ingress_state h ing ts order) = ing"
  "igs_pendingCount (new_ingress_state h ing ts order) = int (length order)"
  "\<not> igs_cancelled (new_ingress_state h ing ts order)"
  "igs_targets (new_ingress_state h ing ts order) = ts"
  "igs_workItems (new_ingress_state h ing ts order) = work_items ts"
  "igs_todo (new_ingress_state h ing ts order) = order"
  by (simp_all add: new_ingress_state_def igs_workItems_def)

section \<open>The pointers are valid\<close>

definition links :: "prober \<Rightarrow> bool" where
  "links p \<longleftrightarrow>
     (\<forall>i < length (pb_items p). wi_podState (pb_items p ! i) < length (pb_pods p) \<and>
        wi_podIP (pb_items p ! i) = pds_ip (pb_pods p ! wi_podState (pb_items p ! i)) \<and>
        wi_ingressState (pb_items p ! i) = pds_ingress (pb_pods p ! wi_podState (pb_items p ! i))) \<and>
     (\<forall>j < length (pb_pods p). pds_ingress (pb_pods p ! j) < length (pb_ings p) \<and>
        pds_ipCtx (pb_pods p ! j) < length (pb_ctxs p)) \<and>
     (\<forall>ip c. fmlookup (pb_podContexts p) ip = Some c \<longrightarrow> c < length (pb_ctxs p)) \<and>
     (\<forall>k s. fmlookup (pb_ingressStates p) k = Some s \<longrightarrow> s < length (pb_ings p)) \<and>
     (\<forall>k s. fmlookup (pb_calls p) k = Some (Registering s) \<longrightarrow> s < length (pb_ings p))"

lemma links_start: "links NewProber"
  by (simp add: links_def NewProber_def)

text \<open>What \<open>IsReady\<close> still has to register was listed, with something to probe.\<close>

definition todo_ok :: "prober \<Rightarrow> bool" where
  "todo_ok p \<longleftrightarrow>
     (\<forall>s < length (pb_ings p). distinct (igs_todo (pb_ings p ! s)) \<and>
        (\<forall>ip \<in> set (igs_todo (pb_ings p ! s)). fmlookup (igs_workItems (pb_ings p ! s)) ip \<noteq> None) \<and>
        (\<forall>ip its. fmlookup (igs_workItems (pb_ings p ! s)) ip = Some its \<longrightarrow> its \<noteq> []))"

lemma fold_add_url_nonempty:
  "(\<And>ip' its. fmlookup m ip' = Some its \<Longrightarrow> its \<noteq> []) \<Longrightarrow>
   fmlookup (fold (add_url ip port) us m) ip' = Some its \<Longrightarrow> its \<noteq> []"
proof (induction us arbitrary: m)
  case (Cons u us)
  show ?case
    by (rule Cons.IH [of "add_url ip port u m"])
       (use Cons.prems in \<open>auto simp: add_url_def split: if_splits option.splits\<close>)
qed simp

lemma add_target_nonempty:
  assumes "\<And>ip' its. fmlookup m ip' = Some its \<Longrightarrow> its \<noteq> []"
    and "fmlookup (add_target t m) ip' = Some its"
  shows "its \<noteq> []"
proof -
  have "fmlookup (fold (\<lambda>ip. fold (add_url ip (pt_PodPort t)) (pt_URLs t)) ips m) ip' = Some its \<Longrightarrow> its \<noteq> []" for ips
    using assms(1)
  proof (induction ips arbitrary: m)
    case (Cons ip ips)
    show ?case
      by (rule Cons.IH [of "fold (add_url ip (pt_PodPort t)) (pt_URLs t) m"])
         (use Cons.prems fold_add_url_nonempty [of m] in auto)
  qed simp
  with assms(2) show ?thesis by (simp add: add_target_def)
qed

lemma work_items_nonempty: "fmlookup (work_items targets) ip = Some its \<Longrightarrow> its \<noteq> []"
proof -
  have "(\<And>ip' its. fmlookup m ip' = Some its \<Longrightarrow> its \<noteq> []) \<Longrightarrow>
    fmlookup (fold add_target targets m) ip = Some its \<Longrightarrow> its \<noteq> []" for m
  proof (induction targets arbitrary: m)
    case (Cons t ts)
    show ?case by (rule Cons.IH [of "add_target t m"]) (use Cons.prems add_target_nonempty [of m t] in auto)
  qed simp
  then show "fmlookup (work_items targets) ip = Some its \<Longrightarrow> its \<noteq> []"
    unfolding work_items_def by (metis fmempty_lookup option.distinct(1))
qed

section \<open>Registering an IP\<close>

lemma ip_context_simps [simp]:
  "pb_ings (snd (ip_context ip p)) = pb_ings p" "pb_pods (snd (ip_context ip p)) = pb_pods p"
  "pb_items (snd (ip_context ip p)) = pb_items p" "pb_calls (snd (ip_context ip p)) = pb_calls p"
  "pb_ingressStates (snd (ip_context ip p)) = pb_ingressStates p"
  "pb_callbacks (snd (ip_context ip p)) = pb_callbacks p" "pb_sent (snd (ip_context ip p)) = pb_sent p"
  "pb_shutdown (snd (ip_context ip p)) = pb_shutdown p"
  "i < length (pb_ctxs p) \<Longrightarrow> pb_ctxs (snd (ip_context ip p)) ! i = pb_ctxs p ! i"
  "length (pb_ctxs p) \<le> length (pb_ctxs (snd (ip_context ip p)))"
  by (auto simp: ip_context_def nth_append split: option.splits)

lemma ip_context_valid:
  assumes "links p"
  shows "fst (ip_context ip p) < length (pb_ctxs (snd (ip_context ip p)))"
    and "fmlookup (pb_podContexts (snd (ip_context ip p))) ip' = Some c \<Longrightarrow>
      c < length (pb_ctxs (snd (ip_context ip p)))"
  using assms by (auto simp: ip_context_def links_def less_Suc_eq split: option.splits if_splits)

lemma register_simps:
  assumes "igs_todo (pb_ings p ! s) = ip # rest"
    and "fmlookup (igs_workItems (pb_ings p ! s)) ip = Some its"
  shows "pb_ings (IsReady_register s p) = (pb_ings p)[s := (pb_ings p ! s)\<lparr>igs_todo := rest\<rparr>]"
    and "pb_pods (IsReady_register s p) = pb_pods p @ [\<lparr>pds_ingress = s, pds_ip = ip,
      pds_ipCtx = fst (ip_context ip p), pds_pendingCount = int (length its), pds_cancelled = False,
      pds_canceller = Awaiting\<rparr>]"
    and "pb_items (IsReady_register s p) =
      pb_items p @ map (new_item s (length (pb_pods p)) ip (pb_shutdown p)) its"
    and "pb_ctxs (IsReady_register s p) = pb_ctxs (snd (ip_context ip p))"
    and "pb_podContexts (IsReady_register s p) = pb_podContexts (snd (ip_context ip p))"
    and "pb_calls (IsReady_register s p) = pb_calls p"
    and "pb_ingressStates (IsReady_register s p) = pb_ingressStates p"
    and "pb_callbacks (IsReady_register s p) = pb_callbacks p"
    and "pb_shutdown (IsReady_register s p) = pb_shutdown p"
    and "pb_sent (IsReady_register s p) = pb_sent p"
  using assms by (simp_all add: IsReady_register_def split_beta Let_def)

text \<open>A registering call has a valid state, and its next IP was listed.\<close>

lemma registering:
  assumes "links p" and "todo_ok p" and "fmlookup (pb_calls p) k = Some (Registering s)"
    and "igs_todo (pb_ings p ! s) \<noteq> []"
  obtains ip rest its where "s < length (pb_ings p)" "igs_todo (pb_ings p ! s) = ip # rest"
    "fmlookup (igs_workItems (pb_ings p ! s)) ip = Some its" "its \<noteq> []" "distinct rest" "ip \<notin> set rest"
proof -
  have s: "s < length (pb_ings p)" using assms(1,3) by (auto simp: links_def)
  obtain ip rest where t: "igs_todo (pb_ings p ! s) = ip # rest" using assms(4) by (cases "igs_todo (pb_ings p ! s)") auto
  with assms(2) s obtain its where "fmlookup (igs_workItems (pb_ings p ! s)) ip = Some its" "its \<noteq> []"
    unfolding todo_ok_def by fastforce
  moreover have "distinct (ip # rest)" using assms(2) s t unfolding todo_ok_def by metis
  ultimately show ?thesis using that s t by auto
qed

lemma links_step:
  assumes "prober_step hash_of p e p'" and "links p" and "todo_ok p"
  shows "links p'"
  using assms(1)
proof (cases rule: step_cases)
  case (register key s)
  from registering [OF assms(2,3) register(2,3)] obtain ip rest its where
    "s < length (pb_ings p)" "igs_todo (pb_ings p ! s) = ip # rest"
    "fmlookup (igs_workItems (pb_ings p ! s)) ip = Some its" "its \<noteq> []" "distinct rest" "ip \<notin> set rest" .
  with register(4) assms(2) ip_context_valid [OF assms(2), of ip] show ?thesis
    by (auto simp: links_def register_simps nth_append less_Suc_eq intro: less_le_trans)
next
  case (cancel_ip ip)
  with assms(2) show ?thesis by (auto simp: links_def) (auto simp: CancelPodProbing_def split: option.splits if_splits)
qed (use assms(2) in \<open>auto simp: links_def quiet_def nth_append nth_list_update less_Suc_eq split: if_splits\<close>)

lemma todo_ok_start: "todo_ok NewProber"
  by (simp add: todo_ok_def NewProber_def)

lemma todo_ok_step:
  assumes "prober_step hash_of p e p'" and "links p" and "todo_ok p"
  shows "todo_ok p'"
  using assms(1)
proof (cases rule: step_cases)
  case (register key s)
  from registering [OF assms(2,3) register(2,3)] obtain ip rest its where
    "s < length (pb_ings p)" "igs_todo (pb_ings p ! s) = ip # rest"
    "fmlookup (igs_workItems (pb_ings p ! s)) ip = Some its" "its \<noteq> []" "distinct rest" "ip \<notin> set rest" .
  with register(4) assms(3) show ?thesis
    by (auto simp: todo_ok_def register_simps nth_list_update)
next
  case (list_ok key hash ing order targets)
  with assms(3) show ?thesis
    by (auto simp: todo_ok_def nth_append less_Suc_eq fmlookup_dom_iff dest: work_items_nonempty)
next
  case (miss ing)
  with assms(3) show ?thesis by (auto simp: todo_ok_def)
next
  case (cancel_ingress key)
  with assms(3) show ?thesis by (auto simp: todo_ok_def)
qed (use assms(2,3) in \<open>auto simp: todo_ok_def links_def nth_list_update\<close>)

section \<open>Who owns an Ingress state\<close>

definition owners :: "(ingress \<Rightarrow> string) \<Rightarrow> prober \<Rightarrow> bool" where
  "owners hash_of p \<longleftrightarrow>
     (\<forall>k s. fmlookup (pb_ingressStates p) k = Some s \<longrightarrow>
        \<not> igs_cancelled (pb_ings p ! s) \<and> igs_todo (pb_ings p ! s) = [] \<and>
        ingress_key (igs_ing (pb_ings p ! s)) = k \<and>
        (\<forall>k'. fmlookup (pb_calls p) k' \<noteq> Some (Registering s))) \<and>
     (\<forall>k s. fmlookup (pb_calls p) k = Some (Registering s) \<longrightarrow>
        \<not> igs_cancelled (pb_ings p ! s) \<and> ingress_key (igs_ing (pb_ings p ! s)) = k) \<and>
     (\<forall>k h ing. fmlookup (pb_calls p) k = Some (Listing h ing) \<longrightarrow> ingress_key ing = k \<and> h = hash_of ing) \<and>
     (\<forall>s < length (pb_ings p). igs_hash (pb_ings p ! s) = hash_of (igs_ing (pb_ings p ! s)))"

lemma owners_start: "owners hash_of NewProber"
  by (simp add: owners_def NewProber_def)

lemma owners_unique:
  assumes "owners hash_of p" and "fmlookup (pb_ingressStates p) k = Some s"
  shows "fmlookup (pb_ingressStates p) k' = Some s \<longleftrightarrow> k' = k"
    and "fmlookup (pb_calls p) k' \<noteq> Some (Registering s)"
  using assms unfolding owners_def by metis+

lemma owners_unique_call:
  assumes "owners hash_of p" and "fmlookup (pb_calls p) k = Some (Registering s)"
  shows "fmlookup (pb_calls p) k' = Some (Registering s) \<longleftrightarrow> k' = k"
    and "fmlookup (pb_ingressStates p) k' \<noteq> Some s"
    and "\<not> igs_cancelled (pb_ings p ! s)" and "ingress_key (igs_ing (pb_ings p ! s)) = k"
  using assms unfolding owners_def by metis+

lemma owners_cancel:
  assumes own: "owners hash_of p" and "links p"
  shows "owners hash_of (CancelIngressProbingByKey k p)"
proof -
  have "igs_cancelled (pb_ings (CancelIngressProbingByKey k p) ! s) \<longleftrightarrow> False"
    if "fmlookup (pb_ingressStates p) k' = Some s" "k' \<noteq> k" for s k'
    using that assms owners_unique(1) [OF own that(1), of k] cancel_cancelled [of s p k]
    unfolding owners_def links_def by metis
  moreover have "igs_cancelled (pb_ings (CancelIngressProbingByKey k p) ! s) \<longleftrightarrow> False"
    if "fmlookup (pb_calls p) k' = Some (Registering s)" for s k'
    using that assms owners_unique_call(2) [OF own that(1), of k] cancel_cancelled [of s p k]
    unfolding owners_def links_def by metis
  ultimately show ?thesis using own unfolding owners_def by auto
qed

lemma owners_step:
  assumes "prober_step hash_of p e p'" and "links p" and "todo_ok p" and own: "owners hash_of p"
  shows "owners hash_of p'"
  using assms(1)
proof (cases rule: step_cases)
  case (miss ing)
  with owners_cancel [OF own assms(2), of "ingress_key ing"] show ?thesis
    by (auto simp: owners_def split: if_splits)
next
  case (cancel_ingress key)
  with owners_cancel [OF own assms(2)] show ?thesis by simp
next
  case (list_ok key hash ing order targets)
  with own assms(2) show ?thesis
    unfolding owners_def links_def by (auto simp: nth_append less_Suc_eq split: if_splits)
next
  case (register key s)
  from registering [OF assms(2,3) register(2,3)] obtain ip rest its where
    "s < length (pb_ings p)" "igs_todo (pb_ings p ! s) = ip # rest"
    "fmlookup (igs_workItems (pb_ings p ! s)) ip = Some its" "its \<noteq> []" "distinct rest" "ip \<notin> set rest" .
  with register(4) own owners_unique_call [OF own register(2)] show ?thesis
    by (auto simp: owners_def register_simps nth_list_update)
next
  case (publish key s)
  note call = owners_unique_call [OF own publish(1)]
  from publish own show ?thesis by (auto simp: owners_def call split: if_splits)
qed (use own assms(2) in \<open>auto simp: owners_def links_def nth_list_update split: if_splits\<close>)

section \<open>The counts\<close>

text \<open>A worker that made the count of its pod zero, before it tells the Ingress.\<close>

fun telling :: "stage \<Rightarrow> bool" where
  "telling (LastOfPod _) = True"
| "telling (PodDone _) = True"
| "telling _ = False"

lemma telling_counted_off: "telling st \<Longrightarrow> counted_off st"
  by (cases st) auto

text \<open>What an Ingress state still waits for: its IPs and pods, and those about to tell it.\<close>

definition outstanding :: "prober \<Rightarrow> nat \<Rightarrow> int" where
  "outstanding p s =
     int (length (igs_todo (pb_ings p ! s))) +
     count_of (\<lambda>pd. pds_ingress pd = s \<and> 0 < pds_pendingCount pd) (pb_pods p) +
     count_of (\<lambda>pd. pds_ingress pd = s \<and> pds_canceller pd = Swapped) (pb_pods p) +
     count_of (\<lambda>it. wi_ingressState it = s \<and> telling (wi_stage it)) (pb_items p)"

definition counted :: "prober \<Rightarrow> bool" where
  "counted p \<longleftrightarrow>
     (\<forall>s < length (pb_ings p). igs_pendingCount (pb_ings p ! s) = outstanding p s)"

lemma counted_start: "counted NewProber"
  by (simp add: counted_def NewProber_def)

text \<open>The goroutine of a pod has read a positive count, and only once the context was done.\<close>

definition cancellers :: "prober \<Rightarrow> bool" where
  "cancellers p \<longleftrightarrow>
     (\<forall>j < length (pb_pods p). \<forall>n. pds_canceller (pb_pods p ! j) = Loaded n \<longrightarrow> 0 < n \<and> pod_done p j)"

lemma cancellers_start: "cancellers NewProber"
  by (simp add: cancellers_def NewProber_def)

lemma cancellers_step:
  assumes "prober_step hash_of p e p'" and "links p" and "todo_ok p" and "cancellers p"
  shows "cancellers p'"
  using assms(1)
proof (cases rule: step_cases)
  case (register key s)
  from registering [OF assms(2,3) register(2,3)] obtain ip rest its where
    "s < length (pb_ings p)" "igs_todo (pb_ings p ! s) = ip # rest"
    "fmlookup (igs_workItems (pb_ings p ! s)) ip = Some its" "its \<noteq> []" "distinct rest" "ip \<notin> set rest" .
  with register(4) assms(4) show ?thesis
    by (auto simp: cancellers_def pod_done_def register_simps nth_append nth_update)
next
  case (miss ing)
  with assms(2,4) show ?thesis by (auto simp: cancellers_def pod_done_def links_def cancel_cancelled)
next
  case (cancel_ingress key)
  with assms(2,4) show ?thesis by (auto simp: cancellers_def pod_done_def links_def cancel_cancelled)
next
  case (list_ok key hash ing order targets)
  with assms(2,4) show ?thesis by (auto simp: cancellers_def pod_done_def links_def nth_append)
qed (use assms(4) in \<open>auto simp: cancellers_def pod_done_def nth_update split: if_splits\<close>)

lemma counted_step:
  assumes "prober_step hash_of p e p'" and "links p" and "todo_ok p" and "cancellers p" and "counted p"
  shows "counted p'"
  using assms(1)
proof (cases rule: step_cases)
  case (register key s)
  from registering [OF assms(2,3) register(2,3)] obtain ip rest its where
    "s < length (pb_ings p)" "igs_todo (pb_ings p ! s) = ip # rest"
    "fmlookup (igs_workItems (pb_ings p ! s)) ip = Some its" "its \<noteq> []" "distinct rest" "ip \<notin> set rest" .
  with register(4) assms(5) show ?thesis
    by (auto simp: counted_def outstanding_def register_simps nth_update count_of_def)
next
  case (list_ok key hash ing order targets)
  have none: "count_of (\<lambda>pd. pds_ingress pd = length (pb_ings p) \<and> Q pd) (pb_pods p) = 0" for Q
    using assms(2) by (intro count_of_none) (auto simp: links_def in_set_conv_nth)
  have none': "count_of (\<lambda>it. wi_ingressState it = length (pb_ings p) \<and> Q it) (pb_items p) = 0" for Q
    using assms(2) by (intro count_of_none) (fastforce simp: links_def in_set_conv_nth)
  from list_ok assms(5) show ?thesis
    by (auto simp: counted_def outstanding_def nth_append less_Suc_eq none none')
next
  case (quiet i st q)
  with assms(5) show ?thesis
    by (auto simp: counted_def outstanding_def quiet_def count_of_update dest: telling_counted_off)
next
  case (dec_pod i r n)
  with assms(2,5) show ?thesis
    by (auto simp: counted_def outstanding_def links_def count_of_update of_bool_def split: if_splits)
next
  case (cancel_pod i r)
  with assms(2,5) show ?thesis
    by (auto simp: counted_def outstanding_def links_def count_of_update)
next
  case (tell i r)
  with assms(2,5) show ?thesis
    by (auto simp: counted_def outstanding_def links_def count_of_update nth_update)
next
  case (join j)
  with assms(5) show ?thesis by (auto simp: counted_def outstanding_def count_of_update)
next
  case (load j)
  with assms(5) show ?thesis by (auto simp: counted_def outstanding_def count_of_update)
next
  case (swapped j n)
  with assms(4,5) show ?thesis
    by (auto simp: counted_def outstanding_def cancellers_def count_of_update)
next
  case (missed j n)
  with assms(5) show ?thesis by (auto simp: counted_def outstanding_def count_of_update)
next
  case (tell_cancelled j)
  with assms(2,5) show ?thesis
    by (auto simp: counted_def outstanding_def links_def count_of_update nth_update)
qed (use assms(5) in \<open>auto simp: counted_def outstanding_def\<close>)

section \<open>What counts as probed was probed\<close>

definition items_of :: "prober \<Rightarrow> nat \<Rightarrow> int" where
  "items_of p j = count_of (\<lambda>it. wi_podState it = j) (pb_items p)"

definition off_of :: "prober \<Rightarrow> nat \<Rightarrow> int" where
  "off_of p j = count_of (\<lambda>it. wi_podState it = j \<and> counted_off (wi_stage it)) (pb_items p)"

text \<open>A pod whose probing was given up: another version of the Ingress, or the pod is gone.\<close>

definition excused :: "prober \<Rightarrow> nat \<Rightarrow> bool" where
  "excused p j \<longleftrightarrow> igs_cancelled (pb_ings p ! pds_ingress (pb_pods p ! j)) \<or>
     pb_ctxs p ! pds_ipCtx (pb_pods p ! j)"

definition pod_ok :: "prober \<Rightarrow> nat \<Rightarrow> bool" where
  "pod_ok p j \<longleftrightarrow>
     (let n = pds_pendingCount (pb_pods p ! j) in
      0 \<le> n + off_of p j \<and> n + off_of p j \<le> items_of p j \<and>
      (0 < n \<longrightarrow> n + off_of p j = items_of p j) \<and>
      (n \<le> 0 \<longrightarrow> off_of p j = items_of p j \<or> excused p j) \<and>
      (pds_cancelled (pb_pods p ! j) \<longrightarrow> n \<le> 0 \<or> pb_ctxs p ! pds_ipCtx (pb_pods p ! j)))"

definition pods_ok :: "prober \<Rightarrow> bool" where
  "pods_ok p \<longleftrightarrow>
     (\<forall>j < length (pb_pods p). pod_ok p j) \<and>
     (\<forall>i < length (pb_items p). telling (wi_stage (pb_items p ! i)) \<longrightarrow>
        pds_pendingCount (pb_pods p ! wi_podState (pb_items p ! i)) \<le> 0)"

lemmas pod_defs = pods_ok_def pod_ok_def off_of_def items_of_def excused_def Let_def

lemma count_new_items [simp]:
  "count_of (\<lambda>it. wi_podState it = j') (map (new_item s j ip shut) its) = (if j' = j then int (length its) else 0)"
  "count_of (\<lambda>it. wi_podState it = j' \<and> counted_off (wi_stage it)) (map (new_item s j ip shut) its) = 0"
  by (auto simp: count_of_def filter_empty_conv comp_def filter_map)

lemma count_of_split: "count_of Q xs = count_of (\<lambda>x. Q x \<and> P x) xs + count_of (\<lambda>x. Q x \<and> \<not> P x) xs"
  by (induction xs) auto

lemma off_le_items: "off_of p j \<le> items_of p j"
  unfolding off_of_def items_of_def
  using count_of_split [of "\<lambda>it. wi_podState it = j" "pb_items p" "\<lambda>it. counted_off (wi_stage it)"] by simp

lemma off_less_items:
  assumes "i < length (pb_items p)" and "\<not> counted_off (wi_stage (pb_items p ! i))"
  shows "off_of p (wi_podState (pb_items p ! i)) < items_of p (wi_podState (pb_items p ! i))"
  unfolding off_of_def items_of_def
  using count_of_split [of "\<lambda>it. wi_podState it = wi_podState (pb_items p ! i)" "pb_items p"
      "\<lambda>it. counted_off (wi_stage it)"]
    count_of_positive [OF assms(1), of "\<lambda>it. wi_podState it = wi_podState (pb_items p ! i) \<and>
      \<not> counted_off (wi_stage it)"] assms(2)
  by simp

lemma all_off_iff:
  "off_of p j = items_of p j \<longleftrightarrow>
     (\<forall>i < length (pb_items p). wi_podState (pb_items p ! i) = j \<longrightarrow> counted_off (wi_stage (pb_items p ! i)))"
  unfolding off_of_def items_of_def
  using count_of_split [of "\<lambda>it. wi_podState it = j" "pb_items p" "\<lambda>it. counted_off (wi_stage it)"]
    count_of_0_iff [of "\<lambda>it. wi_podState it = j \<and> \<not> counted_off (wi_stage it)" "pb_items p"]
  by (auto simp: all_set_conv_all_nth)

lemma pods_ok_start: "pods_ok NewProber"
  by (simp add: pods_ok_def NewProber_def)

lemma pods_ok_step:
  assumes "prober_step hash_of p e p'" and "links p" and "todo_ok p" and "cancellers p" and "pods_ok p"
  shows "pods_ok p'"
  using assms(1)
proof (cases rule: step_cases)
  case (register key s)
  from registering [OF assms(2,3) register(2,3)] obtain ip rest its where r:
    "s < length (pb_ings p)" "igs_todo (pb_ings p ! s) = ip # rest"
    "fmlookup (igs_workItems (pb_ings p ! s)) ip = Some its" "its \<noteq> []" "distinct rest" "ip \<notin> set rest" .
  have none: "count_of (\<lambda>it. wi_podState it = length (pb_pods p) \<and> Q it) (pb_items p) = 0"
    "count_of (\<lambda>it. wi_podState it = length (pb_pods p)) (pb_items p) = 0" for Q
    using assms(2) by (intro count_of_none; fastforce simp: links_def in_set_conv_nth)+
  from r register(4) assms(2,5) show ?thesis
    by (auto simp: pod_defs links_def none
        register_simps nth_append nth_update less_Suc_eq)
next
  case (list_ok key hash ing order targets)
  with assms(2,5) show ?thesis
    by (auto simp: pod_defs links_def nth_append)
next
  case (miss ing)
  with assms(2,5) show ?thesis
    by (auto simp: pod_defs links_def cancel_cancelled)
next
  case (cancel_ingress key)
  with assms(2,5) show ?thesis
    by (auto simp: pod_defs links_def cancel_cancelled)
next
  case (cancel_ip ip)
  with assms(5) show ?thesis
    by (auto simp: pod_defs dest: cancel_pod_ctxs)
next
  case (quiet i st q)
  with assms(5) show ?thesis
    by (auto simp: pod_defs quiet_def
        count_of_update nth_update dest: telling_counted_off)
next
  case (dec_pod i r n)
  have "off_of p (wi_podState (pb_items p ! i)) < items_of p (wi_podState (pb_items p ! i))"
    by (rule off_less_items) (use dec_pod in auto)
  with dec_pod assms(2,5) show ?thesis
    by (auto simp: pod_defs links_def
        count_of_update nth_update)
next
  case (cancel_pod i r)
  with assms(2,5) show ?thesis
    by (auto simp: pod_defs links_def
        count_of_update nth_update)
next
  case (tell i r)
  with assms(2,5) show ?thesis
    by (auto simp: pod_defs links_def
        count_of_update nth_update)
next
  case (swapped j n)
  with assms(4,5) off_le_items [of p j] show ?thesis
    by (auto simp: pod_defs cancellers_def
        pod_done_def nth_update)
next
  case (tell_cancelled j)
  with assms(2,5) show ?thesis
    by (auto simp: pod_defs links_def nth_update)
qed (use assms(5) in \<open>auto simp: pod_defs nth_update\<close>)

section \<open>Verified answers\<close>

fun verified_answer :: "stage \<Rightarrow> probe_response option" where
  "verified_answer (Verified r) = Some r"
| "verified_answer (LastOfPod r) = Some r"
| "verified_answer (PodDone r) = Some r"
| "verified_answer (Passed r) = Some r"
| "verified_answer _ = None"

definition verified :: "prober \<Rightarrow> bool" where
  "verified p \<longleftrightarrow>
     (\<forall>i < length (pb_items p). \<forall>r. verified_answer (wi_stage (pb_items p ! i)) = Some r \<longrightarrow>
        probeVerifier (igs_hash (pb_ings p ! wi_ingressState (pb_items p ! i))) r = Inr True)"

lemma verified_start: "verified NewProber"
  by (simp add: verified_def NewProber_def)

lemma quiet_verified:
  "quiet p i st \<Longrightarrow> verified_answer st = Some r \<Longrightarrow>
     probeVerifier (igs_hash (pb_ings p ! wi_ingressState (pb_items p ! i))) r = Inr True"
  by (cases st) (auto simp: quiet_def)

lemma verified_step:
  assumes "prober_step hash_of p e p'" and "links p" and "todo_ok p" and "verified p"
  shows "verified p'"
  using assms(1)
proof (cases rule: step_cases)
  case (register key s)
  from registering [OF assms(2,3) register(2,3)] obtain ip rest its where
    "s < length (pb_ings p)" "igs_todo (pb_ings p ! s) = ip # rest"
    "fmlookup (igs_workItems (pb_ings p ! s)) ip = Some its" "its \<noteq> []" "distinct rest" "ip \<notin> set rest" .
  with register(4) assms(4) show ?thesis
    by (auto simp: verified_def register_simps nth_append nth_update split: if_splits)
next
  case (list_ok key hash ing order targets)
  with assms(2,4) show ?thesis by (auto simp: verified_def links_def nth_append)
next
  case (quiet i st q)
  with assms(4) quiet_verified [OF quiet(2)] show ?thesis by (auto simp: verified_def nth_update)
qed (use assms(4) in \<open>auto simp: verified_def nth_update split: if_splits\<close>)

section \<open>Everything listed is probed\<close>

text \<open>The items of a pod, as \<open>IsReady\<close> listed them.\<close>

definition probes_of :: "prober \<Rightarrow> nat \<Rightarrow> (url \<times> string) list" where
  "probes_of p j = map (\<lambda>it. (wi_url it, wi_podPort it)) (filter (\<lambda>it. wi_podState it = j) (pb_items p))"

definition registered :: "prober \<Rightarrow> bool" where
  "registered p \<longleftrightarrow>
     (\<forall>s < length (pb_ings p). \<forall>ip its. fmlookup (igs_workItems (pb_ings p ! s)) ip = Some its \<longrightarrow>
        ip \<in> set (igs_todo (pb_ings p ! s)) \<or>
        (\<exists>j < length (pb_pods p). pds_ingress (pb_pods p ! j) = s \<and> pds_ip (pb_pods p ! j) = ip \<and>
           probes_of p j = its))"

lemma registered_start: "registered NewProber"
  by (simp add: registered_def NewProber_def)

lemma filter_update_same:
  "f y = f (xs ! i) \<Longrightarrow> P y = P (xs ! i) \<Longrightarrow> map f (filter P (xs[i := y])) = map f (filter P xs)"
proof (induction xs arbitrary: i)
  case (Cons x xs)
  then show ?case by (cases i) auto
qed simp

lemma probes_set_stage [simp]: "probes_of (set_stage i st p) j = probes_of p j"
  by (simp add: probes_of_def filter_update_same)

lemma probes_cong: "pb_items p' = pb_items p \<Longrightarrow> probes_of p' j = probes_of p j"
  by (simp add: probes_of_def)

lemma registered_cong:
  assumes "registered p" and "length (pb_ings p') = length (pb_ings p)" and "length (pb_pods p') = length (pb_pods p)"
    and "\<And>s. s < length (pb_ings p) \<Longrightarrow> igs_todo (pb_ings p' ! s) = igs_todo (pb_ings p ! s) \<and>
      igs_workItems (pb_ings p' ! s) = igs_workItems (pb_ings p ! s)"
    and "\<And>j. j < length (pb_pods p) \<Longrightarrow> pds_ingress (pb_pods p' ! j) = pds_ingress (pb_pods p ! j) \<and>
      pds_ip (pb_pods p' ! j) = pds_ip (pb_pods p ! j)"
    and "\<And>j. probes_of p' j = probes_of p j"
  shows "registered p'"
  using assms unfolding registered_def by metis

lemma registered_step:
  assumes "prober_step hash_of p e p'" and "links p" and "todo_ok p" and "registered p"
  shows "registered p'"
  using assms(1)
proof (cases rule: step_cases)
  case (register key s)
  from registering [OF assms(2,3) register(2,3)] obtain ip rest its where r:
    "s < length (pb_ings p)" "igs_todo (pb_ings p ! s) = ip # rest"
    "fmlookup (igs_workItems (pb_ings p ! s)) ip = Some its" "its \<noteq> []" "distinct rest" "ip \<notin> set rest" .
  have none: "filter (\<lambda>it. wi_podState it = length (pb_pods p)) (pb_items p) = []"
    using assms(2) by (fastforce simp: links_def filter_empty_conv in_set_conv_nth)
  have old: "probes_of p' j = probes_of p j" if "j < length (pb_pods p)" for j
    using that by (simp add: register(4) probes_of_def register_simps [OF r(2,3)] filter_map comp_def)
  have new: "probes_of p' (length (pb_pods p)) = its"
    by (simp add: register(4) probes_of_def register_simps [OF r(2,3)] filter_map comp_def none)
  have kept: "\<exists>j < length (pb_pods p'). pds_ingress (pb_pods p' ! j) = s' \<and> pds_ip (pb_pods p' ! j) = ip' \<and>
      probes_of p' j = its'"
    if "\<exists>j < length (pb_pods p). pds_ingress (pb_pods p ! j) = s' \<and> pds_ip (pb_pods p ! j) = ip' \<and>
      probes_of p j = its'" for s' ip' its'
  proof -
    from that obtain j where "j < length (pb_pods p)" "pds_ingress (pb_pods p ! j) = s'"
      "pds_ip (pb_pods p ! j) = ip'" "probes_of p j = its'" by blast
    then show ?thesis
      by (intro exI [of _ j]) (simp add: old, simp add: register(4) register_simps [OF r(2,3)] nth_append)
  qed
  have own: "\<exists>j < length (pb_pods p'). pds_ingress (pb_pods p' ! j) = s \<and> pds_ip (pb_pods p' ! j) = ip \<and>
      probes_of p' j = its"
    using new by (intro exI [of _ "length (pb_pods p)"]) (simp add: register(4) register_simps [OF r(2,3)])
  show ?thesis
    unfolding registered_def
  proof (intro allI impI)
    fix s' ip' its'
    assume "s' < length (pb_ings p')" and l: "fmlookup (igs_workItems (pb_ings p' ! s')) ip' = Some its'"
    then have "s' < length (pb_ings p)" "fmlookup (igs_workItems (pb_ings p ! s')) ip' = Some its'"
      using r(1) by (auto simp: register(4) register_simps [OF r(2,3)] nth_update split: if_splits)
    with assms(4) have "ip' \<in> set (igs_todo (pb_ings p ! s')) \<or>
        (\<exists>j < length (pb_pods p). pds_ingress (pb_pods p ! j) = s' \<and> pds_ip (pb_pods p ! j) = ip' \<and>
           probes_of p j = its')"
      unfolding registered_def by blast
    then show "ip' \<in> set (igs_todo (pb_ings p' ! s')) \<or>
        (\<exists>j < length (pb_pods p'). pds_ingress (pb_pods p' ! j) = s' \<and> pds_ip (pb_pods p' ! j) = ip' \<and>
           probes_of p' j = its')"
      using kept [of s' ip' its'] own r l
      by (auto simp: register(4) register_simps [OF r(2,3)] nth_update split: if_splits)
  qed
next
  case (list_ok key hash ing order targets)
  with assms(4) show ?thesis
    by (auto simp: registered_def nth_append less_Suc_eq fmlookup_dom_iff probes_of_def)
next
  case (quiet i st q)
  then show ?thesis
    by (intro registered_cong [OF assms(4)]) (auto simp: probes_of_def filter_update_same)
qed (auto intro!: registered_cong [OF assms(4)] simp: nth_update probes_of_def filter_update_same)

section \<open>The ready callback\<close>

definition callbacks_ok :: "prober \<Rightarrow> bool" where
  "callbacks_ok p \<longleftrightarrow> distinct (pb_callbacks p) \<and>
     (\<forall>s \<in> set (pb_callbacks p). s < length (pb_ings p)) \<and>
     (\<forall>s < length (pb_ings p). s \<in> set (pb_callbacks p) \<longleftrightarrow>
        igs_pendingCount (pb_ings p ! s) = 0 \<and> igs_workItems (pb_ings p ! s) \<noteq> fmempty)"

lemma callbacks_start: "callbacks_ok NewProber"
  by (simp add: callbacks_ok_def NewProber_def)

lemma fmap_empty_iff: "fset (fmdom m) = {} \<longleftrightarrow> m = fmempty"
  by (auto simp: fmlookup_dom_iff intro!: fmap_ext)

lemma tell_positive:
  assumes "counted p" and "links p" and "i < length (pb_items p)" and "wi_stage (pb_items p ! i) = PodDone r"
  shows "0 < igs_pendingCount (pb_ings p ! wi_ingressState (pb_items p ! i))"
    and "wi_ingressState (pb_items p ! i) < length (pb_ings p)"
proof -
  show s: "wi_ingressState (pb_items p ! i) < length (pb_ings p)" using assms(2,3) by (auto simp: links_def)
  have "0 < count_of (\<lambda>it. wi_ingressState it = wi_ingressState (pb_items p ! i) \<and> telling (wi_stage it)) (pb_items p)"
    by (rule count_of_positive [OF assms(3)]) (simp add: assms(4))
  then show "0 < igs_pendingCount (pb_ings p ! wi_ingressState (pb_items p ! i))"
    using assms(1) s by (simp add: counted_def outstanding_def) (smt (verit) count_of_simps(3) of_nat_0_le_iff)
qed

lemma tell_cancelled_positive:
  assumes "counted p" and "links p" and "j < length (pb_pods p)" and "pds_canceller (pb_pods p ! j) = Swapped"
  shows "0 < igs_pendingCount (pb_ings p ! pds_ingress (pb_pods p ! j))"
    and "pds_ingress (pb_pods p ! j) < length (pb_ings p)"
proof -
  show s: "pds_ingress (pb_pods p ! j) < length (pb_ings p)" using assms(2,3) by (auto simp: links_def)
  have "0 < count_of (\<lambda>pd. pds_ingress pd = pds_ingress (pb_pods p ! j) \<and> pds_canceller pd = Swapped) (pb_pods p)"
    by (rule count_of_positive [OF assms(3)]) (simp add: assms(4))
  then show "0 < igs_pendingCount (pb_ings p ! pds_ingress (pb_pods p ! j))"
    using assms(1) s by (simp add: counted_def outstanding_def) (smt (verit) count_of_simps(3) of_nat_0_le_iff)
qed

lemma callbacks_dec:
  assumes "callbacks_ok p" and "s < length (pb_ings p)" and "0 < igs_pendingCount (pb_ings p ! s)"
    and "igs_workItems (pb_ings p ! s) \<noteq> fmempty"
  shows "callbacks_ok (dec_ingress s p)"
  using assms by (auto simp: callbacks_ok_def nth_update)

lemma callbacks_cong:
  assumes "callbacks_ok p" and "pb_callbacks p' = pb_callbacks p" and "length (pb_ings p') = length (pb_ings p)"
    and "\<And>s. s < length (pb_ings p) \<Longrightarrow> igs_pendingCount (pb_ings p' ! s) = igs_pendingCount (pb_ings p ! s) \<and>
      igs_workItems (pb_ings p' ! s) = igs_workItems (pb_ings p ! s)"
  shows "callbacks_ok p'"
  using assms by (simp add: callbacks_ok_def)

text \<open>An Ingress state with a pod had something to probe.\<close>

definition listed_pods :: "prober \<Rightarrow> bool" where
  "listed_pods p \<longleftrightarrow>
     (\<forall>j < length (pb_pods p). igs_workItems (pb_ings p ! pds_ingress (pb_pods p ! j)) \<noteq> fmempty)"

lemma listed_pods_start: "listed_pods NewProber"
  by (simp add: listed_pods_def NewProber_def)

lemma listed_pods_step:
  assumes "prober_step hash_of p e p'" and "links p" and "todo_ok p" and "listed_pods p"
  shows "listed_pods p'"
  using assms(1)
proof (cases rule: step_cases)
  case (register key s)
  from registering [OF assms(2,3) register(2,3)] obtain ip rest its where
    "s < length (pb_ings p)" "igs_todo (pb_ings p ! s) = ip # rest"
    "fmlookup (igs_workItems (pb_ings p ! s)) ip = Some its" "its \<noteq> []" "distinct rest" "ip \<notin> set rest" .
  with register(4) assms(4) show ?thesis
    by (auto simp: listed_pods_def register_simps nth_append nth_update split: if_splits)
next
  case (list_ok key hash ing order targets)
  with assms(2,4) show ?thesis by (auto simp: listed_pods_def links_def nth_append)
qed (use assms(4) in \<open>auto simp: listed_pods_def nth_update split: if_splits\<close>)

lemma callbacks_step:
  assumes "prober_step hash_of p e p'" and "links p" and "todo_ok p" and "counted p" and "listed_pods p"
    and "callbacks_ok p"
  shows "callbacks_ok p'"
  using assms(1)
proof (cases rule: step_cases)
  case (register key s)
  from registering [OF assms(2,3) register(2,3)] obtain ip rest its where
    "s < length (pb_ings p)" "igs_todo (pb_ings p ! s) = ip # rest"
    "fmlookup (igs_workItems (pb_ings p ! s)) ip = Some its" "its \<noteq> []" "distinct rest" "ip \<notin> set rest" .
  with register(4) show ?thesis
    by (intro callbacks_cong [OF assms(6)]) (auto simp: register_simps nth_update)
next
  case (list_ok key hash ing order targets)
  from list_ok(4) have "order = [] \<longleftrightarrow> work_items targets = fmempty" using fmap_empty_iff by fastforce
  with list_ok(5) assms(6) show ?thesis
    by (auto simp: callbacks_ok_def nth_append less_Suc_eq)
next
  case (tell i r)
  have "callbacks_ok (set_stage i (Passed r) p)" by (rule callbacks_cong [OF assms(6)]) auto
  moreover have "igs_workItems (pb_ings p ! wi_ingressState (pb_items p ! i)) \<noteq> fmempty"
    using assms(2,5) tell(2) by (auto simp: links_def listed_pods_def)
  ultimately show ?thesis
    using tell_positive [OF assms(4,2) tell(2,3)] tell(4) by (auto intro: callbacks_dec)
next
  case (tell_cancelled j)
  have "callbacks_ok (upd_pod j (\<lambda>pd. pd\<lparr>pds_canceller := Finished\<rparr>) p)"
    by (rule callbacks_cong [OF assms(6)]) auto
  moreover have "igs_workItems (pb_ings p ! pds_ingress (pb_pods p ! j)) \<noteq> fmempty"
    using assms(5) tell_cancelled(2) by (auto simp: listed_pods_def)
  ultimately show ?thesis
    using tell_cancelled_positive [OF assms(4,2) tell_cancelled(2,3)] tell_cancelled(4)
    by (auto intro: callbacks_dec)
qed (use assms(6) in \<open>auto intro!: callbacks_cong [OF assms(6)]\<close>)

section \<open>No probe is lost\<close>

text \<open>An item is dropped only after a shut down or a cancellation; a goroutine ends with its count.\<close>

definition nothing_lost :: "prober \<Rightarrow> bool" where
  "nothing_lost p \<longleftrightarrow>
     (\<forall>i < length (pb_items p). wi_stage (pb_items p ! i) = Dropped \<longrightarrow>
        pb_shutdown p \<or> pod_done p (wi_podState (pb_items p ! i))) \<and>
     (\<forall>j < length (pb_pods p). pds_canceller (pb_pods p ! j) \<in> {Swapped, Finished} \<longrightarrow>
        pds_pendingCount (pb_pods p ! j) \<le> 0) \<and>
     count_of (\<lambda>it. busy (wi_stage it)) (pb_items p) \<le> int probeConcurrency"

lemma nothing_lost_start: "nothing_lost NewProber"
  by (simp add: nothing_lost_def NewProber_def)

lemma count_new_busy [simp]:
  "count_of (\<lambda>it. busy (wi_stage it)) (map (new_item s j ip shut) its) = 0"
  by (auto simp: count_of_def filter_empty_conv)

lemma nothing_lost_step:
  assumes "prober_step hash_of p e p'" and "links p" and "todo_ok p" and "nothing_lost p"
  shows "nothing_lost p'"
  using assms(1)
proof (cases rule: step_cases)
  case (register key s)
  from registering [OF assms(2,3) register(2,3)] obtain ip rest its where
    "s < length (pb_ings p)" "igs_todo (pb_ings p ! s) = ip # rest"
    "fmlookup (igs_workItems (pb_ings p ! s)) ip = Some its" "its \<noteq> []" "distinct rest" "ip \<notin> set rest" .
  with register(4) assms(2,4) show ?thesis
    by (auto simp: nothing_lost_def links_def pod_done_def register_simps nth_append nth_update split: if_splits)
next
  case (list_ok key hash ing order targets)
  with assms(2,4) show ?thesis by (auto simp: nothing_lost_def links_def pod_done_def nth_append)
next
  case (miss ing)
  with assms(2,4) show ?thesis by (auto simp: nothing_lost_def links_def pod_done_def cancel_cancelled)
next
  case (cancel_ingress key)
  with assms(2,4) show ?thesis by (auto simp: nothing_lost_def links_def pod_done_def cancel_cancelled)
next
  case (quiet i st q)
  with assms(4) have "pb_shutdown p \<or> pod_done p (wi_podState (pb_items p ! i))" if "st = Dropped"
    using that by (simp add: quiet_def)
  moreover have "count_of (\<lambda>it. busy (wi_stage it)) (pb_items p') \<le> int probeConcurrency"
    using quiet assms(4) by (auto simp: quiet_def nothing_lost_def count_of_update)
  ultimately show ?thesis
    using quiet assms(4) by (auto simp: nothing_lost_def quiet_def pod_done_def nth_update)
next
  case (dec_pod i r n)
  with assms(2,4) show ?thesis
    by (auto simp: nothing_lost_def links_def pod_done_def nth_update count_of_update split: if_splits)
next
  case (cancel_pod i r)
  with assms(2,4) show ?thesis
    by (auto simp: nothing_lost_def links_def pod_done_def nth_update count_of_update split: if_splits)
next
  case (tell i r)
  with assms(2,4) show ?thesis
    by (auto simp: nothing_lost_def links_def pod_done_def nth_update count_of_update split: if_splits)
qed (use assms(4) in \<open>auto simp: nothing_lost_def pod_done_def nth_update split: if_splits\<close>)

section \<open>The invariant\<close>

definition prober_inv :: "(ingress \<Rightarrow> string) \<Rightarrow> prober \<Rightarrow> bool" where
  "prober_inv hash_of p \<longleftrightarrow> links p \<and> todo_ok p \<and> owners hash_of p \<and> cancellers p \<and> counted p \<and>
     pods_ok p \<and> verified p \<and> registered p \<and> listed_pods p \<and> callbacks_ok p \<and> nothing_lost p"

lemma prober_inv_start: "prober_inv hash_of NewProber"
  by (simp add: prober_inv_def links_start todo_ok_start owners_start cancellers_start counted_start
      pods_ok_start verified_start registered_start listed_pods_start callbacks_start nothing_lost_start)

lemma prober_inv_step: "prober_inv hash_of p \<Longrightarrow> prober_step hash_of p e p' \<Longrightarrow> prober_inv hash_of p'"
  unfolding prober_inv_def
  by (blast intro: links_step todo_ok_step owners_step cancellers_step counted_step pods_ok_step
      verified_step registered_step listed_pods_step callbacks_step nothing_lost_step)

lemma reachable_inv: "reachable hash_of allowed p \<Longrightarrow> prober_inv hash_of p"
  by (induction rule: reachable.induct) (auto intro: prober_inv_start prober_inv_step)


end
