(* ===== verification/ProberLaws.thy ===== *)
theory ProberLaws
  imports ProberInv
begin

text \<open>
  What the status prober promises its callers: an Ingress it calls ready has been probed, the ready
  callback comes exactly once per version, and the probing of a version never gets stuck.
\<close>

section \<open>The work items\<close>

lemma ip_fold_other:
  "ip' \<noteq> ip \<Longrightarrow> fmlookup (fold (add_url ip port) us m) ip' = fmlookup m ip'"
  by (induction us arbitrary: m) (auto simp: add_url_def)

text \<open>The items of an IP: one per URL of each target that names the IP, in order.\<close>

definition items_at :: "(string, (url \<times> string) list) fmap \<Rightarrow> string \<Rightarrow> (url \<times> string) list" where
  "items_at m ip = (case fmlookup m ip of None \<Rightarrow> [] | Some its \<Rightarrow> its)"

lemma items_at_add_url:
  "items_at (add_url ip port u m) ip' = items_at m ip' @ (if ip' = ip then [(u, port)] else [])"
  by (auto simp: items_at_def add_url_def)

lemma items_at_add_urls:
  "items_at (fold (add_url ip port) us m) ip' = items_at m ip' @ (if ip' = ip then map (\<lambda>u. (u, port)) us else [])"
  by (induction us arbitrary: m) (auto simp: items_at_add_url)

lemma items_at_add_ips:
  "distinct ips \<Longrightarrow> items_at (fold (\<lambda>ip. fold (add_url ip port) us) ips m) ip' =
     items_at m ip' @ (if ip' \<in> set ips then map (\<lambda>u. (u, port)) us else [])"
  by (induction ips arbitrary: m) (auto simp: items_at_add_urls)

lemma items_at_add_target:
  "items_at (add_target t m) ip =
     items_at m ip @ (if ip |\<in>| pt_PodIPs t then map (\<lambda>u. (u, pt_PodPort t)) (pt_URLs t) else [])"
  by (simp add: add_target_def items_at_add_ips sorted_list_of_fset.rep_eq)

lemma items_at_work_items:
  "items_at (work_items ts) ip =
     concat (map (\<lambda>t. if ip |\<in>| pt_PodIPs t then map (\<lambda>u. (u, pt_PodPort t)) (pt_URLs t) else []) ts)"
proof -
  have "items_at (fold add_target ts m) ip = items_at m ip @
     concat (map (\<lambda>t. if ip |\<in>| pt_PodIPs t then map (\<lambda>u. (u, pt_PodPort t)) (pt_URLs t) else []) ts)" for m
    by (induction ts arbitrary: m) (auto simp: items_at_add_target)
  then show ?thesis by (simp add: work_items_def items_at_def)
qed

lemma work_items_complete:
  assumes "t \<in> set ts" and "ip |\<in>| pt_PodIPs t" and "u \<in> set (pt_URLs t)"
  obtains its where "fmlookup (work_items ts) ip = Some its" "(u, pt_PodPort t) \<in> set its"
proof -
  have "(u, pt_PodPort t) \<in> set (items_at (work_items ts) ip)"
    using assms by (auto simp: items_at_work_items)
  then show ?thesis using that by (cases "fmlookup (work_items ts) ip") (auto simp: items_at_def)
qed

lemma work_items_empty_iff:
  "work_items ts = fmempty \<longleftrightarrow> (\<forall>t \<in> set ts. pt_PodIPs t = {||} \<or> pt_URLs t = [])"
proof
  assume e: "work_items ts = fmempty"
  show "\<forall>t \<in> set ts. pt_PodIPs t = {||} \<or> pt_URLs t = []"
  proof (rule ccontr)
    assume "\<not> ?thesis"
    then obtain t ip u where "t \<in> set ts" "ip |\<in>| pt_PodIPs t" "u \<in> set (pt_URLs t)"
      by (metis fset_eqI fempty_iff hd_in_set)
    then show False using e by (metis work_items_complete fmempty_lookup option.distinct(1))
  qed
next
  assume none: "\<forall>t \<in> set ts. pt_PodIPs t = {||} \<or> pt_URLs t = []"
  have "items_at (work_items ts) ip = []" for ip
    using none by (auto simp: items_at_work_items)
  then have "fmlookup (work_items ts) ip = None" for ip
    using work_items_nonempty by (fastforce simp: items_at_def split: option.splits)
  then show "work_items ts = fmempty" by (intro fmap_ext) simp
qed

lemma work_items_nonempty_iff:
  "work_items ts \<noteq> fmempty \<longleftrightarrow> (\<exists>t \<in> set ts. pt_PodIPs t \<noteq> {||} \<and> pt_URLs t \<noteq> [])"
  unfolding work_items_empty_iff by blast

section \<open>A ready Ingress was probed\<close>

text \<open>The URL has been probed on the IP for this version, or the pod was given up.\<close>

definition probed_at :: "prober \<Rightarrow> nat \<Rightarrow> string \<Rightarrow> string \<Rightarrow> url \<Rightarrow> bool" where
  "probed_at p s ip port u \<longleftrightarrow>
     (\<exists>it \<in> set (pb_items p). wi_ingressState it = s \<and> wi_podIP it = ip \<and> wi_podPort it = port \<and> wi_url it = u \<and>
        (\<exists>r. verified_answer (wi_stage it) = Some r \<and> probeVerifier (igs_hash (pb_ings p ! s)) r = Inr True))"

definition pod_cancelled_at :: "prober \<Rightarrow> nat \<Rightarrow> string \<Rightarrow> bool" where
  "pod_cancelled_at p s ip \<longleftrightarrow>
     (\<exists>pd \<in> set (pb_pods p). pds_ingress pd = s \<and> pds_ip pd = ip \<and> pb_ctxs p ! pds_ipCtx pd)"

lemma counted_off_answer: "counted_off st \<Longrightarrow> \<exists>r. verified_answer st = Some r"
  by (cases st) auto

lemma settled_pod:
  assumes inv: "prober_inv hash_of p" and s: "s < length (pb_ings p)" and z: "igs_pendingCount (pb_ings p ! s) = 0"
    and j: "j < length (pb_pods p)" "pds_ingress (pb_pods p ! j) = s"
  shows "pds_pendingCount (pb_pods p ! j) \<le> 0" and "off_of p j = items_of p j \<or> excused p j"
proof -
  from inv s z have "outstanding p s = 0" by (auto simp: prober_inv_def counted_def)
  then have "count_of (\<lambda>pd. pds_ingress pd = s \<and> 0 < pds_pendingCount pd) (pb_pods p) = 0"
    unfolding outstanding_def by (smt (verit) count_of_simps(3) of_nat_0_le_iff)
  with j show n: "pds_pendingCount (pb_pods p ! j) \<le> 0"
    by (auto simp: count_of_0_iff all_set_conv_all_nth not_less)
  with inv j show "off_of p j = items_of p j \<or> excused p j"
    by (auto simp: prober_inv_def pods_ok_def pod_ok_def Let_def)
qed

lemma ready_probed:
  assumes inv: "prober_inv hash_of p" and k: "fmlookup (pb_ingressStates p) key = Some s"
    and z: "igs_pendingCount (pb_ings p ! s) = 0"
    and t: "t \<in> set (igs_targets (pb_ings p ! s))" "ip |\<in>| pt_PodIPs t" "u \<in> set (pt_URLs t)"
  shows "probed_at p s ip (pt_PodPort t) u \<or> pod_cancelled_at p s ip"
proof -
  from inv k have s: "s < length (pb_ings p)" and nc: "\<not> igs_cancelled (pb_ings p ! s)"
    and td: "igs_todo (pb_ings p ! s) = []"
    by (auto simp: prober_inv_def links_def owners_def)
  obtain its where its: "fmlookup (igs_workItems (pb_ings p ! s)) ip = Some its" "(u, pt_PodPort t) \<in> set its"
    using work_items_complete [OF t] by (auto simp: igs_workItems_def)
  from inv have "registered p" by (simp add: prober_inv_def)
  with s its(1) td obtain j where j: "j < length (pb_pods p)" "pds_ingress (pb_pods p ! j) = s"
    "pds_ip (pb_pods p ! j) = ip" and pr: "probes_of p j = its"
    unfolding registered_def by (metis empty_iff empty_set)
  from its(2) have "(u, pt_PodPort t) \<in> set (probes_of p j)" by (simp add: pr)
  then obtain it where "it \<in> set (pb_items p)" and it: "wi_podState it = j" "wi_url it = u" "wi_podPort it = pt_PodPort t"
    unfolding probes_of_def by auto
  then obtain i where i: "i < length (pb_items p)" "wi_podState (pb_items p ! i) = j"
    "wi_url (pb_items p ! i) = u" "wi_podPort (pb_items p ! i) = pt_PodPort t"
    by (metis in_set_conv_nth)
  from inv have "links p" by (simp add: prober_inv_def)
  with i(1) have "wi_ingressState (pb_items p ! i) = pds_ingress (pb_pods p ! wi_podState (pb_items p ! i))"
    "wi_podIP (pb_items p ! i) = pds_ip (pb_pods p ! wi_podState (pb_items p ! i))"
    by (simp_all add: links_def)
  with i(2) j have l: "wi_ingressState (pb_items p ! i) = s" "wi_podIP (pb_items p ! i) = ip" by simp_all
  show ?thesis
    using settled_pod(2) [OF inv s z j(1,2)]
  proof
    assume "off_of p j = items_of p j"
    with i have "counted_off (wi_stage (pb_items p ! i))" by (simp add: all_off_iff)
    then obtain r where r: "verified_answer (wi_stage (pb_items p ! i)) = Some r" using counted_off_answer by blast
    with inv i(1) l(1) have "probeVerifier (igs_hash (pb_ings p ! s)) r = Inr True"
      by (auto simp: prober_inv_def verified_def)
    with i l r have "probed_at p s ip (pt_PodPort t) u" unfolding probed_at_def by (metis nth_mem)
    then show ?thesis ..
  next
    assume "excused p j"
    with nc j have "pod_cancelled_at p s ip" unfolding excused_def pod_cancelled_at_def by (metis nth_mem)
    then show ?thesis ..
  qed
qed

definition no_pod_cancelled :: "event \<Rightarrow> bool" where
  "no_pod_cancelled e \<longleftrightarrow> (\<forall>ip. e \<noteq> PodCancelled ip)"

lemma contexts_live:
  "reachable hash_of allowed p \<Longrightarrow> (\<And>e. allowed e \<Longrightarrow> no_pod_cancelled e) \<Longrightarrow> True \<notin> set (pb_ctxs p)"
proof (induction rule: reachable.induct)
  case (step p e p')
  from step.hyps(2) have "True \<notin> set (pb_ctxs p')"
  proof (cases rule: step_cases)
    case (register key s)
    then show ?thesis using step
      by (auto simp: IsReady_register_def ip_context_def Let_def split: list.splits option.splits prod.splits)
  qed (use step in \<open>auto simp: no_pod_cancelled_def\<close>)
  then show ?case .
qed (simp add: NewProber_def)

lemma ready_return:
  assumes "reachable hash_of allowed p" and "prober_step hash_of p (Returns key hash (Inr True)) p'"
  shows "\<exists>s. fmlookup (pb_ingressStates p') key = Some s \<and> igs_hash (pb_ings p' ! s) = hash \<and>
    hash_of (igs_ing (pb_ings p' ! s)) = hash \<and> ingress_key (igs_ing (pb_ings p' ! s)) = key \<and>
    (\<forall>t \<in> set (igs_targets (pb_ings p' ! s)). \<forall>ip \<in> fset (pt_PodIPs t). \<forall>u \<in> set (pt_URLs t).
       probed_at p' s ip (pt_PodPort t) u \<or> pod_cancelled_at p' s ip)"
proof -
  from assms have inv: "prober_inv hash_of p'"
    using reachable_inv prober_inv_step by blast
  from assms(2) obtain s where s: "fmlookup (pb_ingressStates p') key = Some s" "igs_hash (pb_ings p' ! s) = hash"
    and z: "igs_pendingCount (pb_ings p' ! s) = 0 \<or> igs_workItems (pb_ings p' ! s) = fmempty"
    by (cases rule: step_cases) auto
  have own: "hash_of (igs_ing (pb_ings p' ! s)) = hash \<and> ingress_key (igs_ing (pb_ings p' ! s)) = key"
    using inv s unfolding prober_inv_def owners_def links_def by metis
  have "probed_at p' s ip (pt_PodPort t) u \<or> pod_cancelled_at p' s ip"
    if t: "t \<in> set (igs_targets (pb_ings p' ! s))" "ip |\<in>| pt_PodIPs t" "u \<in> set (pt_URLs t)" for t ip u
    using z
  proof
    assume "igs_pendingCount (pb_ings p' ! s) = 0"
    then show ?thesis by (rule ready_probed [OF inv s(1) _ t])
  next
    assume "igs_workItems (pb_ings p' ! s) = fmempty"
    with t show ?thesis by (auto simp: igs_workItems_def work_items_empty_iff)
  qed
  with s own show ?thesis by blast
qed

text \<open>C12. When \<open>IsReady\<close> says that an Ingress is ready, its version is the one on record, and every URL
  of every target has been probed on every pod IP of the target, with an answer that passed the
  verifier for the hash of the Ingress, unless the probing of that IP was cancelled.\<close>

theorem ready_means_probed:
  assumes "reachable hash_of allowed p" and "prober_step hash_of p (Returns key hash (Inr True)) p'"
  shows "\<exists>s. fmlookup (pb_ingressStates p') key = Some s \<and> igs_hash (pb_ings p' ! s) = hash \<and>
    hash_of (igs_ing (pb_ings p' ! s)) = hash \<and> ingress_key (igs_ing (pb_ings p' ! s)) = key \<and>
    (\<forall>t \<in> set (igs_targets (pb_ings p' ! s)). \<forall>ip \<in> fset (pt_PodIPs t). \<forall>u \<in> set (pt_URLs t).
       probed_at p' s ip (pt_PodPort t) u \<or> pod_cancelled_at p' s ip)"
  using ready_return [OF assms] .

text \<open>C10. The ready callback runs exactly when the last outstanding pod of a version is done: for each
  version at most once, never while a pod is outstanding, and never for a version that had nothing
  to probe.\<close>

theorem callback_exact:
  assumes "reachable hash_of allowed p"
  shows "distinct (pb_callbacks p) \<and> set (pb_callbacks p) =
    {s. s < length (pb_ings p) \<and> outstanding p s = 0 \<and>
        (\<exists>t \<in> set (igs_targets (pb_ings p ! s)). pt_PodIPs t \<noteq> {||} \<and> pt_URLs t \<noteq> [])}"
proof -
  have inv: "callbacks_ok p" "counted p" using reachable_inv [OF assms] by (simp_all add: prober_inv_def)
  have "s \<in> set (pb_callbacks p) \<longleftrightarrow> s < length (pb_ings p) \<and> outstanding p s = 0 \<and>
        (\<exists>t \<in> set (igs_targets (pb_ings p ! s)). pt_PodIPs t \<noteq> {||} \<and> pt_URLs t \<noteq> [])" for s
    using inv unfolding callbacks_ok_def counted_def igs_workItems_def work_items_nonempty_iff by metis
  with inv(1) show ?thesis by (auto simp: callbacks_ok_def)
qed


section \<open>Probing settles\<close>

text \<open>
  How far the workers and the goroutines are from done. A step that takes an item off the count of
  its pod may make the goroutine of the pod miss its swap, which the weights pay for.
\<close>

fun stage_weight :: "string \<Rightarrow> stage \<Rightarrow> nat" where
  "stage_weight hash Delayed = 12"
| "stage_weight hash Queued = 11"
| "stage_weight hash Probing = 10"
| "stage_weight hash (Answered a) = (if probe_Do a [probeVerifier hash] = Inr True then 9 else 13)"
| "stage_weight hash (Verified _) = 8"
| "stage_weight hash (LastOfPod _) = 3"
| "stage_weight hash (PodDone _) = 2"
| "stage_weight hash (Passed _) = 0"
| "stage_weight hash Dropped = 0"

definition item_weight :: "prober \<Rightarrow> work_item \<Rightarrow> nat" where
  "item_weight p it = stage_weight (igs_hash (pb_ings p ! wi_ingressState it)) (wi_stage it)"

definition pod_weight :: "pod_state \<Rightarrow> nat" where
  "pod_weight pd =
     (case pds_canceller pd of
        Awaiting \<Rightarrow> 3
      | Loaded n \<Rightarrow> if n = pds_pendingCount pd then 2 else 4
      | Swapped \<Rightarrow> 1
      | Finished \<Rightarrow> 0) + of_bool (\<not> pds_cancelled pd)"

definition work_left :: "prober \<Rightarrow> nat" where
  "work_left p = sum_list (map (item_weight p) (pb_items p)) +
     sum_list (map pod_weight (pb_pods p))"

lemma sum_list_update_nat:
  fixes f :: "'a \<Rightarrow> nat"
  assumes "i < length xs"
  shows "sum_list (map f (xs[i := y])) + f (xs ! i) = sum_list (map f xs) + f y"
proof -
  have "sum_list (map f xs) = sum_list (map f (take i xs @ xs ! i # drop (Suc i) xs))"
    using assms by (simp add: id_take_nth_drop [symmetric])
  with assms show ?thesis by (simp add: upd_conv_take_nth_drop)
qed

lemma item_weight_frame [simp]:
  "item_weight (upd_pod j f p) = item_weight p" "item_weight (set_stage i st p) = item_weight p"
  "item_weight (dec_ingress s p) = item_weight p" "item_weight (p\<lparr>pb_sent := q\<rparr>) = item_weight p"
  by (auto simp: item_weight_def nth_update)

lemma work_left_set_stage:
  "i < length (pb_items p) \<Longrightarrow>
   work_left (set_stage i st p) + item_weight p (pb_items p ! i) =
     work_left p + stage_weight (igs_hash (pb_ings p ! wi_ingressState (pb_items p ! i))) st"
  using sum_list_update_nat [of i "pb_items p" "item_weight p" "(pb_items p ! i)\<lparr>wi_stage := st\<rparr>"]
  by (simp add: work_left_def) (simp add: item_weight_def)

lemma work_left_upd_pod:
  "j < length (pb_pods p) \<Longrightarrow>
   work_left (upd_pod j f p) + pod_weight (pb_pods p ! j) = work_left p + pod_weight (f (pb_pods p ! j))"
  using sum_list_update_nat [of j "pb_pods p" pod_weight "f (pb_pods p ! j)"]
  by (simp add: work_left_def)

lemma work_left_frame [simp]:
  "work_left (p\<lparr>pb_sent := q\<rparr>) = work_left p" "work_left (dec_ingress s p) = work_left p"
  by (simp_all add: work_left_def)

lemma pod_weight_pending: "pod_weight (pd\<lparr>pds_pendingCount := n\<rparr>) \<le> pod_weight pd + 2"
  by (simp add: pod_weight_def split: canceller.splits)

lemma pod_weight_joined: "\<not> pds_cancelled pd \<Longrightarrow> pod_weight (pd\<lparr>pds_cancelled := True\<rparr>) < pod_weight pd"
  by (simp add: pod_weight_def split: canceller.splits)

lemma pod_weight_cancelled: "pod_weight (pd\<lparr>pds_cancelled := True\<rparr>) \<le> pod_weight pd"
  by (simp add: pod_weight_def split: canceller.splits)

text \<open>Nothing is in progress: every item is done with and no goroutine has something to do.\<close>

definition settled :: "prober \<Rightarrow> bool" where
  "settled p \<longleftrightarrow>
     (\<forall>i < length (pb_items p). item_weight p (pb_items p ! i) = 0) \<and>
     (\<forall>j < length (pb_pods p). pds_canceller (pb_pods p ! j) = Finished \<or>
        pds_canceller (pb_pods p ! j) = Awaiting \<and> \<not> pod_done p j)"

text \<open>What the steps of the workers and goroutines leave alone.\<close>

definition same_records :: "prober \<Rightarrow> prober \<Rightarrow> bool" where
  "same_records p p' \<longleftrightarrow> pb_ingressStates p' = pb_ingressStates p \<and> pb_calls p' = pb_calls p \<and>
     pb_shutdown p' = pb_shutdown p \<and> length (pb_ings p') = length (pb_ings p) \<and>
     (\<forall>s < length (pb_ings p). igs_targets (pb_ings p' ! s) = igs_targets (pb_ings p ! s) \<and>
        igs_hash (pb_ings p' ! s) = igs_hash (pb_ings p ! s))"

lemma same_records_refl: "same_records p p"
  by (simp add: same_records_def)

lemma same_records_trans: "same_records p q \<Longrightarrow> same_records q r \<Longrightarrow> same_records p r"
  by (simp add: same_records_def)

lemma same_records_simps [simp]:
  "same_records p (set_stage i st p)" "same_records p (upd_pod j f p)"
  "same_records p ((set_stage i st p)\<lparr>pb_sent := q\<rparr>)"
  "same_records p (set_stage i st (upd_pod j f p))"
  "same_records p (dec_ingress s (set_stage i st p))" "same_records p (dec_ingress s (upd_pod j f p))"
  by (auto simp: same_records_def nth_update)

text \<open>The answer of a gateway that serves the Ingress.\<close>

definition good_answer :: "string \<Rightarrow> probe_response" where
  "good_answer hash = \<lparr>pr_StatusCode = 200, pr_Header = fmupd HashHeaderName hash fmempty\<rparr>"

lemma good_answer_passes: "probe_Do (Inr (good_answer hash)) [probeVerifier hash] = Inr True"
  by (simp add: probe_Do_single probeVerifier_def good_answer_def header_Get_def Let_def)

lemma probe_Do_error: "probe_Do (Inl err) ops \<noteq> Inr ok"
  by (simp add: probe_Do_def)

text \<open>
  The steps of the workers and of the goroutines of a pod, as long as the gateway serves the Ingresses: each
  answer passes the verifier of its version. A goroutine that joins the contexts does so once.
\<close>

inductive works :: "prober \<Rightarrow> prober \<Rightarrow> bool" where
  deliver: "deliver i p = Some p' \<Longrightarrow> works p p'"
| get: "get_item i p = Some p' \<Longrightarrow> works p p'"
| answer: "answer_item i a p = Some p' \<Longrightarrow>
    probe_Do a [probeVerifier (igs_hash (pb_ings p ! wi_ingressState (pb_items p ! i)))] = Inr True \<Longrightarrow> works p p'"
| settle: "settle_item i p = Some p' \<Longrightarrow> works p p'"
| dec_pod: "success_dec_pod i p = Some p' \<Longrightarrow> works p p'"
| cancel_pod: "success_cancel_pod i p = Some p' \<Longrightarrow> works p p'"
| tell_ingress: "success_dec_ingress i p = Some p' \<Longrightarrow> works p p'"
| join: "join_contexts j p = Some p' \<Longrightarrow> \<not> pds_cancelled (pb_pods p ! j) \<Longrightarrow> works p p'"
| load: "cancel_load j p = Some p' \<Longrightarrow> works p p'"
| swap: "cancel_swap j p = Some p' \<Longrightarrow> works p p'"
| tell_cancelled: "cancel_dec_ingress j p = Some p' \<Longrightarrow> works p p'"

lemma works_step: "works p p' \<Longrightarrow> prober_step hash_of p Internal p'"
  by (induction rule: works.induct) (blast intro: prober_step.intros)+

lemma works_records: "works p p' \<Longrightarrow> same_records p p'"
  by (induction rule: works.induct)
    (auto simp: deliver_def get_item_def answer_item_def settle_item_def success_dec_pod_def success_cancel_pod_def
      success_dec_ingress_def join_contexts_def cancel_load_def cancel_swap_def cancel_dec_ingress_def Let_def
      simp del: upd_pod_simps set_stage_simps split: if_splits stage.splits canceller.splits)

text \<open>Each of them brings the prober closer to done.\<close>

lemma works_less:
  assumes "links p" and "works p p'"
  shows "work_left p' < work_left p"
  using assms(2,1)
proof (induction rule: works.induct)
  case (deliver i p p')
  then show ?case
    using work_left_set_stage [of i p Queued] work_left_set_stage [of i p Dropped]
    by (auto simp: deliver_def item_weight_def split: if_splits)
next
  case (get i p p')
  then show ?case using work_left_set_stage [of i p Probing] by (auto simp: get_item_def item_weight_def split: if_splits)
next
  case (answer i a p p')
  then show ?case
    using work_left_set_stage [of i p "Answered a"] by (auto simp: answer_item_def item_weight_def split: if_splits)
next
  case (settle i p p')
  then obtain a where i: "i < length (pb_items p)" and a: "wi_stage (pb_items p ! i) = Answered a"
    and p': "p' = set_stage i (settled_stage p (pb_items p ! i) a) p"
    by (auto simp: settle_item_def split: if_splits stage.splits)
  have "stage_weight hash (settled_stage p (pb_items p ! i) a) < stage_weight hash (Answered a)"
    if "hash = igs_hash (pb_ings p ! wi_ingressState (pb_items p ! i))" for hash
    unfolding settled_stage_def that by (auto simp: probe_Do_error split: sum.splits bool.splits)
  with a have "stage_weight (igs_hash (pb_ings p ! wi_ingressState (pb_items p ! i))) (settled_stage p (pb_items p ! i) a)
      < item_weight p (pb_items p ! i)" by (simp add: item_weight_def)
  then show ?case using work_left_set_stage [OF i, of "settled_stage p (pb_items p ! i) a"] unfolding p' by linarith
next
  case (dec_pod i p p')
  then obtain r where i: "i < length (pb_items p)" and r: "wi_stage (pb_items p ! i) = Verified r"
    by (auto simp: success_dec_pod_def split: if_splits stage.splits)
  define j where "j = wi_podState (pb_items p ! i)"
  define n where "n = pds_pendingCount (pb_pods p ! j) - 1"
  let ?q = "upd_pod j (\<lambda>pd. pd\<lparr>pds_pendingCount := n\<rparr>) p"
  have p': "p' = set_stage i (if n = 0 then LastOfPod r else Passed r) ?q"
    using dec_pod.hyps i r by (simp add: success_dec_pod_def j_def n_def Let_def)
  have "j < length (pb_pods p)" using dec_pod.prems i by (simp add: links_def j_def)
  then show ?case
    using work_left_set_stage [of i ?q "if n = 0 then LastOfPod r else Passed r"] i r
      work_left_upd_pod [of j p "\<lambda>pd. pd\<lparr>pds_pendingCount := n\<rparr>"] pod_weight_pending [of n "pb_pods p ! j"]
    unfolding p' by (auto simp: item_weight_def split: if_splits)
next
  case (cancel_pod i p p')
  then obtain r where i: "i < length (pb_items p)" and r: "wi_stage (pb_items p ! i) = LastOfPod r"
    by (auto simp: success_cancel_pod_def split: if_splits stage.splits)
  define j where "j = wi_podState (pb_items p ! i)"
  let ?q = "upd_pod j (\<lambda>pd. pd\<lparr>pds_cancelled := True\<rparr>) p"
  have "p' = set_stage i (PodDone r) ?q" using cancel_pod.hyps i r by (simp add: success_cancel_pod_def j_def)
  moreover have "j < length (pb_pods p)" using cancel_pod.prems i by (simp add: links_def j_def)
  ultimately show ?case
    using work_left_set_stage [of i ?q "PodDone r"] i r pod_weight_cancelled [of "pb_pods p ! j"]
      work_left_upd_pod [of j p "\<lambda>pd. pd\<lparr>pds_cancelled := True\<rparr>"]
    by (auto simp: item_weight_def)
next
  case (tell_ingress i p p')
  then obtain r where i: "i < length (pb_items p)" and r: "wi_stage (pb_items p ! i) = PodDone r"
    and p': "p' = dec_ingress (wi_ingressState (pb_items p ! i)) (set_stage i (Passed r) p)"
    by (auto simp: success_dec_ingress_def split: if_splits stage.splits)
  show ?case using work_left_set_stage [OF i, of "Passed r"] r by (simp add: p' item_weight_def)
next
  case (join j p p')
  then show ?case
    using work_left_upd_pod [of j p "\<lambda>pd. pd\<lparr>pds_cancelled := True\<rparr>"] pod_weight_joined [of "pb_pods p ! j"]
    by (auto simp: join_contexts_def split: if_splits)
next
  case (load j p p')
  let ?n = "pds_pendingCount (pb_pods p ! j)"
  let ?f = "\<lambda>pd. pd\<lparr>pds_canceller := (if ?n \<le> 0 then Finished else Loaded ?n)\<rparr>"
  from load have j: "j < length (pb_pods p)" "pds_canceller (pb_pods p ! j) = Awaiting" and p': "p' = upd_pod j ?f p"
    by (auto simp: cancel_load_def Let_def split: if_splits)
  show ?case using work_left_upd_pod [OF j(1), of ?f] j(2) unfolding p' by (auto simp: pod_weight_def split: if_splits)
next
  case (swap j p p')
  then obtain n where j: "j < length (pb_pods p)" "pds_canceller (pb_pods p ! j) = Loaded n"
    by (auto simp: cancel_swap_def split: if_splits canceller.splits)
  let ?f = "\<lambda>pd. if pds_pendingCount pd = n then pd\<lparr>pds_pendingCount := 0, pds_canceller := Swapped\<rparr>
                else pd\<lparr>pds_canceller := Awaiting\<rparr>"
  have p': "p' = upd_pod j ?f p" using swap.hyps j by (simp add: cancel_swap_def)
  show ?case using work_left_upd_pod [OF j(1), of ?f] j(2) unfolding p' by (auto simp: pod_weight_def split: if_splits)
next
  case (tell_cancelled j p p')
  let ?f = "\<lambda>pd. pd\<lparr>pds_canceller := Finished\<rparr>"
  from tell_cancelled have j: "j < length (pb_pods p)" "pds_canceller (pb_pods p ! j) = Swapped"
    and p': "p' = dec_ingress (pds_ingress (pb_pods p ! j)) (upd_pod j ?f p)"
    by (auto simp: cancel_dec_ingress_def split: if_splits)
  show ?case using work_left_upd_pod [OF j(1), of ?f] j(2) unfolding p' by (simp add: pod_weight_def)
qed

definition closer :: "(ingress \<Rightarrow> string) \<Rightarrow> prober \<Rightarrow> prober \<Rightarrow> bool" where
  "closer hash_of p p' \<longleftrightarrow>
     prober_step hash_of p Internal p' \<and> work_left p' < work_left p \<and> same_records p p'"

lemma works_closer: "links p \<Longrightarrow> works p p' \<Longrightarrow> closer hash_of p p'"
  by (simp add: closer_def works_step works_less works_records)

text \<open>As long as something is in progress, there is such a step: a worker goes on with its item, one more item is
  taken, or a goroutine goes on.\<close>

lemma busy_works:
  assumes i: "i < length (pb_items p)" and b: "busy (wi_stage (pb_items p ! i))"
  shows "\<exists>p'. works p p'"
proof (cases "wi_stage (pb_items p ! i)")
  case Probing
  let ?a = "Inr (good_answer (igs_hash (pb_ings p ! wi_ingressState (pb_items p ! i))))"
  have "answer_item i ?a p = Some (set_stage i (Answered ?a) p)" using i Probing by (simp add: answer_item_def)
  then show ?thesis using works.answer good_answer_passes by blast
next
  case (Answered a)
  then have "\<exists>p'. settle_item i p = Some p'" using i by (simp add: settle_item_def)
  then show ?thesis using works.settle by blast
next
  case (Verified r)
  then have "\<exists>p'. success_dec_pod i p = Some p'" using i by (simp add: success_dec_pod_def Let_def)
  then show ?thesis using works.dec_pod by blast
next
  case (LastOfPod r)
  then have "\<exists>p'. success_cancel_pod i p = Some p'" using i by (simp add: success_cancel_pod_def)
  then show ?thesis using works.cancel_pod by blast
next
  case (PodDone r)
  then have "\<exists>p'. success_dec_ingress i p = Some p'" using i by (simp add: success_dec_ingress_def)
  then show ?thesis using works.tell_ingress by blast
qed (use b in auto)

lemma idle_works:
  assumes idle: "\<And>i. i < length (pb_items p) \<Longrightarrow> \<not> busy (wi_stage (pb_items p ! i))"
    and i: "i < length (pb_items p)" and d: "item_weight p (pb_items p ! i) \<noteq> 0"
  shows "\<exists>p'. works p p'"
proof (cases "wi_stage (pb_items p ! i)")
  case Delayed
  then have "\<exists>p'. deliver i p = Some p'" using i by (simp add: deliver_def)
  then show ?thesis using works.deliver by blast
next
  case Queued
  have "filter (\<lambda>it. busy (wi_stage it)) (pb_items p) = []"
    using idle by (auto simp: filter_empty_conv all_set_conv_all_nth)
  then have "\<exists>p'. get_item i p = Some p'" using i Queued by (simp add: get_item_def probeConcurrency_def)
  then show ?thesis using works.get by blast
qed (use idle [OF i] d in \<open>auto simp: item_weight_def\<close>)

lemma goroutine_works:
  assumes j: "j < length (pb_pods p)" and a: "pds_canceller (pb_pods p ! j) \<noteq> Finished"
    "pds_canceller (pb_pods p ! j) = Awaiting \<longrightarrow> pod_done p j"
  shows "\<exists>p'. works p p'"
proof (cases "pds_canceller (pb_pods p ! j)")
  case Awaiting
  then have "\<exists>p'. cancel_load j p = Some p'" using j a(2) by (simp add: cancel_load_def Let_def)
  then show ?thesis using works.load by blast
next
  case (Loaded n)
  then have "\<exists>p'. cancel_swap j p = Some p'" using j by (simp add: cancel_swap_def)
  then show ?thesis using works.swap by blast
next
  case Swapped
  then have "\<exists>p'. cancel_dec_ingress j p = Some p'" using j by (simp add: cancel_dec_ingress_def)
  then show ?thesis using works.tell_cancelled by blast
qed (use a in simp)

lemma works_progress: "\<not> settled p \<Longrightarrow> \<exists>p'. works p p'"
  using busy_works idle_works goroutine_works unfolding settled_def by blast

lemma progress:
  assumes "links p" and "\<not> settled p"
  shows "\<exists>p'. closer hash_of p p'"
  using works_progress [OF assms(2)] works_closer [OF assms(1)] by blast

lemma settles:
  "prober_inv hash_of p \<Longrightarrow> \<not> pb_shutdown p \<Longrightarrow>
   \<exists>p'. (closer hash_of)\<^sup>*\<^sup>* p p' \<and> same_records p p' \<and> settled p' \<and> prober_inv hash_of p'"
proof (induction "work_left p" arbitrary: p rule: less_induct)
  case less
  show ?case
  proof (cases "settled p")
    case True
    with less.prems same_records_refl show ?thesis by blast
  next
    case False
    from progress [OF _ False] less.prems(1) obtain q where q: "closer hash_of p q"
      by (auto simp: prober_inv_def)
    then have "prober_inv hash_of q" "\<not> pb_shutdown q"
      using less.prems prober_inv_step by (auto simp: closer_def same_records_def)
    with less.hyps [of q] q obtain p' where
      "(closer hash_of)\<^sup>*\<^sup>* q p'" "same_records q p'" "settled p'" "prober_inv hash_of p'"
      by (auto simp: closer_def)
    moreover have "same_records p q" using q by (simp add: closer_def)
    ultimately show ?thesis
      using q by (intro exI [of _ p']) (auto intro: converse_rtranclp_into_rtranclp same_records_trans)
  qed
qed

text \<open>In a settled state no version on record is pending.\<close>

lemma item_weight_0: "item_weight p it = 0 \<Longrightarrow> \<not> counted_off (wi_stage it) \<Longrightarrow> wi_stage it = Dropped"
  by (cases "wi_stage it") (auto simp: item_weight_def split: if_splits)

lemma settled_not_telling: "item_weight p it = 0 \<Longrightarrow> \<not> telling (wi_stage it)"
  by (cases "wi_stage it") (auto simp: item_weight_def)

lemma settled_ready:
  assumes inv: "prober_inv hash_of p" and st: "settled p" and "\<not> pb_shutdown p"
    and s: "s < length (pb_ings p)" and td: "igs_todo (pb_ings p ! s) = []"
  shows "igs_pendingCount (pb_ings p ! s) = 0"
proof -
  from inv have c: "igs_pendingCount (pb_ings p ! s) = outstanding p s" and lost: "nothing_lost p"
    and pods: "pods_ok p" and l: "links p"
    using s by (auto simp: prober_inv_def counted_def)
  have pos: "pds_pendingCount (pb_pods p ! j) \<le> 0" if j: "j < length (pb_pods p)" for j
  proof (rule ccontr)
    assume n: "\<not> ?thesis"
    with pods j have "off_of p j \<noteq> items_of p j" by (auto simp: pods_ok_def pod_ok_def Let_def)
    then obtain i where i: "i < length (pb_items p)" "wi_podState (pb_items p ! i) = j"
      "\<not> counted_off (wi_stage (pb_items p ! i))" by (auto simp: all_off_iff)
    with st item_weight_0 have "wi_stage (pb_items p ! i) = Dropped" by (auto simp: settled_def)
    with lost i assms(3) have "pod_done p j" by (auto simp: nothing_lost_def)
    with st j have "pds_canceller (pb_pods p ! j) = Finished" by (auto simp: settled_def)
    with lost j n show False by (auto simp: nothing_lost_def)
  qed
  have "count_of (\<lambda>pd. pds_ingress pd = s \<and> 0 < pds_pendingCount pd) (pb_pods p) = 0"
    using pos by (force simp: count_of_0_iff all_set_conv_all_nth)
  moreover have "count_of (\<lambda>pd. pds_ingress pd = s \<and> pds_canceller pd = Swapped) (pb_pods p) = 0"
    using st by (force simp: count_of_0_iff all_set_conv_all_nth settled_def)
  moreover have "count_of (\<lambda>it. wi_ingressState it = s \<and> telling (wi_stage it)) (pb_items p) = 0"
    using st settled_not_telling by (force simp: count_of_0_iff all_set_conv_all_nth settled_def)
  ultimately show ?thesis by (simp add: c outstanding_def td)
qed

lemma settled_records_ready:
  assumes "prober_inv hash_of p'" and "settled p'" and "same_records p p'" and "\<not> pb_shutdown p"
    and "fmlookup (pb_ingressStates p) key = Some s"
  shows "igs_pendingCount (pb_ings p' ! s) = 0"
proof (rule settled_ready [OF assms(1,2)])
  show "\<not> pb_shutdown p'" using assms(3,4) by (simp add: same_records_def)
  from assms(3,5) have "fmlookup (pb_ingressStates p') key = Some s" by (simp add: same_records_def)
  with assms(1) show "s < length (pb_ings p')" "igs_todo (pb_ings p' ! s) = []"
    by (auto simp: prober_inv_def links_def owners_def)
qed

text \<open>With a gateway that answers with the right hash, every version on record becomes ready.\<close>

lemma settles_ready:
  assumes "prober_inv hash_of p" and "\<not> pb_shutdown p"
  shows "\<exists>p'. (closer hash_of)\<^sup>*\<^sup>* p p' \<and> same_records p p' \<and> prober_inv hash_of p' \<and>
    (\<forall>key s. fmlookup (pb_ingressStates p) key = Some s \<longrightarrow> igs_pendingCount (pb_ings p' ! s) = 0)"
  using settles [OF assms] settled_records_ready assms(2) by blast

lemma works_inv: "works p p' \<Longrightarrow> prober_inv hash_of p \<Longrightarrow> prober_inv hash_of p'"
  using prober_inv_step works_step by blast

lemma works_run: "works\<^sup>*\<^sup>* p p' \<Longrightarrow> prober_inv hash_of p \<Longrightarrow> prober_inv hash_of p' \<and> same_records p p'"
  by (induction rule: rtranclp_induct) (auto intro: works_inv works_records same_records_refl same_records_trans)

lemma works_end: "prober_inv hash_of p \<Longrightarrow> \<exists>p'. works\<^sup>*\<^sup>* p p' \<and> (\<nexists>p''. works p' p'')"
proof (induction "work_left p" arbitrary: p rule: less_induct)
  case less
  show ?case
  proof (cases "\<exists>q. works p q")
    case True
    then obtain q where q: "works p q" by blast
    then have "work_left q < work_left p" using works_less less.prems by (auto simp: prober_inv_def)
    with less.hyps works_inv [OF q less.prems] q show ?thesis by (meson converse_rtranclp_into_rtranclp)
  qed blast
qed

lemma works_bounded: "(works ^^ n) p p' \<Longrightarrow> prober_inv hash_of p \<Longrightarrow> n + work_left p' \<le> work_left p"
proof (induction n arbitrary: p')
  case (Suc n)
  then obtain q where q: "(works ^^ n) p q" "works q p'" by auto
  then have "links q" using works_run relpowp_imp_rtranclp Suc.prems(2) unfolding prober_inv_def by metis
  with works_less q Suc show ?case by fastforce
qed simp

text \<open>C11. Probing terminates. From every reachable state, while the gateway serves the Ingresses, the workers and the
  goroutines make at most as many steps as there is work left, in whatever order they are scheduled; and when
  none of them has a step to make, with the queue open, every version on record is ready and none has been
  replaced.\<close>

theorem probing_terminates:
  assumes "reachable hash_of allowed p"
  shows "(\<forall>n p'. (works ^^ n) p p' \<longrightarrow> n \<le> work_left p) \<and>
    (\<forall>p'. works\<^sup>*\<^sup>* p p' \<longrightarrow> (\<nexists>p''. works p' p'') \<longrightarrow> \<not> pb_shutdown p \<longrightarrow> same_records p p' \<and>
       (\<forall>key s. fmlookup (pb_ingressStates p) key = Some s \<longrightarrow> igs_pendingCount (pb_ings p' ! s) = 0))"
proof (intro conjI allI impI)
  fix n p' assume "(works ^^ n) p p'"
  from works_bounded [OF this reachable_inv [OF assms]] show "n \<le> work_left p" by simp
next
  fix p' assume run: "works\<^sup>*\<^sup>* p p'" and stuck: "\<nexists>p''. works p' p''" and down: "\<not> pb_shutdown p"
  note W = works_run [OF run reachable_inv [OF assms]]
  then show "same_records p p'" by simp
  fix key s assume "fmlookup (pb_ingressStates p) key = Some s"
  then show "igs_pendingCount (pb_ings p' ! s) = 0"
    using settled_records_ready [OF _ _ _ down] W works_progress stuck by blast
qed

section \<open>A call without interruption\<close>

definition prober_steps :: "(ingress \<Rightarrow> string) \<Rightarrow> prober \<Rightarrow> prober \<Rightarrow> bool" where
  "prober_steps hash_of = (\<lambda>q q'. prober_step hash_of q Internal q')\<^sup>*\<^sup>*"

lemma prober_steps_inv: "prober_steps hash_of p p' \<Longrightarrow> prober_inv hash_of p \<Longrightarrow> prober_inv hash_of p'"
  unfolding prober_steps_def by (induction rule: rtranclp_induct) (auto intro: prober_inv_step)

lemma prober_steps_reachable:
  "prober_steps hash_of p p' \<Longrightarrow> reachable hash_of allowed p \<Longrightarrow> allowed Internal \<Longrightarrow> reachable hash_of allowed p'"
  unfolding prober_steps_def by (induction rule: rtranclp_induct) (auto intro: reachable.step)

lemma prober_steps_trans [trans]: "prober_steps hash_of p q \<Longrightarrow> prober_steps hash_of q r \<Longrightarrow> prober_steps hash_of p r"
  unfolding prober_steps_def by (rule rtranclp_trans)

lemma prober_steps_one: "prober_step hash_of p Internal q \<Longrightarrow> prober_steps hash_of p q"
  unfolding prober_steps_def by (rule r_into_rtranclp)

text \<open>Registering the IPs of a call one after the other.\<close>

lemma register_all:
  assumes "prober_inv hash_of p" and "fmlookup (pb_calls p) key = Some (Registering s)"
    and "igs_todo (pb_ings p ! s) = ips"
  shows "prober_steps hash_of p (fold (\<lambda>_. IsReady_register s) ips p) \<and>
    fmlookup (pb_calls (fold (\<lambda>_. IsReady_register s) ips p)) key = Some (Registering s) \<and>
    igs_todo (pb_ings (fold (\<lambda>_. IsReady_register s) ips p) ! s) = [] \<and>
    igs_hash (pb_ings (fold (\<lambda>_. IsReady_register s) ips p) ! s) = igs_hash (pb_ings p ! s)"
  using assms
proof (induction ips arbitrary: p)
  case Nil
  then show ?case by (simp add: prober_steps_def)
next
  case (Cons ip rest)
  let ?q = "IsReady_register s p"
  have step: "prober_step hash_of p Internal ?q" using Cons.prems by (intro prober_step.register_ip) auto
  have "links p" "todo_ok p" using Cons.prems(1) by (simp_all add: prober_inv_def)
  from registering [OF this Cons.prems(2)] Cons.prems(3) obtain its where
    r: "s < length (pb_ings p)" "fmlookup (igs_workItems (pb_ings p ! s)) ip = Some its" by auto
  have "prober_inv hash_of ?q" using Cons.prems(1) step by (rule prober_inv_step)
  moreover have "fmlookup (pb_calls ?q) key = Some (Registering s)" "igs_todo (pb_ings ?q ! s) = rest"
    "igs_hash (pb_ings ?q ! s) = igs_hash (pb_ings p ! s)"
    using Cons.prems r by (simp_all add: register_simps)
  ultimately show ?case using Cons.IH [of ?q] prober_steps_one [OF step] by (auto intro: prober_steps_trans)
qed

lemma fmupd_twice: "fmupd k a (fmupd k b m) = fmupd k a m"
  by (rule fmap_ext) simp

lemma fmdrop_fmupd_fresh: "fmlookup m k = None \<Longrightarrow> fmdrop k (fmupd k a m) = m"
  by (rule fmap_ext) auto

text \<open>
  \<open>IsReady\<close> without interruption is one run of the step relation that ends with its return, so what
  holds of all runs holds of it.
\<close>

definition hex_hash :: "(ingress_spec \<Rightarrow> error + string) \<Rightarrow> (string \<Rightarrow> string) \<Rightarrow> ingress \<Rightarrow> string" where
  "hex_hash marshal sha256 ing =
     (case ComputeHash marshal sha256 ing of Inl err \<Rightarrow> '''' | Inr bytes \<Rightarrow> hex_string bytes)"

lemma IsReady_lookup_calls: "IsReady_lookup key h p = (r, p1) \<Longrightarrow> pb_calls p1 = pb_calls p"
  by (auto simp: IsReady_lookup_def split: option.splits if_splits)

lemma IsReady_runs:
  assumes inv: "prober_inv (hex_hash marshal sha256) p" and free: "fmlookup (pb_calls p) (ingress_key ing) = None"
    and run: "IsReady marshal sha256 list_targets ing p = (r, p')"
    and h: "ComputeHash marshal sha256 ing = Inr bytes"
  shows "\<exists>q. prober_steps (hex_hash marshal sha256) p q \<and>
    prober_step (hex_hash marshal sha256) q (Returns (ingress_key ing) (hex_string bytes) r) p'"
proof -
  let ?H = "hex_hash marshal sha256" and ?k = "ingress_key ing" and ?h = "hex_string bytes"
  have hh: "?H ing = ?h" by (simp add: hex_hash_def h)
  obtain lk p1 where lk: "IsReady_lookup ?k ?h p = (lk, p1)" by (cases "IsReady_lookup ?k ?h p")
  note runs = run [unfolded IsReady_def Let_def ingress_key_def [symmetric] h]
  show ?thesis
  proof (cases lk)
    case (Some ready)
    with runs lk have "r = Inr ready" "p' = p1" by simp_all
    with lk Some free hh have "prober_step ?H p (Returns ?k ?h r) p'"
      by (metis prober_step.lookup_hit)
    then show ?thesis by (intro exI [of _ p]) (simp add: prober_steps_def)
  next
    case None
    let ?q1 = "p1\<lparr>pb_calls := fmupd ?k (Listing ?h ing) (pb_calls p1)\<rparr>"
    have c1: "pb_calls p1 = pb_calls p" by (rule IsReady_lookup_calls [OF lk])
    have s1: "prober_step ?H p Internal ?q1"
      using prober_step.lookup_miss [of p ing ?H p1] free lk None hh by simp
    show ?thesis
    proof (cases "list_targets ing")
      case (Inl err)
      with runs lk None have "r = Inl err" "p' = p1" by simp_all
      moreover have "prober_step ?H ?q1 (Returns ?k ?h (Inl err)) (?q1\<lparr>pb_calls := fmdrop ?k (pb_calls ?q1)\<rparr>)"
        by (rule prober_step.list_error [where ing = ing]) simp
      moreover have "?q1\<lparr>pb_calls := fmdrop ?k (pb_calls ?q1)\<rparr> = p1"
        using free by (simp add: c1 fmdrop_fmupd_fresh)
      ultimately show ?thesis using prober_steps_one [OF s1] by metis
    next
      case (Inr targets)
      let ?order = "sorted_list_of_fset (fmdom (work_items targets))"
      let ?s = "length (pb_ings p1)"
      let ?q2 = "IsReady_listed ?k ?h ing targets ?order p1"
      let ?q3 = "fold (\<lambda>_. IsReady_register ?s) ?order ?q2"
      have eq: "?q2 = IsReady_listed ?k ?h ing targets ?order ?q1"
        by (simp add: IsReady_listed_def fmupd_twice)
      have "prober_step ?H ?q1 Internal (IsReady_listed ?k ?h ing targets ?order ?q1)"
        by (rule prober_step.list_ok) (simp_all add: sorted_list_of_fset.rep_eq)
      then have s2: "prober_step ?H ?q1 Internal ?q2" by (simp only: eq)
      have inv2: "prober_inv ?H ?q2" using inv s1 s2 prober_inv_step by blast
      have all: "prober_steps ?H ?q2 ?q3" "fmlookup (pb_calls ?q3) ?k = Some (Registering ?s)"
        "igs_todo (pb_ings ?q3 ! ?s) = []" "igs_hash (pb_ings ?q3 ! ?s) = ?h"
        using register_all [OF inv2, of ?k ?s ?order] by simp_all
      obtain ready p4 where pub: "IsReady_publish ?k ?s ?q3 = (ready, p4)" by (cases "IsReady_publish ?k ?s ?q3")
      with runs lk None Inr have "r = Inr ready" "p' = p4" by simp_all
      with prober_step.publish [OF all(2,3) pub, of ?H] all(4) have "prober_step ?H ?q3 (Returns ?k ?h r) p'" by simp
      moreover have "prober_steps ?H p ?q3"
        using prober_steps_one [OF s1] prober_steps_one [OF s2] all(1) by (blast intro: prober_steps_trans)
      ultimately show ?thesis by blast
    qed
  qed
qed

section \<open>A small run\<close>

definition lone_target :: probe_target where
  "lone_target = \<lparr>pt_PodIPs = {|''10.0.0.1''|}, pt_PodPort = ''8080'', pt_Port = '''',
     pt_URLs = [\<lparr>u_Scheme = ''http'', u_Host = ''a'', u_Path = ''/''\<rparr>]\<rparr>"

abbreviation lone_marshal :: "ingress_spec \<Rightarrow> error + string" where
  "lone_marshal \<equiv> \<lambda>_. Inr ''x''"

definition lone_ready :: "prober \<Rightarrow> (error + bool) \<times> prober" where
  "lone_ready = IsReady lone_marshal (\<lambda>_. ''A'') (\<lambda>_. Inr [lone_target]) small_ingress"

definition lone_hash :: "ingress \<Rightarrow> string" where
  "lone_hash = hex_hash lone_marshal (\<lambda>_. ''A'')"

text \<open>One item, from its delay to the end of its probe.\<close>

definition probe_once :: "nat \<Rightarrow> error + probe_response \<Rightarrow> prober \<Rightarrow> prober option" where
  "probe_once i a p =
     do { p1 \<leftarrow> deliver i p; p2 \<leftarrow> get_item i p1; p3 \<leftarrow> answer_item i a p2; p4 \<leftarrow> settle_item i p3;
          p5 \<leftarrow> success_dec_pod i p4; p6 \<leftarrow> success_cancel_pod i p5; success_dec_ingress i p6 }"

lemma probe_once_steps:
  assumes "probe_once i a p = Some p'"
  shows "prober_steps hash_of p p'"
proof -
  from assms obtain p1 p2 p3 p4 p5 p6 where
    "deliver i p = Some p1" "get_item i p1 = Some p2" "answer_item i a p2 = Some p3" "settle_item i p3 = Some p4"
    "success_dec_pod i p4 = Some p5" "success_cancel_pod i p5 = Some p6" "success_dec_ingress i p6 = Some p'"
    unfolding probe_once_def by (auto split: bind_splits)
  then show ?thesis
    by (meson prober_steps_trans prober_steps_one prober_step.deliver prober_step.get prober_step.answer
        prober_step.settle prober_step.dec_pod prober_step.cancel_pod prober_step.tell_ingress)
qed

definition lone_prober :: prober where
  "lone_prober = snd (lone_ready NewProber)"

definition probed_prober :: "prober option" where
  "probed_prober = probe_once 0 (Inr \<lparr>pr_StatusCode = 200, pr_Header = fmupd HashHeaderName ''41'' fmempty\<rparr>) lone_prober"

lemma lone_first: "fst (lone_ready NewProber) = Inr False"
  by code_simp

lemma lone_second: "map_option (\<lambda>p. (fst (lone_ready p), pb_callbacks p)) probed_prober = Some (Inr True, [0])"
  by code_simp

lemma IsReady_reachable:
  assumes "reachable (hex_hash marshal sha256) allowed p" and "\<And>e. no_pod_cancelled e \<Longrightarrow> allowed e"
    and "fmlookup (pb_calls p) (ingress_key ing) = None"
    and "IsReady marshal sha256 list_targets ing p = (r, p')" and "ComputeHash marshal sha256 ing = Inr bytes"
  shows "reachable (hex_hash marshal sha256) allowed p'"
proof -
  from IsReady_runs [OF reachable_inv [OF assms(1)] assms(3,4,5)] obtain q where
    "prober_steps (hex_hash marshal sha256) p q"
    "prober_step (hex_hash marshal sha256) q (Returns (ingress_key ing) (hex_string bytes) r) p'" by blast
  with prober_steps_reachable [OF _ assms(1)] show ?thesis
    by (metis assms(2) event.distinct no_pod_cancelled_def reachable.step)
qed

lemma lone_reachable: "reachable lone_hash (\<lambda>_. True) lone_prober"
proof -
  have c0: "fmlookup (pb_calls NewProber) (ingress_key small_ingress) = None" by (simp add: NewProber_def)
  have start: "IsReady lone_marshal (\<lambda>_. ''A'') (\<lambda>_. Inr [lone_target]) small_ingress NewProber = (Inr False, lone_prober)"
    using lone_first by (simp add: lone_ready_def lone_prober_def prod_eq_iff)
  have h: "ComputeHash lone_marshal (\<lambda>_. ''A'') small_ingress = Inr ''A''" by (simp add: ComputeHash_def)
  from IsReady_reachable [OF reachable.start _ c0 start h, of "\<lambda>_. True"] show ?thesis by (simp add: lone_hash_def)
qed

lemma lone_probed:
  obtains p where "probed_prober = Some p" "fst (lone_ready p) = Inr True" "pb_callbacks p = [0]"
    "reachable lone_hash (\<lambda>_. True) p" "fmlookup (pb_calls p) (ingress_key small_ingress) = None"
proof -
  from lone_second obtain p where p: "probed_prober = Some p" "fst (lone_ready p) = Inr True" "pb_callbacks p = [0]"
    by auto
  have "prober_steps lone_hash lone_prober p"
    by (rule probe_once_steps) (use p(1) in \<open>simp add: probed_prober_def\<close>)
  then have "reachable lone_hash (\<lambda>_. True) p" using lone_reachable by (rule prober_steps_reachable) simp
  moreover have "map_option (\<lambda>p. fmlookup (pb_calls p) (ingress_key small_ingress)) probed_prober = Some None"
    by code_simp
  then have "fmlookup (pb_calls p) (ingress_key small_ingress) = None" unfolding p(1) by simp
  ultimately show ?thesis using p by (intro that [of p]) auto
qed

theorem ready_means_probed_witness:
  "\<exists>p p' s. prober_step lone_hash p (Returns (ingress_key small_ingress) ''41'' (Inr True)) p' \<and>
     fmlookup (pb_ingressStates p') (ingress_key small_ingress) = Some s \<and> igs_hash (pb_ings p' ! s) = ''41''"
proof -
  obtain p where p: "fst (lone_ready p) = Inr True" "reachable lone_hash (\<lambda>_. True) p"
    "fmlookup (pb_calls p) (ingress_key small_ingress) = None" by (rule lone_probed)
  obtain p' where run: "IsReady lone_marshal (\<lambda>_. ''A'') (\<lambda>_. Inr [lone_target]) small_ingress p = (Inr True, p')"
    using p(1) by (cases "lone_ready p") (simp add: lone_ready_def)
  have h: "ComputeHash lone_marshal (\<lambda>_. ''A'') small_ingress = Inr ''A''" by (simp add: ComputeHash_def)
  have inv: "prober_inv (hex_hash lone_marshal (\<lambda>_. ''A'')) p"
    using reachable_inv [OF p(2)] by (simp add: lone_hash_def)
  from IsReady_runs [OF inv p(3) run h] obtain q where q: "prober_steps lone_hash p q"
    "prober_step lone_hash q (Returns (ingress_key small_ingress) (hex_string ''A'') (Inr True)) p'"
    by (auto simp: lone_hash_def)
  have "reachable lone_hash (\<lambda>_. True) q" using q(1) p(2) by (rule prober_steps_reachable) simp
  moreover have "hex_string ''A'' = ''41''" by code_simp
  ultimately show ?thesis using ready_means_probed [of lone_hash "\<lambda>_. True" q _ _ p'] q(2) by fastforce
qed

theorem callback_exact_witness:
  "\<exists>p. reachable lone_hash (\<lambda>_. True) p \<and> pb_callbacks p = [0] \<and> outstanding p 0 = 0"
proof -
  obtain p where p: "pb_callbacks p = [0]" "reachable lone_hash (\<lambda>_. True) p" by (rule lone_probed)
  from callback_exact [OF p(2)] p show ?thesis by (auto simp: set_eq_iff)
qed


theorem probing_terminates_witness:
  "\<exists>n p'. (works ^^ n) lone_prober p' \<and> n \<le> work_left lone_prober \<and> igs_pendingCount (pb_ings p' ! 0) = 0"
proof -
  obtain p' where run: "works\<^sup>*\<^sup>* lone_prober p'" and stuck: "\<nexists>p''. works p' p''"
    using works_end [OF reachable_inv [OF lone_reachable]] by blast
  then obtain n where "(works ^^ n) lone_prober p'" using rtranclp_imp_relpowp by metis
  moreover have "\<not> pb_shutdown lone_prober" by code_simp
  moreover have "fmlookup (pb_ingressStates lone_prober) (ingress_key small_ingress) = Some 0" by code_simp
  ultimately show ?thesis using probing_terminates [OF lone_reachable] run stuck by blast
qed

end
