(* ===== verification/ProbedReconcile.thy ===== *)
theory ProbedReconcile
  imports ProberLaws IngressReconcile
begin

text \<open>
  The reconciler over the status prober: the services of \<open>IngressReconcile\<close> with the prober as their status
  manager, what a reconciliation does to the prober, and what of it lasts.
\<close>

section \<open>The services\<close>

text \<open>
  The world is that of the routes and the state of the prober. \<open>lt\<close> lists the probe targets of an Ingress.
\<close>

definition lift_writer :: "'w route_writer \<Rightarrow> ('w \<times> prober) route_writer" where
  "lift_writer wr ns r = (\<lambda>(w, p). let (res, w') = wr ns r w in (res, (w', p)))"

definition with_prober ::
  "'w services \<Rightarrow> (ingress \<Rightarrow> error + probe_target list) \<Rightarrow> ('w \<times> prober) services" where
  "with_prober sv lt =
     \<lparr>sv_get = (\<lambda>ns n wp. sv_get sv ns n (fst wp)),
      sv_create = lift_writer (sv_create sv), sv_update = lift_writer (sv_update sv),
      sv_IsReady = (\<lambda>ing (w, p).
        let (r, p') = IsReady (sv_marshal sv) (sv_sha256 sv) lt ing p in (r, (w, p'))),
      sv_marshal = sv_marshal sv, sv_sha256 = sv_sha256 sv, sv_clock = sv_clock sv, sv_domain = sv_domain sv\<rparr>"

lemma lift_writer_snd: "lift_writer wr ns r wp = (res, wp') \<Longrightarrow> snd wp' = snd wp"
  by (auto simp: lift_writer_def split: prod.splits)

text \<open>Reconciling a route leaves the prober alone.\<close>

lemma reconcile_route_keeps_prober:
  assumes "reconcileHTTPRoute get (lift_writer create) (lift_writer update) ctx ing rule wp = Some (res, rule', wp', evs)"
  shows "snd wp' = snd wp"
proof -
  from assms obtain name hosts where lh: "LongestHost (ir_Hosts rule) = Some (name, hosts)"
    by (auto simp: reconcileHTTPRoute_def split: bind_splits)
  show ?thesis
  proof (cases "get (om_Namespace (ing_Meta ing)) name wp")
    case (Inl err)
    with assms lh show ?thesis
      by (cases "is_not_found err"; cases "MakeHTTPRoute ctx ing (rule\<lparr>ir_Hosts := hosts\<rparr>)")
        (auto simp: reconcileHTTPRoute_def Let_def dest: lift_writer_snd
          split: sum.split_asm prod.split_asm)
  next
    case (Inr r)
    with assms lh show ?thesis
      by (cases "MakeHTTPRoute ctx ing (rule\<lparr>ir_Hosts := hosts\<rparr>)")
        (auto simp: reconcileHTTPRoute_def Let_def dest: lift_writer_snd
          split: sum.split_asm prod.split_asm if_split_asm)
  qed
qed

lemma rules_loop_keeps_prober:
  "rules_loop (with_prober sv lt) ctx ing rules st wp = Some (err, rules', st', wp', evs) \<Longrightarrow> snd wp' = snd wp"
proof (induction rules arbitrary: st wp err rules' st' wp' evs)
  case (Cons rule rest)
  then obtain res rule1 wp1 evs1 where
    r: "reconcileHTTPRoute (sv_get (with_prober sv lt)) (sv_create (with_prober sv lt))
      (sv_update (with_prober sv lt)) ctx ing rule wp = Some (res, rule1, wp1, evs1)"
    by (auto split: bind_splits)
  then have "snd wp1 = snd wp"
    by (intro reconcile_route_keeps_prober) (simp add: with_prober_def)
  with Cons r show ?case by (auto split: sum.splits dest: Cons.IH)
qed simp

section \<open>What lasts\<close>

text \<open>The records of versions and the probes that were verified for them are never lost.\<close>

definition grows :: "prober \<Rightarrow> prober \<Rightarrow> bool" where
  "grows p p' \<longleftrightarrow> length (pb_ings p) \<le> length (pb_ings p') \<and>
     (\<forall>s < length (pb_ings p). igs_hash (pb_ings p' ! s) = igs_hash (pb_ings p ! s) \<and>
        igs_ing (pb_ings p' ! s) = igs_ing (pb_ings p ! s) \<and> igs_targets (pb_ings p' ! s) = igs_targets (pb_ings p ! s) \<and>
        (\<forall>ip port u. probed_at p s ip port u \<longrightarrow> probed_at p' s ip port u))"

lemma grows_refl: "grows p p"
  by (simp add: grows_def)

lemma grows_trans: "grows p q \<Longrightarrow> grows q r \<Longrightarrow> grows p r"
  unfolding grows_def by simp

definition keeps_probes :: "prober \<Rightarrow> prober \<Rightarrow> bool" where
  "keeps_probes p p' \<longleftrightarrow> (\<forall>it \<in> set (pb_items p). \<forall>r. verified_answer (wi_stage it) = Some r \<longrightarrow>
     (\<exists>it' \<in> set (pb_items p'). wi_ingressState it' = wi_ingressState it \<and> wi_podIP it' = wi_podIP it \<and>
        wi_podPort it' = wi_podPort it \<and> wi_url it' = wi_url it \<and> verified_answer (wi_stage it') = Some r))"

lemma keeps_probes_append: "pb_items p' = pb_items p @ its \<Longrightarrow> keeps_probes p p'"
  by (auto simp: keeps_probes_def)

lemma keeps_probes_stage:
  assumes "i < length (pb_items p)" and "pb_items p' = (pb_items p)[i := (pb_items p ! i)\<lparr>wi_stage := st\<rparr>]"
    and "verified_answer (wi_stage (pb_items p ! i)) = None \<or> verified_answer st = verified_answer (wi_stage (pb_items p ! i))"
  shows "keeps_probes p p'"
  unfolding keeps_probes_def
proof (intro ballI allI impI)
  fix it r assume "it \<in> set (pb_items p)" and v: "verified_answer (wi_stage it) = Some r"
  then obtain k where k: "k < length (pb_items p)" "it = pb_items p ! k" by (auto simp: in_set_conv_nth)
  let ?it = "pb_items p' ! k"
  have "?it \<in> set (pb_items p')" using k(1) assms(2) by simp
  moreover have "wi_ingressState ?it = wi_ingressState it \<and> wi_podIP ?it = wi_podIP it \<and> wi_podPort ?it = wi_podPort it \<and>
      wi_url ?it = wi_url it \<and> verified_answer (wi_stage ?it) = Some r"
    using assms k v by (auto simp: nth_update)
  ultimately show "\<exists>it' \<in> set (pb_items p'). wi_ingressState it' = wi_ingressState it \<and> wi_podIP it' = wi_podIP it \<and>
        wi_podPort it' = wi_podPort it \<and> wi_url it' = wi_url it \<and> verified_answer (wi_stage it') = Some r"
    by blast
qed

lemma growsI:
  assumes "keeps_probes p p'" and "length (pb_ings p) \<le> length (pb_ings p')"
    and "\<And>s. s < length (pb_ings p) \<Longrightarrow> igs_hash (pb_ings p' ! s) = igs_hash (pb_ings p ! s) \<and>
        igs_ing (pb_ings p' ! s) = igs_ing (pb_ings p ! s) \<and> igs_targets (pb_ings p' ! s) = igs_targets (pb_ings p ! s)"
  shows "grows p p'"
  using assms unfolding grows_def keeps_probes_def probed_at_def by metis

lemma cancel_targets [simp]:
  "igs_targets (pb_ings (CancelIngressProbingByKey k p) ! s) = igs_targets (pb_ings p ! s)"
  by (auto simp: CancelIngressProbingByKey_def nth_update split: option.splits)

lemma verified_answer_None: "\<not> counted_off st \<Longrightarrow> (\<forall>r. st \<noteq> Verified r) \<Longrightarrow> verified_answer st = None"
  by (cases st) auto

lemma grows_step:
  assumes "prober_step hash_of p e p'" and "links p" and "todo_ok p"
  shows "grows p p'"
  using assms(1)
proof (cases rule: step_cases)
  case (hit k s)
  then show ?thesis by (simp add: grows_refl)
next
  case (quiet i st q)
  then have "verified_answer (wi_stage (pb_items p ! i)) = None" by (simp add: quiet_def verified_answer_None)
  with quiet show ?thesis by (intro growsI keeps_probes_stage [of i p p' st]) (simp_all add: quiet_def)
next
  case (register key s)
  from registering [OF assms(2,3) register(2,3)] obtain ip rest its where
    "s < length (pb_ings p)" "igs_todo (pb_ings p ! s) = ip # rest"
    "fmlookup (igs_workItems (pb_ings p ! s)) ip = Some its" "its \<noteq> []" "distinct rest" "ip \<notin> set rest" .
  with register(4) show ?thesis
    by (intro growsI keeps_probes_append) (auto simp: register_simps nth_update)
next
  case (dec_pod i r n)
  then show ?thesis by (intro growsI keeps_probes_stage [of i p p' "if n = 0 then LastOfPod r else Passed r"]) simp_all
next
  case (cancel_pod i r)
  then show ?thesis by (intro growsI keeps_probes_stage [of i p p' "PodDone r"]) simp_all
next
  case (tell i r)
  then show ?thesis by (intro growsI keeps_probes_stage [of i p p' "Passed r"]) (auto simp: nth_update)
next
  case (list_ok key hash ing order targets)
  then show ?thesis by (intro growsI keeps_probes_append [of p' p "[]"]) (simp_all add: nth_append)
next
  case (cancel_ingress key)
  then show ?thesis by (intro growsI keeps_probes_append [of p' p "[]"]) simp_all
qed (intro growsI keeps_probes_append [of p' p "[]"]; auto simp: nth_update)+

lemma grows_steps:
  assumes "prober_steps hash_of p p'" and "prober_inv hash_of p"
  shows "grows p p'"
  using assms(1) unfolding prober_steps_def
proof (induction rule: rtranclp_induct)
  case (step q r)
  then have "prober_inv hash_of q" using assms(2) by (simp add: prober_steps_def [symmetric] prober_steps_inv)
  then have "grows q r" using step(2) grows_step by (auto simp: prober_inv_def)
  with step show ?case by (blast intro: grows_trans)
qed (rule grows_refl)

section \<open>A call of the prober\<close>

text \<open>Registering the IPs of a version leaves the records alone.\<close>

lemma register_records:
  "pb_calls (IsReady_register s p) = pb_calls p" "pb_shutdown (IsReady_register s p) = pb_shutdown p"
  "length (pb_ings (IsReady_register s p)) = length (pb_ings p)"
  "igs_hash (pb_ings (IsReady_register s p) ! i) = igs_hash (pb_ings p ! i)"
  "igs_ing (pb_ings (IsReady_register s p) ! i) = igs_ing (pb_ings p ! i)"
  "igs_targets (pb_ings (IsReady_register s p) ! i) = igs_targets (pb_ings p ! i)"
  by (auto simp: IsReady_register_def Let_def nth_update split_beta split: list.splits)

lemma fold_register_records:
  "pb_calls (fold (\<lambda>_. IsReady_register s) ips p) = pb_calls p"
  "pb_shutdown (fold (\<lambda>_. IsReady_register s) ips p) = pb_shutdown p"
  "length (pb_ings (fold (\<lambda>_. IsReady_register s) ips p)) = length (pb_ings p)"
  "igs_hash (pb_ings (fold (\<lambda>_. IsReady_register s) ips p) ! i) = igs_hash (pb_ings p ! i)"
  "igs_ing (pb_ings (fold (\<lambda>_. IsReady_register s) ips p) ! i) = igs_ing (pb_ings p ! i)"
  "igs_targets (pb_ings (fold (\<lambda>_. IsReady_register s) ips p) ! i) = igs_targets (pb_ings p ! i)"
  by (induction ips arbitrary: p) (simp_all add: register_records)

text \<open>
  What a call leaves behind: no call of its own, and at most one new version, for the Ingress it was given,
  with the targets that were listed. When the listing succeeds the version is on record afterwards.
\<close>

lemma IsReady_records:
  assumes "IsReady marshal sha256 lt ing p = (r, p')" and "fmlookup (pb_calls p) (ingress_key ing) = None"
  shows "pb_calls p' = pb_calls p" and "pb_shutdown p' = pb_shutdown p"
    and "length (pb_ings p') = length (pb_ings p) \<or>
      length (pb_ings p') = Suc (length (pb_ings p)) \<and> igs_ing (pb_ings p' ! length (pb_ings p)) = ing \<and>
      lt ing = Inr (igs_targets (pb_ings p' ! length (pb_ings p)))"
    and "\<lbrakk>ComputeHash marshal sha256 ing = Inr bytes; lt ing = Inr ts\<rbrakk> \<Longrightarrow>
      \<exists>ready s. r = Inr ready \<and> fmlookup (pb_ingressStates p') (ingress_key ing) = Some s \<and>
        igs_hash (pb_ings p' ! s) = hex_string bytes"
proof -
  note run = assms(1) [unfolded IsReady_def Let_def ingress_key_def [symmetric]]
  have "pb_calls p' = pb_calls p \<and> pb_shutdown p' = pb_shutdown p \<and> (length (pb_ings p') = length (pb_ings p) \<or>
      length (pb_ings p') = Suc (length (pb_ings p)) \<and> igs_ing (pb_ings p' ! length (pb_ings p)) = ing \<and>
      lt ing = Inr (igs_targets (pb_ings p' ! length (pb_ings p)))) \<and>
      (\<forall>bytes ts. ComputeHash marshal sha256 ing = Inr bytes \<longrightarrow> lt ing = Inr ts \<longrightarrow>
        (\<exists>ready s. r = Inr ready \<and> fmlookup (pb_ingressStates p') (ingress_key ing) = Some s \<and>
          igs_hash (pb_ings p' ! s) = hex_string bytes))"
  proof (cases "ComputeHash marshal sha256 ing")
    case (Inl err)
    then show ?thesis using run by auto
  next
    case (Inr bytes)
    obtain lk p1 where lk: "IsReady_lookup (ingress_key ing) (hex_string bytes) p = (lk, p1)" by fastforce
    show ?thesis
    proof (cases lk)
      case (Some ready)
      then show ?thesis using run lk Inr by (auto simp: IsReady_lookup_hit)
    next
      case None
      then have p1: "p1 = CancelIngressProbingByKey (ingress_key ing) p" using lk by (simp add: IsReady_lookup_miss)
      have shut: "pb_shutdown p1 = pb_shutdown p"
        by (simp add: p1 CancelIngressProbingByKey_def split: option.splits)
      show ?thesis
      proof (cases "lt ing")
        case (Inl err)
        then show ?thesis using run lk Inr None shut by (auto simp: p1)
      next
        case (Inr targets)
        then show ?thesis
          using run lk None shut assms(2) \<open>ComputeHash marshal sha256 ing = Inr bytes\<close>
          by (auto simp: p1 IsReady_publish_def fold_register_records fmdrop_fmupd_fresh nth_append)
      qed
    qed
  qed
  then show "pb_calls p' = pb_calls p" "pb_shutdown p' = pb_shutdown p"
    "length (pb_ings p') = length (pb_ings p) \<or>
      length (pb_ings p') = Suc (length (pb_ings p)) \<and> igs_ing (pb_ings p' ! length (pb_ings p)) = ing \<and>
      lt ing = Inr (igs_targets (pb_ings p' ! length (pb_ings p)))"
    "\<lbrakk>ComputeHash marshal sha256 ing = Inr bytes; lt ing = Inr ts\<rbrakk> \<Longrightarrow>
      \<exists>ready s. r = Inr ready \<and> fmlookup (pb_ingressStates p') (ingress_key ing) = Some s \<and>
        igs_hash (pb_ings p' ! s) = hex_string bytes"
    by blast+
qed

lemma IsReady_grows:
  assumes "prober_inv (hex_hash marshal sha256) p" and "fmlookup (pb_calls p) (ingress_key ing) = None"
    and "IsReady marshal sha256 lt ing p = (r, p')"
  shows "grows p p'"
proof (cases "ComputeHash marshal sha256 ing")
  case (Inl err)
  then show ?thesis using assms(3) by (auto simp: IsReady_def Let_def grows_refl)
next
  case (Inr bytes)
  from IsReady_runs [OF assms(1-3) Inr] obtain q where
    q: "prober_steps (hex_hash marshal sha256) p q"
      "prober_step (hex_hash marshal sha256) q (Returns (ingress_key ing) (hex_string bytes) r) p'" by blast
  have "prober_inv (hex_hash marshal sha256) q" by (rule prober_steps_inv [OF q(1) assms(1)])
  then have "grows q p'" using grows_step [OF q(2)] by (simp add: prober_inv_def)
  then show ?thesis using grows_steps [OF q(1) assms(1)] by (blast intro: grows_trans)
qed

section \<open>A reconciliation\<close>

context route_client
begin

text \<open>Reconciling routes over a store keeps its invariant and never fails.\<close>

lemma reconcile_good:
  assumes "good w" and "reconcileHTTPRoute get create update ctx ing rule w = Some (res, rule', w', evs)"
  shows "good w' \<and> (\<exists>r. res = Inr r)"
proof (cases "desired_route ctx ing rule")
  case None
  then show ?thesis
    using assms get_error by (auto simp: reconcileHTTPRoute_undesired split: if_splits sum.splits)
next
  case (Some d)
  from reconcile_result [OF assms(1) Some] assms(2) show ?thesis by auto
qed

lemma loop_good:
  assumes sv: "sv_get sv = get" "sv_create sv = create" "sv_update sv = update"
    and "good w" and "rules_loop sv ctx ing rules st w = Some (err, rules', st', w', evs)"
  shows "good w' \<and> err = None"
  using assms(4,5)
proof (induction rules arbitrary: st w err rules' st' w' evs)
  case (Cons rule rest)
  from Cons.prems(2) obtain res rule1 w1 evs1 where
    r: "reconcileHTTPRoute get create update ctx ing rule w = Some (res, rule1, w1, evs1)"
    by (auto simp: sv split: bind_splits)
  from reconcile_good [OF Cons.prems(1) r] obtain x where "good w1" "res = Inr x" by blast
  with Cons.prems(2) r show ?case by (auto simp: sv IsHTTPRouteReady_eq dest: Cons.IH)
qed simp

end

text \<open>The store of the routes, with the prober beside it, is a store.\<close>

lemma lift_writer_run:
  "lift_writer wr ns x wp = (r, wp') \<longleftrightarrow> wr ns x (fst wp) = (r, fst wp') \<and> snd wp' = snd wp"
  by (cases wp; cases wp') (auto simp: lift_writer_def split: prod.splits)

lemma lift_writer_laws:
  assumes "object_store get create update hr_Meta good"
  shows "object_store (\<lambda>ns n wp. get ns n (fst wp)) (lift_writer create) (lift_writer update) hr_Meta (\<lambda>wp. good (fst wp))"
proof (rule object_store.intro, goal_cases)
  case (1 wp ns n x)
  then show ?case by (rule object_store.get_key [OF assms])
next
  case (2 wp ns n e)
  then show ?case by (rule object_store.get_error [OF assms])
next
  case (3 wp x ns n e r wp')
  then show ?case unfolding lift_writer_run by (metis object_store.create_absent [OF assms])
next
  case (4 wp x ns n y r wp')
  then show ?case unfolding lift_writer_run by (metis object_store.create_present [OF assms])
next
  case (5 wp x ns n y r wp')
  then show ?case unfolding lift_writer_run by (metis object_store.update_present [OF assms])
qed

interpretation probed_routes: route_client "\<lambda>ns n wp. route_get ns n (fst wp)" "lift_writer route_create"
    "lift_writer route_update" "\<lambda>wp. route_store_good (fst wp)"
  unfolding route_client_def by (rule lift_writer_laws) (rule fake.object_store_axioms)

text \<open>
  A reconciliation over the store of routes keeps the store's invariant, and what it does to the prober is at
  most one call for the defaulted Ingress.
\<close>

lemma reconcile_world:
  assumes sv: "sv_get sv = route_get" "sv_create sv = route_create" "sv_update sv = route_update"
    and run: "reconcileIngress (with_prober sv lt) ctx n ing (w, p) = Some (err, n', ing', (w', p'), evs)"
    and good: "route_store_good w"
  shows "route_store_good w' \<and> (p' = p \<or> (\<exists>prior r. Ingress_SetDefaults ing = Some prior \<and>
    IsReady (sv_marshal sv) (sv_sha256 sv) lt prior p = (r, p')))"
proof -
  let ?sv = "with_prober sv lt"
  have wsv: "sv_get ?sv = (\<lambda>ns n wp. route_get ns n (fst wp))" "sv_create ?sv = lift_writer route_create"
      "sv_update ?sv = lift_writer route_update"
    by (simp_all add: with_prober_def sv)
  show ?thesis
    using run
  proof (cases rule: reconcileIngress_cases)
    case (loop prior st0 ing1 e rules)
    with probed_routes.loop_good [OF wsv _ loop(5)] good show ?thesis by simp
  next
    case (probe prior st0 ing1 rules st1 wp1)
    have "route_store_good (fst wp1)" "snd wp1 = p"
      using probed_routes.loop_good [OF wsv _ probe(4)] rules_loop_keeps_prober [OF probe(4)] good by simp_all
    moreover obtain r where "sv_IsReady ?sv prior wp1 = (r, (w', p'))"
      using probe(5) by (auto simp: probe_and_mark_def split: prod.splits sum.splits if_splits)
    ultimately have "w' = fst wp1" "IsReady (sv_marshal sv) (sv_sha256 sv) lt prior p = (r, p')"
      by (cases wp1; auto simp: with_prober_def split: prod.splits)+
    then show ?thesis using probe(1) \<open>route_store_good (fst wp1)\<close> by blast
  qed (use good in simp)
qed

section \<open>A ready Ingress has been probed\<close>

text \<open>The prober has a record of the version of the Ingress, and has probed all that was listed for it.\<close>

definition probed_version ::
  "(ingress_spec \<Rightarrow> error + string) \<Rightarrow> (string \<Rightarrow> string) \<Rightarrow> prober \<Rightarrow> ingress \<Rightarrow> bool" where
  "probed_version marshal sha256 p ing \<longleftrightarrow>
     (\<exists>prior bytes s. Ingress_SetDefaults ing = Some prior \<and> ComputeHash marshal sha256 prior = Inr bytes \<and>
        s < length (pb_ings p) \<and> igs_hash (pb_ings p ! s) = hex_string bytes \<and>
        hex_hash marshal sha256 (igs_ing (pb_ings p ! s)) = hex_string bytes \<and>
        ingress_key (igs_ing (pb_ings p ! s)) = ingress_key ing \<and>
        (\<forall>t \<in> set (igs_targets (pb_ings p ! s)). \<forall>ip \<in> fset (pt_PodIPs t). \<forall>u \<in> set (pt_URLs t).
           probed_at p s ip (pt_PodPort t) u))"

lemma probed_version_grows:
  assumes "grows p p'" and "probed_version marshal sha256 p ing"
  shows "probed_version marshal sha256 p' ing"
proof -
  from assms(2) obtain prior bytes s where
    p: "Ingress_SetDefaults ing = Some prior" "ComputeHash marshal sha256 prior = Inr bytes" "s < length (pb_ings p)"
      "igs_hash (pb_ings p ! s) = hex_string bytes" "hex_hash marshal sha256 (igs_ing (pb_ings p ! s)) = hex_string bytes"
      "ingress_key (igs_ing (pb_ings p ! s)) = ingress_key ing"
      "\<forall>t \<in> set (igs_targets (pb_ings p ! s)). \<forall>ip \<in> fset (pt_PodIPs t). \<forall>u \<in> set (pt_URLs t).
         probed_at p s ip (pt_PodPort t) u"
    unfolding probed_version_def by blast
  with assms(1) show ?thesis
    unfolding probed_version_def grows_def by (intro exI [of _ prior] exI [of _ bytes] exI [of _ s]) auto
qed

text \<open>It depends on the spec and the key of the Ingress only.\<close>

lemma SetDefaults_spec:
  "Ingress_SetDefaults ing = map_option (\<lambda>spec. ing\<lparr>ing_Spec := spec\<rparr>) (IngressSpec_SetDefaults (ing_Spec ing))"
  by (simp add: Ingress_SetDefaults_def)

lemma probed_version_cong:
  assumes "ing_Spec i = ing_Spec ing" and "ingress_key i = ingress_key ing"
  shows "probed_version marshal sha256 p i = probed_version marshal sha256 p ing"
proof -
  have hash: "ComputeHash marshal sha256 (i\<lparr>ing_Spec := spec\<rparr>) = ComputeHash marshal sha256 (ing\<lparr>ing_Spec := spec\<rparr>)" for spec
    using assms(2) by (auto simp: ComputeHash_def ingress_key_def split: sum.split)
  show ?thesis
    unfolding probed_version_def SetDefaults_spec assms by (auto simp: hash)
qed

text \<open>Defaulting again changes nothing.\<close>

lemma probed_version_defaulted:
  assumes "Ingress_SetDefaults ing = Some prior" and "probed_version marshal sha256 p prior"
  shows "probed_version marshal sha256 p ing"
proof -
  obtain spec where spec: "IngressSpec_SetDefaults (ing_Spec ing) = Some spec" "prior = ing\<lparr>ing_Spec := spec\<rparr>"
    using assms(1) by (auto simp: SetDefaults_spec)
  then have "Ingress_SetDefaults prior = Some prior"
    using spec_defaults_idem [OF spec(1)] by (simp add: SetDefaults_spec)
  then show ?thesis
    using assms by (simp add: probed_version_def spec(2) ingress_key_def)
qed

text \<open>An Ingress that the reconciler makes Ready has been probed. When nothing cancels the probing
  of pods (no part of the controller does), after a reconciliation that leaves the Ingress Ready the
  prober has its hash on record, and each URL of each target listed for it has been answered, on
  each pod of the target, in a way that passes the verifier for that hash.\<close>

lemma ready_ingress_probed:
  assumes "reachable (hex_hash (sv_marshal sv) (sv_sha256 sv)) no_pod_cancelled p"
    and "fmlookup (pb_calls p) (ingress_key ing0) = None"
    and "reconcileIngress (with_prober sv lt) ctx n ing0 (w, p) = Some (None, n', ing', (w', p'), evs)"
    and "status_inv (ing_Status ing0)"
    and "IsTrue (GetCondition ConditionReady (st_Conditions (ing_Status ing')))"
  shows "probed_version (sv_marshal sv) (sv_sha256 sv) p' ing0"
proof -
  let ?H = "hex_hash (sv_marshal sv) (sv_sha256 sv)"
  from assms(3) obtain prior bytes where prior: "Ingress_SetDefaults ing0 = Some prior"
    and h: "ComputeHash (sv_marshal sv) (sv_sha256 sv) prior = Inr bytes"
    and run: "IsReady (sv_marshal sv) (sv_sha256 sv) lt prior p = (Inr True, p')"
  proof (cases rule: reconcileIngress_cases)
    case (probe prior st0 ing1 rules st1 wp1)
    have "status_inv (snd st0)" using probe(2) assms(4) SetDefaults_frame [OF probe(1)] by (simp add: keeps_wf)
    then have inv1: "status_inv (snd st1)" using rules_loop_status [OF probe(4)] by (simp add: keeps_wf)
    obtain ready where r: "sv_IsReady (with_prober sv lt) prior wp1 = (Inr ready, (w', p'))"
      "cstat ''Ready'' (n', ing_Status ing') = Some
         (if cstat ''NetworkConfigured'' st1 = Some ConditionFalse then ConditionFalse
          else if ready \<and> cstat ''NetworkConfigured'' st1 = Some ConditionTrue then ConditionTrue
          else ConditionUnknown)"
      by (rule probe_and_mark_conditions [OF inv1 probe(5)])
    with assms(5) have ready: ready by (auto simp: cstat_status_of split: if_splits)
    have p: "snd wp1 = p" using rules_loop_keeps_prober [OF probe(4)] by simp
    with r(1) ready have run: "IsReady (sv_marshal sv) (sv_sha256 sv) lt prior p = (Inr True, p')"
      by (cases wp1) (auto simp: with_prober_def split: prod.splits)
    then obtain bytes where h: "ComputeHash (sv_marshal sv) (sv_sha256 sv) prior = Inr bytes"
      by (auto simp: IsReady_def Let_def split: sum.splits)
    show ?thesis by (rule that [OF probe(1) h run])
  qed simp_all
  have key: "ingress_key prior = ingress_key ing0"
    using SetDefaults_frame [OF prior] by (simp add: ingress_key_def)
  from IsReady_runs [OF reachable_inv [OF assms(1)] _ run h] assms(2) key obtain q where
    q: "prober_steps ?H p q" "prober_step ?H q (Returns (ingress_key ing0) (hex_string bytes) (Inr True)) p'"
    by auto
  have rq: "reachable ?H no_pod_cancelled q"
    using prober_steps_reachable [OF q(1) assms(1)] by (simp add: no_pod_cancelled_def)
  have "reachable ?H no_pod_cancelled p'"
    using reachable.step [OF rq q(2)] by (simp add: no_pod_cancelled_def)
  then have live: "True \<notin> set (pb_ctxs p')" and links: "links p'"
    using contexts_live reachable_inv by (auto simp: prober_inv_def)
  have "\<not> pod_cancelled_at p' s ip" for s ip
  proof
    assume "pod_cancelled_at p' s ip"
    then obtain j where "j < length (pb_pods p')" "pb_ctxs p' ! pds_ipCtx (pb_pods p' ! j)"
      by (auto simp: pod_cancelled_at_def in_set_conv_nth)
    with links have "True \<in> set (pb_ctxs p')" by (auto simp: links_def in_set_conv_nth)
    with live show False ..
  qed
  with ready_return [OF rq q(2)] obtain s where
    "fmlookup (pb_ingressStates p') (ingress_key ing0) = Some s" "igs_hash (pb_ings p' ! s) = hex_string bytes"
    "?H (igs_ing (pb_ings p' ! s)) = hex_string bytes" "ingress_key (igs_ing (pb_ings p' ! s)) = ingress_key ing0"
    "\<forall>t \<in> set (igs_targets (pb_ings p' ! s)). \<forall>ip \<in> fset (pt_PodIPs t). \<forall>u \<in> set (pt_URLs t).
       probed_at p' s ip (pt_PodPort t) u" by blast
  moreover from this links have "s < length (pb_ings p')" unfolding links_def by blast
  ultimately show ?thesis
    unfolding probed_version_def using prior h
    by (intro exI [of _ prior] exI [of _ bytes] exI [of _ s]) simp
qed

end
