(* ===== verification/Worker.thy ===== *)
theory Worker
  imports Controller
begin

text \<open>
  A worker of the controller on one key: the generated \<open>Reconcile\<close> of
  \<open>vendor/knative.dev/networking/pkg/client/injection/reconciler/networking/v1alpha1/ingress/reconciler.go\<close> around
  \<open>ReconcileKind\<close>, the steps before and after it (\<open>vendor/knative.dev/pkg/reconciler/reconcile_common.go\<close>), the
  update of the status with its retries, and what becomes of the key (\<open>handleErr\<close>). The services of the
  reconciler act on a world \<open>'r\<close>, the lister and the client of Ingresses on a world \<open>'s\<close>.
\<close>

section \<open>Before and after\<close>

definition PreProcessReconcile :: "clock \<Rightarrow> nat \<Rightarrow> ingress \<Rightarrow> (nat \<times> ingress) option" where
  "PreProcessReconcile clk n resource =
     (case Ingress_SetDefaults resource of
        None \<Rightarrow> None
      | Some resource \<Rightarrow>
          let st = Ingress_InitializeConditions clk (n, ing_Status resource);
              st = (if st_ObservedGeneration (snd st) \<noteq> om_Generation (ing_Meta resource)
                    then manage_ingress (MarkUnknown clk ingressCondSet (happy ingressCondSet) ''NewObservedGenFailure''
                           ''unsuccessfully observed a new generation'') st
                    else st)
          in Some (fst st, resource\<lparr>ing_Status := snd st\<rparr>))"

definition groom_condition :: "int \<Rightarrow> condition list \<Rightarrow> condition \<Rightarrow> condition" where
  "groom_condition now olds cond =
     (case GetCondition (cd_Type cond) olds of
        None \<Rightarrow> cond\<lparr>cd_LastTransitionTime := now\<rparr>
      | Some oldCond \<Rightarrow>
          let cond = cond\<lparr>cd_LastTransitionTime := cd_LastTransitionTime oldCond\<rparr>
          in if cond = oldCond then cond else cond\<lparr>cd_LastTransitionTime := now\<rparr>)"

definition PostProcessReconcile :: "clock \<Rightarrow> nat \<Rightarrow> ingress \<Rightarrow> ingress \<Rightarrow> nat \<times> ingress" where
  "PostProcessReconcile clk n resource oldResource =
     (let sts = (ing_Status resource)\<lparr>st_ObservedGeneration := om_Generation (ing_Meta resource)\<rparr>
      in (Suc n, resource\<lparr>ing_Status := sts
            \<lparr>st_Conditions := map (groom_condition (clk n) (st_Conditions (ing_Status oldResource))) (st_Conditions sts)\<rparr>\<rparr>))"

section \<open>The status update\<close>

record 's ingress_api =
  ia_lister :: "string \<Rightarrow> string \<Rightarrow> 's \<Rightarrow> error + ingress"
  ia_get :: "string \<Rightarrow> string \<Rightarrow> 's \<Rightarrow> error + ingress"
  ia_updateStatus :: "string \<Rightarrow> ingress \<Rightarrow> 's \<Rightarrow> (error + ingress) \<times> 's"

text \<open>\<open>equality.Semantic.DeepEqual\<close> of two statuses: a nil map equals an empty one.\<close>

definition status_DeepEqual :: "ingress_status \<Rightarrow> ingress_status \<Rightarrow> bool" where
  "status_DeepEqual a b \<longleftrightarrow>
     entries (st_Annotations a) = entries (st_Annotations b) \<and> a\<lparr>st_Annotations := None\<rparr> = b\<lparr>st_Annotations := None\<rparr>"

text \<open>\<open>RetryUpdateConflicts\<close>: as often as steps are left, and only after a conflict.\<close>

primrec retry_conflicts :: "nat \<Rightarrow> nat \<Rightarrow> (nat \<Rightarrow> 's \<Rightarrow> error option \<times> 's) \<Rightarrow> 's \<Rightarrow> error option \<times> 's" where
  "retry_conflicts 0 attempts updater w = (None, w)"
| "retry_conflicts (Suc steps) attempts updater w =
     (case updater attempts w of
        (None, w) \<Rightarrow> (None, w)
      | (Some err, w) \<Rightarrow>
          if is_conflict err then (if steps = 0 then (Some err, w) else retry_conflicts steps (Suc attempts) updater w)
          else (Some err, w))"

definition RetryUpdateConflicts :: "(nat \<Rightarrow> 's \<Rightarrow> error option \<times> 's) \<Rightarrow> 's \<Rightarrow> error option \<times> 's" where
  "RetryUpdateConflicts updater w = retry_conflicts 5 0 updater w"

definition updateStatus :: "'s ingress_api \<Rightarrow> ingress \<Rightarrow> ingress \<Rightarrow> 's \<Rightarrow> error option \<times> 's" where
  "updateStatus api existing desired = RetryUpdateConflicts (\<lambda>attempts w.
     case (if 0 < attempts then ia_get api (om_Namespace (ing_Meta desired)) (om_Name (ing_Meta desired)) w
           else Inr existing) of
       Inl err \<Rightarrow> (Some err, w)
     | Inr existing \<Rightarrow>
         if status_DeepEqual (ing_Status existing) (ing_Status desired) then (None, w)
         else case ia_updateStatus api (om_Namespace (ing_Meta existing)) (existing\<lparr>ing_Status := ing_Status desired\<rparr>) w of
                (Inl err, w) \<Rightarrow> (Some err, w)
              | (Inr _, w) \<Rightarrow> (None, w))"

section \<open>Errors and events\<close>

text \<open>The chain of an error, as \<open>errors.Is\<close> and \<open>errors.As\<close> walk it.\<close>

fun unwrapped :: "error \<Rightarrow> error list" where
  "unwrapped (Wrapped msg e) = Wrapped msg e # unwrapped e"
| "unwrapped (PermanentError e) = PermanentError e # unwrapped e"
| "unwrapped e = [e]"

fun as_event :: "error \<Rightarrow> (string \<times> string \<times> string) option" where
  "as_event (ReconcilerEvent eventtype reason msg) = Some (eventtype, reason, msg)"
| "as_event _ = None"

definition EventAs :: "error \<Rightarrow> (string \<times> string \<times> string) option" where
  "EventAs e = (case List.extract (\<lambda>x. as_event x \<noteq> None) (unwrapped e) of None \<Rightarrow> None | Some (_, x, _) \<Rightarrow> as_event x)"

definition IsSkipKey :: "error \<Rightarrow> bool" where
  "IsSkipKey e \<longleftrightarrow> list_ex (\<lambda>x. case x of SkipKeyError _ \<Rightarrow> True | _ \<Rightarrow> False) (unwrapped e)"

definition IsPermanentError :: "error \<Rightarrow> bool" where
  "IsPermanentError e \<longleftrightarrow> list_ex (\<lambda>x. case x of PermanentError _ \<Rightarrow> True | _ \<Rightarrow> False) (unwrapped e)"

definition IsRequeueKey :: "error \<Rightarrow> int option" where
  "IsRequeueKey e =
     (case List.extract (\<lambda>x. case x of RequeueKeyError _ \<Rightarrow> True | _ \<Rightarrow> False) (unwrapped e) of
        Some (_, RequeueKeyError d, _) \<Rightarrow> Some d | _ \<Rightarrow> None)"

datatype recorded = FromReconcile route_event | Recorded string string

text \<open>The end of \<open>Reconcile\<close>: what is returned for what \<open>ReconcileKind\<close> returned, and what is recorded.\<close>

definition report_event :: "error option \<Rightarrow> error option \<times> recorded list" where
  "report_event reconcileEvent =
     (case reconcileEvent of
        None \<Rightarrow> (None, [])
      | Some e \<Rightarrow>
          (case EventAs e of
             Some (eventtype, reason, msg) \<Rightarrow> (if as_event e = None then Some e else None, [Recorded eventtype reason])
           | None \<Rightarrow>
               if IsSkipKey e \<or> IsRequeueKey e \<noteq> None then (Some e, [])
               else (Some e, [Recorded ''Warning'' ''InternalError''])))"

section \<open>Reconcile\<close>

text \<open>The context \<open>ctx\<close> is the one the store has put its configurations into, \<open>is_leader\<close> what the election
  says of a key.\<close>

definition is_deleted :: "ingress \<Rightarrow> bool" where
  "is_deleted ing \<longleftrightarrow> om_DeletionTimestamp (ing_Meta ing) \<noteq> None"

text \<open>The branch of the leader, from the copy to the return.\<close>

definition reconcile_leader where
  "reconcile_leader api sv ctx n original wr ws =
     (case PreProcessReconcile (sv_clock sv) n original of
        None \<Rightarrow> None
      | Some (n, resource) \<Rightarrow>
          (case ReconcileKind sv ctx n resource wr of
             None \<Rightarrow> None
           | Some (reconcileEvent, n, resource, wr, evs) \<Rightarrow>
               let (n, resource) = PostProcessReconcile (sv_clock sv) n resource original;
                   (err, ws) = (if status_DeepEqual (ing_Status original) (ing_Status resource) then (None, ws)
                                else updateStatus api original resource ws)
               in Some (case err of
                    Some err \<Rightarrow> (Some err, n, wr, ws, map FromReconcile evs @ [Recorded ''Warning'' ''UpdateFailed''])
                  | None \<Rightarrow>
                      (let (ret, more) = report_event reconcileEvent
                       in (ret, n, wr, ws, map FromReconcile evs @ more)))))"

text \<open>An Ingress that is being deleted is left alone: the reconciler has no finalizer.\<close>

definition Reconcile where
  "Reconcile is_leader api sv ctx n key wr ws =
     (case reconcile_selects is_leader (\<lambda>ns name. ia_lister api ns name ws) is_deleted GatewayAPIIngressClassName key of
        InvalidKey \<Rightarrow> Some (None, n, wr, ws, [])
      | NotLeader err \<Rightarrow> Some (Some err, n, wr, ws, [])
      | NoLongerExists \<Rightarrow> Some (None, n, wr, ws, [])
      | LookupFailed err \<Rightarrow> Some (Some err, n, wr, ws, [])
      | OtherClass \<Rightarrow> Some (None, n, wr, ws, [])
      | BeingDeleted original \<Rightarrow> Some (None, n, wr, ws, [])
      | ReconcileIt original \<Rightarrow> reconcile_leader api sv ctx n original wr ws)"

text \<open>What \<open>processNextWorkItem\<close> and \<open>handleErr\<close> do with the key.\<close>

datatype requeue = Forgotten | AddAfter int | AddRateLimited

definition handleErr :: "bool \<Rightarrow> error option \<Rightarrow> requeue" where
  "handleErr shutting_down err =
     (case err of
        None \<Rightarrow> Forgotten
      | Some e \<Rightarrow>
          if IsSkipKey e then Forgotten
          else case IsRequeueKey e of
                 Some delay \<Rightarrow> AddAfter delay
               | None \<Rightarrow> if \<not> IsPermanentError e \<and> \<not> shutting_down then AddRateLimited else Forgotten)"

definition processNextWorkItem where
  "processNextWorkItem shutting_down is_leader api sv ctx n key wr ws =
     map_option (\<lambda>(err, n, wr, ws, evs). (handleErr shutting_down err, n, wr, ws, evs))
       (Reconcile is_leader api sv ctx n (safeKey key) wr ws)"

section \<open>What a reconciliation leaves alone\<close>

lemma reconcileIngress_meta:
  "reconcileIngress sv ctx n ing w = Some (err, n', ing', w', evs) \<Longrightarrow> ing_Meta ing' = ing_Meta ing"
proof -
  assume run: "reconcileIngress sv ctx n ing w = Some (err, n', ing', w', evs)"
  then obtain prior where prior: "Ingress_SetDefaults ing = Some prior"
    by (cases "Ingress_SetDefaults ing") (auto simp: reconcileIngress_def)
  let ?st = "Ingress_InitializeConditions (sv_clock sv) (n, ing_Status prior)"
  obtain res ing1 where ins: "InsertProbe (sv_marshal sv) (sv_sha256 sv) (prior\<lparr>ing_Status := snd ?st\<rparr>) = (res, ing1)"
    by fastforce
  have meta: "ing_Meta ing1 = ing_Meta ing"
  proof -
    have "ing_Meta ing1 = ing_Meta prior"
      using InsertProbe_status(2) [of "sv_marshal sv" "sv_sha256 sv" "prior\<lparr>ing_Status := snd ?st\<rparr>"]
      unfolding ins by simp
    then show ?thesis using SetDefaults_frame [OF prior] by simp
  qed
  show ?thesis
    using run prior ins meta
    by (cases res) (auto simp: reconcileIngress_def Let_def split: bind_splits option.splits)
qed

lemma ReconcileKind_meta:
  "ReconcileKind sv ctx n ing w = Some (err, n', ing', w', evs) \<Longrightarrow> ing_Meta ing' = ing_Meta ing"
  by (auto simp: ReconcileKind_def Let_def dest!: reconcileIngress_meta split: option.splits)

lemma ReconcileKind_error:
  assumes "ReconcileKind sv ctx n ing0 w = Some (Some e, n', ing', w', evs)" and "status_inv (ing_Status ing0)"
  shows "\<not> IsTrue (GetCondition ConditionReady (st_Conditions (ing_Status ing'))) \<and> status_inv (ing_Status ing')"
proof -
  from assms(1) obtain n1 ing1 where
    run: "reconcileIngress sv ctx n ing0 w = Some (Some e, n1, ing1, w', evs)"
    and st: "(n', ing_Status ing') = MarkIngressNotReady (sv_clock sv) notReconciledReason
      notReconciledMessage (n1, ing_Status ing1)"
    by (auto simp: ReconcileKind_def Let_def split: option.splits)
  have inv: "status_inv (ing_Status ing1)" by (rule reconcileIngress_inv [OF run assms(2)])
  have "cstat ''Ready'' (n', ing_Status ing') \<noteq> Some ConditionTrue"
    using inv by (simp add: st cstat_MarkIngressNotReady)
  moreover have "status_inv (snd (n', ing_Status ing'))" using inv by (simp only: st) (simp add: keeps_wf)
  ultimately show ?thesis by (simp add: cstat_status_of)
qed

lemma ReconcileKind_inv:
  assumes "ReconcileKind sv ctx n ing0 w = Some (err, n', ing', w', evs)" and "status_inv (ing_Status ing0)"
  shows "status_inv (ing_Status ing')"
proof (cases err)
  case None
  with assms(1) have "reconcileIngress sv ctx n ing0 w = Some (None, n', ing', w', evs)"
    by (auto simp: ReconcileKind_def Let_def split: option.splits)
  then show ?thesis by (rule reconcileIngress_inv [OF _ assms(2)])
next
  case (Some e)
  then show ?thesis using ReconcileKind_error [of sv ctx n ing0 w e] assms by simp
qed

lemma PreProcess_frame:
  assumes "PreProcessReconcile clk n ing = Some (n', pre)" and "status_inv (ing_Status ing)"
  shows "ing_Meta pre = ing_Meta ing \<and> status_inv (ing_Status pre)"
proof -
  from assms(1) obtain prior where prior: "Ingress_SetDefaults ing = Some prior"
    by (cases "Ingress_SetDefaults ing") (auto simp: PreProcessReconcile_def)
  have inv: "status_inv (snd (n, ing_Status prior))" using SetDefaults_frame [OF prior] assms(2) by simp
  note init = status_inv_marks(1) [OF inv, of clk]
  have "status_inv (snd (manage_ingress (MarkUnknown clk ingressCondSet ''Ready'' reason msg)
      (Ingress_InitializeConditions clk (n, ing_Status prior))))" for reason msg
    using keeps_wf init by (simp add: MarkIngressNotReady_def [symmetric])
  then show ?thesis
    using assms(1) prior SetDefaults_frame [OF prior] init by (auto simp: PreProcessReconcile_def Let_def)
qed

section \<open>Grooming\<close>

text \<open>Grooming only chooses the time.\<close>

lemma groom_condition_time: "\<exists>time. groom_condition now olds c = c\<lparr>cd_LastTransitionTime := time\<rparr>"
proof (cases "GetCondition (cd_Type c) olds")
  case None
  then show ?thesis by (auto simp: groom_condition_def)
next
  case (Some old)
  have "groom_condition now olds c =
      c\<lparr>cd_LastTransitionTime := if c\<lparr>cd_LastTransitionTime := cd_LastTransitionTime old\<rparr> = old
          then cd_LastTransitionTime old else now\<rparr>"
    unfolding groom_condition_def Some Let_def option.case by (split if_split) simp
  then show ?thesis by (rule exI)
qed

lemma groom_simps [simp]:
  "cd_Type (groom_condition now olds c) = cd_Type c" "cd_Status (groom_condition now olds c) = cd_Status c"
  "cd_Severity (groom_condition now olds c) = cd_Severity c"
  using groom_condition_time [of now olds c] by (auto simp: condition.simps)

lemma GetCondition_groom:
  "GetCondition t (map (groom_condition now olds) cs) = map_option (groom_condition now olds) (GetCondition t cs)"
  by (induction cs) (simp_all add: GetCondition_def)

lemma groomed_ready:
  "status_of t (map (groom_condition now olds) cs) = status_of t cs"
  by (cases "GetCondition t cs") (simp_all add: GetCondition_groom status_of_def)

lemma cond_inv_groom: "cond_inv r (map (groom_condition now olds) cs) = cond_inv r cs"
proof -
  have types: "map cd_Type (map (groom_condition now olds) cs) = map cd_Type cs" by simp
  then have "managed r (map (groom_condition now olds) cs) = managed r cs"
    unfolding managed_def distinct_types_def types by simp
  moreover have "valid_status (map (groom_condition now olds) cs) = valid_status cs"
    by (simp add: valid_status_def list_all_iff)
  ultimately show ?thesis by (simp add: cond_inv_def happy_sound_def groomed_ready)
qed

lemma groomed_time:
  assumes "GetCondition (cd_Type c) olds = Some old" and "forget_time (groom_condition now olds c) = forget_time old"
  shows "groom_condition now olds c = old"
  using assms by (cases c; cases old) (auto simp: groom_condition_def forget_time_def Let_def split: if_splits)

section \<open>The status of the stored Ingress\<close>

lemma status_DeepEqual_parts:
  "status_DeepEqual a b \<Longrightarrow> st_ObservedGeneration a = st_ObservedGeneration b \<and> st_Conditions a = st_Conditions b"
  by (cases a; cases b) (auto simp: status_DeepEqual_def)

definition store_api :: "(string \<Rightarrow> string \<Rightarrow> 's \<Rightarrow> error + ingress) \<Rightarrow>
    (string \<Rightarrow> ingress \<Rightarrow> 's \<Rightarrow> (error + ingress) \<times> 's) \<Rightarrow> 's ingress_api" where
  "store_api get update = \<lparr>ia_lister = get, ia_get = get, ia_updateStatus = update\<rparr>"

text \<open>What the status of an Ingress that a worker is done with says.\<close>

definition tells :: "ingress \<Rightarrow> error option \<Rightarrow> ingress \<Rightarrow> ingress \<Rightarrow> bool" where
  "tells ing err res ing' \<longleftrightarrow>
     ing_Meta ing' = ing_Meta ing \<and> ing_Spec ing' = ing_Spec ing \<and> status_inv (ing_Status ing') \<and>
     st_ObservedGeneration (ing_Status ing') = om_Generation (ing_Meta ing) \<and>
     (Ingress_IsReady ing' \<longleftrightarrow> IsTrue (GetCondition ConditionReady (st_Conditions (ing_Status res)))) \<and>
     (err \<noteq> None \<longrightarrow> \<not> Ingress_IsReady ing') \<and>
     (\<forall>c \<in> set (st_Conditions (ing_Status ing')). \<forall>old.
        GetCondition (cd_Type c) (st_Conditions (ing_Status ing)) = Some old \<longrightarrow> forget_time c = forget_time old \<longrightarrow> c = old)"

lemma groomed_tells:
  assumes "ing_Meta res = ing_Meta ing" and "PostProcessReconcile clk n res ing = (n', post)"
    and "ing_Meta ing' = ing_Meta ing" and "ing_Spec ing' = ing_Spec ing"
    and "st_ObservedGeneration (ing_Status ing') = st_ObservedGeneration (ing_Status post)"
    and "st_Conditions (ing_Status ing') = st_Conditions (ing_Status post)"
    and "err \<noteq> None \<Longrightarrow> \<not> IsTrue (GetCondition ConditionReady (st_Conditions (ing_Status res)))"
    and "status_inv (ing_Status res)"
  shows "tells ing err res ing'"
proof -
  have post: "st_ObservedGeneration (ing_Status post) = om_Generation (ing_Meta ing)"
    "st_Conditions (ing_Status post) =
       map (groom_condition (clk n) (st_Conditions (ing_Status ing))) (st_Conditions (ing_Status res))"
    using assms(1,2) by (auto simp: PostProcessReconcile_def Let_def)
  have ready: "Ingress_IsReady ing' \<longleftrightarrow> IsTrue (GetCondition ConditionReady (st_Conditions (ing_Status res)))"
    by (simp add: Ingress_IsReady_def assms(3,5,6) post groomed_ready)
  have inv: "status_inv (ing_Status ing')"
    using assms(8) by (simp add: status_inv_def assms(6) post(2) cond_inv_groom)
  have "c = old" if "c \<in> set (st_Conditions (ing_Status ing'))"
      "GetCondition (cd_Type c) (st_Conditions (ing_Status ing)) = Some old" "forget_time c = forget_time old" for c old
    using that groomed_time by (auto simp: assms(6) post(2))
  then show ?thesis
    unfolding tells_def using assms(3,4,5,7) ready post(1) inv by simp
qed

locale ingress_store = object_store get create update ing_Meta good
  for get :: "string \<Rightarrow> string \<Rightarrow> 's \<Rightarrow> error + ingress"
    and create :: "string \<Rightarrow> ingress \<Rightarrow> 's \<Rightarrow> (error + ingress) \<times> 's"
    and update :: "string \<Rightarrow> ingress \<Rightarrow> 's \<Rightarrow> (error + ingress) \<times> 's"
    and good :: "'s \<Rightarrow> bool"
begin

lemma updateStatus_stores:
  assumes "good w" and "get ns name w = Inr ing" and "\<not> status_DeepEqual (ing_Status ing) (ing_Status desired)"
  shows "\<exists>w'. updateStatus (store_api get update) ing desired w = (None, w') \<and>
    good w' \<and> get ns name w' = Inr (ing\<lparr>ing_Status := ing_Status desired\<rparr>) \<and>
    (\<forall>ns2 n2. (ns2, n2) \<noteq> (ns, name) \<longrightarrow> get ns2 n2 w' = get ns2 n2 w)"
proof -
  let ?new = "ing\<lparr>ing_Status := ing_Status desired\<rparr>"
  have key: "om_Namespace (ing_Meta ing) = ns" "om_Name (ing_Meta ing) = name"
    using get_key [OF assms(1,2)] by simp_all
  obtain r w' where run: "update ns ?new w = (r, w')" by fastforce
  have "r = Inr ?new \<and> good w' \<and> get ns name w' = Inr ?new \<and>
      (\<forall>ns2 n2. (ns2, n2) \<noteq> (ns, name) \<longrightarrow> get ns2 n2 w' = get ns2 n2 w)"
    by (rule update_present [OF assms(1) _ _ assms(2) run]) (simp_all add: key)
  then show ?thesis
    using run assms(3) key
    by (simp add: updateStatus_def RetryUpdateConflicts_def store_api_def eval_nat_numeral)
qed

lemma leader_stores:
  assumes "good ws" and "get ns name ws = Inr ing" and "status_inv (ing_Status ing)"
    and "reconcile_leader (store_api get update) sv ctx n ing wr ws = Some (ret, n', wr', ws', evs)"
  shows "\<exists>n1 pre err n2 res kevs ing'. PreProcessReconcile (sv_clock sv) n ing = Some (n1, pre) \<and>
    ReconcileKind sv ctx n1 pre wr = Some (err, n2, res, wr', kevs) \<and> ret = fst (report_event err) \<and>
    get ns name ws' = Inr ing' \<and> tells ing err res ing' \<and> good ws' \<and>
    (\<forall>ns2 n2. (ns2, n2) \<noteq> (ns, name) \<longrightarrow> get ns2 n2 ws' = get ns2 n2 ws)"
proof -
  from assms(4) obtain n1 pre where pre: "PreProcessReconcile (sv_clock sv) n ing = Some (n1, pre)"
    by (auto simp: reconcile_leader_def split: option.splits)
  note frame = PreProcess_frame [OF pre assms(3)]
  from assms(4) pre obtain err n2 res wr2 kevs where kind: "ReconcileKind sv ctx n1 pre wr = Some (err, n2, res, wr2, kevs)"
    by (cases "ReconcileKind sv ctx n1 pre wr") (auto simp: reconcile_leader_def)
  obtain n3 post where post: "PostProcessReconcile (sv_clock sv) n2 res ing = (n3, post)" by fastforce
  have meta: "ing_Meta res = ing_Meta ing" using ReconcileKind_meta [OF kind] frame by simp
  have failed: "err \<noteq> None \<Longrightarrow> \<not> IsTrue (GetCondition ConditionReady (st_Conditions (ing_Status res)))"
    using ReconcileKind_error [of sv ctx n1 pre wr _ n2 res wr2 kevs] kind frame by auto
  have res_inv: "status_inv (ing_Status res)" using ReconcileKind_inv [OF kind] frame by simp
  note told = groomed_tells [OF meta post _ _ _ _ failed res_inv]
  show ?thesis
  proof (cases "status_DeepEqual (ing_Status ing) (ing_Status post)")
    case True
    have "tells ing err res ing" using status_DeepEqual_parts [OF True] by (intro told) simp_all
    then show ?thesis
      using assms(1,2,4) pre kind post True by (auto simp: reconcile_leader_def Let_def split: prod.splits)
  next
    case False
    obtain w' where upd: "updateStatus (store_api get update) ing post ws = (None, w')" "good w'"
        "get ns name w' = Inr (ing\<lparr>ing_Status := ing_Status post\<rparr>)"
        "\<forall>ns2 n2. (ns2, n2) \<noteq> (ns, name) \<longrightarrow> get ns2 n2 w' = get ns2 n2 ws"
      using updateStatus_stores [OF assms(1,2) False] by blast
    have "tells ing err res (ing\<lparr>ing_Status := ing_Status post\<rparr>)" by (intro told) simp_all
    then show ?thesis
      using assms(4) pre kind post False upd by (auto simp: reconcile_leader_def Let_def split: prod.splits)
  qed
qed

end

section \<open>Over the fake API server\<close>

definition ingressesResource :: group_version_resource where
  "ingressesResource = \<lparr>gvr_Group = ''networking.internal.knative.dev'', gvr_Version = ''v1alpha1'', gvr_Resource = ''ingresses''\<rparr>"

abbreviation ingress_get :: "string \<Rightarrow> string \<Rightarrow> ingress tracker \<Rightarrow> error + ingress" where
  "ingress_get \<equiv> tracker_Get ingressesResource"

abbreviation ingress_update :: "string \<Rightarrow> ingress \<Rightarrow> ingress tracker \<Rightarrow> (error + ingress) \<times> ingress tracker" where
  "ingress_update \<equiv> react_update ing_Meta ing_Meta_update ingressesResource"

interpretation stored_ingresses: ingress_store ingress_get "react_create ing_Meta ing_Meta_update ingressesResource"
    ingress_update "tracker_good ing_Meta ingressesResource"
  unfolding ingress_store_def by (rule tracker_store_laws) simp

text \<open>C7. A worker records what it did. When it takes the key of a cached Ingress of the class, the stored Ingress
  afterwards keeps its metadata and spec, has its current generation observed, and is ready exactly if
  \<open>ReconcileKind\<close> left it ready, so never after an error; a condition that did not change keeps its
  time, and no other Ingress is touched. What becomes of the key is decided by the error of
  \<open>ReconcileKind\<close> alone.\<close>

theorem worker_records_status:
  assumes "tracker_good ing_Meta ingressesResource ws" and "ingress_get ns name ws = Inr ing"
    and "class_set ing" and "\<not> is_deleted ing" and "is_leader (ns, name)"
    and "CHR ''/'' \<notin> set ns" and "CHR ''/'' \<notin> set name" and "status_inv (ing_Status ing)"
    and "processNextWorkItem down is_leader (store_api ingress_get ingress_update) sv ctx n (ns, name) wr ws =
      Some (todo, n', wr', ws', evs)"
  shows "\<exists>n1 pre err n2 res kevs ing'. PreProcessReconcile (sv_clock sv) n ing = Some (n1, pre) \<and>
    ReconcileKind sv ctx n1 pre wr = Some (err, n2, res, wr', kevs) \<and>
    todo = handleErr down (fst (report_event err)) \<and> ingress_get ns name ws' = Inr ing' \<and> tells ing err res ing' \<and>
    (\<forall>ns2 n2. (ns2, n2) \<noteq> (ns, name) \<longrightarrow> ingress_get ns2 n2 ws' = ingress_get ns2 n2 ws)"
proof -
  have "reconcile_selects is_leader (\<lambda>ns name. ia_lister (store_api ingress_get ingress_update) ns name ws) is_deleted
      GatewayAPIIngressClassName (safeKey (ns, name)) = ReconcileIt ing"
    using selects_class [where is_leader = is_leader and getter = "\<lambda>ns name. ingress_get ns name ws" and ing = ing
      and deleted = is_deleted, OF assms(6,7)] assms(2-5)
    by (simp add: store_api_def)
  then obtain ret where todo: "todo = handleErr down ret"
    and run: "reconcile_leader (store_api ingress_get ingress_update) sv ctx n ing wr ws = Some (ret, n', wr', ws', evs)"
    using assms(9) by (auto simp: processNextWorkItem_def Reconcile_def)
  show ?thesis
    using stored_ingresses.leader_stores [OF assms(1,2,8) run] unfolding todo by blast
qed

definition stored_sample :: "ingress tracker" where
  "stored_sample = set_objects ingressesResource (fmap_of_list [((''ns'', ''ing''), classed_ingress)]) NewObjectTracker"

theorem worker_records_status_witness:
  "\<exists>ws' ing'. ingress_get ''ns'' ''ing'' ws' = Inr ing' \<and> Ingress_IsReady ing' = False \<and> ing_Spec ing' = ing_Spec classed_ingress \<and>
    map_option (\<lambda>(todo, n', wr', ws', evs). (todo, ws')) (processNextWorkItem False (\<lambda>_. True)
      (store_api ingress_get ingress_update) ((sample_services True)\<lparr>sv_marshal := (\<lambda>_. Inl (OtherError ''x''))\<rparr>)
      sample_ctx 0 (''ns'', ''ing'') NewObjectTracker stored_sample) = Some (AddRateLimited, ws')"
proof -
  let ?sv = "(sample_services True)\<lparr>sv_marshal := (\<lambda>_. Inl (OtherError ''x''))\<rparr>"
  let ?run = "processNextWorkItem False (\<lambda>_. True) (store_api ingress_get ingress_update) ?sv sample_ctx 0
    (''ns'', ''ing'') NewObjectTracker stored_sample"
  have "map_option fst ?run = Some AddRateLimited" by code_simp
  then obtain n' wr' ws' evs where run: "?run = Some (AddRateLimited, n', wr', ws', evs)" by auto
  have get: "ingress_get ''ns'' ''ing'' stored_sample = Inr classed_ingress"
    by (simp add: tracker_Get_objects stored_sample_def fmlookup_of_list)
  have good: "tracker_good ing_Meta ingressesResource stored_sample"
    by (simp add: tracker_good_def stored_sample_def fmpred_iff fmlookup_of_list classed_ingress_def sample_ingress_def)
  have "class_set classed_ingress" "\<not> is_deleted classed_ingress" "status_inv (ing_Status classed_ingress)"
    by (simp_all add: class_set_def is_deleted_def classed_ingress_def sample_ingress_def empty_meta_def fmlookup_of_list)
  note this [simp]
  obtain err res ing' where todo: "AddRateLimited = handleErr False (fst (report_event err))"
    and ing': "ingress_get ''ns'' ''ing'' ws' = Inr ing'" "tells classed_ingress err res ing'"
    using worker_records_status [OF good get _ _ _ _ _ _ run] by auto
  from todo have "err \<noteq> None" by (cases err) (simp_all add: report_event_def handleErr_def)
  with ing' run show ?thesis by (auto simp: tells_def)
qed

end
