(* ===== verification/Cluster.thy ===== *)
theory Cluster
  imports ProbedReconcile Worker
begin

text \<open>
  The whole controller in its cluster: users edit Ingresses, informers notify the handlers, workers reconcile
  the keys of the queue over the API server and the status prober, the prober probes the gateway and calls
  back, the gateway implementation writes the status of routes, and configurations and endpoints change. Any of
  these steps may come next.

  A worker's step is one run of \<open>processNextWorkItem\<close>. The status prober works inside its own, finer steps
  (\<open>Prober\<close>); only its call \<open>IsReady\<close> is taken as a whole, which is one of its runs (\<open>IsReady_runs\<close>).
  The listers read the API server, as they do once the informers have caught up.
\<close>

section \<open>The cluster\<close>

text \<open>What the libraries provide, and the election of the leader.\<close>

record libs =
  lb_marshal :: "ingress_spec \<Rightarrow> error + string"
  lb_sha256 :: "string \<Rightarrow> string"
  lb_clock :: clock
  lb_domain :: string
  lb_leader :: "namespaced_name \<Rightarrow> bool"

record 'n cluster =
  cl_ctx :: "'n ctx"                                                  \<comment> \<open>the configurations of the store\<close>
  cl_endpoints :: "string \<Rightarrow> string \<Rightarrow> error + endpoints"
  cl_ingresses :: "ingress tracker"
  cl_routes :: "http_route tracker"
  cl_prober :: prober
  cl_queue :: work_queue
  cl_waiting :: "namespaced_name list"                                \<comment> \<open>keys to be added again after a delay\<close>
  cl_ticks :: nat                                                     \<comment> \<open>readings of the clock\<close>

definition start_cluster :: "'n ctx \<Rightarrow> (string \<Rightarrow> string \<Rightarrow> error + endpoints) \<Rightarrow> 'n cluster" where
  "start_cluster ctx endpoints = \<lparr>cl_ctx = ctx, cl_endpoints = endpoints, cl_ingresses = NewObjectTracker,
     cl_routes = NewObjectTracker, cl_prober = NewProber,
     cl_queue = \<lparr>wq_fast = [], wq_slow = [], wq_ShuttingDown = False\<rparr>, cl_waiting = [], cl_ticks = 0\<rparr>"

text \<open>Without a gateway configuration listing the targets panics; the workers below always have one.\<close>

definition list_targets ::
  "(string \<Rightarrow> string \<Rightarrow> error + endpoints) \<Rightarrow> 'n ctx \<Rightarrow> ingress \<Rightarrow> error + probe_target list" where
  "list_targets endpoints ctx ing =
     (case ListProbeTargets endpoints ctx ing of Some res \<Rightarrow> res | None \<Rightarrow> Inl NoGatewayPods)"

definition route_services :: "libs \<Rightarrow> http_route tracker services" where
  "route_services lb = \<lparr>sv_get = route_get, sv_create = route_create, sv_update = route_update,
     sv_IsReady = (\<lambda>_ w. (Inr False, w)), sv_marshal = lb_marshal lb, sv_sha256 = lb_sha256 lb,
     sv_clock = lb_clock lb, sv_domain = lb_domain lb\<rparr>"

definition cluster_services :: "libs \<Rightarrow> 'n cluster \<Rightarrow> (http_route tracker \<times> prober) services" where
  "cluster_services lb s = with_prober (route_services lb) (list_targets (cl_endpoints s) (cl_ctx s))"

abbreviation ingress_create :: "string \<Rightarrow> ingress \<Rightarrow> ingress tracker \<Rightarrow> (error + ingress) \<times> ingress tracker" where
  "ingress_create \<equiv> react_create ing_Meta ing_Meta_update ingressesResource"

section \<open>Steps\<close>

text \<open>A worker gets a key from one of the lanes.\<close>

definition take_key :: "namespaced_name \<Rightarrow> work_queue \<Rightarrow> work_queue option" where
  "take_key key q =
     (if key \<in> set (wq_fast q) then Some (q\<lparr>wq_fast := removeAll key (wq_fast q)\<rparr>)
      else if key \<in> set (wq_slow q) then Some (q\<lparr>wq_slow := removeAll key (wq_slow q)\<rparr>)
      else None)"

definition work :: "libs \<Rightarrow> namespaced_name \<Rightarrow> 'n cluster \<Rightarrow> 'n cluster option" where
  "work lb key s =
     (if gateway_of (cl_ctx s) = None then None
      else Option.bind (take_key key (cl_queue s)) (\<lambda>q.
        map_option (\<lambda>(todo, n, (routes, p), ingresses, evs).
          s\<lparr>cl_ingresses := ingresses, cl_routes := routes, cl_prober := p, cl_queue := q, cl_ticks := n,
            cl_waiting := (if todo = Forgotten then cl_waiting s else cl_waiting s @ [key])\<rparr>)
          (processNextWorkItem (wq_ShuttingDown q) (lb_leader lb) (store_api ingress_get ingress_update)
            (cluster_services lb s) (cl_ctx s) (cl_ticks s) key (cl_routes s, cl_prober s) (cl_ingresses s))))"

text \<open>The callbacks a step of the prober makes, oldest first.\<close>

definition called_back :: "prober \<Rightarrow> prober \<Rightarrow> ingress list" where
  "called_back p p' = map (\<lambda>i. igs_ing (pb_ings p' ! i))
     (rev (take (length (pb_callbacks p') - length (pb_callbacks p)) (pb_callbacks p')))"

text \<open>What the API server makes of a user's update: the status stays, and a new spec is a new generation.\<close>

definition updated_by_user :: "ingress \<Rightarrow> ingress \<Rightarrow> bool" where
  "updated_by_user old ing \<longleftrightarrow> ingress_key ing = ingress_key old \<and> ing_Status ing = ing_Status old \<and>
     om_Generation (ing_Meta ing) = om_Generation (ing_Meta old) + of_bool (ing_Spec ing \<noteq> ing_Spec old)"

text \<open>Who makes a step: the controller with its prober and informers, the gateway implementation, or others.\<close>

datatype actor = Controller | Gateway | Others

inductive cluster_step :: "libs \<Rightarrow> 'n cluster \<Rightarrow> actor \<Rightarrow> 'n cluster \<Rightarrow> bool" for lb where
  user_creates: "ing_Status ing = empty_status \<Longrightarrow> om_Generation (ing_Meta ing) = 1 \<Longrightarrow> ingress_key ing = (ns, n) \<Longrightarrow>
    ingress_get ns n (cl_ingresses s) = Inl err \<Longrightarrow>
    cluster_step lb s Others (s\<lparr>cl_ingresses := snd (ingress_create ns ing (cl_ingresses s))\<rparr>)"
| user_updates: "ingress_get ns n (cl_ingresses s) = Inr old \<Longrightarrow> updated_by_user old ing \<Longrightarrow>
    cluster_step lb s Others (s\<lparr>cl_ingresses := snd (ingress_update ns ing (cl_ingresses s))\<rparr>)"
| user_deletes:
    "cluster_step lb s Others (s\<lparr>cl_ingresses := snd (tracker_Delete ingressesResource ns n (cl_ingresses s))\<rparr>)"
| pods_change: "cluster_step lb s Others (s\<lparr>cl_endpoints := endpoints\<rparr>)"
| configure: "cluster_step lb s Others (s\<lparr>cl_ctx := ctx,
    cl_queue := GlobalResync ing_Meta (tracker_List ing_Meta ingressesResource '''' (cl_ingresses s)) (cl_queue s)\<rparr>)"
| gateway_reports: "route_get ns n (cl_routes s) = Inr r \<Longrightarrow>
    cluster_step lb s Gateway (s\<lparr>cl_routes := snd (route_update ns (r\<lparr>hr_Status := st\<rparr>) (cl_routes s))\<rparr>)"
| ingress_event: "ingress_get ns n (cl_ingresses s) = Inr ing \<Longrightarrow> ev \<in> {OnAdd (Live ing), OnUpdate older (Live ing)} \<Longrightarrow>
    cluster_step lb s Controller (s\<lparr>cl_queue := ingressHandler ev (cl_queue s)\<rparr>)"
| ingress_gone: "cluster_step lb s Controller (s\<lparr>cl_queue := ingressHandler (OnDelete last_ing) (cl_queue s)\<rparr>)"
| route_event: "route_get ns n (cl_routes s) = Inr r \<Longrightarrow> ev \<in> {OnAdd (Live r), OnUpdate older (Live r)} \<Longrightarrow>
    cluster_step lb s Controller (s\<lparr>cl_queue := httprouteHandler ev (cl_queue s)\<rparr>)"
| route_gone: "cluster_step lb s Controller (s\<lparr>cl_queue := httprouteHandler (OnDelete last_route) (cl_queue s)\<rparr>)"
| worker: "work lb key s = Some s' \<Longrightarrow> cluster_step lb s Controller s'"
| added_again: "key \<in> set (cl_waiting s) \<Longrightarrow>
    cluster_step lb s Controller (s\<lparr>cl_waiting := remove1 key (cl_waiting s), cl_queue := EnqueueKey key (cl_queue s)\<rparr>)"
| probing: "prober_step (hex_hash (lb_marshal lb) (lb_sha256 lb)) (cl_prober s) Internal p' \<Longrightarrow>
    same_records (cl_prober s) p' \<Longrightarrow>
    cluster_step lb s Controller (s\<lparr>cl_prober := p',
      cl_queue := fold readyCallback (called_back (cl_prober s) p') (cl_queue s)\<rparr>)"

inductive cluster_reachable :: "libs \<Rightarrow> 'n cluster \<Rightarrow> bool" for lb where
  start: "cluster_reachable lb (start_cluster ctx endpoints)"
| step: "cluster_reachable lb s \<Longrightarrow> cluster_step lb s a s' \<Longrightarrow> cluster_reachable lb s'"

section \<open>The invariant\<close>

text \<open>Every version on record was listed for its Ingress, with some endpoints and configuration.\<close>

definition versions_listed :: "'n cluster \<Rightarrow> bool" where
  "versions_listed s \<longleftrightarrow> (\<forall>i < length (pb_ings (cl_prober s)). \<exists>endpoints (ctx :: 'n ctx).
     list_targets endpoints ctx (igs_ing (pb_ings (cl_prober s) ! i)) = Inr (igs_targets (pb_ings (cl_prober s) ! i)))"

definition ingress_inv :: "libs \<Rightarrow> prober \<Rightarrow> ingress \<Rightarrow> bool" where
  "ingress_inv lb p ing \<longleftrightarrow> status_inv (ing_Status ing) \<and>
     st_ObservedGeneration (ing_Status ing) \<le> om_Generation (ing_Meta ing) \<and>
     (Ingress_IsReady ing \<longrightarrow> probed_version (lb_marshal lb) (lb_sha256 lb) p ing)"

definition prober_ok :: "libs \<Rightarrow> prober \<Rightarrow> bool" where
  "prober_ok lb p \<longleftrightarrow> reachable (hex_hash (lb_marshal lb) (lb_sha256 lb)) no_pod_cancelled p \<and>
     pb_calls p = fmempty \<and> \<not> pb_shutdown p"

definition ingresses_ok :: "libs \<Rightarrow> prober \<Rightarrow> ingress tracker \<Rightarrow> bool" where
  "ingresses_ok lb p t \<longleftrightarrow> tracker_good ing_Meta ingressesResource t \<and>
     (\<forall>ns n ing. ingress_get ns n t = Inr ing \<longrightarrow> ingress_inv lb p ing)"

definition cluster_inv :: "libs \<Rightarrow> 'n cluster \<Rightarrow> bool" where
  "cluster_inv lb s \<longleftrightarrow> route_store_good (cl_routes s) \<and> prober_ok lb (cl_prober s) \<and> versions_listed s \<and>
     ingresses_ok lb (cl_prober s) (cl_ingresses s) \<and> \<not> wq_ShuttingDown (cl_queue s)"

lemma ingress_inv_grows: "grows p p' \<Longrightarrow> ingress_inv lb p ing \<Longrightarrow> ingress_inv lb p' ing"
  by (auto simp: ingress_inv_def intro: probed_version_grows)

lemma ingresses_ok_grows: "grows p p' \<Longrightarrow> ingresses_ok lb p t \<Longrightarrow> ingresses_ok lb p' t"
  by (auto simp: ingresses_ok_def intro: ingress_inv_grows)

lemma start_inv: "cluster_inv lb (start_cluster ctx endpoints)"
  by (simp add: cluster_inv_def start_cluster_def tracker_good_new prober_ok_def reachable.start versions_listed_def
      ingresses_ok_def tracker_Get_objects) (simp add: NewProber_def)

subsection \<open>Workers\<close>

lemma processNextWorkItem_cases:
  assumes "processNextWorkItem down leader (store_api get update) sv ctx n key wr ws = Some (todo, n', wr', ws', evs)"
  obtains (idle) "wr' = wr" "ws' = ws"
  | (leader) ns name ing ret where "get ns name ws = Inr ing"
      "reconcile_leader (store_api get update) sv ctx n ing wr ws = Some (ret, n', wr', ws', evs)"
      "todo = handleErr down ret"
proof -
  from assms obtain err where run: "Reconcile leader (store_api get update) sv ctx n (safeKey key) wr ws =
      Some (err, n', wr', ws', evs)" and todo: "todo = handleErr down err"
    by (auto simp: processNextWorkItem_def)
  let ?sel = "reconcile_selects leader (\<lambda>ns name. get ns name ws) is_deleted GatewayAPIIngressClassName (safeKey key)"
  show ?thesis
  proof (cases ?sel)
    case (ReconcileIt ing)
    then obtain ns name where "get ns name ws = Inr ing"
      by (auto simp: reconcile_selects_def split: prod.splits option.splits if_splits sum.splits)
    then show ?thesis using leader run todo ReconcileIt by (simp add: Reconcile_def store_api_def)
  qed (use idle run in \<open>simp_all add: Reconcile_def store_api_def\<close>)
qed

lemma PreProcess_spec:
  assumes "PreProcessReconcile clk n ing = Some (n', pre)"
  obtains prior where "Ingress_SetDefaults ing = Some prior" "ing_Spec pre = ing_Spec prior" "ing_Meta pre = ing_Meta ing"
  using assms SetDefaults_frame
  by (auto simp: PreProcessReconcile_def Let_def split: option.splits if_splits)

lemma ReconcileKind_run:
  assumes "ReconcileKind sv ctx n ing w = Some (err, n', res, w', evs)"
  obtains n1 ing1 where "reconcileIngress sv ctx n ing w = Some (err, n1, ing1, w', evs)" "err = None \<longrightarrow> ing1 = res"
  using assms by (auto simp: ReconcileKind_def Let_def split: option.splits)

lemma list_targets_records:
  assumes "IsReady marshal sha256 (list_targets (cl_endpoints s) (cl_ctx s)) prior p = (r, p')"
    and "cl_prober s = p" and "pb_calls p = fmempty" and "versions_listed s" and "grows p p'"
  shows "versions_listed (s\<lparr>cl_prober := p'\<rparr>)"
proof -
  have free: "fmlookup (pb_calls p) (ingress_key prior) = None" using assms(3) by simp
  from IsReady_records(3) [OF assms(1) free] assms(2,4,5) show ?thesis
    unfolding versions_listed_def grows_def by (auto simp: less_Suc_eq) metis+
qed

lemma work_inv:
  assumes inv: "cluster_inv lb s" and run: "work lb key s = Some s'"
  shows "cluster_inv lb s' \<and> grows (cl_prober s) (cl_prober s')"
proof -
  let ?sv = "cluster_services lb s" and ?api = "store_api ingress_get ingress_update"
  let ?m = "lb_marshal lb" and ?h = "lb_sha256 lb" and ?lt = "list_targets (cl_endpoints s) (cl_ctx s)"
  from run obtain q todo n routes p ingresses evs where q: "take_key key (cl_queue s) = Some q"
    and item: "processNextWorkItem (wq_ShuttingDown q) (lb_leader lb) ?api ?sv (cl_ctx s) (cl_ticks s) key
      (cl_routes s, cl_prober s) (cl_ingresses s) = Some (todo, n, (routes, p), ingresses, evs)"
    and s': "s' = s\<lparr>cl_ingresses := ingresses, cl_routes := routes, cl_prober := p, cl_queue := q, cl_ticks := n,
            cl_waiting := (if todo = Forgotten then cl_waiting s else cl_waiting s @ [key])\<rparr>"
    by (auto simp: work_def split: if_splits bind_splits)
  have down: "\<not> wq_ShuttingDown q" using q inv by (auto simp: take_key_def cluster_inv_def split: if_splits)
  from item show ?thesis
  proof (cases rule: processNextWorkItem_cases)
    case idle
    then show ?thesis using inv down by (simp add: s' cluster_inv_def versions_listed_def grows_refl)
  next
    case (leader ns name ing ret)
    note ok = inv [unfolded cluster_inv_def prober_ok_def]
    have good: "tracker_good ing_Meta ingressesResource (cl_ingresses s)" and ing: "ingress_inv lb (cl_prober s) ing"
      using ok leader(1) by (auto simp: ingresses_ok_def)
    then have st: "status_inv (ing_Status ing)" by (simp add: ingress_inv_def)
    from stored_ingresses.leader_stores [OF good leader(1) st leader(2)] obtain n1 pre err n2 res kevs ing' where
      pre: "PreProcessReconcile (sv_clock ?sv) (cl_ticks s) ing = Some (n1, pre)"
      and kind: "ReconcileKind ?sv (cl_ctx s) n1 pre (cl_routes s, cl_prober s) = Some (err, n2, res, (routes, p), kevs)"
      and stored: "ingress_get ns name ingresses = Inr ing'" "tells ing err res ing'"
        "tracker_good ing_Meta ingressesResource ingresses"
        "\<forall>ns2 n2. (ns2, n2) \<noteq> (ns, name) \<longrightarrow> ingress_get ns2 n2 ingresses = ingress_get ns2 n2 (cl_ingresses s)"
      by blast
    obtain prior where prior: "Ingress_SetDefaults ing = Some prior" "ing_Spec pre = ing_Spec prior" "ing_Meta pre = ing_Meta ing"
      using PreProcess_spec [OF pre] by blast
    obtain n3 ing1 where rec: "reconcileIngress ?sv (cl_ctx s) n1 pre (cl_routes s, cl_prober s) =
        Some (err, n3, ing1, (routes, p), kevs)" and res: "err = None \<longrightarrow> ing1 = res"
      by (rule ReconcileKind_run [OF kind])
    have free: "fmlookup (pb_calls (cl_prober s)) k = None" for k using ok by simp
    have sv: "sv_get (route_services lb) = route_get" "sv_create (route_services lb) = route_create"
        "sv_update (route_services lb) = route_update" "sv_marshal (route_services lb) = ?m" "sv_sha256 (route_services lb) = ?h"
      by (simp_all add: route_services_def)
    have routes: "route_store_good routes" and call: "p = cl_prober s \<or> (\<exists>prior r. IsReady ?m ?h ?lt prior (cl_prober s) = (r, p))"
      using reconcile_world [OF sv(1-3), of ?lt "cl_ctx s" n1 pre "cl_routes s" "cl_prober s"] rec ok
      by (auto simp: cluster_services_def sv)
    have p: "prober_ok lb p \<and> grows (cl_prober s) p \<and> versions_listed s'"
      using call
    proof
      assume "p = cl_prober s"
      then show ?thesis using ok by (simp add: prober_ok_def grows_refl s' versions_listed_def)
    next
      assume "\<exists>prior r. IsReady ?m ?h ?lt prior (cl_prober s) = (r, p)"
      then obtain i r where i: "IsReady ?m ?h ?lt i (cl_prober s) = (r, p)" by blast
      have inv_p: "prober_inv (hex_hash ?m ?h) (cl_prober s)" using ok reachable_inv by blast
      have g: "grows (cl_prober s) p" by (rule IsReady_grows [OF inv_p free i])
      have "reachable (hex_hash ?m ?h) no_pod_cancelled p"
      proof (cases "ComputeHash ?m ?h i")
        case (Inl e)
        then show ?thesis using i ok by (auto simp: IsReady_def Let_def)
      next
        case (Inr bytes)
        show ?thesis by (rule IsReady_reachable [OF _ _ free i Inr]) (use ok in simp_all)
      qed
      moreover have "versions_listed (s\<lparr>cl_prober := p\<rparr>)"
        by (rule list_targets_records [OF i refl]) (use ok g in simp_all)
      ultimately show ?thesis
        using ok g IsReady_records(1,2) [OF i free] by (simp add: prober_ok_def s' versions_listed_def)
    qed
    have "ingress_inv lb p ing'"
    proof -
      have "probed_version ?m ?h p ing'" if "Ingress_IsReady ing'"
      proof -
        have "err = None" "IsTrue (GetCondition ConditionReady (st_Conditions (ing_Status res)))"
          using that stored(2) by (auto simp: tells_def)
        with rec res have "reconcileIngress (with_prober (route_services lb) ?lt) (cl_ctx s) n1 pre (cl_routes s, cl_prober s) =
            Some (None, n3, res, (routes, p), kevs)" by (simp add: cluster_services_def)
        moreover have "status_inv (ing_Status pre)" using PreProcess_frame [OF pre st] by simp
        ultimately have "probed_version ?m ?h p pre"
          using ready_ingress_probed [of "route_services lb" "cl_prober s" pre ?lt "cl_ctx s" n1 "cl_routes s" n3 res routes p kevs]
            ok free sv \<open>IsTrue _\<close> by simp
        then have "probed_version ?m ?h p prior"
          using prior SetDefaults_frame [OF prior(1)] by (simp add: probed_version_cong [of pre prior] ingress_key_def)
        then have "probed_version ?m ?h p ing" by (rule probed_version_defaulted [OF prior(1)])
        then show ?thesis using stored(2) by (simp add: probed_version_cong [of ing' ing] tells_def ingress_key_def)
      qed
      then show ?thesis using stored(2) by (auto simp: ingress_inv_def tells_def)
    qed
    moreover have "ingresses_ok lb p (cl_ingresses s)" using ok p ingresses_ok_grows by blast
    ultimately have "ingresses_ok lb p ingresses"
      using stored unfolding ingresses_ok_def by (metis prod.inject sum.inject(2))
    then show ?thesis using routes p down by (simp add: s' cluster_inv_def)
  qed
qed

subsection \<open>The other steps\<close>

lemma deleted_objects:
  "objects_of gvr (snd (tracker_Delete gvr ns n t)) = fmdrop (ns, n) (objects_of gvr t)"
  by (auto simp: tracker_Delete_def objects_of_def push_event_def set_objects_def fmap_ext
      intro!: fmap_ext split: option.splits)

lemma deleted_ok:
  "ingresses_ok lb p t \<Longrightarrow> ingresses_ok lb p (snd (tracker_Delete ingressesResource ns n t))"
  by (auto simp: ingresses_ok_def tracker_good_def tracker_Get_objects deleted_objects fmpred_iff split: option.splits if_splits)

lemma stored_ok:
  assumes "ingresses_ok lb p t" and "tracker_good ing_Meta ingressesResource t'" and "ingress_inv lb p ing"
    and "ingress_get ns n t' = Inr ing" and "\<forall>ns2 n2. (ns2, n2) \<noteq> (ns, n) \<longrightarrow> ingress_get ns2 n2 t' = ingress_get ns2 n2 t"
  shows "ingresses_ok lb p t'"
  using assms unfolding ingresses_ok_def by (metis prod.inject sum.inject(2))

lemma created_ok:
  assumes "ingresses_ok lb p t" and "ing_Status ing = empty_status" and "om_Generation (ing_Meta ing) = 1"
    and "ingress_key ing = (ns, n)" and "ingress_get ns n t = Inl err"
  shows "ingresses_ok lb p (snd (ingress_create ns ing t))"
proof -
  obtain r t' where run: "ingress_create ns ing t = (r, t')" by fastforce
  have "tracker_good ing_Meta ingressesResource t" using assms(1) by (simp add: ingresses_ok_def)
  note new = stored_ingresses.create_absent [OF this _ _ assms(5) run]
  have "ingress_inv lb p ing"
    using assms(2,3) by (simp add: ingress_inv_def Ingress_IsReady_def empty_status_def [symmetric])
      (simp add: empty_status_def)
  then show ?thesis
    using stored_ok [OF assms(1), of t' ing ns n] new assms(4) by (simp add: run ingress_key_def)
qed

lemma updated_ok:
  assumes "ingresses_ok lb p t" and "ingress_get ns n t = Inr old" and "updated_by_user old ing"
  shows "ingresses_ok lb p (snd (ingress_update ns ing t))"
proof -
  obtain r t' where run: "ingress_update ns ing t = (r, t')" by fastforce
  have good: "tracker_good ing_Meta ingressesResource t" and old: "ingress_inv lb p old"
    using assms(1,2) by (auto simp: ingresses_ok_def)
  have key: "ingress_key ing = (ns, n)"
    using stored_ingresses.get_key [OF good assms(2)] assms(3) by (simp add: updated_by_user_def ingress_key_def)
  note new = stored_ingresses.update_present [OF good _ _ assms(2) run]
  have "ingress_inv lb p ing"
  proof (cases "ing_Spec ing = ing_Spec old")
    case True
    then have "probed_version m h p ing = probed_version m h p old" for m h
      using assms(3) by (intro probed_version_cong) (simp_all add: updated_by_user_def)
    then show ?thesis
      using old assms(3) True by (auto simp: ingress_inv_def updated_by_user_def Ingress_IsReady_def)
  next
    case False
    then show ?thesis
      using old assms(3) by (auto simp: ingress_inv_def updated_by_user_def Ingress_IsReady_def)
  qed
  then show ?thesis
    using stored_ok [OF assms(1), of t' ing ns n] new key by (simp add: run ingress_key_def)
qed

lemma reported_ok:
  assumes "route_store_good t" and "route_get ns n t = Inr r"
  shows "route_store_good (snd (route_update ns (r\<lparr>hr_Status := st\<rparr>) t))"
    and "route_get ns n (snd (route_update ns (r\<lparr>hr_Status := st\<rparr>) t)) = Inr (r\<lparr>hr_Status := st\<rparr>)"
    and "(ns2, n2) \<noteq> (ns, n) \<Longrightarrow>
      route_get ns2 n2 (snd (route_update ns (r\<lparr>hr_Status := st\<rparr>) t)) = route_get ns2 n2 t"
proof -
  obtain x t' where run: "route_update ns (r\<lparr>hr_Status := st\<rparr>) t = (x, t')" by fastforce
  note key = fake.get_key [OF assms]
  from fake.update_present [OF assms(1) _ _ assms(2) run] key
  show "route_store_good (snd (route_update ns (r\<lparr>hr_Status := st\<rparr>) t))"
    "route_get ns n (snd (route_update ns (r\<lparr>hr_Status := st\<rparr>) t)) = Inr (r\<lparr>hr_Status := st\<rparr>)"
    "(ns2, n2) \<noteq> (ns, n) \<Longrightarrow>
      route_get ns2 n2 (snd (route_update ns (r\<lparr>hr_Status := st\<rparr>) t)) = route_get ns2 n2 t"
    by (simp_all add: run)
qed

text \<open>Nothing here shuts the queue down.\<close>

lemma enqueues [simp]:
  "wq_ShuttingDown (Enqueue meta obj q) = wq_ShuttingDown q"
  "wq_ShuttingDown (EnqueueControllerOf meta obj q) = wq_ShuttingDown q"
  by (simp_all add: Enqueue_def EnqueueControllerOf_def Let_def split: option.splits)

lemma HandleAll_down:
  "(\<And>obj q. wq_ShuttingDown (h obj q) = wq_ShuttingDown q) \<Longrightarrow> wq_ShuttingDown (HandleAll h ev q) = wq_ShuttingDown q"
  by (cases ev) simp_all

lemma filtered_down:
  "(\<And>ev q. wq_ShuttingDown (h ev q) = wq_ShuttingDown q) \<Longrightarrow>
   wq_ShuttingDown (FilteringResourceEventHandler f h ev q) = wq_ShuttingDown q"
  by (cases ev) (simp_all add: Let_def)

lemma handlers_down [simp]:
  "wq_ShuttingDown (ingressHandler ingress_ev q) = wq_ShuttingDown q"
  "wq_ShuttingDown (httprouteHandler route_ev q) = wq_ShuttingDown q"
  unfolding ingressHandler_def httprouteHandler_def
  by (intro filtered_down HandleAll_down enqueues)+

lemma callbacks_down [simp]: "wq_ShuttingDown (fold readyCallback ings q) = wq_ShuttingDown q"
  by (induction ings arbitrary: q) (simp_all add: readyCallback_def)

lemma resync_down [simp]: "\<not> wq_ShuttingDown q \<Longrightarrow> \<not> wq_ShuttingDown (GlobalResync ing_Meta items q)"
  using resync_fold [of q ing_Meta items] by (simp add: GlobalResync_def FilteredGlobalResync_def Let_def)

lemma probing_ok:
  assumes "prober_ok lb p" and "prober_step (hex_hash (lb_marshal lb) (lb_sha256 lb)) p Internal p'" and "same_records p p'"
  shows "prober_ok lb p' \<and> grows p p'"
proof -
  have "prober_inv (hex_hash (lb_marshal lb) (lb_sha256 lb)) p" using assms(1) reachable_inv by (auto simp: prober_ok_def)
  then have "grows p p'" using grows_step [OF assms(2)] by (simp add: prober_inv_def)
  then show ?thesis
    using assms reachable.step [of _ no_pod_cancelled p Internal p']
    by (simp add: prober_ok_def same_records_def no_pod_cancelled_def)
qed

theorem cluster_step_inv:
  assumes "cluster_step lb s a s'" and "cluster_inv lb s"
  shows "cluster_inv lb s'"
  using assms
proof cases
  case (worker key)
  then show ?thesis using work_inv [OF assms(2)] by blast
next
  case (probing p')
  have p': "prober_ok lb p'" "grows (cl_prober s) p'"
    using probing_ok [OF _ probing(3,4)] assms(2) by (simp_all add: cluster_inv_def)
  moreover have "ingresses_ok lb p' (cl_ingresses s)"
    using ingresses_ok_grows [OF p'(2)] assms(2) by (simp add: cluster_inv_def)
  moreover have "versions_listed s'"
    using assms(2) p'(2) probing(2,4) by (auto simp: cluster_inv_def versions_listed_def grows_def same_records_def)
  ultimately show ?thesis using assms(2) probing(2) by (simp add: cluster_inv_def)
qed (use assms(2) in \<open>auto simp: cluster_inv_def versions_listed_def created_ok updated_ok deleted_ok reported_ok(1)\<close>)

lemma cluster_reachable_inv: "cluster_reachable lb s \<Longrightarrow> cluster_inv lb s"
  by (induction rule: cluster_reachable.induct) (auto intro: start_inv cluster_step_inv)

end
