(* ===== verification/ClusterLive.thy ===== *)
theory ClusterLive
  imports Cluster
begin

text \<open>
  From any reachable state of the cluster the controller, its prober and a cooperative gateway can make an
  Ingress that can be served Ready.
\<close>

declare split_paired_All [simp del] split_paired_Ex [simp del]

section \<open>A pass over settled routes\<close>

context route_client
begin

lemma loop_routes_settled:
  assumes sv: "sv_get sv = get" "sv_create sv = create" "sv_update sv = update"
    and "\<forall>rule \<in> set rules. settled ctx ing w rule"
  shows "loop_routes sv ctx ing rules w =
    map (\<lambda>rule. projr (get (fst (route_key ing rule)) (snd (route_key ing rule)) w)) rules"
  using assms(4)
proof (induction rules)
  case (Cons rule rest)
  then show ?case by (auto simp: sv settled_def reconcileHTTPRoute_desired)
qed simp

end

text \<open>Whether a route is up to date depends on the metadata of the Ingress only, not on the status of the route.\<close>

lemma desired_route_cong:
  assumes "ing_Meta i = ing_Meta j"
  shows "desired_route ctx i = desired_route ctx j" and "route_key i = route_key j"
  using assms by (simp_all add: fun_eq_iff desired_route_def MakeHTTPRoute_def route_key_def)

lemma settled_worlds:
  "probed_routes.settled ctx ing (t, p) rule = fake_routes.settled ctx ing t rule"
  by (simp add: probed_routes.settled_def fake_routes.settled_def)

lemma settled_meta:
  "ing_Meta i = ing_Meta j \<Longrightarrow> fake_routes.settled ctx i t rule = fake_routes.settled ctx j t rule"
  by (simp add: fake_routes.settled_def desired_route_cong [of i j])

lemma settled_reported:
  assumes "route_store_good t" and "route_get ns n t = Inr r" and "fake_routes.settled ctx ing t rule"
  shows "fake_routes.settled ctx ing (snd (route_update ns (r\<lparr>hr_Status := st\<rparr>) t)) rule"
proof (cases "route_key ing rule = (ns, n)")
  case True
  then show ?thesis
    using assms reported_ok(2) [OF assms(1,2)] by (auto simp: fake_routes.settled_def route_up_to_date_def)
next
  case False
  then have "route_get (fst (route_key ing rule)) (snd (route_key ing rule)) (snd (route_update ns (r\<lparr>hr_Status := st\<rparr>) t)) =
      route_get (fst (route_key ing rule)) (snd (route_key ing rule)) t"
    using reported_ok(3) [OF assms(1,2)] by (metis prod.collapse)
  with assms(3) show ?thesis by (simp add: fake_routes.settled_def)
qed

section \<open>An Ingress that can be served\<close>

text \<open>The rules of a defaulted Ingress with the probe in them.\<close>

definition probe_rules :: "libs \<Rightarrow> ingress \<Rightarrow> ingress_rule list" where
  "probe_rules lb prior =
     map (\<lambda>r. r\<lparr>ir_HTTP := map_option (probe_value (hex_hash (lb_marshal lb) (lb_sha256 lb) prior)) (ir_HTTP r)\<rparr>)
       (is_Rules (ing_Spec prior))"

definition servable :: "libs \<Rightarrow> 'n cluster \<Rightarrow> ingress \<Rightarrow> bool" where
  "servable lb s ing \<longleftrightarrow> class_set ing \<and> \<not> is_deleted ing \<and> lb_leader lb (ingress_key ing) \<and>
     CHR ''/'' \<notin> set (om_Namespace (ing_Meta ing)) \<and> CHR ''/'' \<notin> set (om_Name (ing_Meta ing)) \<and>
     is_Rules (ing_Spec ing) \<noteq> [] \<and> list_all rule_complete (is_Rules (ing_Spec ing)) \<and>
     distinct_routes ing (is_Rules (ing_Spec ing)) \<and> gateway_of (cl_ctx s) \<noteq> None \<and>
     (\<exists>prior bytes targets. Ingress_SetDefaults ing = Some prior \<and> lb_marshal lb (ing_Spec prior) = Inr bytes \<and>
        ListProbeTargets (cl_endpoints s) (cl_ctx s) prior = Some (Inr targets))"

text \<open>All its routes are up to date, one is admitted, and the prober has finished with its version.\<close>

definition routes_settled :: "libs \<Rightarrow> 'n cluster \<Rightarrow> ingress \<Rightarrow> bool" where
  "routes_settled lb s ing \<longleftrightarrow> (\<exists>prior. Ingress_SetDefaults ing = Some prior \<and>
     (\<forall>rule \<in> set (probe_rules lb prior). fake_routes.settled (cl_ctx s) ing (cl_routes s) rule))"

definition route_admitted :: "'n cluster \<Rightarrow> ingress \<Rightarrow> bool" where
  "route_admitted s ing \<longleftrightarrow> (\<exists>rule \<in> set (is_Rules (ing_Spec ing)). \<exists>r.
     route_get (fst (route_key ing rule)) (snd (route_key ing rule)) (cl_routes s) = Inr r \<and> route_ready r)"

definition on_record :: "libs \<Rightarrow> prober \<Rightarrow> ingress \<Rightarrow> nat \<Rightarrow> bool" where
  "on_record lb p ing i \<longleftrightarrow> fmlookup (pb_ingressStates p) (ingress_key ing) = Some i \<and>
     (\<exists>prior. Ingress_SetDefaults ing = Some prior \<and>
        igs_hash (pb_ings p ! i) = hex_hash (lb_marshal lb) (lb_sha256 lb) prior)"

lemma hex_hash_cong:
  "ing_Spec i = ing_Spec j \<Longrightarrow> ingress_key i = ingress_key j \<Longrightarrow> hex_hash m h i = hex_hash m h j"
  by (simp add: hex_hash_def ComputeHash_def ingress_key_def split: sum.split)

lemma SetDefaults_cong:
  assumes "Ingress_SetDefaults i = Some prior" and "ing_Spec j = ing_Spec i"
  shows "Ingress_SetDefaults j = Some (j\<lparr>ing_Spec := ing_Spec prior\<rparr>)"
  using assms by (auto simp: SetDefaults_spec)

lemma ListProbeTargets_cong:
  assumes "ing_Spec i = ing_Spec j"
  shows "ListProbeTargets endpoints ctx i = ListProbeTargets endpoints ctx j"
proof -
  have "getIngressUrls i = getIngressUrls j" by (simp add: fun_eq_iff getIngressUrls_def assms)
  then show ?thesis unfolding ListProbeTargets_def by (rule arg_cong)
qed

lemma default_hosts:
  assumes "Ingress_SetDefaults ing = Some prior"
  shows "map ir_Hosts (is_Rules (ing_Spec prior)) = map ir_Hosts (is_Rules (ing_Spec ing))"
proof -
  obtain rules where r: "map IngressRule_SetDefaults (is_Rules (ing_Spec ing)) = map Some rules"
    and rs: "is_Rules (ing_Spec prior) = rules"
    using assms by (auto simp: Ingress_SetDefaults_def IngressSpec_SetDefaults_def those_eq_Some_iff)
  have "list_all2 (\<lambda>x y. IngressRule_SetDefaults x = Some y) (is_Rules (ing_Spec ing)) rules"
    using r by (simp add: list_all2_conv_all_nth) (metis length_map nth_map)
  then show ?thesis unfolding rs by induction (auto dest: rule_defaults_complete)
qed

lemma route_keys_hosts:
  assumes "map ir_Hosts xs = map ir_Hosts ys"
  shows "map (route_key i) xs = map (route_key i) ys"
proof -
  have "route_key i = (\<lambda>hosts. (om_Namespace (ing_Meta i), hd (sort_strings hosts))) \<circ> ir_Hosts"
    by (simp add: fun_eq_iff route_key_def)
  then show ?thesis using assms by (metis map_map)
qed

lemma probe_rules_keys:
  assumes "Ingress_SetDefaults ing = Some prior"
  shows "map (route_key i) (probe_rules lb prior) = map (route_key i) (is_Rules (ing_Spec ing))"
  using default_hosts [OF assms] by (intro route_keys_hosts) (simp add: probe_rules_def comp_def)

section \<open>A pass of a worker\<close>

lemma probed_prior:
  assumes "Ingress_SetDefaults pre = Some prior" and "ComputeHash (sv_marshal sv) (sv_sha256 sv) prior = Inr bytes"
    and "sv_marshal sv = lb_marshal lb" and "sv_sha256 sv = lb_sha256 lb"
  shows "\<exists>hash. InsertProbe (sv_marshal sv) (sv_sha256 sv)
      (prior\<lparr>ing_Status := snd (Ingress_InitializeConditions (sv_clock sv) (n, ing_Status prior))\<rparr>) = (Inr hash, probed sv n prior)"
    and "is_Rules (ing_Spec (probed sv n prior)) = probe_rules lb prior"
    and "ing_Meta (probed sv n prior) = ing_Meta pre"
    and "ing_Status (probed sv n prior) = snd (Ingress_InitializeConditions (sv_clock sv) (n, ing_Status prior))"
proof -
  let ?i = "prior\<lparr>ing_Status := snd (Ingress_InitializeConditions (sv_clock sv) (n, ing_Status prior))\<rparr>"
  have c: "ComputeHash (sv_marshal sv) (sv_sha256 sv) ?i = Inr bytes"
    using assms(2) by (simp add: ComputeHash_def split: sum.splits)
  then obtain hash where h: "fst (InsertProbe (sv_marshal sv) (sv_sha256 sv) ?i) = Inr hash"
    using InsertProbe_after_defaults [OF assms(1), of "sv_marshal sv" "sv_sha256 sv" ?i] assms(2)
    by (cases "fst (InsertProbe (sv_marshal sv) (sv_sha256 sv) ?i)") (auto simp: ComputeHash_def split: sum.splits)
  then show "\<exists>hash. InsertProbe (sv_marshal sv) (sv_sha256 sv) ?i = (Inr hash, probed sv n prior)"
    by (simp add: probed_def prod_eq_iff)
  from InsertProbe_hash [OF h, of prior] show "is_Rules (ing_Spec (probed sv n prior)) = probe_rules lb prior"
    using assms(2-4) by (auto simp: probed_def probe_rules_def hex_hash_def)
  show "ing_Meta (probed sv n prior) = ing_Meta pre"
    "ing_Status (probed sv n prior) = snd (Ingress_InitializeConditions (sv_clock sv) (n, ing_Status prior))"
    using SetDefaults_frame [OF assms(1)] by (simp_all add: probed_def)
qed

text \<open>
  A reconciliation of an Ingress that can be served succeeds. It settles the routes and calls the prober; when the
  routes are settled before and one is admitted, the Ingress is as ready as the prober says.
\<close>

lemma reconcile_succeeds:
  fixes sv :: "http_route tracker services"
  assumes sv: "sv_get sv = route_get" "sv_create sv = route_create" "sv_update sv = route_update"
      "sv_marshal sv = lb_marshal lb" "sv_sha256 sv = lb_sha256 lb"
    and pre: "Ingress_SetDefaults pre = Some prior" "list_all rule_complete (is_Rules (ing_Spec pre))"
      "distinct_routes pre (is_Rules (ing_Spec pre))" "status_inv (ing_Status pre)"
    and hash: "ComputeHash (lb_marshal lb) (lb_sha256 lb) prior = Inr bytes"
    and gw: "gateway_of ctx \<noteq> None" and good: "route_store_good t"
    and call: "IsReady (lb_marshal lb) (lb_sha256 lb) lt prior p = (Inr ready, p')"
  obtains n' res t' evs where
    "reconcileIngress (with_prober sv lt) ctx n pre (t, p) = Some (None, n', res, (t', p'), evs)"
    "\<forall>rule \<in> set (probe_rules lb prior). fake_routes.settled ctx pre t' rule"
    "(\<forall>rule \<in> set (probe_rules lb prior). fake_routes.settled ctx pre t rule) \<and>
      (\<exists>rule \<in> set (probe_rules lb prior). \<exists>r. route_get (fst (route_key pre rule)) (snd (route_key pre rule)) t = Inr r \<and>
        route_ready r) \<and> ready \<longrightarrow> IsTrue (GetCondition ConditionReady (st_Conditions (ing_Status res)))"
proof -
  let ?sv = "with_prober sv lt"
  let ?ing1 = "probed ?sv n prior" and ?rules = "probe_rules lb prior"
  let ?st0 = "Ingress_InitializeConditions (sv_clock ?sv) (n, ing_Status prior)"
  have wsv: "sv_get ?sv = (\<lambda>ns n wp. route_get ns n (fst wp))" "sv_create ?sv = lift_writer route_create"
      "sv_update ?sv = lift_writer route_update" "sv_marshal ?sv = lb_marshal lb" "sv_sha256 ?sv = lb_sha256 lb"
    by (simp_all add: with_prober_def sv)
  have hash': "ComputeHash (sv_marshal ?sv) (sv_sha256 ?sv) prior = Inr bytes" using hash by (simp add: wsv)
  note p1 = probed_prior [of pre prior ?sv bytes lb n, OF pre(1) hash' wsv(4,5)]
  have rules: "is_Rules (ing_Spec ?ing1) = ?rules" and meta: "ing_Meta ?ing1 = ing_Meta pre" using p1(2,3) by simp_all
  have complete: "list_all rule_complete ?rules"
    using SetDefaults_complete [OF pre(1,2)] by (auto simp: probe_rules_def list_all_iff rule_complete_def)
  have desired: "\<forall>rule \<in> set ?rules. desired_route ctx ?ing1 rule \<noteq> None"
    using complete desired_route_complete [OF gw] by (auto simp: list_all_iff)
  have keys: "distinct (map (route_key ?ing1) ?rules)"
    using pre(3) by (simp add: distinct_routes_def desired_route_cong [OF meta] probe_rules_keys [OF pre(1)])
  obtain st1 wp1 evs where loop: "rules_loop ?sv ctx ?ing1 ?rules (fst ?st0, ing_Status ?ing1) (t, p) =
      Some (None, map sorted_rule ?rules, st1, wp1, evs)"
    and set1: "\<forall>rule \<in> set ?rules. probed_routes.settled ctx ?ing1 wp1 rule"
    using probed_routes.loop_settles [OF wsv(1-3) _ desired keys, of "(t, p)" "(fst ?st0, ing_Status ?ing1)"] good
    unfolding fst_conv by blast
  obtain t' where wp1: "wp1 = (t', p)" using rules_loop_keeps_prober [OF loop] by (cases wp1) auto
  obtain gateway where gateway: "gateway_of ctx = Some gateway" using gw by blast
  have asked: "sv_IsReady ?sv prior (t', p) = (Inr ready, (t', p'))" using call by (simp add: with_prober_def sv)
  have "\<exists>st2. probe_and_mark ?sv ctx prior st1 wp1 = Some (None, st2, (t', p'))"
    using asked by (cases ready) (simp_all add: probe_and_mark_def wp1 gateway)
  then obtain st2 where pm: "probe_and_mark ?sv ctx prior st1 wp1 = Some (None, st2, (t', p'))" ..
  from p1(1) obtain h where ins: "InsertProbe (sv_marshal ?sv) (sv_sha256 ?sv) (prior\<lparr>ing_Status := snd ?st0\<rparr>) = (Inr h, ?ing1)"
    by blast
  let ?res = "?ing1\<lparr>ing_Spec := (ing_Spec ?ing1)\<lparr>is_Rules := map sorted_rule ?rules\<rparr>, ing_Status := snd st2\<rparr>"
  have run: "reconcileIngress ?sv ctx n pre (t, p) = Some (None, fst st2, ?res, (t', p'), evs)"
    unfolding reconcileIngress_def pre(1) Let_def bind.bind_lunit ins
    by (simp add: rules loop pm)
  show ?thesis
  proof (rule that [OF run])
    show "\<forall>rule \<in> set ?rules. fake_routes.settled ctx pre t' rule"
      using set1 by (simp add: wp1 settled_worlds settled_meta [OF meta])
    have "IsTrue (GetCondition ConditionReady (st_Conditions (ing_Status ?res)))"
      if before: "\<forall>rule \<in> set ?rules. fake_routes.settled ctx pre t rule" and ready
      and adm: "\<exists>rule \<in> set ?rules. \<exists>r. route_get (fst (route_key pre rule)) (snd (route_key pre rule)) t = Inr r \<and> route_ready r"
    proof -
      have "\<forall>rule \<in> set ?rules. probed_routes.settled ctx ?ing1 (t, p) rule"
        using before by (simp add: settled_worlds settled_meta [OF meta])
      from probed_routes.loop_routes_settled [OF wsv(1-3) this]
      have routes: "True \<in> set (map route_ready (loop_routes ?sv ctx ?ing1 ?rules (t, p)))"
        using adm by (force simp: desired_route_cong [OF meta])
      have inv0: "status_inv (snd (fst ?st0, ing_Status ?ing1))"
        using p1(4) pre(4) SetDefaults_frame [OF pre(1)] by (simp add: keeps_wf)
      note st1 = rules_loop_status [OF loop]
      have inv1: "status_inv (snd st1)" using inv0 unfolding st1 by (rule keeps_wf)
      have conf: "cstat ''NetworkConfigured'' st1 = Some ConditionTrue"
        using cstat_fold_marks(1) [OF inv0] routes unfolding st1 by simp
      obtain ready' where "sv_IsReady ?sv prior wp1 = (Inr ready', (t', p'))"
        "cstat ''Ready'' st2 = Some (if cstat ''NetworkConfigured'' st1 = Some ConditionFalse then ConditionFalse
            else if ready' \<and> cstat ''NetworkConfigured'' st1 = Some ConditionTrue then ConditionTrue else ConditionUnknown)"
        by (rule probe_and_mark_conditions [OF inv1 pm])
      with asked \<open>ready\<close> conf have "cstat ''Ready'' st2 = Some ConditionTrue" by (simp add: wp1)
      then show ?thesis by (simp add: cstat_def)
    qed
    then show "(\<forall>rule \<in> set ?rules. fake_routes.settled ctx pre t rule) \<and>
        (\<exists>rule \<in> set ?rules. \<exists>r. route_get (fst (route_key pre rule)) (snd (route_key pre rule)) t = Inr r \<and>
          route_ready r) \<and> ready \<longrightarrow> IsTrue (GetCondition ConditionReady (st_Conditions (ing_Status ?res)))" by blast
  qed
qed

text \<open>
  What a worker achieves when it takes the key of an Ingress that can be served: the routes are settled and the
  version is on record. When that was so before, a route was admitted and the prober had finished, the
  Ingress becomes ready.
\<close>

lemma worker_passes:
  assumes inv: "cluster_inv lb s" and stored: "ingress_get ns n (cl_ingresses s) = Inr ing"
    and serv: "servable lb s ing" and queued: "take_key (ns, n) (cl_queue s) = Some q"
  obtains s' ing' where "work lb (ns, n) s = Some s'" "cl_ctx s' = cl_ctx s" "cl_endpoints s' = cl_endpoints s"
    "ingress_get ns n (cl_ingresses s') = Inr ing'" "ing_Meta ing' = ing_Meta ing" "ing_Spec ing' = ing_Spec ing"
    "routes_settled lb s' ing" "\<exists>i. on_record lb (cl_prober s') ing i"
    "\<forall>i. routes_settled lb s ing \<and> route_admitted s ing \<and> on_record lb (cl_prober s) ing i \<and>
      igs_pendingCount (pb_ings (cl_prober s) ! i) = 0 \<longrightarrow> Ingress_IsReady ing'"
proof -
  let ?sv = "cluster_services lb s" and ?api = "store_api ingress_get ingress_update"
  let ?m = "lb_marshal lb" and ?h = "lb_sha256 lb" and ?lt = "list_targets (cl_endpoints s) (cl_ctx s)"
  have good: "tracker_good ing_Meta ingressesResource (cl_ingresses s)" and st: "status_inv (ing_Status ing)"
    and routes: "route_store_good (cl_routes s)" and calls: "pb_calls (cl_prober s) = fmempty"
    using inv stored by (auto simp: cluster_inv_def ingresses_ok_def ingress_inv_def prober_ok_def)
  have key: "om_Namespace (ing_Meta ing) = ns" "om_Name (ing_Meta ing) = n"
    using stored_ingresses.get_key [OF good stored] by simp_all
  obtain prior0 bytes0 targets where prior0: "Ingress_SetDefaults ing = Some prior0"
    "?m (ing_Spec prior0) = Inr bytes0" "ListProbeTargets (cl_endpoints s) (cl_ctx s) prior0 = Some (Inr targets)"
    and gw: "gateway_of (cl_ctx s) \<noteq> None"
    and complete: "list_all rule_complete (is_Rules (ing_Spec ing))" and distinct: "distinct_routes ing (is_Rules (ing_Spec ing))"
    using serv by (auto simp: servable_def)
  obtain n1 pre where pre: "PreProcessReconcile (sv_clock ?sv) (cl_ticks s) ing = Some (n1, pre)"
    using prior0(1) by (simp add: PreProcessReconcile_def Let_def)
  have spec: "ing_Spec pre = ing_Spec prior0" and meta: "ing_Meta pre = ing_Meta ing" and st_pre: "status_inv (ing_Status pre)"
    using PreProcess_spec [OF pre] PreProcess_frame [OF pre st] prior0(1) by auto
  define prior where "prior = pre\<lparr>ing_Spec := ing_Spec prior0\<rparr>"
  have "Ingress_SetDefaults prior0 = Some prior0"
    using prior0(1) spec_defaults_idem by (auto simp: SetDefaults_spec)
  from SetDefaults_cong [OF this spec] have prior: "Ingress_SetDefaults pre = Some prior" by (simp add: prior_def)
  have pspec: "ing_Spec prior = ing_Spec prior0" and pkey: "ingress_key prior = (ns, n)"
    using key meta by (simp_all add: prior_def ingress_key_def)
  have hex: "hex_hash ?m ?h prior = hex_hash ?m ?h prior0"
    using pspec pkey key SetDefaults_frame [OF prior0(1)] by (intro hex_hash_cong) (simp_all add: ingress_key_def)
  obtain bytes where hash: "ComputeHash ?m ?h prior = Inr bytes" using prior0(2) by (simp add: ComputeHash_def pspec)
  have targets: "?lt prior = Inr targets"
    using prior0(3) by (simp add: list_targets_def ListProbeTargets_cong [OF pspec])
  obtain r p' where call: "IsReady ?m ?h ?lt prior (cl_prober s) = (r, p')" by fastforce
  have free: "fmlookup (pb_calls (cl_prober s)) (ingress_key prior) = None" by (simp add: calls)
  obtain ready i where r: "r = Inr ready"
    and rec: "fmlookup (pb_ingressStates p') (ns, n) = Some i" "igs_hash (pb_ings p' ! i) = hex_string bytes"
    using IsReady_records(4) [OF call free hash targets] pkey by auto
  have pre_rules: "list_all rule_complete (is_Rules (ing_Spec pre))" "distinct_routes pre (is_Rules (ing_Spec pre))"
    using SetDefaults_complete [OF prior0(1) complete] distinct route_keys_hosts [OF default_hosts [OF prior0(1)]]
    by (simp_all add: spec distinct_routes_def desired_route_cong [OF meta])
  have rules: "probe_rules lb prior = probe_rules lb prior0"
    by (simp add: probe_rules_def pspec hex)
  have sv: "sv_get (route_services lb) = route_get" "sv_create (route_services lb) = route_create"
      "sv_update (route_services lb) = route_update" "sv_marshal (route_services lb) = ?m" "sv_sha256 (route_services lb) = ?h"
    by (simp_all add: route_services_def)
  obtain n' res t' evs where run:
      "reconcileIngress ?sv (cl_ctx s) n1 pre (cl_routes s, cl_prober s) = Some (None, n', res, (t', p'), evs)"
    and settled: "\<forall>rule \<in> set (probe_rules lb prior0). fake_routes.settled (cl_ctx s) pre t' rule"
    and ok: "(\<forall>rule \<in> set (probe_rules lb prior0). fake_routes.settled (cl_ctx s) pre (cl_routes s) rule) \<and>
      (\<exists>rule \<in> set (probe_rules lb prior0). \<exists>r. route_get (fst (route_key pre rule)) (snd (route_key pre rule)) (cl_routes s) = Inr r \<and>
        route_ready r) \<and> ready \<longrightarrow> IsTrue (GetCondition ConditionReady (st_Conditions (ing_Status res)))"
    by (rule reconcile_succeeds [OF sv prior pre_rules st_pre hash gw routes call [unfolded r],
          unfolded cluster_services_def [symmetric] rules])
  have kind: "ReconcileKind ?sv (cl_ctx s) n1 pre (cl_routes s, cl_prober s) = Some (None, n', res, (t', p'), evs)"
    by (simp add: ReconcileKind_def run)
  obtain n3 post where post: "PostProcessReconcile (sv_clock ?sv) n' res ing = (n3, post)" by fastforce
  obtain err ws where up: "(if status_DeepEqual (ing_Status ing) (ing_Status post) then (None, cl_ingresses s)
      else updateStatus ?api ing post (cl_ingresses s)) = (err, ws)" by fastforce
  obtain ret n2 ingresses evs2 where lead: "reconcile_leader ?api ?sv (cl_ctx s) (cl_ticks s) ing (cl_routes s, cl_prober s)
      (cl_ingresses s) = Some (ret, n2, (t', p'), ingresses, evs2)"
    by (cases err) (simp_all add: reconcile_leader_def pre kind post up Let_def report_event_def)
  obtain ing' where ing': "ingress_get ns n ingresses = Inr ing'" "tells ing None res ing'"
    using stored_ingresses.leader_stores [OF good stored st lead] pre kind by auto
  have sel: "reconcile_selects (lb_leader lb) (\<lambda>ns name. ia_lister ?api ns name (cl_ingresses s)) is_deleted
      GatewayAPIIngressClassName (safeKey (ns, n)) = ReconcileIt ing"
    using selects_class [where is_leader = "lb_leader lb" and getter = "\<lambda>ns name. ingress_get ns name (cl_ingresses s)"
      and ing = ing and deleted = is_deleted and ns = ns and n = n] serv stored key
    by (simp add: servable_def store_api_def ingress_key_def)
  define s' where "s' = s\<lparr>cl_ingresses := ingresses, cl_routes := t', cl_prober := p', cl_queue := q, cl_ticks := n2,
    cl_waiting := (if handleErr (wq_ShuttingDown q) ret = Forgotten then cl_waiting s else cl_waiting s @ [(ns, n)])\<rparr>"
  have work: "work lb (ns, n) s = Some s'"
    using gw queued lead sel by (simp add: work_def processNextWorkItem_def Reconcile_def s'_def)
  show ?thesis
  proof (rule that [OF work])
    show "cl_ctx s' = cl_ctx s" "cl_endpoints s' = cl_endpoints s" by (simp_all add: s'_def)
    show "ingress_get ns n (cl_ingresses s') = Inr ing'" "ing_Meta ing' = ing_Meta ing" "ing_Spec ing' = ing_Spec ing"
      using ing' by (simp_all add: s'_def tells_def)
    show "routes_settled lb s' ing"
      using settled prior0(1) by (auto simp: routes_settled_def s'_def settled_meta [OF meta])
    show "\<exists>i. on_record lb (cl_prober s') ing i"
      using rec hash hex prior0(1) key by (auto simp: on_record_def s'_def ingress_key_def hex_hash_def)
    show "\<forall>i. routes_settled lb s ing \<and> route_admitted s ing \<and> on_record lb (cl_prober s) ing i \<and>
      igs_pendingCount (pb_ings (cl_prober s) ! i) = 0 \<longrightarrow> Ingress_IsReady ing'"
    proof (intro allI impI, elim conjE)
      fix i
      assume before: "routes_settled lb s ing" "route_admitted s ing" and i: "on_record lb (cl_prober s) ing i"
        and z: "igs_pendingCount (pb_ings (cl_prober s) ! i) = 0"
      have "IsReady_lookup (ingress_key prior) (hex_string bytes) (cl_prober s) = (Some True, cl_prober s)"
        using i z prior0(1) hash hex key pkey by (auto simp: IsReady_lookup_hit on_record_def hex_hash_def ingress_key_def)
      then have ready using call hash r by (auto simp: IsReady_def Let_def ingress_key_def)
      moreover have "route_key pre ` set (probe_rules lb prior0) = route_key ing ` set (is_Rules (ing_Spec ing))"
        using probe_rules_keys [OF prior0(1), of pre lb] desired_route_cong(2) [OF meta] by (metis list.set_map)
      then have "\<exists>rule \<in> set (probe_rules lb prior0). \<exists>r. route_get (fst (route_key pre rule)) (snd (route_key pre rule)) (cl_routes s) =
          Inr r \<and> route_ready r"
        using before(2) unfolding route_admitted_def by (metis (no_types, lifting) imageE imageI)
      ultimately have "IsTrue (GetCondition ConditionReady (st_Conditions (ing_Status res)))"
        using ok before(1) prior0(1) by (auto simp: routes_settled_def settled_meta [OF meta])
      then show "Ingress_IsReady ing'" using ing'(2) by (simp add: tells_def)
    qed
  qed
qed

section \<open>Runs\<close>

text \<open>Steps of the controller and the gateway only.\<close>

definition own_steps :: "libs \<Rightarrow> 'n cluster \<Rightarrow> 'n cluster \<Rightarrow> bool" where
  "own_steps lb = (\<lambda>s s'. \<exists>a. a \<noteq> Others \<and> cluster_step lb s a s')\<^sup>*\<^sup>*"

lemma own_stepI: "cluster_step lb s a s' \<Longrightarrow> a \<noteq> Others \<Longrightarrow> own_steps lb s s'"
  unfolding own_steps_def by (blast intro: r_into_rtranclp)

lemma own_steps_trans [trans]: "own_steps lb s s' \<Longrightarrow> own_steps lb s' s'' \<Longrightarrow> own_steps lb s s''"
  unfolding own_steps_def by (rule rtranclp_trans)

lemma own_steps_inv: "own_steps lb s s' \<Longrightarrow> cluster_inv lb s \<Longrightarrow> cluster_inv lb s'"
  unfolding own_steps_def by (induction rule: rtranclp_induct) (auto intro: cluster_step_inv)

lemma own_steps_reachable: "own_steps lb s s' \<Longrightarrow> cluster_reachable lb s \<Longrightarrow> cluster_reachable lb s'"
  unfolding own_steps_def by (induction rule: rtranclp_induct) (auto intro: cluster_reachable.step)

subsection \<open>The status of the Ingress does not matter\<close>

lemma servable_cong:
  assumes "ing_Meta i = ing_Meta j" and "ing_Spec i = ing_Spec j" and "servable lb s j"
    and "cl_ctx s' = cl_ctx s" and "cl_endpoints s' = cl_endpoints s"
  shows "servable lb s' i"
proof -
  obtain prior bytes targets where prior: "Ingress_SetDefaults j = Some prior" "lb_marshal lb (ing_Spec prior) = Inr bytes"
    "ListProbeTargets (cl_endpoints s) (cl_ctx s) prior = Some (Inr targets)"
    using assms(3) by (auto simp: servable_def)
  let ?prior = "i\<lparr>ing_Spec := ing_Spec prior\<rparr>"
  have "Ingress_SetDefaults i = Some ?prior" by (rule SetDefaults_cong [OF prior(1) assms(2)])
  moreover have "ListProbeTargets (cl_endpoints s) (cl_ctx s) ?prior = Some (Inr targets)"
    unfolding prior(3) [symmetric] by (rule ListProbeTargets_cong) simp
  ultimately have "\<exists>prior bytes targets. Ingress_SetDefaults i = Some prior \<and> lb_marshal lb (ing_Spec prior) = Inr bytes \<and>
      ListProbeTargets (cl_endpoints s') (cl_ctx s') prior = Some (Inr targets)"
    using prior(2) assms(4,5) by (intro exI [of _ ?prior] exI [of _ bytes] exI [of _ targets]) simp
  moreover have "class_set i = class_set j" "is_deleted i = is_deleted j" "ingress_key i = ingress_key j"
      "distinct_routes i (is_Rules (ing_Spec i)) = distinct_routes j (is_Rules (ing_Spec j))"
    using assms(1,2) by (simp_all add: class_set_def is_deleted_def ingress_key_def distinct_routes_def desired_route_cong(2) [OF assms(1)])
  ultimately show ?thesis using assms unfolding servable_def by simp
qed

lemma routes_settled_cong:
  assumes "ing_Meta i = ing_Meta j" and "ing_Spec i = ing_Spec j" and "routes_settled lb s j"
  shows "routes_settled lb s i"
proof -
  obtain prior where prior: "Ingress_SetDefaults j = Some prior"
    "\<forall>rule \<in> set (probe_rules lb prior). fake_routes.settled (cl_ctx s) j (cl_routes s) rule"
    using assms(3) by (auto simp: routes_settled_def)
  have "Ingress_SetDefaults i = Some (i\<lparr>ing_Spec := ing_Spec prior\<rparr>)" by (rule SetDefaults_cong [OF prior(1) assms(2)])
  moreover have "probe_rules lb (i\<lparr>ing_Spec := ing_Spec prior\<rparr>) = probe_rules lb prior"
    using assms(1) SetDefaults_frame [OF prior(1)] by (simp add: probe_rules_def hex_hash_cong [of "i\<lparr>ing_Spec := ing_Spec prior\<rparr>" prior] ingress_key_def)
  ultimately show ?thesis using prior(2) by (simp add: routes_settled_def settled_meta [OF assms(1)])
qed

lemma route_admitted_cong:
  "ing_Meta i = ing_Meta j \<Longrightarrow> ing_Spec i = ing_Spec j \<Longrightarrow> route_admitted s i = route_admitted s j"
  by (simp add: route_admitted_def desired_route_cong(2) [of i j])

lemma on_record_cong:
  assumes "ing_Meta i = ing_Meta j" and "ing_Spec i = ing_Spec j" and "on_record lb p j k"
  shows "on_record lb p i k"
proof -
  obtain prior where prior: "Ingress_SetDefaults j = Some prior"
    "igs_hash (pb_ings p ! k) = hex_hash (lb_marshal lb) (lb_sha256 lb) prior"
    using assms(3) by (auto simp: on_record_def)
  have "hex_hash m h (i\<lparr>ing_Spec := ing_Spec prior\<rparr>) = hex_hash m h prior" for m h
    using assms(1) SetDefaults_frame [OF prior(1)] by (intro hex_hash_cong) (simp_all add: ingress_key_def)
  then show ?thesis
    using assms prior SetDefaults_cong [OF prior(1) assms(2)] by (simp add: on_record_def ingress_key_def)
qed

subsection \<open>A key is queued and taken\<close>

lemma noticed_and_worked:
  assumes inv: "cluster_inv lb s" and stored: "ingress_get ns n (cl_ingresses s) = Inr ing" and serv: "servable lb s ing"
  obtains s' ing' where "own_steps lb s s'" "cl_ctx s' = cl_ctx s" "cl_endpoints s' = cl_endpoints s"
    "ingress_get ns n (cl_ingresses s') = Inr ing'" "ing_Meta ing' = ing_Meta ing" "ing_Spec ing' = ing_Spec ing"
    "routes_settled lb s' ing" "\<exists>i. on_record lb (cl_prober s') ing i"
    "\<forall>i. routes_settled lb s ing \<and> route_admitted s ing \<and> on_record lb (cl_prober s) ing i \<and>
      igs_pendingCount (pb_ings (cl_prober s) ! i) = 0 \<longrightarrow> Ingress_IsReady ing'"
proof -
  let ?s = "s\<lparr>cl_queue := ingressHandler (OnAdd (Live ing)) (cl_queue s)\<rparr>"
  have step: "cluster_step lb s Controller ?s" by (rule cluster_step.ingress_event [OF stored]) simp
  have inv': "cluster_inv lb ?s" by (rule cluster_step_inv [OF step inv])
  have good: "tracker_good ing_Meta ingressesResource (cl_ingresses s)" and open_queue: "\<not> wq_ShuttingDown (cl_queue s)"
    using inv by (simp_all add: cluster_inv_def ingresses_ok_def)
  have key: "om_Namespace (ing_Meta ing) = ns" "om_Name (ing_Meta ing) = n"
    using stored_ingresses.get_key [OF good stored] by simp_all
  have "class_accepted (ing_Meta ing)" using serv by (simp add: servable_def class_set_accepted)
  then have "ingressHandler (OnAdd (Live ing)) (cl_queue s) = EnqueueKey (ns, n) (cl_queue s)"
    using handler_about [of ing "OnAdd (Live ing)" ing_Meta] key by (simp add: ingressHandler_def about_def Enqueue_def Let_def)
  then obtain q where q: "take_key (ns, n) (cl_queue ?s) = Some q"
    using open_queue by (auto simp: take_key_def)
  have serv': "servable lb ?s ing" using serv by (simp add: servable_def)
  have stored': "ingress_get ns n (cl_ingresses ?s) = Inr ing" using stored by simp
  show ?thesis
  proof (rule worker_passes [OF inv' stored' serv' q], goal_cases)
    case (1 s' ing')
    have "own_steps lb s s'"
      using own_stepI [OF step] own_stepI [OF cluster_step.worker [OF 1(1)]] by (blast intro: own_steps_trans)
    then show ?thesis
      using 1 by (intro that [of s' ing']) (simp_all add: routes_settled_def route_admitted_def)
  qed
qed

subsection \<open>The gateway admits a route\<close>

definition admit :: "http_route_status" where
  "admit = \<lparr>hst_Gateways = Some
     [\<lparr>rgs_GatewayRef = \<lparr>sg_Name = ''gw'', sg_Namespace = ''ns'', sg_Controller = None\<rparr>,
       rgs_Conditions = [\<lparr>mc_Type = ConditionRouteAdmitted, mc_Status = ConditionTrue, mc_ObservedGeneration = 0,
         mc_Reason = '''', mc_Message = ''''\<rparr>]\<rparr>]\<rparr>"

lemma admit_ready: "route_ready (r\<lparr>hr_Status := admit\<rparr>)"
  by (simp add: route_ready_def admit_def isGatewayAdmitted_def)

lemma gateway_admits:
  assumes inv: "cluster_inv lb s" and settled: "routes_settled lb s ing" and rules: "is_Rules (ing_Spec ing) \<noteq> []"
  obtains routes where "own_steps lb s (s\<lparr>cl_routes := routes\<rparr>)" "routes_settled lb (s\<lparr>cl_routes := routes\<rparr>) ing"
    "route_admitted (s\<lparr>cl_routes := routes\<rparr>) ing"
proof -
  obtain prior where prior: "Ingress_SetDefaults ing = Some prior"
    "\<forall>rule \<in> set (probe_rules lb prior). fake_routes.settled (cl_ctx s) ing (cl_routes s) rule"
    using settled by (auto simp: routes_settled_def)
  have keys: "route_key ing ` set (probe_rules lb prior) = route_key ing ` set (is_Rules (ing_Spec ing))"
    using probe_rules_keys [OF prior(1), of ing lb] by (metis list.set_map)
  obtain rule where rule: "rule \<in> set (is_Rules (ing_Spec ing))" using rules by (meson list.set_sel(1))
  then have "route_key ing rule \<in> route_key ing ` set (probe_rules lb prior)" unfolding keys by (rule imageI)
  then obtain rule1 where rule1: "rule1 \<in> set (probe_rules lb prior)" "route_key ing rule = route_key ing rule1" by blast
  obtain ns n where k: "route_key ing rule1 = (ns, n)" by fastforce
  obtain r where r: "route_get ns n (cl_routes s) = Inr r"
    using prior(2) rule1(1) k by (auto simp: fake_routes.settled_def)
  have good: "route_store_good (cl_routes s)" using inv by (simp add: cluster_inv_def)
  let ?t = "snd (route_update ns (r\<lparr>hr_Status := admit\<rparr>) (cl_routes s))"
  show ?thesis
  proof (rule that [of ?t])
    show "own_steps lb s (s\<lparr>cl_routes := ?t\<rparr>)"
      by (rule own_stepI [OF cluster_step.gateway_reports [OF r]]) simp
    show "routes_settled lb (s\<lparr>cl_routes := ?t\<rparr>) ing"
      using prior by (auto simp: routes_settled_def intro: settled_reported [OF good r])
    show "route_admitted (s\<lparr>cl_routes := ?t\<rparr>) ing"
      using rule rule1(2) k reported_ok(2) [OF good r, of admit] admit_ready [of r]
      unfolding route_admitted_def by (intro bexI [of _ rule] exI [of _ "r\<lparr>hr_Status := admit\<rparr>"]) simp_all
  qed
qed

subsection \<open>The prober finishes\<close>

lemma prober_runs:
  assumes "(closer (hex_hash (lb_marshal lb) (lb_sha256 lb)))\<^sup>*\<^sup>* (cl_prober s) p'"
  shows "\<exists>q. own_steps lb s (s\<lparr>cl_prober := p', cl_queue := q\<rparr>)"
  using assms
proof (induction rule: rtranclp_induct)
  case base
  have "own_steps lb s (s\<lparr>cl_prober := cl_prober s, cl_queue := cl_queue s\<rparr>)" by (simp add: own_steps_def)
  then show ?case ..
next
  case (step p1 p2)
  from step.IH obtain q where q: "own_steps lb s (s\<lparr>cl_prober := p1, cl_queue := q\<rparr>)" ..
  let ?s = "s\<lparr>cl_prober := p1, cl_queue := q\<rparr>"
  have "cluster_step lb ?s Controller (?s\<lparr>cl_prober := p2, cl_queue := fold readyCallback (called_back p1 p2) q\<rparr>)"
    using cluster_step.probing [of lb ?s p2] step.hyps(2) by (simp add: closer_def)
  then have "own_steps lb ?s (s\<lparr>cl_prober := p2, cl_queue := fold readyCallback (called_back p1 p2) q\<rparr>)"
    by (auto intro: own_stepI)
  then show ?case using q by (blast intro: own_steps_trans)
qed

lemma prober_finishes:
  assumes inv: "cluster_inv lb s" and rec: "on_record lb (cl_prober s) ing i"
  obtains p q where "own_steps lb s (s\<lparr>cl_prober := p, cl_queue := q\<rparr>)" "on_record lb p ing i"
    "igs_pendingCount (pb_ings p ! i) = 0"
proof -
  have p0: "prober_inv (hex_hash (lb_marshal lb) (lb_sha256 lb)) (cl_prober s)" "\<not> pb_shutdown (cl_prober s)"
    using inv reachable_inv by (auto simp: cluster_inv_def prober_ok_def)
  from settles_ready [OF p0] obtain p where p: "(closer (hex_hash (lb_marshal lb) (lb_sha256 lb)))\<^sup>*\<^sup>* (cl_prober s) p"
    "same_records (cl_prober s) p"
    "\<forall>key s'. fmlookup (pb_ingressStates (cl_prober s)) key = Some s' \<longrightarrow> igs_pendingCount (pb_ings p ! s') = 0" by blast
  from prober_runs [OF p(1)] obtain q where "own_steps lb s (s\<lparr>cl_prober := p, cl_queue := q\<rparr>)" ..
  moreover have "links (cl_prober s)" using p0(1) by (simp add: prober_inv_def)
  then have "i < length (pb_ings (cl_prober s))" using rec unfolding links_def on_record_def by blast
  then have "on_record lb p ing i" using rec p(2) by (auto simp: on_record_def same_records_def)
  moreover have "igs_pendingCount (pb_ings p ! i) = 0" using rec p(3) by (auto simp: on_record_def)
  ultimately show ?thesis by (rule that)
qed

section \<open>The Ingress becomes ready\<close>

lemma becomes_ready:
  assumes inv: "cluster_inv lb s" and stored: "ingress_get ns n (cl_ingresses s) = Inr ing" and serv: "servable lb s ing"
  shows "\<exists>s' ing'. own_steps lb s s' \<and> ingress_get ns n (cl_ingresses s') = Inr ing' \<and>
    ing_Meta ing' = ing_Meta ing \<and> ing_Spec ing' = ing_Spec ing \<and> Ingress_IsReady ing'"
proof (rule noticed_and_worked [OF inv stored serv], goal_cases)
  case (1 s1 ing1)
  then obtain i where rec: "on_record lb (cl_prober s1) ing i" by blast
  have inv1: "cluster_inv lb s1" by (rule own_steps_inv [OF 1(1) inv])
  have "is_Rules (ing_Spec ing) \<noteq> []" using serv by (simp add: servable_def)
  from gateway_admits [OF inv1 1(7) this] obtain routes where
    s2: "own_steps lb s1 (s1\<lparr>cl_routes := routes\<rparr>)" "routes_settled lb (s1\<lparr>cl_routes := routes\<rparr>) ing"
      "route_admitted (s1\<lparr>cl_routes := routes\<rparr>) ing" by blast
  let ?s2 = "s1\<lparr>cl_routes := routes\<rparr>"
  have inv2: "cluster_inv lb ?s2" by (rule own_steps_inv [OF s2(1) inv1])
  have "on_record lb (cl_prober ?s2) ing i" using rec by simp
  from prober_finishes [OF inv2 this] obtain p q where s3: "own_steps lb ?s2 (?s2\<lparr>cl_prober := p, cl_queue := q\<rparr>)"
      "on_record lb p ing i" "igs_pendingCount (pb_ings p ! i) = 0" by blast
  let ?s3 = "?s2\<lparr>cl_prober := p, cl_queue := q\<rparr>"
  have inv3: "cluster_inv lb ?s3" by (rule own_steps_inv [OF s3(1) inv2])
  have stored3: "ingress_get ns n (cl_ingresses ?s3) = Inr ing1" using 1(4) by simp
  have serv3: "servable lb ?s3 ing1" by (rule servable_cong [OF 1(5,6) serv]) (use 1(2,3) in simp_all)
  have s3_routes: "routes_settled lb ?s3 ing" "route_admitted ?s3 ing"
    using s2(2,3) by (simp_all add: routes_settled_def route_admitted_def)
  have before: "routes_settled lb ?s3 ing1" "route_admitted ?s3 ing1" "on_record lb (cl_prober ?s3) ing1 i"
    using routes_settled_cong [OF 1(5,6) s3_routes(1)] route_admitted_cong [OF 1(5,6), THEN iffD2, OF s3_routes(2)]
      on_record_cong [OF 1(5,6) s3(2)] by simp_all
  show ?case
  proof (rule noticed_and_worked [OF inv3 stored3 serv3], goal_cases)
    case s4: (1 s4 ing4)
    have "Ingress_IsReady ing4" using s4(9) [THEN spec, of i] before s3(3) by simp
    moreover have "own_steps lb s s4" using 1(1) s2(1) s3(1) s4(1) by (blast intro: own_steps_trans)
    ultimately show ?case using s4(4-6) 1(5,6) by (intro exI [of _ s4] exI [of _ ing4]) simp
  qed
qed

section \<open>Properties\<close>




section \<open>A small cluster\<close>

definition small_libs :: libs where
  "small_libs = \<lparr>lb_marshal = (\<lambda>_. Inr ''spec''), lb_sha256 = id, lb_clock = int, lb_domain = ''cluster.local'',
     lb_leader = (\<lambda>_. True)\<rparr>"

definition created_ingress :: ingress where
  "created_ingress = classed_ingress\<lparr>ing_Meta := (ing_Meta classed_ingress)\<lparr>om_Generation := 1\<rparr>\<rparr>"

definition created_cluster :: "unit cluster" where
  "created_cluster = (start_cluster sample_ctx (\<lambda>_ _. Inr small_endpoints))
     \<lparr>cl_ingresses := snd (ingress_create ''ns'' created_ingress NewObjectTracker)\<rparr>"

lemma created_reachable: "cluster_reachable small_libs created_cluster"
proof (rule cluster_reachable.step [OF cluster_reachable.start])
  have "ing_Status created_ingress = empty_status" "om_Generation (ing_Meta created_ingress) = 1"
      "ingress_key created_ingress = (''ns'', ''ing'')"
    by (simp_all add: created_ingress_def classed_ingress_def sample_ingress_def ingress_key_def)
  moreover have "ingress_get ''ns'' ''ing'' (cl_ingresses (start_cluster sample_ctx (\<lambda>_ _. Inr small_endpoints))) = Inl (NewNotFound ''ing'')"
    by (simp add: start_cluster_def tracker_Get_objects)
  ultimately show "cluster_step small_libs (start_cluster sample_ctx (\<lambda>_ _. Inr small_endpoints)) Others created_cluster"
    using cluster_step.user_creates [of created_ingress "''ns''" "''ing''" "start_cluster sample_ctx (\<lambda>_ _. Inr small_endpoints)"]
    by (simp add: created_cluster_def start_cluster_def)
qed

lemma created_stored: "ingress_get ''ns'' ''ing'' (cl_ingresses created_cluster) = Inr created_ingress"
proof -
  obtain r t where "ingress_create ''ns'' created_ingress NewObjectTracker = (r, t)" by fastforce
  moreover have "om_Namespace (ing_Meta created_ingress) = ''ns''" "om_Name (ing_Meta created_ingress) = ''ing''"
    by (simp_all add: created_ingress_def classed_ingress_def sample_ingress_def)
  ultimately show ?thesis
    using stored_ingresses.create_absent [OF tracker_good_new, of created_ingress "''ns''" "''ing''" "NewNotFound ''ing''" r t]
    by (simp add: created_cluster_def tracker_Get_objects)
qed

lemma created_servable: "servable small_libs created_cluster created_ingress"
proof -
  have "class_set created_ingress" "\<not> is_deleted created_ingress"
    by (simp_all add: created_ingress_def class_set_def is_deleted_def classed_ingress_def sample_ingress_def empty_meta_def fmlookup_of_list)
  moreover have "list_all rule_complete (is_Rules (ing_Spec created_ingress)) \<and>
      distinct_routes created_ingress (is_Rules (ing_Spec created_ingress)) \<and> is_Rules (ing_Spec created_ingress) \<noteq> []"
    by code_simp
  moreover have "CHR ''/'' \<notin> set (om_Namespace (ing_Meta created_ingress)) \<and> CHR ''/'' \<notin> set (om_Name (ing_Meta created_ingress))"
    by code_simp
  moreover have "gateway_of sample_ctx \<noteq> None" by (simp add: gateway_of_def sample_ctx_def FromContext_def)
  moreover have "case Ingress_SetDefaults created_ingress of None \<Rightarrow> False | Some prior \<Rightarrow>
      (case ListProbeTargets (\<lambda>_ _. Inr small_endpoints) sample_ctx prior of Some (Inr _) \<Rightarrow> True | _ \<Rightarrow> False)"
    by code_simp
  ultimately show ?thesis
    by (auto simp: servable_def created_cluster_def start_cluster_def small_libs_def split: option.splits sum.splits)
qed




end
