(* ===== verification/Scheme.thy ===== *)
theory Scheme
  imports FakeClientset
begin

text \<open>
  The registration of the Gateway API in a scheme (\<open>clientset/versioned/scheme/register.go\<close> and
  \<open>clientset/versioned/fake/register.go\<close>) over the registry of \<open>k8s.io/apimachinery/pkg/runtime\<close>: which Go type
  stands for which group, version and kind. The lemmas show that the two maps of a scheme stay inverse to each
  other, that registering twice is harmless, and that every type of the Gateway API is found again by its kind.

  An object is given by its type, as \<open>reflect.TypeOf\<close> tells it. The conversion functions that a registration
  also leaves in the converter of the scheme are not modelled, nor are unstructured objects.
\<close>

section \<open>Types, kinds and schemes\<close>

text \<open>A struct type is its package and its name.\<close>

datatype go_type = Struct string string | Pointer go_type | OtherType string

fun type_name :: "go_type \<Rightarrow> string" where
  "type_name (Struct _ n) = n"
| "type_name (Pointer _) = ''''"
| "type_name (OtherType n) = n"

record group_and_version =
  gv_Group :: string
  gv_Version :: string

record group_version_kind =
  gvk_Group :: string
  gvk_Version :: string
  gvk_Kind :: string

definition WithKind :: "group_and_version \<Rightarrow> string \<Rightarrow> group_version_kind" where
  "WithKind gv kind = \<lparr>gvk_Group = gv_Group gv, gvk_Version = gv_Version gv, gvk_Kind = kind\<rparr>"

definition gvk_GroupVersion :: "group_version_kind \<Rightarrow> group_and_version" where
  "gvk_GroupVersion gvk = \<lparr>gv_Group = gvk_Group gvk, gv_Version = gvk_Version gvk\<rparr>"

definition APIVersionInternal :: string where
  "APIVersionInternal = ''__internal''"

record type_scheme =
  sc_gvkToType :: "(group_version_kind, go_type) fmap"
  sc_typeToGVK :: "(go_type, group_version_kind list) fmap"
  sc_unversionedTypes :: "(go_type, group_version_kind) fmap"
  sc_unversionedKinds :: "(string, go_type) fmap"
  sc_observedVersions :: "group_and_version list"

definition NewScheme :: type_scheme where
  "NewScheme = \<lparr>sc_gvkToType = fmempty, sc_typeToGVK = fmempty, sc_unversionedTypes = fmempty,
     sc_unversionedKinds = fmempty, sc_observedVersions = []\<rparr>"

section \<open>Registering types\<close>

definition addObservedVersion :: "group_and_version \<Rightarrow> type_scheme \<Rightarrow> type_scheme" where
  "addObservedVersion version s =
     (if gv_Version version = '''' \<or> gv_Version version = APIVersionInternal then s
      else if version \<in> set (sc_observedVersions s) then s
      else s\<lparr>sc_observedVersions := sc_observedVersions s @ [version]\<rparr>)"

text \<open>A panic is \<open>None\<close>: no version, not a pointer to a struct, or a kind that another type has.\<close>

definition AddKnownTypeWithName :: "group_version_kind \<Rightarrow> go_type \<Rightarrow> type_scheme \<Rightarrow> type_scheme option" where
  "AddKnownTypeWithName gvk obj s0 =
     (let s = addObservedVersion (gvk_GroupVersion gvk) s0
      in if gvk_Version gvk = '''' then None
         else case obj of
           Pointer (Struct pkg name) \<Rightarrow>
             (let t = Struct pkg name;
                  existing = (case fmlookup (sc_typeToGVK s) t of None \<Rightarrow> [] | Some gvks \<Rightarrow> gvks)
              in if (case fmlookup (sc_gvkToType s) gvk of None \<Rightarrow> False | Some oldT \<Rightarrow> oldT \<noteq> t) then None
                 else Some (s\<lparr>sc_gvkToType := fmupd gvk t (sc_gvkToType s),
                              sc_typeToGVK := (if gvk \<in> set existing then sc_typeToGVK s
                                               else fmupd t (existing @ [gvk]) (sc_typeToGVK s))\<rparr>))
         | _ \<Rightarrow> None)"

fun known_loop :: "group_and_version \<Rightarrow> go_type list \<Rightarrow> type_scheme \<Rightarrow> type_scheme option" where
  "known_loop gv [] s = Some s"
| "known_loop gv (obj # types) s =
     (case obj of
        Pointer t \<Rightarrow> Option.bind (AddKnownTypeWithName (WithKind gv (type_name t)) obj s) (known_loop gv types)
      | _ \<Rightarrow> None)"

definition AddKnownTypes :: "group_and_version \<Rightarrow> go_type list \<Rightarrow> type_scheme \<Rightarrow> type_scheme option" where
  "AddKnownTypes gv types s = known_loop gv types (addObservedVersion gv s)"

fun unversioned_loop :: "group_and_version \<Rightarrow> go_type list \<Rightarrow> type_scheme \<Rightarrow> type_scheme option" where
  "unversioned_loop version [] s = Some s"
| "unversioned_loop version (obj # types) s =
     (case obj of
        Pointer t \<Rightarrow>
          (let gvk = WithKind version (type_name t)
           in if (case fmlookup (sc_unversionedKinds s) (gvk_Kind gvk) of None \<Rightarrow> False | Some old \<Rightarrow> t \<noteq> old) then None
              else unversioned_loop version types
                     (s\<lparr>sc_unversionedTypes := fmupd t gvk (sc_unversionedTypes s),
                        sc_unversionedKinds := fmupd (gvk_Kind gvk) t (sc_unversionedKinds s)\<rparr>))
      | _ \<Rightarrow> None)"

definition AddUnversionedTypes :: "group_and_version \<Rightarrow> go_type list \<Rightarrow> type_scheme \<Rightarrow> type_scheme option" where
  "AddUnversionedTypes version types s =
     Option.bind (AddKnownTypes version types (addObservedVersion version s)) (unversioned_loop version types)"

section \<open>Looking types up\<close>

definition ObjectKinds :: "go_type \<Rightarrow> type_scheme \<Rightarrow> error + group_version_kind list \<times> bool" where
  "ObjectKinds obj s =
     (case obj of
        Pointer t \<Rightarrow>
          (case fmlookup (sc_typeToGVK s) t of
             None \<Rightarrow> Inl (OtherError ''no kind is registered for the type'')
           | Some gvks \<Rightarrow> Inr (gvks, fmlookup (sc_unversionedTypes s) t \<noteq> None))
      | _ \<Rightarrow> Inl (OtherError ''expected pointer''))"

definition Recognizes :: "group_version_kind \<Rightarrow> type_scheme \<Rightarrow> bool" where
  "Recognizes gvk s \<longleftrightarrow> fmlookup (sc_gvkToType s) gvk \<noteq> None"

text \<open>The type of the new object.\<close>

definition Scheme_New :: "group_version_kind \<Rightarrow> type_scheme \<Rightarrow> error + go_type" where
  "Scheme_New kind s =
     (case fmlookup (sc_gvkToType s) kind of
        Some t \<Rightarrow> Inr (Pointer t)
      | None \<Rightarrow>
          (case fmlookup (sc_unversionedKinds s) (gvk_Kind kind) of
             Some t \<Rightarrow> Inr (Pointer t)
           | None \<Rightarrow> Inl (OtherError ''no kind is registered in the scheme'')))"

section \<open>The types of the API\<close>

definition meta_type :: "string \<Rightarrow> go_type" where
  "meta_type name = Pointer (Struct ''k8s.io/apimachinery/pkg/apis/meta/v1'' name)"

definition optionsTypes :: "go_type list" where
  "optionsTypes = map meta_type [''ListOptions'', ''GetOptions'', ''DeleteOptions'', ''CreateOptions'',
     ''UpdateOptions'', ''PatchOptions'']"

definition Unversioned :: group_and_version where
  "Unversioned = \<lparr>gv_Group = '''', gv_Version = ''v1''\<rparr>"

definition WatchEventKind :: string where
  "WatchEventKind = ''WatchEvent''"

abbreviation unversioned_names :: "string list" where
  "unversioned_names \<equiv> [''Status'', ''APIVersions'', ''APIGroupList'', ''APIGroup'', ''APIResourceList'']"

text \<open>The conversions and defaults it registers at the end never fail.\<close>

definition AddToGroupVersion :: "group_and_version \<Rightarrow> type_scheme \<Rightarrow> type_scheme option" where
  "AddToGroupVersion groupVersion s =
     do {
       s1 \<leftarrow> AddKnownTypeWithName (WithKind groupVersion WatchEventKind) (meta_type ''WatchEvent'') s;
       s2 \<leftarrow> AddKnownTypeWithName
               (WithKind \<lparr>gv_Group = gv_Group groupVersion, gv_Version = APIVersionInternal\<rparr> WatchEventKind)
               (meta_type ''InternalEvent'') s1;
       s3 \<leftarrow> AddKnownTypes groupVersion optionsTypes s2;
       AddUnversionedTypes Unversioned
         (map meta_type unversioned_names) s3
     }"

definition SchemeGroupVersion :: group_and_version where
  "SchemeGroupVersion = \<lparr>gv_Group = ''networking.x-k8s.io'', gv_Version = ''v1alpha1''\<rparr>"

definition gateway_type :: "string \<Rightarrow> go_type" where
  "gateway_type name = Pointer (Struct ''sigs.k8s.io/gateway-api/apis/v1alpha1'' name)"

definition known_types :: "string list" where
  "known_types = [''BackendPolicy'', ''BackendPolicyList'', ''Gateway'', ''GatewayClass'', ''GatewayClassList'',
     ''GatewayList'', ''HTTPRoute'', ''HTTPRouteList'', ''TCPRoute'', ''TCPRouteList'', ''TLSRoute'', ''TLSRouteList'',
     ''UDPRoute'', ''UDPRouteList'']"

text \<open>A scheme function may panic, or return an error and what it had done by then.\<close>

type_synonym scheme_function = "type_scheme \<Rightarrow> (error option \<times> type_scheme) option"

definition addKnownTypes :: scheme_function where
  "addKnownTypes s =
     do {
       s1 \<leftarrow> AddKnownTypes SchemeGroupVersion (map gateway_type known_types) s;
       s2 \<leftarrow> AddToGroupVersion SchemeGroupVersion s1;
       Some (None, s2)
     }"

fun SchemeBuilder_AddToScheme :: "scheme_function list \<Rightarrow> scheme_function" where
  "SchemeBuilder_AddToScheme [] s = Some (None, s)"
| "SchemeBuilder_AddToScheme (f # sb) s =
     (case f s of
        None \<Rightarrow> None
      | Some (Some err, s') \<Rightarrow> Some (Some err, s')
      | Some (None, s') \<Rightarrow> SchemeBuilder_AddToScheme sb s')"

definition SchemeBuilder_Register :: "scheme_function list \<Rightarrow> scheme_function list \<Rightarrow> scheme_function list" where
  "SchemeBuilder_Register funcs sb = sb @ funcs"

text \<open>The builder of the Gateway API, after the \<open>init\<close> of its package.\<close>

definition gateway_SchemeBuilder :: "scheme_function list" where
  "gateway_SchemeBuilder = SchemeBuilder_Register [addKnownTypes] []"

definition gateway_AddToScheme :: scheme_function where
  "gateway_AddToScheme = SchemeBuilder_AddToScheme gateway_SchemeBuilder"

section \<open>The schemes of the clientsets\<close>

definition localSchemeBuilder :: "scheme_function list" where
  "localSchemeBuilder = [gateway_AddToScheme]"

definition AddToScheme :: scheme_function where
  "AddToScheme = SchemeBuilder_AddToScheme localSchemeBuilder"

text \<open>\<open>utilruntime.Must\<close> panics on an error.\<close>

definition Must :: "(error option \<times> 's) option \<Rightarrow> 's option" where
  "Must r = (case r of Some (None, s) \<Rightarrow> Some s | _ \<Rightarrow> None)"

definition scheme_init :: "type_scheme \<Rightarrow> type_scheme option" where
  "scheme_init s = Option.bind (AddToGroupVersion \<lparr>gv_Group = '''', gv_Version = ''v1''\<rparr> s) (\<lambda>s1. Must (AddToScheme s1))"

definition fake_localSchemeBuilder :: "scheme_function list" where
  "fake_localSchemeBuilder = [gateway_AddToScheme]"

definition fake_AddToScheme :: scheme_function where
  "fake_AddToScheme = SchemeBuilder_AddToScheme fake_localSchemeBuilder"

definition fake_scheme_init :: "type_scheme \<Rightarrow> type_scheme option" where
  "fake_scheme_init s =
     Option.bind (AddToGroupVersion \<lparr>gv_Group = '''', gv_Version = ''v1''\<rparr> s) (\<lambda>s1. Must (fake_AddToScheme s1))"

section \<open>What registering keeps\<close>

text \<open>
  The maps between types and kinds are inverse to each other, unversioned kinds are named after their
  types, and the version of every external kind has been observed.
\<close>

definition inverse_maps :: "(group_version_kind, go_type) fmap \<Rightarrow> (go_type, group_version_kind list) fmap \<Rightarrow> bool" where
  "inverse_maps gt tg \<longleftrightarrow>
     (\<forall>g t. fmlookup gt g = Some t \<longleftrightarrow> (\<exists>gs. fmlookup tg t = Some gs \<and> g \<in> set gs)) \<and>
     (\<forall>t gs. fmlookup tg t = Some gs \<longrightarrow> gs \<noteq> [] \<and> distinct gs)"

definition versions_seen :: "(group_version_kind, go_type) fmap \<Rightarrow> group_and_version list \<Rightarrow> bool" where
  "versions_seen gt vs \<longleftrightarrow> (\<forall>g t. fmlookup gt g = Some t \<longrightarrow>
     gvk_Version g \<noteq> '''' \<and> (gvk_Version g = APIVersionInternal \<or> gvk_GroupVersion g \<in> set vs))"

definition unversioned_named ::
  "(go_type, group_version_kind) fmap \<Rightarrow> (string, go_type) fmap \<Rightarrow> (group_version_kind, go_type) fmap \<Rightarrow> bool" where
  "unversioned_named ut uk gt \<longleftrightarrow>
     (\<forall>t g. fmlookup ut t = Some g \<longrightarrow> g = WithKind Unversioned (type_name t) \<and>
        fmlookup uk (type_name t) = Some t \<and> fmlookup gt g = Some t) \<and>
     (\<forall>k t. fmlookup uk k = Some t \<longrightarrow> type_name t = k \<and> fmlookup ut t \<noteq> None)"

definition scheme_inv :: "type_scheme \<Rightarrow> bool" where
  "scheme_inv s \<longleftrightarrow> inverse_maps (sc_gvkToType s) (sc_typeToGVK s) \<and>
     versions_seen (sc_gvkToType s) (sc_observedVersions s) \<and>
     unversioned_named (sc_unversionedTypes s) (sc_unversionedKinds s) (sc_gvkToType s) \<and>
     distinct (sc_observedVersions s)"

text \<open>Nothing registered is lost or moved.\<close>

definition scheme_extends :: "type_scheme \<Rightarrow> type_scheme \<Rightarrow> bool" where
  "scheme_extends s s' \<longleftrightarrow>
     (\<forall>g t. fmlookup (sc_gvkToType s) g = Some t \<longrightarrow> fmlookup (sc_gvkToType s') g = Some t) \<and>
     (\<forall>t gs. fmlookup (sc_typeToGVK s) t = Some gs \<longrightarrow> (\<exists>more. fmlookup (sc_typeToGVK s') t = Some (gs @ more))) \<and>
     (\<forall>t g. fmlookup (sc_unversionedTypes s) t = Some g \<longrightarrow> fmlookup (sc_unversionedTypes s') t = Some g) \<and>
     (\<forall>k t. fmlookup (sc_unversionedKinds s) k = Some t \<longrightarrow> fmlookup (sc_unversionedKinds s') k = Some t) \<and>
     set (sc_observedVersions s) \<subseteq> set (sc_observedVersions s')"

lemma extends_refl [simp]: "scheme_extends s s"
  by (simp add: scheme_extends_def)

lemma extends_trans [trans]: "scheme_extends s s' \<Longrightarrow> scheme_extends s' s'' \<Longrightarrow> scheme_extends s s''"
  unfolding scheme_extends_def by (elim conjE, intro conjI allI impI) (fastforce, fastforce, blast+)

lemma extends_known:
  "scheme_extends s s' \<Longrightarrow> fmlookup (sc_gvkToType s) g = Some t \<Longrightarrow> fmlookup (sc_gvkToType s') g = Some t"
  by (simp add: scheme_extends_def)

lemma scheme_inv_New [simp]: "scheme_inv NewScheme"
  by (simp add: scheme_inv_def NewScheme_def inverse_maps_def versions_seen_def unversioned_named_def)

text \<open>
  A registration keeps the invariant, extends the scheme, and has nothing to do on a scheme that extends its
  result.
\<close>

definition registration :: "(type_scheme \<Rightarrow> type_scheme option) \<Rightarrow> bool" where
  "registration f \<longleftrightarrow> (\<forall>s s'. scheme_inv s \<longrightarrow> f s = Some s' \<longrightarrow> scheme_inv s' \<and> scheme_extends s s' \<and>
     (\<forall>s''. scheme_inv s'' \<longrightarrow> scheme_extends s' s'' \<longrightarrow> f s'' = Some s''))"

lemma registrationD:
  assumes "registration f" and "scheme_inv s" and "f s = Some s'"
  shows "scheme_inv s'" and "scheme_extends s s'"
    and "scheme_inv s'' \<Longrightarrow> scheme_extends s' s'' \<Longrightarrow> f s'' = Some s''"
  using assms unfolding registration_def by blast+

lemma registration_Some: "registration Some"
  by (simp add: registration_def)

lemma registration_bind:
  assumes "registration f" and "registration g"
  shows "registration (\<lambda>s. Option.bind (f s) g)"
  unfolding registration_def
proof (intro allI impI)
  fix s s' assume inv: "scheme_inv s" and run: "Option.bind (f s) g = Some s'"
  then obtain s1 where f: "f s = Some s1" and g: "g s1 = Some s'" by (cases "f s") auto
  note F = registrationD [OF assms(1) inv f]
  note G = registrationD [OF assms(2) F(1) g]
  show "scheme_inv s' \<and> scheme_extends s s' \<and>
      (\<forall>s''. scheme_inv s'' \<longrightarrow> scheme_extends s' s'' \<longrightarrow> Option.bind (f s'') g = Some s'')"
  proof (intro conjI allI impI)
    show "scheme_inv s'" by (rule G(1))
    show "scheme_extends s s'" by (rule extends_trans [OF F(2) G(2)])
    fix s'' assume "scheme_inv s''" "scheme_extends s' s''"
    then have "f s'' = Some s''" "g s'' = Some s''" using F(3) G(3) extends_trans [OF G(2)] by blast+
    then show "Option.bind (f s'') g = Some s''" by simp
  qed
qed

lemma addObservedVersion_observed:
  "gv_Version gv = '''' \<or> gv_Version gv = APIVersionInternal \<or> gv \<in> set (sc_observedVersions (addObservedVersion gv s))"
  by (simp add: addObservedVersion_def)

lemma versions_seen_mono: "versions_seen gt vs \<Longrightarrow> set vs \<subseteq> set vs' \<Longrightarrow> versions_seen gt vs'"
  unfolding versions_seen_def by blast

lemma versions_seen_upd:
  "versions_seen gt vs \<Longrightarrow> gvk_Version g \<noteq> '''' \<Longrightarrow>
   gvk_Version g = APIVersionInternal \<or> gvk_GroupVersion g \<in> set vs \<Longrightarrow> versions_seen (fmupd g t gt) vs"
  unfolding versions_seen_def by auto

lemma inverse_mapsD:
  assumes "inverse_maps gt tg" and "fmlookup tg t = Some gs" and "g \<in> set gs"
  shows "fmlookup gt g = Some t"
  using assms unfolding inverse_maps_def by blast

lemma inverse_mapsE:
  assumes "inverse_maps gt tg" and "fmlookup gt g = Some t"
  obtains gs where "fmlookup tg t = Some gs" "g \<in> set gs"
  using assms unfolding inverse_maps_def by blast

text \<open>A new kind of a type goes to the end of its kinds.\<close>

lemma inverse_maps_upd:
  assumes "inverse_maps gt tg" and "fmlookup gt g = None"
    and gs_def: "gs = (case fmlookup tg t of None \<Rightarrow> [] | Some gs \<Rightarrow> gs)"
  shows "inverse_maps (fmupd g t gt) (fmupd t (gs @ [g]) tg)"
proof -
  have fresh: "fmlookup tg u = Some hs \<Longrightarrow> g \<notin> set hs" for u hs
    using inverse_mapsD [OF assms(1)] assms(2) by fastforce
  have mem: "h \<in> set gs \<longleftrightarrow> fmlookup gt h = Some t" for h
    using assms(1) unfolding gs_def inverse_maps_def by (cases "fmlookup tg t") auto
  have "distinct gs" using assms(1) unfolding gs_def inverse_maps_def by (cases "fmlookup tg t") auto
  moreover have "g \<notin> set gs" using mem assms(2) by simp
  moreover have "fmlookup (fmupd g t gt) h = Some u \<longleftrightarrow>
      (\<exists>hs. fmlookup (fmupd t (gs @ [g]) tg) u = Some hs \<and> h \<in> set hs)" for h u
    using assms(1,2) mem [of h] fresh unfolding inverse_maps_def by auto
  ultimately show ?thesis using assms(1) unfolding inverse_maps_def by (auto split: if_splits)
qed

lemma unversioned_named_upd:
  assumes "unversioned_named ut uk gt" and "fmlookup gt (WithKind Unversioned (type_name t)) = Some t"
    and "fmlookup uk (type_name t) \<in> {None, Some t}"
  shows "unversioned_named (fmupd t (WithKind Unversioned (type_name t)) ut) (fmupd (type_name t) t uk) gt"
  unfolding unversioned_named_def
proof (intro conjI allI impI)
  let ?ut = "fmupd t (WithKind Unversioned (type_name t)) ut" and ?uk = "fmupd (type_name t) t uk"
  have named: "g = WithKind Unversioned (type_name u) \<and> fmlookup uk (type_name u) = Some u \<and> fmlookup gt g = Some u"
    if "fmlookup ut u = Some g" for u g using assms(1) that unfolding unversioned_named_def by blast
  fix u g assume u: "fmlookup ?ut u = Some g"
  show "g = WithKind Unversioned (type_name u)" using u named by (cases "u = t") auto
  show "fmlookup ?uk (type_name u) = Some u" using u named [of u g] assms(3) by (cases "u = t") auto
  show "fmlookup gt g = Some u" using u named [of u g] assms(2) by (cases "u = t") auto
next
  let ?ut = "fmupd t (WithKind Unversioned (type_name t)) ut" and ?uk = "fmupd (type_name t) t uk"
  fix k u assume k: "fmlookup ?uk k = Some u"
  have old: "type_name u = k \<and> fmlookup ut u \<noteq> None" if "fmlookup uk k = Some u"
    using assms(1) that unfolding unversioned_named_def by blast
  show "type_name u = k" using k old by (cases "k = type_name t") auto
  show "fmlookup ?ut u \<noteq> None" using k old by (cases "k = type_name t") auto
qed

lemma unversioned_same:
  "unversioned_named ut uk gt \<Longrightarrow> fmlookup ut t = Some g \<Longrightarrow> g = WithKind Unversioned (type_name t)"
  unfolding unversioned_named_def by blast

lemma unversioned_named_mono:
  "unversioned_named ut uk gt \<Longrightarrow> (\<And>g t. fmlookup gt g = Some t \<Longrightarrow> fmlookup gt' g = Some t) \<Longrightarrow>
   unversioned_named ut uk gt'"
  unfolding unversioned_named_def by blast

lemma registration_observed: "registration (\<lambda>s. Some (addObservedVersion gv s))"
proof -
  have "scheme_inv (addObservedVersion gv s) \<and> scheme_extends s (addObservedVersion gv s)" if "scheme_inv s" for s
    using that unfolding scheme_inv_def scheme_extends_def addObservedVersion_def
    by (auto elim: versions_seen_mono)
  moreover have "addObservedVersion gv s'' = s''" if "scheme_extends (addObservedVersion gv s) s''" for s s''
    using that addObservedVersion_observed [of gv s] unfolding scheme_extends_def
    by (auto simp: addObservedVersion_def split: if_splits)
  ultimately show ?thesis unfolding registration_def by blast
qed

lemma fmupd_same: "fmlookup m k = Some v \<Longrightarrow> fmupd k v m = m"
  by (rule fmap_ext) auto

lemma addObservedVersion_same:
  "gv_Version gv = APIVersionInternal \<or> gv \<in> set (sc_observedVersions s) \<Longrightarrow> addObservedVersion gv s = s"
  by (auto simp: addObservedVersion_def)

lemma addObservedVersion_frame [simp]:
  "sc_gvkToType (addObservedVersion gv s) = sc_gvkToType s"
  "sc_typeToGVK (addObservedVersion gv s) = sc_typeToGVK s"
  "sc_unversionedTypes (addObservedVersion gv s) = sc_unversionedTypes s"
  "sc_unversionedKinds (addObservedVersion gv s) = sc_unversionedKinds s"
  by (simp_all add: addObservedVersion_def)

text \<open>A kind already there makes a registration a no-op.\<close>

lemma known_again:
  assumes "scheme_inv s" and "fmlookup (sc_gvkToType s) g = Some (Struct pkg name)"
  shows "AddKnownTypeWithName g (Pointer (Struct pkg name)) s = Some s"
proof -
  obtain gs where "fmlookup (sc_typeToGVK s) (Struct pkg name) = Some gs" "g \<in> set gs"
    using assms unfolding scheme_inv_def by (blast elim: inverse_mapsE)
  moreover have "gvk_Version g \<noteq> ''''" "gvk_Version g = APIVersionInternal \<or> gvk_GroupVersion g \<in> set (sc_observedVersions s)"
    using assms unfolding scheme_inv_def versions_seen_def by blast+
  moreover have "gv_Version (gvk_GroupVersion g) = gvk_Version g" by (simp add: gvk_GroupVersion_def)
  ultimately show ?thesis
    using assms(2) by (simp add: AddKnownTypeWithName_def Let_def addObservedVersion_same fmupd_same)
qed

lemma known_cases:
  assumes "AddKnownTypeWithName g obj s = Some s'"
  obtains pkg name where "obj = Pointer (Struct pkg name)" "gvk_Version g \<noteq> ''''"
    "fmlookup (sc_gvkToType s) g = None \<or> fmlookup (sc_gvkToType s) g = Some (Struct pkg name)"
  using assms
  by (auto simp: AddKnownTypeWithName_def Let_def split: if_splits go_type.splits option.splits)

lemma registration_known: "registration (AddKnownTypeWithName g obj)"
  unfolding registration_def
proof (intro allI impI)
  fix s s' assume inv: "scheme_inv s" and run: "AddKnownTypeWithName g obj s = Some s'"
  from run obtain pkg name where obj: "obj = Pointer (Struct pkg name)" and version: "gvk_Version g \<noteq> ''''"
    and old: "fmlookup (sc_gvkToType s) g = None \<or> fmlookup (sc_gvkToType s) g = Some (Struct pkg name)"
    by (rule known_cases)
  have new: "scheme_inv s' \<and> scheme_extends s s' \<and> fmlookup (sc_gvkToType s') g = Some (Struct pkg name)"
  proof (cases "fmlookup (sc_gvkToType s) g")
    case (Some t)
    with known_again [OF inv] old obj run show ?thesis using inv by auto
  next
    case None
    let ?t = "Struct pkg name" and ?o = "addObservedVersion (gvk_GroupVersion g) s"
    define gs where "gs = (case fmlookup (sc_typeToGVK s) ?t of None \<Rightarrow> [] | Some gs \<Rightarrow> gs)"
    have "g \<notin> set gs"
      using inv None unfolding gs_def scheme_inv_def
      by (cases "fmlookup (sc_typeToGVK s) ?t") (auto dest: inverse_mapsD)
    have s': "s' = ?o\<lparr>sc_gvkToType := fmupd g ?t (sc_gvkToType s), sc_typeToGVK := fmupd ?t (gs @ [g]) (sc_typeToGVK s)\<rparr>"
      using run obj None version \<open>g \<notin> set gs\<close>
      by (cases "fmlookup (sc_typeToGVK s) ?t") (simp_all add: AddKnownTypeWithName_def Let_def gs_def)
    have "scheme_inv ?o" and ext: "scheme_extends s ?o"
      using registrationD [OF registration_observed inv refl] by blast+
    have "gvk_Version g = APIVersionInternal \<or> gvk_GroupVersion g \<in> set (sc_observedVersions ?o)"
      using version addObservedVersion_observed [of "gvk_GroupVersion g" s] by (simp add: gvk_GroupVersion_def)
    with \<open>scheme_inv ?o\<close> version have "scheme_inv s'"
      using None inverse_maps_upd [OF _ None gs_def] unfolding s' scheme_inv_def
      by (auto intro: versions_seen_upd elim!: unversioned_named_mono)
    moreover have "scheme_extends s s'"
      using ext None unfolding scheme_extends_def s' by (auto simp: gs_def)
    ultimately show ?thesis by (simp add: s')
  qed
  then show "scheme_inv s' \<and> scheme_extends s s' \<and>
      (\<forall>s''. scheme_inv s'' \<longrightarrow> scheme_extends s' s'' \<longrightarrow> AddKnownTypeWithName g obj s'' = Some s'')"
    using obj by (blast intro: known_again extends_known)
qed

lemma known_registers: "AddKnownTypeWithName g (Pointer t) s = Some s' \<Longrightarrow> fmlookup (sc_gvkToType s') g = Some t"
  by (auto simp: AddKnownTypeWithName_def Let_def split: if_splits go_type.splits)

lemma registration_known_loop: "registration (known_loop gv types)"
proof (induction types)
  case Nil
  then show ?case by (simp add: registration_def)
next
  case (Cons obj types)
  show ?case
  proof (cases obj)
    case (Pointer t)
    then have "known_loop gv (obj # types) =
        (\<lambda>s. Option.bind (AddKnownTypeWithName (WithKind gv (type_name t)) obj s) (known_loop gv types))" by (simp add: fun_eq_iff)
    then show ?thesis using registration_bind [OF registration_known Cons.IH] by simp
  qed (simp_all add: registration_def)
qed

lemma known_loop_registers:
  assumes "known_loop gv types s = Some s'" and "scheme_inv s" and "Pointer t \<in> set types"
  shows "fmlookup (sc_gvkToType s') (WithKind gv (type_name t)) = Some t"
  using assms
proof (induction types arbitrary: s)
  case (Cons obj types)
  then obtain u s1 where obj: "obj = Pointer u"
      and known: "AddKnownTypeWithName (WithKind gv (type_name u)) obj s = Some s1"
      and rest: "known_loop gv types s1 = Some s'"
    by (cases obj) (auto split: bind_splits)
  have inv: "scheme_inv s1" by (rule registrationD [OF registration_known Cons.prems(2) known])
  show ?case
  proof (cases "u = t")
    case True
    with known obj have "fmlookup (sc_gvkToType s1) (WithKind gv (type_name t)) = Some t" by (simp add: known_registers)
    then show ?thesis by (rule extends_known [OF registrationD(2) [OF registration_known_loop inv rest]])
  next
    case False
    with Cons obj rest inv show ?thesis by auto
  qed
qed simp

lemma registration_AddKnownTypes: "registration (AddKnownTypes gv types)"
  using registration_bind [OF registration_observed registration_known_loop]
  by (simp add: AddKnownTypes_def [abs_def])

lemma AddKnownTypes_registers:
  assumes "AddKnownTypes gv types s = Some s'" and "scheme_inv s" and "Pointer t \<in> set types"
  shows "fmlookup (sc_gvkToType s') (WithKind gv (type_name t)) = Some t"
  using assms known_loop_registers registrationD(1) [OF registration_observed assms(2) refl]
  unfolding AddKnownTypes_def by blast

text \<open>A type becomes unversioned once it is known in the unversioned group.\<close>

definition unversioned_entry :: "go_type \<Rightarrow> type_scheme \<Rightarrow> bool" where
  "unversioned_entry t s \<longleftrightarrow> fmlookup (sc_unversionedTypes s) t = Some (WithKind Unversioned (type_name t)) \<and>
     fmlookup (sc_unversionedKinds s) (type_name t) = Some t"

lemma WithKind_Kind [simp]: "gvk_Kind (WithKind gv k) = k"
  by (simp add: WithKind_def)

lemma unversioned_again:
  "(\<And>t. Pointer t \<in> set types \<Longrightarrow> unversioned_entry t s) \<Longrightarrow> (\<And>obj. obj \<in> set types \<Longrightarrow> \<exists>t. obj = Pointer t) \<Longrightarrow>
   unversioned_loop Unversioned types s = Some s"
proof (induction types)
  case (Cons obj types)
  then obtain t where "obj = Pointer t" by auto
  moreover have "unversioned_entry t s" using Cons.prems(1) calculation by simp
  ultimately show ?case using Cons by (simp add: unversioned_entry_def fmupd_same)
qed simp

lemma unversioned_step:
  assumes "scheme_inv s" and known: "fmlookup (sc_gvkToType s) (WithKind Unversioned (type_name t)) = Some t"
  defines "s1 \<equiv> s\<lparr>sc_unversionedTypes := fmupd t (WithKind Unversioned (type_name t)) (sc_unversionedTypes s),
    sc_unversionedKinds := fmupd (type_name t) t (sc_unversionedKinds s)\<rparr>"
  shows "scheme_inv s1" and "scheme_extends s s1"
    and "unversioned_loop Unversioned (Pointer t # types) s = unversioned_loop Unversioned types s1"
proof -
  have named: "unversioned_named (sc_unversionedTypes s) (sc_unversionedKinds s) (sc_gvkToType s)"
    using assms(1) by (simp add: scheme_inv_def)
  have old: "fmlookup (sc_unversionedKinds s) (type_name t) \<in> {None, Some t}"
  proof (cases "fmlookup (sc_unversionedKinds s) (type_name t)")
    case (Some u)
    then obtain g where u: "type_name u = type_name t" "fmlookup (sc_unversionedTypes s) u = Some g"
      using named unfolding unversioned_named_def by blast
    then have "g = WithKind Unversioned (type_name t)" "fmlookup (sc_gvkToType s) g = Some u"
      using named unfolding unversioned_named_def by (metis, blast)
    with known Some show ?thesis by simp
  qed simp
  note new = unversioned_named_upd [OF named known old] unversioned_same [OF named]
  show "scheme_inv s1" using assms(1) new(1) by (simp add: scheme_inv_def s1_def)
  show "scheme_extends s s1" using new(2) old by (auto simp: scheme_extends_def s1_def)
  show "unversioned_loop Unversioned (Pointer t # types) s = unversioned_loop Unversioned types s1"
    using old by (cases "fmlookup (sc_unversionedKinds s) (type_name t)") (simp_all add: s1_def)
qed

lemma unversioned_loop_registers:
  assumes "unversioned_loop Unversioned types s = Some s'" and "scheme_inv s"
    and "\<And>t. Pointer t \<in> set types \<Longrightarrow> fmlookup (sc_gvkToType s) (WithKind Unversioned (type_name t)) = Some t"
  shows "scheme_inv s' \<and> scheme_extends s s' \<and>
    (\<forall>obj \<in> set types. \<exists>t. obj = Pointer t \<and> unversioned_entry t s')"
  using assms
proof (induction types arbitrary: s)
  case (Cons obj types)
  obtain t where obj: "obj = Pointer t" using Cons.prems(1) by (cases obj) auto
  have "fmlookup (sc_gvkToType s) (WithKind Unversioned (type_name t)) = Some t" using Cons.prems(3) obj by simp
  note step = unversioned_step [OF Cons.prems(2) this]
  let ?s = "s\<lparr>sc_unversionedTypes := fmupd t (WithKind Unversioned (type_name t)) (sc_unversionedTypes s),
    sc_unversionedKinds := fmupd (type_name t) t (sc_unversionedKinds s)\<rparr>"
  have rest: "scheme_inv s' \<and> scheme_extends ?s s' \<and> (\<forall>obj \<in> set types. \<exists>t. obj = Pointer t \<and> unversioned_entry t s')"
    using Cons.prems(1,3) step(3) obj by (intro Cons.IH [OF _ step(1)]) simp_all
  then have "unversioned_entry t s'" by (simp add: scheme_extends_def unversioned_entry_def)
  moreover have "scheme_extends s s'" using rest extends_trans [OF step(2)] by blast
  ultimately show ?case using obj rest by simp
qed simp

lemma unversioned_loop_runs:
  assumes "scheme_inv s" and "\<forall>obj \<in> set types. \<exists>t. obj = Pointer t \<and>
    fmlookup (sc_gvkToType s) (WithKind Unversioned (type_name t)) = Some t"
  shows "\<exists>s'. unversioned_loop Unversioned types s = Some s'"
  using assms
proof (induction types arbitrary: s)
  case (Cons obj types)
  then obtain t where "obj = Pointer t" and known: "fmlookup (sc_gvkToType s) (WithKind Unversioned (type_name t)) = Some t" by auto
  with Cons.IH [OF unversioned_step(1) [OF Cons.prems(1) known]] Cons.prems(2) unversioned_step(3) [OF Cons.prems(1) known]
  show ?case by auto
qed simp

lemma registration_unversioned: "registration (AddUnversionedTypes Unversioned types)"
  unfolding registration_def
proof (intro allI impI)
  fix s s' assume inv: "scheme_inv s" and run: "AddUnversionedTypes Unversioned types s = Some s'"
  let ?known = "\<lambda>s. Option.bind (Some (addObservedVersion Unversioned s)) (AddKnownTypes Unversioned types)"
  have reg: "registration ?known" by (rule registration_bind [OF registration_observed registration_AddKnownTypes])
  obtain s1 where known: "?known s = Some s1" and un: "unversioned_loop Unversioned types s1 = Some s'"
    using run by (auto simp: AddUnversionedTypes_def split: bind_splits)
  note K = registrationD [OF reg inv known]
  have "scheme_inv (addObservedVersion Unversioned s)" using registrationD(1) [OF registration_observed inv refl] .
  then have "\<And>t. Pointer t \<in> set types \<Longrightarrow> fmlookup (sc_gvkToType s1) (WithKind Unversioned (type_name t)) = Some t"
    using AddKnownTypes_registers known by simp
  note U = unversioned_loop_registers [OF un K(1) this]
  have "AddUnversionedTypes Unversioned types s'' = Some s''" if "scheme_inv s''" "scheme_extends s' s''" for s''
  proof -
    have "?known s'' = Some s''" using K(3) that U extends_trans by blast
    moreover have "unversioned_loop Unversioned types s'' = Some s''"
      using U that(2) by (intro unversioned_again) (auto simp: unversioned_entry_def scheme_extends_def)
    ultimately show ?thesis by (simp add: AddUnversionedTypes_def)
  qed
  then show "scheme_inv s' \<and> scheme_extends s s' \<and>
      (\<forall>s''. scheme_inv s'' \<longrightarrow> scheme_extends s' s'' \<longrightarrow> AddUnversionedTypes Unversioned types s'' = Some s'')"
    using K(2) U extends_trans by blast
qed

section \<open>The schemes of the clientsets are complete\<close>

lemma registration_AddToGroupVersion: "registration (AddToGroupVersion gv)"
  unfolding AddToGroupVersion_def [abs_def]
  by (intro registration_bind registration_known registration_AddKnownTypes registration_unversioned)

lemma Must_addKnownTypes:
  "(\<lambda>s. Must (addKnownTypes s)) =
     (\<lambda>s. Option.bind (AddKnownTypes SchemeGroupVersion (map gateway_type known_types) s) (AddToGroupVersion SchemeGroupVersion))"
  by (simp add: fun_eq_iff addKnownTypes_def Must_def split: bind_splits)

lemma registration_addKnownTypes: "registration (\<lambda>s. Must (addKnownTypes s))"
  by (simp add: Must_addKnownTypes registration_bind registration_AddKnownTypes registration_AddToGroupVersion)

text \<open>The builders have one function each, which never returns an error.\<close>

lemma AddToScheme_known: "AddToScheme s = map_option (Pair None) (Must (addKnownTypes s))"
  by (simp add: AddToScheme_def localSchemeBuilder_def gateway_AddToScheme_def gateway_SchemeBuilder_def
      SchemeBuilder_Register_def addKnownTypes_def Must_def split: bind_splits)

lemma fake_AddToScheme_same: "fake_AddToScheme = AddToScheme"
  by (simp add: fake_AddToScheme_def AddToScheme_def fake_localSchemeBuilder_def localSchemeBuilder_def)

lemma fake_scheme_same: "fake_scheme_init = scheme_init"
  by (simp add: fun_eq_iff fake_scheme_init_def scheme_init_def fake_AddToScheme_same)

lemma type_name_gateway [simp]: "gateway_type name = Pointer t \<Longrightarrow> type_name t = name"
  by (auto simp: gateway_type_def)

lemma addKnownTypes_registers:
  assumes "scheme_inv s" and "Must (addKnownTypes s) = Some s'" and "name \<in> set known_types"
    and "gateway_type name = Pointer t"
  shows "fmlookup (sc_gvkToType s') (WithKind SchemeGroupVersion name) = Some t"
proof -
  obtain s1 where known: "AddKnownTypes SchemeGroupVersion (map gateway_type known_types) s = Some s1"
      and rest: "AddToGroupVersion SchemeGroupVersion s1 = Some s'"
    using assms(2) by (auto simp: addKnownTypes_def Must_def split: bind_splits)
  have "Pointer t \<in> set (map gateway_type known_types)" using assms(3,4) by force
  then have "fmlookup (sc_gvkToType s1) (WithKind SchemeGroupVersion name) = Some t"
    using AddKnownTypes_registers [OF known assms(1)] assms(4) by fastforce
  moreover have "scheme_inv s1" by (rule registrationD(1) [OF registration_AddKnownTypes assms(1) known])
  ultimately show ?thesis
    using extends_known registrationD(2) [OF registration_AddToGroupVersion _ rest] by blast
qed

lemma kinds_roundtrip:
  assumes "scheme_inv s"
  shows "ObjectKinds obj s = Inr (gvks, u) \<Longrightarrow> g \<in> set gvks \<Longrightarrow> Scheme_New g s = Inr obj"
    and "fmlookup (sc_gvkToType s) g = Some t \<Longrightarrow>
      Scheme_New g s = Inr (Pointer t) \<and> (\<exists>gvks u. ObjectKinds (Pointer t) s = Inr (gvks, u) \<and> g \<in> set gvks)"
proof -
  have maps: "inverse_maps (sc_gvkToType s) (sc_typeToGVK s)" using assms by (simp add: scheme_inv_def)
  {
    assume "ObjectKinds obj s = Inr (gvks, u)" and g: "g \<in> set gvks"
    then obtain t where "obj = Pointer t" "fmlookup (sc_typeToGVK s) t = Some gvks"
      by (auto simp: ObjectKinds_def split: go_type.splits option.splits)
    with inverse_mapsD [OF maps _ g] show "Scheme_New g s = Inr obj" by (simp add: Scheme_New_def)
  }
  assume g: "fmlookup (sc_gvkToType s) g = Some t"
  obtain gs where "fmlookup (sc_typeToGVK s) t = Some gs" "g \<in> set gs" by (rule inverse_mapsE [OF maps g])
  with g show "Scheme_New g s = Inr (Pointer t) \<and> (\<exists>gvks u. ObjectKinds (Pointer t) s = Inr (gvks, u) \<and> g \<in> set gvks)"
    by (simp add: Scheme_New_def ObjectKinds_def)
qed

text \<open>Nothing is registered but what is asked for.\<close>

lemma known_only:
  assumes "AddKnownTypeWithName g obj s = Some s'" and "fmlookup (sc_gvkToType s') h = Some t"
  shows "fmlookup (sc_gvkToType s) h = Some t \<or> h = g \<and> obj = Pointer t"
  using assms by (auto simp: AddKnownTypeWithName_def Let_def split: if_splits go_type.splits)

lemma known_loop_only:
  "known_loop gv types s = Some s' \<Longrightarrow> fmlookup (sc_gvkToType s') h = Some t \<Longrightarrow>
   fmlookup (sc_gvkToType s) h = Some t \<or> Pointer t \<in> set types \<and> h = WithKind gv (type_name t)"
proof (induction types arbitrary: s)
  case (Cons obj types)
  then show ?case by (cases obj) (auto split: bind_splits dest!: known_only)
qed simp

lemma AddKnownTypes_only:
  "AddKnownTypes gv types s = Some s' \<Longrightarrow> fmlookup (sc_gvkToType s') h = Some t \<Longrightarrow>
   fmlookup (sc_gvkToType s) h = Some t \<or> Pointer t \<in> set types \<and> h = WithKind gv (type_name t)"
  unfolding AddKnownTypes_def by (drule known_loop_only) auto

lemma unversioned_loop_frame: "unversioned_loop gv types s = Some s' \<Longrightarrow> sc_gvkToType s' = sc_gvkToType s"
proof (induction types arbitrary: s)
  case (Cons obj types)
  then show ?case by (cases obj) (fastforce simp: Let_def split: if_splits)+
qed simp

lemma AddToGroupVersionE:
  assumes "AddToGroupVersion gv s = Some s'"
  obtains s1 s2 s3 s4 where "AddKnownTypeWithName (WithKind gv WatchEventKind) (meta_type ''WatchEvent'') s = Some s1"
    "AddKnownTypeWithName (WithKind \<lparr>gv_Group = gv_Group gv, gv_Version = APIVersionInternal\<rparr> WatchEventKind)
      (meta_type ''InternalEvent'') s1 = Some s2"
    "AddKnownTypes gv optionsTypes s2 = Some s3"
    "AddKnownTypes Unversioned (map meta_type unversioned_names) (addObservedVersion Unversioned s3) = Some s4"
    "unversioned_loop Unversioned (map meta_type unversioned_names) s4 = Some s'"
  using assms unfolding AddToGroupVersion_def AddUnversionedTypes_def by (auto split: bind_splits simp del: list.map)

lemma AddToGroupVersion_only:
  assumes "AddToGroupVersion gv s = Some s'" and "fmlookup (sc_gvkToType s') h = Some t"
    and "\<And>name. Pointer t \<noteq> meta_type name"
  shows "fmlookup (sc_gvkToType s) h = Some t"
proof -
  obtain s1 s2 s3 s4 where s1: "AddKnownTypeWithName (WithKind gv WatchEventKind) (meta_type ''WatchEvent'') s = Some s1"
    and s2: "AddKnownTypeWithName (WithKind \<lparr>gv_Group = gv_Group gv, gv_Version = APIVersionInternal\<rparr> WatchEventKind)
      (meta_type ''InternalEvent'') s1 = Some s2"
    and s3: "AddKnownTypes gv optionsTypes s2 = Some s3"
    and s4: "AddKnownTypes Unversioned (map meta_type unversioned_names) (addObservedVersion Unversioned s3) = Some s4"
    and s': "unversioned_loop Unversioned (map meta_type unversioned_names) s4 = Some s'"
    using assms(1) by (rule AddToGroupVersionE)
  have not_in: "Pointer t \<notin> set (map meta_type names)" for names using assms(3) by (auto simp: eq_commute)
  have "fmlookup (sc_gvkToType s4) h = Some t" using assms(2) unversioned_loop_frame [OF s'] by simp
  then have "fmlookup (sc_gvkToType s3) h = Some t" using AddKnownTypes_only [OF s4] not_in by fastforce
  then have "fmlookup (sc_gvkToType s2) h = Some t" using AddKnownTypes_only [OF s3] not_in unfolding optionsTypes_def by blast
  then show ?thesis using known_only [OF s1] known_only [OF s2] assms(3) by metis
qed

text \<open>
  When a registration does not panic. The kinds it asks for are given by a table with one type for each; no
  scheme that agrees with the table stops it, and it leaves a scheme that still agrees.
\<close>

type_synonym kind_table = "(group_version_kind \<times> go_type) list"

definition functional_table :: "kind_table \<Rightarrow> bool" where
  "functional_table R \<longleftrightarrow> (\<forall>g a b. (g, a) \<in> set R \<longrightarrow> (g, b) \<in> set R \<longrightarrow> a = b)"

lemma functional_tableD: "functional_table R \<Longrightarrow> (g, a) \<in> set R \<Longrightarrow> (g, b) \<in> set R \<Longrightarrow> a = b"
  unfolding functional_table_def by blast

definition agrees :: "kind_table \<Rightarrow> type_scheme \<Rightarrow> bool" where
  "agrees R s \<longleftrightarrow> (\<forall>(g, obj) \<in> set R. \<forall>u. fmlookup (sc_gvkToType s) g = Some u \<longrightarrow> obj = Pointer u)"

definition runs_under :: "kind_table \<Rightarrow> (type_scheme \<Rightarrow> type_scheme option) \<Rightarrow> bool" where
  "runs_under R f \<longleftrightarrow> (\<forall>s. scheme_inv s \<longrightarrow> agrees R s \<longrightarrow> (\<exists>s'. f s = Some s' \<and> agrees R s'))"

lemma runs_underD:
  assumes "runs_under R f" and "scheme_inv s" and "agrees R s"
  obtains s' where "f s = Some s'" "agrees R s'"
  using assms unfolding runs_under_def by blast

lemma runs_under_bind:
  assumes "registration f" and "runs_under R f" and "runs_under R g"
  shows "runs_under R (\<lambda>s. Option.bind (f s) g)"
  unfolding runs_under_def
proof (intro allI impI)
  fix s assume s: "scheme_inv s" "agrees R s"
  obtain s1 where f: "f s = Some s1" "agrees R s1" using assms(2) s by (rule runs_underD)
  obtain s2 where "g s1 = Some s2" "agrees R s2"
    using assms(3) registrationD(1) [OF assms(1) s(1) f(1)] f(2) by (rule runs_underD)
  then show "\<exists>s'. Option.bind (f s) g = Some s' \<and> agrees R s'" using f(1) by simp
qed

lemma runs_under_observed: "runs_under R (\<lambda>s. Some (addObservedVersion gv s))"
  by (simp add: runs_under_def agrees_def)

lemma runs_under_known:
  assumes "functional_table R" and R: "(g, Pointer (Struct pkg name)) \<in> set R" and "gvk_Version g \<noteq> ''''"
  shows "runs_under R (AddKnownTypeWithName g (Pointer (Struct pkg name)))"
  unfolding runs_under_def
proof (intro allI impI)
  fix s assume "agrees R s"
  with R have "fmlookup (sc_gvkToType s) g \<in> {None, Some (Struct pkg name)}"
    unfolding agrees_def by (cases "fmlookup (sc_gvkToType s) g") auto
  with assms(3) obtain s' where s': "AddKnownTypeWithName g (Pointer (Struct pkg name)) s = Some s'"
    by (auto simp: AddKnownTypeWithName_def Let_def)
  have "obj = Pointer u" if "(h, obj) \<in> set R" "fmlookup (sc_gvkToType s') h = Some u" for h obj u
  proof (cases "fmlookup (sc_gvkToType s) h = Some u")
    case True
    with \<open>agrees R s\<close> that(1) show ?thesis unfolding agrees_def by blast
  next
    case False
    with known_only [OF s' that(2)] have "h = g" "Pointer (Struct pkg name) = Pointer u" by auto
    with functional_tableD [OF assms(1) R] that(1) show ?thesis by simp
  qed
  then show "\<exists>s'. AddKnownTypeWithName g (Pointer (Struct pkg name)) s = Some s' \<and> agrees R s'"
    using s' unfolding agrees_def by blast
qed

text \<open>The entries of types registered under their own names.\<close>

definition own_names :: "group_and_version \<Rightarrow> string \<Rightarrow> string list \<Rightarrow> kind_table" where
  "own_names gv pkg names = map (\<lambda>name. (WithKind gv name, Pointer (Struct pkg name))) names"

lemma WithKind_version [simp]: "gvk_Version (WithKind gv k) = gv_Version gv"
  by (simp add: WithKind_def)

lemma runs_under_known_loop:
  assumes "functional_table R" and "gv_Version gv \<noteq> ''''" and "set (own_names gv pkg names) \<subseteq> set R"
  shows "runs_under R (known_loop gv (map (\<lambda>name. Pointer (Struct pkg name)) names))"
  using assms(3)
proof (induction names)
  case (Cons name names)
  let ?f = "AddKnownTypeWithName (WithKind gv name) (Pointer (Struct pkg name))"
  have "runs_under R ?f" using assms(1,2) Cons.prems by (intro runs_under_known) (simp_all add: own_names_def)
  moreover have "runs_under R (known_loop gv (map (\<lambda>name. Pointer (Struct pkg name)) names))"
    using Cons by (simp add: own_names_def)
  ultimately show ?case using runs_under_bind [OF registration_known] by simp
qed (simp add: runs_under_def)

lemma runs_under_AddKnownTypes:
  assumes "functional_table R" and "gv_Version gv \<noteq> ''''" and "set (own_names gv pkg names) \<subseteq> set R"
  shows "runs_under R (AddKnownTypes gv (map (\<lambda>name. Pointer (Struct pkg name)) names))"
  using runs_under_bind [OF registration_observed runs_under_observed runs_under_known_loop [OF assms]]
  by (simp add: AddKnownTypes_def [abs_def])

lemma runs_under_unversioned:
  assumes "functional_table R" and "set (own_names Unversioned pkg names) \<subseteq> set R"
  shows "runs_under R (AddUnversionedTypes Unversioned (map (\<lambda>name. Pointer (Struct pkg name)) names))"
  unfolding runs_under_def
proof (intro allI impI)
  let ?types = "map (\<lambda>name. Pointer (Struct pkg name)) names"
  fix s assume s: "scheme_inv s" "agrees R s"
  let ?s = "addObservedVersion Unversioned s"
  have inv: "scheme_inv ?s" using registrationD(1) [OF registration_observed s(1) refl] .
  have "gv_Version Unversioned \<noteq> ''''" by (simp add: Unversioned_def)
  from runs_under_AddKnownTypes [OF assms(1) this assms(2)] inv obtain s1
    where known: "AddKnownTypes Unversioned ?types ?s = Some s1" "agrees R s1"
    by (rule runs_underD) (use s(2) in \<open>simp add: agrees_def\<close>)
  have "\<forall>obj \<in> set ?types. \<exists>t. obj = Pointer t \<and> fmlookup (sc_gvkToType s1) (WithKind Unversioned (type_name t)) = Some t"
    using AddKnownTypes_registers [OF known(1) inv] by (auto simp: type_name.simps(1) [symmetric] simp del: type_name.simps)
  then obtain s' where s': "unversioned_loop Unversioned ?types s1 = Some s'"
    using unversioned_loop_runs registrationD(1) [OF registration_AddKnownTypes inv known(1)] by blast
  then show "\<exists>s'. AddUnversionedTypes Unversioned ?types s = Some s' \<and> agrees R s'"
    using known unversioned_loop_frame [OF s'] by (simp add: AddUnversionedTypes_def agrees_def)
qed

section \<open>When registering panics\<close>

abbreviation meta_package :: string where
  "meta_package \<equiv> ''k8s.io/apimachinery/pkg/apis/meta/v1''"

abbreviation gateway_package :: string where
  "gateway_package \<equiv> ''sigs.k8s.io/gateway-api/apis/v1alpha1''"

definition meta_table :: "group_and_version \<Rightarrow> kind_table" where
  "meta_table gv =
     (WithKind gv WatchEventKind, meta_type ''WatchEvent'') #
     (WithKind \<lparr>gv_Group = gv_Group gv, gv_Version = APIVersionInternal\<rparr> WatchEventKind, meta_type ''InternalEvent'') #
     own_names gv meta_package [''ListOptions'', ''GetOptions'', ''DeleteOptions'', ''CreateOptions'', ''UpdateOptions'', ''PatchOptions''] @
     own_names Unversioned meta_package unversioned_names"

definition api_table :: kind_table where
  "api_table = own_names SchemeGroupVersion gateway_package known_types @ meta_table SchemeGroupVersion"

lemma type_lists:
  "map meta_type names = map (\<lambda>name. Pointer (Struct meta_package name)) names"
  "map gateway_type names = map (\<lambda>name. Pointer (Struct gateway_package name)) names"
  by (simp_all add: meta_type_def gateway_type_def)

lemma runs_under_AddToGroupVersion:
  assumes "functional_table R" and "gv_Version gv \<noteq> ''''" and "set (meta_table gv) \<subseteq> set R"
  shows "runs_under R (AddToGroupVersion gv)"
proof -
  note R = assms(3) [unfolded meta_table_def, simplified]
  have "runs_under R (AddKnownTypeWithName (WithKind gv WatchEventKind) (meta_type ''WatchEvent''))"
    using R assms(1,2) unfolding meta_type_def by (intro runs_under_known) simp_all
  moreover have "runs_under R (AddKnownTypeWithName
      (WithKind \<lparr>gv_Group = gv_Group gv, gv_Version = APIVersionInternal\<rparr> WatchEventKind) (meta_type ''InternalEvent''))"
    using R assms(1) unfolding meta_type_def by (intro runs_under_known) (simp_all add: APIVersionInternal_def)
  moreover have "runs_under R (AddKnownTypes gv optionsTypes)"
    using R assms(1,2) unfolding optionsTypes_def type_lists by (intro runs_under_AddKnownTypes) simp_all
  moreover have "runs_under R (AddUnversionedTypes Unversioned
      (map meta_type unversioned_names))"
    using R assms(1) unfolding type_lists by (intro runs_under_unversioned) simp_all
  ultimately show ?thesis
    unfolding AddToGroupVersion_def [abs_def]
    by (intro runs_under_bind registration_known registration_AddKnownTypes)
qed

lemma runs_under_addKnownTypes:
  assumes "functional_table R" and "set api_table \<subseteq> set R"
  shows "runs_under R (\<lambda>s. Must (addKnownTypes s))"
proof -
  have v: "gv_Version SchemeGroupVersion \<noteq> ''''" by (simp add: SchemeGroupVersion_def)
  have "runs_under R (AddKnownTypes SchemeGroupVersion (map gateway_type known_types))"
    using assms v unfolding type_lists api_table_def by (intro runs_under_AddKnownTypes) simp_all
  moreover have "runs_under R (AddToGroupVersion SchemeGroupVersion)"
    using assms v by (intro runs_under_AddToGroupVersion) (simp_all add: api_table_def)
  ultimately show ?thesis
    unfolding Must_addKnownTypes by (intro runs_under_bind registration_AddKnownTypes)
qed

text \<open>The whole of the table is asked for, so a scheme that disagrees with it stops the registration.\<close>

definition fulfils :: "kind_table \<Rightarrow> type_scheme \<Rightarrow> bool" where
  "fulfils R s \<longleftrightarrow> (\<forall>(g, obj) \<in> set R. \<exists>t. obj = Pointer t \<and> fmlookup (sc_gvkToType s) g = Some t)"

lemma fulfils_simps [simp]:
  "fulfils (R @ R') s \<longleftrightarrow> fulfils R s \<and> fulfils R' s"
  "fulfils ((g, obj) # R) s \<longleftrightarrow> (\<exists>t. obj = Pointer t \<and> fmlookup (sc_gvkToType s) g = Some t) \<and> fulfils R s"
  by (simp_all add: fulfils_def ball_Un)

lemma fulfilsE:
  assumes "fulfils R s" and "(g, obj) \<in> set R"
  obtains t where "obj = Pointer t" "fmlookup (sc_gvkToType s) g = Some t"
  using assms unfolding fulfils_def by auto

lemma fulfils_extends: "fulfils R s \<Longrightarrow> scheme_extends s s' \<Longrightarrow> fulfils R s'"
  unfolding fulfils_def by (fastforce dest: extends_known)

lemma AddKnownTypes_fulfils:
  assumes "AddKnownTypes gv (map (\<lambda>name. Pointer (Struct pkg name)) names) s = Some s'" and "scheme_inv s"
  shows "fulfils (own_names gv pkg names) s'"
  using AddKnownTypes_registers [OF assms, of "Struct pkg name" for name] by (auto simp: fulfils_def own_names_def)

lemma AddToGroupVersion_fulfils:
  assumes "AddToGroupVersion gv s = Some s'" and "scheme_inv s"
  shows "fulfils (meta_table gv) s'"
proof -
  obtain s1 s2 s3 s4 where s1: "AddKnownTypeWithName (WithKind gv WatchEventKind) (meta_type ''WatchEvent'') s = Some s1"
    and s2: "AddKnownTypeWithName (WithKind \<lparr>gv_Group = gv_Group gv, gv_Version = APIVersionInternal\<rparr> WatchEventKind)
      (meta_type ''InternalEvent'') s1 = Some s2"
    and s3: "AddKnownTypes gv optionsTypes s2 = Some s3"
    and s4: "AddKnownTypes Unversioned (map meta_type unversioned_names) (addObservedVersion Unversioned s3) = Some s4"
    and s': "unversioned_loop Unversioned (map meta_type unversioned_names) s4 = Some s'"
    using assms(1) by (rule AddToGroupVersionE)
  note i1 = registrationD(1) [OF registration_known assms(2) s1]
  note i2 = registrationD(1) [OF registration_known i1 s2]
  note i3 = registrationD(1) [OF registration_AddKnownTypes i2 s3]
  note i3' = registrationD(1) [OF registration_observed i3 refl]
  note e2 = registrationD(2) [OF registration_known i1 s2]
  note e3 = registrationD(2) [OF registration_AddKnownTypes i2 s3]
  have e4: "scheme_extends s3 s4"
    using registrationD(2) [OF registration_observed i3 refl] registrationD(2) [OF registration_AddKnownTypes i3' s4]
    by (rule extends_trans)
  note x3 = extends_trans [OF e3 e4]
  note x2 = extends_trans [OF e2 x3]
  have "fulfils [(WithKind gv WatchEventKind, meta_type ''WatchEvent'')] s4"
    by (rule fulfils_extends [OF _ x2]) (use known_registers s1 in \<open>auto simp: meta_type_def fulfils_def\<close>)
  moreover have "fulfils [(WithKind \<lparr>gv_Group = gv_Group gv, gv_Version = APIVersionInternal\<rparr> WatchEventKind,
      meta_type ''InternalEvent'')] s4"
    by (rule fulfils_extends [OF _ x3]) (use known_registers s2 in \<open>auto simp: meta_type_def fulfils_def\<close>)
  moreover note fulfils_extends [OF AddKnownTypes_fulfils [OF s3 [unfolded optionsTypes_def type_lists] i2] e4]
    AddKnownTypes_fulfils [OF s4 [unfolded type_lists] i3']
  ultimately have "fulfils (meta_table gv) s4" unfolding meta_table_def by (simp only: fulfils_simps)
  then show ?thesis using unversioned_loop_frame [OF s'] by (simp add: fulfils_def)
qed

lemma addKnownTypes_fulfils:
  assumes "Must (addKnownTypes s) = Some s'" and "scheme_inv s"
  shows "fulfils api_table s'"
proof -
  obtain s1 where s1: "AddKnownTypes SchemeGroupVersion (map gateway_type known_types) s = Some s1"
    and s': "AddToGroupVersion SchemeGroupVersion s1 = Some s'"
    using assms(1) fun_cong [OF Must_addKnownTypes, of s] by (auto split: bind_splits)
  have inv: "scheme_inv s1" by (rule registrationD(1) [OF registration_AddKnownTypes assms(2) s1])
  have "fulfils (own_names SchemeGroupVersion gateway_package known_types) s'"
    using fulfils_extends AddKnownTypes_fulfils [OF s1 [unfolded type_lists] assms(2)]
      registrationD(2) [OF registration_AddToGroupVersion inv s'] by blast
  with AddToGroupVersion_fulfils [OF s' inv] show ?thesis by (simp add: api_table_def)
qed

text \<open>The kind alone tells the type, but for the internal event.\<close>

definition type_of_kind :: "group_version_kind \<Rightarrow> go_type" where
  "type_of_kind g = (if gvk_Kind g \<in> set known_types then gateway_type (gvk_Kind g)
     else if gvk_Version g = APIVersionInternal then meta_type ''InternalEvent'' else meta_type (gvk_Kind g))"

lemma functional_tables:
  "functional_table (meta_table \<lparr>gv_Group = '''', gv_Version = ''v1''\<rparr> @ api_table)" "functional_table api_table"
proof -
  let ?R = "meta_table \<lparr>gv_Group = '''', gv_Version = ''v1''\<rparr> @ api_table"
  have "list_all (\<lambda>(g, a). a = type_of_kind g) ?R" by code_simp
  then have "a = type_of_kind g" if "(g, a) \<in> set ?R" for g a using that unfolding list_all_iff by blast
  then show "functional_table ?R" unfolding functional_table_def by metis
  then show "functional_table api_table" unfolding functional_table_def set_append by blast
qed

lemma AddToScheme_None_iff:
  assumes "scheme_inv s"
  shows "AddToScheme s = None \<longleftrightarrow> \<not> agrees api_table s"
proof
  assume "AddToScheme s = None"
  then show "\<not> agrees api_table s"
    using runs_under_addKnownTypes [OF functional_tables(2)] assms by (auto simp: AddToScheme_known runs_under_def)
next
  assume disagrees: "\<not> agrees api_table s"
  show "AddToScheme s = None"
  proof (rule ccontr)
    assume "AddToScheme s \<noteq> None"
    then obtain s' where s': "Must (addKnownTypes s) = Some s'" by (auto simp: AddToScheme_known)
    have "obj = Pointer u" if "(g, obj) \<in> set api_table" "fmlookup (sc_gvkToType s) g = Some u" for g obj u
      using extends_known [OF registrationD(2) [OF registration_addKnownTypes assms s'] that(2)] that(1)
        addKnownTypes_fulfils [OF s' assms] unfolding fulfils_def by fastforce
    with disagrees show False unfolding agrees_def by blast
  qed
qed

lemma init_only:
  assumes "scheme_init NewScheme = Some s" and "fmlookup (sc_gvkToType s) h = Some t" and "gateway_type name = Pointer t"
  shows "h = WithKind SchemeGroupVersion name"
proof -
  have meta: "Pointer t \<noteq> meta_type n" for n using assms(3) by (auto simp: gateway_type_def meta_type_def)
  obtain s1 s2 where s1: "AddToGroupVersion \<lparr>gv_Group = '''', gv_Version = ''v1''\<rparr> NewScheme = Some s1"
    and s2: "AddKnownTypes SchemeGroupVersion (map gateway_type known_types) s1 = Some s2"
    and s: "AddToGroupVersion SchemeGroupVersion s2 = Some s"
    using assms(1) by (auto simp: scheme_init_def AddToScheme_known Must_def addKnownTypes_def split: bind_splits option.splits)
  have "fmlookup (sc_gvkToType s1) h \<noteq> Some t"
    using AddToGroupVersion_only [OF s1 _ meta, of h] by (auto simp: NewScheme_def)
  with AddKnownTypes_only [OF s2 AddToGroupVersion_only [OF s assms(2) meta]] assms(3) show ?thesis by auto
qed

text \<open>The init functions of both packages do not panic, and give each type its one kind.\<close>

lemma init_runs: "\<exists>s. scheme_init NewScheme = Some s"
proof -
  let ?v1 = "\<lparr>gv_Group = '''', gv_Version = ''v1''\<rparr>" and ?R = "meta_table \<lparr>gv_Group = '''', gv_Version = ''v1''\<rparr> @ api_table"
  note table = functional_tables(1)
  have "agrees ?R NewScheme" unfolding agrees_def by (simp add: NewScheme_def case_prod_beta)
  have "runs_under ?R (AddToGroupVersion ?v1)" by (rule runs_under_AddToGroupVersion [OF table]) simp_all
  then obtain s1 where s1: "AddToGroupVersion ?v1 NewScheme = Some s1" "agrees ?R s1"
    using scheme_inv_New \<open>agrees ?R NewScheme\<close> by (rule runs_underD)
  then obtain s where "Must (addKnownTypes s1) = Some s"
    using runs_underD [OF runs_under_addKnownTypes [OF table] _ s1(2)]
      registrationD(1) [OF registration_AddToGroupVersion scheme_inv_New s1(1)] by fastforce
  then show ?thesis using s1(1) by (simp add: scheme_init_def AddToScheme_known Must_def)
qed

lemma init_inv:
  assumes "scheme_init NewScheme = Some s"
  shows "scheme_inv s"
proof -
  obtain s1 where "AddToGroupVersion \<lparr>gv_Group = '''', gv_Version = ''v1''\<rparr> NewScheme = Some s1" "Must (AddToScheme s1) = Some s"
    using assms by (auto simp: scheme_init_def split: bind_splits)
  moreover have "Must (AddToScheme s1) = Must (addKnownTypes s1)"
    by (cases "Must (addKnownTypes s1)") (simp_all add: AddToScheme_known Must_def)
  ultimately show ?thesis
    using registrationD(1) [OF registration_AddToGroupVersion scheme_inv_New] registrationD(1) [OF registration_addKnownTypes]
    by metis
qed

lemma single_member:
  assumes "\<And>x. x \<in> set xs \<Longrightarrow> x = y" and "distinct xs" and "y \<in> set xs"
  shows "xs = [y]"
proof -
  have "set xs = {y}" using assms(1,3) by blast
  then show ?thesis using assms(2) by (cases xs; cases "tl xs") auto
qed

lemma init_kind:
  assumes "scheme_init NewScheme = Some s" and "name \<in> set known_types"
  shows "ObjectKinds (gateway_type name) s = Inr ([WithKind SchemeGroupVersion name], False)"
proof -
  note inv = init_inv [OF assms(1)]
  let ?g = "WithKind SchemeGroupVersion name"
  obtain t where t: "gateway_type name = Pointer t" by (simp add: gateway_type_def)
  obtain s1 where "AddToGroupVersion \<lparr>gv_Group = '''', gv_Version = ''v1''\<rparr> NewScheme = Some s1" "Must (addKnownTypes s1) = Some s"
    using assms(1) by (auto simp: scheme_init_def AddToScheme_known Must_def split: bind_splits option.splits)
  then have g: "fmlookup (sc_gvkToType s) ?g = Some t"
    using addKnownTypes_registers [OF _ _ assms(2) t] registrationD(1) [OF registration_AddToGroupVersion scheme_inv_New] by blast
  have maps: "inverse_maps (sc_gvkToType s) (sc_typeToGVK s)"
      "unversioned_named (sc_unversionedTypes s) (sc_unversionedKinds s) (sc_gvkToType s)" using inv by (simp_all add: scheme_inv_def)
  obtain gs where gs: "fmlookup (sc_typeToGVK s) t = Some gs" "?g \<in> set gs" by (rule inverse_mapsE [OF maps(1) g])
  have "h = ?g" if "h \<in> set gs" for h using init_only [OF assms(1) inverse_mapsD [OF maps(1) gs(1) that] t] .
  moreover have "distinct gs" using maps(1) gs(1) unfolding inverse_maps_def by blast
  ultimately have "gs = [?g]" using gs(2) by (intro single_member)
  moreover have "fmlookup (sc_unversionedTypes s) t = None"
  proof (cases "fmlookup (sc_unversionedTypes s) t")
    case (Some h)
    then have "h = WithKind Unversioned (type_name t)" "fmlookup (sc_gvkToType s) h = Some t"
      using maps(2) unfolding unversioned_named_def by blast+
    with init_only [OF assms(1) _ t, of h] show ?thesis by (simp add: WithKind_def Unversioned_def SchemeGroupVersion_def)
  qed
  ultimately show ?thesis using gs(1) t by (simp add: ObjectKinds_def)
qed

text \<open>
  What the tracker of the fake clientset asks of its scheme: the objects added to it have exactly one kind, and
  there is a type for the list of each kind, so that neither \<open>Add\<close> nor \<open>List\<close> fails on these types.
\<close>

lemma tracker_scheme:
  assumes "fake_scheme_init NewScheme = Some s" and "kind \<in> set registered_kinds"
  shows "ObjectKinds (gateway_type kind) s = Inr ([WithKind SchemeGroupVersion kind], False)"
    and "Scheme_New (WithKind SchemeGroupVersion (kind @ ''List'')) s = Inr (gateway_type (kind @ ''List''))"
proof -
  note one = init_kind [OF assms(1) [unfolded fake_scheme_same]]
  have known: "\<forall>kind \<in> set registered_kinds. kind \<in> set known_types \<and> kind @ ''List'' \<in> set known_types" by code_simp
  with one assms(2) show "ObjectKinds (gateway_type kind) s = Inr ([WithKind SchemeGroupVersion kind], False)" by blast
  show "Scheme_New (WithKind SchemeGroupVersion (kind @ ''List'')) s = Inr (gateway_type (kind @ ''List''))"
    using kinds_roundtrip(1) [OF init_inv one] assms known by (simp add: fake_scheme_same)
qed

text \<open>C39. Registering the Gateway API on a well-formed scheme panics exactly if the scheme has another type under one of
  the kinds it asks for. Otherwise it returns no error and loses nothing; afterwards every type of the API is
  made from its kind and found under it, every kind an object has makes an object of its type, and registering
  again changes nothing.\<close>

theorem scheme_registration:
  assumes "scheme_inv s"
  shows "case AddToScheme s of
      None \<Rightarrow> \<exists>(g, obj) \<in> set api_table. \<exists>u. fmlookup (sc_gvkToType s) g = Some u \<and> obj \<noteq> Pointer u
    | Some (err, s') \<Rightarrow> err = None \<and> scheme_inv s' \<and> scheme_extends s s' \<and> AddToScheme s' = Some (None, s') \<and>
        (\<forall>(g, obj) \<in> set api_table. Scheme_New g s' = Inr obj \<and> (\<exists>gvks u. ObjectKinds obj s' = Inr (gvks, u) \<and> g \<in> set gvks)) \<and>
        (\<forall>obj gvks u. ObjectKinds obj s' = Inr (gvks, u) \<longrightarrow> (\<forall>g \<in> set gvks. Scheme_New g s' = Inr obj))"
proof (cases "Must (addKnownTypes s)")
  case None
  then show ?thesis using AddToScheme_None_iff [OF assms] by (auto simp: AddToScheme_known agrees_def)
next
  case (Some s')
  note R = registrationD [OF registration_addKnownTypes assms Some]
  have eq: "AddToScheme s = Some (None, s')" and again: "AddToScheme s' = Some (None, s')"
    using Some R(3) [OF R(1) extends_refl] by (simp_all add: AddToScheme_known)
  have "Scheme_New g s' = Inr obj \<and> (\<exists>gvks u. ObjectKinds obj s' = Inr (gvks, u) \<and> g \<in> set gvks)"
    if entry: "(g, obj) \<in> set api_table" for g obj
  proof -
    obtain t where "obj = Pointer t" "fmlookup (sc_gvkToType s') g = Some t"
      using addKnownTypes_fulfils [OF Some assms] entry by (rule fulfilsE)
    with kinds_roundtrip(2) [OF R(1)] show ?thesis by simp
  qed
  then have api: "\<forall>(g, obj) \<in> set api_table. Scheme_New g s' = Inr obj \<and>
      (\<exists>gvks u. ObjectKinds obj s' = Inr (gvks, u) \<and> g \<in> set gvks)" by blast
  have "\<forall>obj gvks u. ObjectKinds obj s' = Inr (gvks, u) \<longrightarrow> (\<forall>g \<in> set gvks. Scheme_New g s' = Inr obj)"
    using kinds_roundtrip(1) [OF R(1)] by blast
  then show ?thesis unfolding eq option.case prod.case by (intro conjI refl R(1,2) again api)
qed

theorem scheme_registration_witness:
  "\<exists>s. AddToScheme NewScheme = Some (None, s) \<and> AddToScheme s = Some (None, s) \<and>
     Scheme_New \<lparr>gvk_Group = ''networking.x-k8s.io'', gvk_Version = ''v1alpha1'', gvk_Kind = ''HTTPRoute''\<rparr> s =
       Inr (gateway_type ''HTTPRoute'')"
proof -
  have "(\<lparr>gvk_Group = ''networking.x-k8s.io'', gvk_Version = ''v1alpha1'', gvk_Kind = ''HTTPRoute''\<rparr>, gateway_type ''HTTPRoute'') \<in>
      set api_table"
    by (simp add: api_table_def own_names_def known_types_def gateway_type_def WithKind_def SchemeGroupVersion_def)
  moreover obtain s where "AddToScheme NewScheme = Some (None, s)"
    using scheme_registration [OF scheme_inv_New] by (cases "AddToScheme NewScheme") (auto simp: NewScheme_def)
  ultimately show ?thesis using scheme_registration [OF scheme_inv_New] by auto
qed

end
