(* ===== verification/FakeDiscovery.thy ===== *)
theory FakeDiscovery
  imports Scheme
begin

text \<open>
  The discovery client of the fake clientset (\<open>k8s.io/client-go/discovery/fake\<close>): it records its calls in the
  fake clientset it shares, ignores what the reactors answer, and answers from the list of resources a test
  has set. \<open>resources\<close> is that list, and \<open>order\<close> the order in which the map of groups is ranged over.
\<close>

section \<open>Groups and versions\<close>

record 'r api_resource_list =
  arl_GroupVersion :: string
  arl_APIResources :: "'r list"

record version_for_discovery =
  vd_GroupVersion :: string
  vd_Version :: string

record discovery_group =
  ag_Name :: string
  ag_Versions :: "version_for_discovery list"
  ag_PreferredVersion :: version_for_discovery

definition ParseGroupVersion :: "string \<Rightarrow> error + group_and_version" where
  "ParseGroupVersion gv =
     (if gv = '''' \<or> gv = ''/'' then Inr \<lparr>gv_Group = '''', gv_Version = ''''\<rparr>
      else case split_on (CHR ''/'') gv of
             [v] \<Rightarrow> Inr \<lparr>gv_Group = '''', gv_Version = v\<rparr>
           | [g, v] \<Rightarrow> Inr \<lparr>gv_Group = g, gv_Version = v\<rparr>
           | _ \<Rightarrow> Inl (OtherError ''unexpected GroupVersion string''))"

definition GroupVersion_String :: "group_and_version \<Rightarrow> string" where
  "GroupVersion_String gv = (if gv_Group gv \<noteq> '''' then gv_Group gv @ ''/'' @ gv_Version gv else gv_Version gv)"

section \<open>The calls\<close>

definition discovery_action :: "string \<Rightarrow> 'u action" where
  "discovery_action res =
     action_of ''get'' \<lparr>gvr_Group = '''', gvr_Version = '''', gvr_Resource = res\<rparr> '''' '''' PlainAction"

definition ServerResourcesForGroupVersion ::
  "'u fake \<Rightarrow> 'r api_resource_list list \<Rightarrow> string \<Rightarrow> 'u fake_state \<Rightarrow> (error + 'r api_resource_list) \<times> 'u fake_state" where
  "ServerResourcesForGroupVersion c resources groupVersion s =
     (case Invokes c (discovery_action ''resource'') NilReply s of
        (_, s') \<Rightarrow> (case find (\<lambda>resourceList. arl_GroupVersion resourceList = groupVersion) resources of
                     Some resourceList \<Rightarrow> (Inr resourceList, s')
                   | None \<Rightarrow> (Inl (OtherError ''GroupVersion not found''), s')))"

fun groups_loop :: "'r api_resource_list list \<Rightarrow> (string, discovery_group) fmap \<Rightarrow> error + (string, discovery_group) fmap" where
  "groups_loop [] groups = Inr groups"
| "groups_loop (res # rest) groups =
     (case ParseGroupVersion (arl_GroupVersion res) of
        Inl err \<Rightarrow> Inl err
      | Inr gv \<Rightarrow>
          (let version = \<lparr>vd_GroupVersion = arl_GroupVersion res, vd_Version = gv_Version gv\<rparr>;
               grp = (case fmlookup groups (gv_Group gv) of
                          None \<Rightarrow> \<lparr>ag_Name = gv_Group gv, ag_Versions = [], ag_PreferredVersion = version\<rparr>
                        | Some grp \<Rightarrow> grp)
           in groups_loop rest
                (fmupd (gv_Group gv) (grp\<lparr>ag_Versions := ag_Versions grp @ [version]\<rparr>) groups)))"

definition ServerGroups ::
  "((string, discovery_group) fmap \<Rightarrow> (string \<times> discovery_group) list) \<Rightarrow> 'u fake \<Rightarrow> 'r api_resource_list list \<Rightarrow>
   'u fake_state \<Rightarrow> (error + discovery_group list) \<times> 'u fake_state" where
  "ServerGroups order c resources s =
     (case Invokes c (discovery_action ''group'') NilReply s of
        (_, s') \<Rightarrow> (case groups_loop resources fmempty of
                     Inl err \<Rightarrow> (Inl err, s')
                   | Inr groups \<Rightarrow> (Inr (map snd (order groups)), s')))"

definition ServerGroupsAndResources ::
  "((string, discovery_group) fmap \<Rightarrow> (string \<times> discovery_group) list) \<Rightarrow> 'u fake \<Rightarrow> 'r api_resource_list list \<Rightarrow>
   'u fake_state \<Rightarrow> (error + discovery_group list \<times> 'r api_resource_list list) \<times> 'u fake_state" where
  "ServerGroupsAndResources order c resources s =
     (case ServerGroups order c resources s of
        (Inl err, s1) \<Rightarrow> (Inl err, s1)
      | (Inr sgs, s1) \<Rightarrow>
          (case Invokes c (discovery_action ''resource'') NilReply s1 of (_, s2) \<Rightarrow> (Inr (sgs, resources), s2)))"

definition ServerResources ::
  "((string, discovery_group) fmap \<Rightarrow> (string \<times> discovery_group) list) \<Rightarrow> 'u fake \<Rightarrow> 'r api_resource_list list \<Rightarrow>
   'u fake_state \<Rightarrow> (error + 'r api_resource_list list) \<times> 'u fake_state" where
  "ServerResources order c resources s =
     (case ServerGroupsAndResources order c resources s of (res, s') \<Rightarrow> (map_sum id snd res, s'))"

text \<open>\<open>FakedServerVersion\<close> is set by a test; otherwise the version the library was built with.\<close>

definition ServerVersion :: "'u fake \<Rightarrow> 'v option \<Rightarrow> 'v \<Rightarrow> 'u fake_state \<Rightarrow> (error + 'v) \<times> 'u fake_state" where
  "ServerVersion c FakedServerVersion built s =
     (case Invokes c (discovery_action ''version'') NilReply s of
        (_, s') \<Rightarrow> (case FakedServerVersion of Some v \<Rightarrow> (Inr v, s') | None \<Rightarrow> (Inr built, s')))"

section \<open>What is discovered\<close>

text \<open>The versions of a group, in the order of the resources.\<close>

definition parsed_gv :: "'r api_resource_list \<Rightarrow> group_and_version" where
  "parsed_gv res = (case ParseGroupVersion (arl_GroupVersion res) of Inr gv \<Rightarrow> gv | Inl _ \<Rightarrow> \<lparr>gv_Group = '''', gv_Version = ''''\<rparr>)"

definition versions_of :: "string \<Rightarrow> 'r api_resource_list list \<Rightarrow> version_for_discovery list" where
  "versions_of g resources =
     map (\<lambda>res. \<lparr>vd_GroupVersion = arl_GroupVersion res, vd_Version = gv_Version (parsed_gv res)\<rparr>)
       (filter (\<lambda>res. gv_Group (parsed_gv res) = g) resources)"

definition group_of :: "string \<Rightarrow> 'r api_resource_list list \<Rightarrow> discovery_group option" where
  "group_of g resources =
     (case versions_of g resources of
        [] \<Rightarrow> None
      | v # vs \<Rightarrow> Some \<lparr>ag_Name = g, ag_Versions = v # vs, ag_PreferredVersion = v\<rparr>)"

definition well_named :: "'r api_resource_list \<Rightarrow> bool" where
  "well_named res \<longleftrightarrow> count_list (arl_GroupVersion res) (CHR ''/'') \<le> 1"

lemma ParseGroupVersion_ok: "count_list gv (CHR ''/'') \<le> 1 \<longleftrightarrow> (\<exists>v. ParseGroupVersion gv = Inr v)"
proof -
  have "length (split_on (CHR ''/'') gv) = Suc (count_list gv (CHR ''/''))" by (rule length_split_on)
  then show ?thesis
    by (auto simp: ParseGroupVersion_def split: list.splits)
qed

lemma ParseGroupVersion_String:
  assumes "CHR ''/'' \<notin> set (gv_Group gv)" and "CHR ''/'' \<notin> set (gv_Version gv)" and "gv_Version gv \<noteq> ''''"
  shows "ParseGroupVersion (GroupVersion_String gv) = Inr gv"
  using assms by (auto simp: ParseGroupVersion_def GroupVersion_String_def split_on_append_sep split_on_no_sep append_eq_Cons_conv)

lemma group_of_snoc:
  "group_of g (pre @ [res]) =
     (if gv_Group (parsed_gv res) = g
      then Some (let version = \<lparr>vd_GroupVersion = arl_GroupVersion res, vd_Version = gv_Version (parsed_gv res)\<rparr>;
                     grp = (case group_of g pre of
                        None \<Rightarrow> \<lparr>ag_Name = g, ag_Versions = [], ag_PreferredVersion = version\<rparr> | Some grp \<Rightarrow> grp)
                 in grp\<lparr>ag_Versions := ag_Versions grp @ [version]\<rparr>)
      else group_of g pre)"
  by (auto simp: group_of_def versions_of_def Let_def split: list.splits)

lemma groups_loop_spec:
  assumes "\<And>g. fmlookup groups g = group_of g pre"
  shows "case groups_loop resources groups of
      Inl err \<Rightarrow> \<not> list_all well_named resources
    | Inr groups' \<Rightarrow> list_all well_named resources \<and> (\<forall>g. fmlookup groups' g = group_of g (pre @ resources))"
  using assms
proof (induction resources arbitrary: groups pre)
  case (Cons res resources)
  show ?case
  proof (cases "ParseGroupVersion (arl_GroupVersion res)")
    case (Inl err)
    then have "\<not> well_named res" unfolding well_named_def ParseGroupVersion_ok by simp
    with Inl show ?thesis by simp
  next
    case (Inr gv)
    have "well_named res" unfolding well_named_def ParseGroupVersion_ok by (simp add: Inr)
    have gv: "parsed_gv res = gv" by (simp add: parsed_gv_def Inr)
    let ?version = "\<lparr>vd_GroupVersion = arl_GroupVersion res, vd_Version = gv_Version gv\<rparr>"
    let ?grp = "case fmlookup groups (gv_Group gv) of
      None \<Rightarrow> \<lparr>ag_Name = gv_Group gv, ag_Versions = [], ag_PreferredVersion = ?version\<rparr> | Some grp \<Rightarrow> grp"
    let ?groups = "fmupd (gv_Group gv) (?grp\<lparr>ag_Versions := ag_Versions ?grp @ [?version]\<rparr>) groups"
    have "fmlookup ?groups g = group_of g (pre @ [res])" for g
      using Cons.prems by (cases "g = gv_Group gv") (simp_all add: group_of_snoc gv Let_def)
    from Cons.IH [OF this] \<open>well_named res\<close> show ?thesis
      by (cases "groups_loop resources ?groups") (simp_all add: Inr Let_def)
  qed
qed simp

text \<open>The reactor of the tracker declines a bare action, so nothing but the record of the call changes.\<close>

lemma invoke_discovery:
  "Invokes (simple_fake env) (discovery_action res) dflt s =
     ((dflt, None), record_action (discovery_action res) (fs_tracker s) s)"
  by (simp add: Invokes_simple discovery_action_def action_of_def ObjectReaction_def)

definition ranges_groups :: "((string, discovery_group) fmap \<Rightarrow> (string \<times> discovery_group) list) \<Rightarrow> bool" where
  "ranges_groups order \<longleftrightarrow> (\<forall>m. distinct (map fst (order m)) \<and> (\<forall>k v. (k, v) \<in> set (order m) \<longleftrightarrow> fmlookup m k = Some v))"

lemma group_of_Some:
  "group_of g resources = Some grp \<Longrightarrow>
   ag_Name grp = g \<and> ag_Versions grp = versions_of g resources \<and> ag_PreferredVersion grp = hd (ag_Versions grp) \<and>
   ag_Versions grp \<noteq> []"
  by (auto simp: group_of_def split: list.splits)

lemma group_of_None: "group_of g resources = None \<longleftrightarrow> g \<notin> (\<lambda>r. gv_Group (parsed_gv r)) ` set resources"
proof -
  have "group_of g resources = None \<longleftrightarrow> versions_of g resources = []" by (simp add: group_of_def split: list.split)
  then show ?thesis by (auto simp: versions_of_def filter_empty_conv)
qed

lemma ranged_groups:
  assumes "ranges_groups order" and "\<And>g. fmlookup m g = group_of g resources"
  shows "distinct (map ag_Name (map snd (order m)))"
    and "ag_Name ` set (map snd (order m)) = (\<lambda>r. gv_Group (parsed_gv r)) ` set resources"
    and "grp \<in> set (map snd (order m)) \<Longrightarrow> group_of (ag_Name grp) resources = Some grp"
proof -
  have entry: "(g, grp) \<in> set (order m) \<longleftrightarrow> group_of g resources = Some grp" for g grp
    using assms unfolding ranges_groups_def by simp
  then have name: "fst e = ag_Name (snd e)" if "e \<in> set (order m)" for e
    using that group_of_Some by (cases e) fastforce
  then have names: "map ag_Name (map snd (order m)) = map fst (order m)" by simp
  show "distinct (map ag_Name (map snd (order m)))" using assms(1) unfolding names ranges_groups_def by blast
  have "ag_Name ` set (map snd (order m)) = fst ` set (order m)" using names by (metis list.set_map)
  also have "\<dots> = {g. group_of g resources \<noteq> None}" using entry by force
  also have "\<dots> = (\<lambda>r. gv_Group (parsed_gv r)) ` set resources" unfolding group_of_None by simp
  finally show "ag_Name ` set (map snd (order m)) = (\<lambda>r. gv_Group (parsed_gv r)) ` set resources" .
  show "group_of (ag_Name grp) resources = Some grp" if "grp \<in> set (map snd (order m))"
    using that entry group_of_Some by fastforce
qed

text \<open>C40. The groups the fake discovery client reports are those of the resources a test has set, each once, whatever the
  order in which the map is ranged over: with all their versions in the order of the resources, the first as
  the preferred one. It fails exactly if some resource has more than one slash in its group and version, and
  does nothing to the fake clientset but record the call.\<close>

theorem discovery_groups:
  assumes "ranges_groups order" and "ServerGroups order (simple_fake env) resources s = (res, s')"
  shows "s' = record_action (discovery_action ''group'') (fs_tracker s) s \<and>
    (case res of
       Inl err \<Rightarrow> \<exists>r \<in> set resources. 1 < count_list (arl_GroupVersion r) (CHR ''/'')
     | Inr groups \<Rightarrow> (\<forall>r \<in> set resources. count_list (arl_GroupVersion r) (CHR ''/'') \<le> 1) \<and>
         distinct (map ag_Name groups) \<and> ag_Name ` set groups = (\<lambda>r. gv_Group (parsed_gv r)) ` set resources \<and>
         (\<forall>grp \<in> set groups. ag_Versions grp = versions_of (ag_Name grp) resources \<and>
            ag_PreferredVersion grp = hd (ag_Versions grp)))"
proof -
  have spec: "case groups_loop resources fmempty of
      Inl err \<Rightarrow> \<not> list_all well_named resources
    | Inr groups' \<Rightarrow> list_all well_named resources \<and> (\<forall>g. fmlookup groups' g = group_of g resources)"
    using groups_loop_spec [of fmempty "[]" resources, unfolded append_Nil] by (simp add: group_of_def versions_of_def)
  show ?thesis
  proof (cases "groups_loop resources fmempty")
    case (Inl err)
    with spec have "\<exists>r \<in> set resources. 1 < count_list (arl_GroupVersion r) (CHR ''/'')"
      by (auto simp: list_all_iff well_named_def not_le)
    with assms(2) Inl show ?thesis by (auto simp: ServerGroups_def invoke_discovery)
  next
    case (Inr m)
    with spec have ok: "list_all well_named resources" and m: "\<And>g. fmlookup m g = group_of g resources" by simp_all
    note R = ranged_groups [OF assms(1) m]
    have "\<forall>grp \<in> set (map snd (order m)). ag_Versions grp = versions_of (ag_Name grp) resources \<and>
        ag_PreferredVersion grp = hd (ag_Versions grp)" using R(3) group_of_Some by blast
    with assms(2) Inr ok R(1,2) show ?thesis
      by (auto simp: ServerGroups_def invoke_discovery list_all_iff well_named_def)
  qed
qed

definition sample_resources :: "unit api_resource_list list" where
  "sample_resources = map (\<lambda>gv. \<lparr>arl_GroupVersion = gv, arl_APIResources = []\<rparr>)
     [''networking.x-k8s.io/v1alpha1'', ''v1'', ''networking.x-k8s.io/v1alpha2'']"

theorem discovery_groups_witness:
  "\<forall>(env :: 'u fake_env) s. \<exists>groups s'.
     ServerGroups sorted_list_of_fmap (simple_fake env) sample_resources s = (Inr groups, s') \<and>
     ag_Name ` set groups = {'''', ''networking.x-k8s.io''}"
proof (intro allI)
  fix env :: "'u fake_env" and s
  have order: "ranges_groups (sorted_list_of_fmap :: (string, discovery_group) fmap \<Rightarrow> _)"
    unfolding ranges_groups_def sorted_list_of_fmap_def
    by (auto simp: comp_def fmlookup_dom_iff sorted_list_of_fset.rep_eq)
  obtain res s' where run: "ServerGroups sorted_list_of_fmap (simple_fake env) sample_resources s = (res, s')" by fastforce
  have "\<not> (\<exists>r \<in> set sample_resources. 1 < count_list (arl_GroupVersion r) (CHR ''/''))" by code_simp
  with discovery_groups [OF order run] obtain groups where "res = Inr groups"
      "ag_Name ` set groups = (\<lambda>r. gv_Group (parsed_gv r)) ` set sample_resources" by (cases res) auto
  moreover have "(\<lambda>r. gv_Group (parsed_gv r)) ` set sample_resources = {'''', ''networking.x-k8s.io''}" by code_simp
  ultimately show "\<exists>groups s'. ServerGroups sorted_list_of_fmap (simple_fake env) sample_resources s = (Inr groups, s') \<and>
      ag_Name ` set groups = {'''', ''networking.x-k8s.io''}" using run by auto
qed

end
