(* ===== verification/Spec2Isabelle.thy ===== *)
theory Spec2Isabelle
  imports ProbeTargets ConfigHeap RestLaws ControllerSetup ClusterLive FakeDiscovery
begin

text \<open>
  A model of net-gateway-api: the Knative networking layer that turns a Knative \<open>Ingress\<close> into
  \<open>HTTPRoute\<close> resources of the Kubernetes Gateway API, with the generated clients, listers, informers and
  injection packages it is built on, and those parts of its vendored libraries that decide what it does.

  \<^bold>\<open>The parts and how they interact.\<close> Informers watch the API server through the typed clients and
  hand events to the handlers of the controller, which put keys on a work queue. A worker turns a key into
  the cached Ingress and calls \<open>ReconcileKind\<close>. That call reads the configuration from its context (put
  there by the store, which parses two ConfigMaps), makes one HTTPRoute per rule with a probe header, creates
  or updates it through the client, and asks the status prober whether the Ingress is ready. The prober lists
  the addresses to probe, probes them concurrently, and its callback puts the key on the queue again. The
  status of the Ingress is driven by the condition manager of Knative.

  \<^bold>\<open>Which theory models which part.\<close> Paths are below \<open>src\<close>; a definition has the name of the function it
  models, prefixed by its receiver or package where names clash.
  \<^item> \<open>Prelude\<close>: Go values in HOL, errors, lemmas shared by all; \<open>Meta\<close>: object metadata, keys, owners,
    \<open>IntOrString\<close>; \<open>GoPath\<close>: \<open>path.Join\<close>.
  \<^item> \<open>IngressApi\<close>, \<open>HTTPRouteApi\<close>: the two resources (\<open>vendor/knative.dev/networking\<close>,
    \<open>vendor/sigs.k8s.io/gateway-api\<close>), defaulting, status operations, semantic equality; \<open>Conditions\<close>: the
    condition manager (\<open>vendor/knative.dev/pkg/apis\<close>).
  \<^item> \<open>GatewayConfig\<close>, \<open>ConfigStore\<close>, \<open>ConfigHeap\<close>: \<open>pkg/reconciler/ingress/config\<close>, its parsing, its store,
    and its generated deep copies on a heap.
  \<^item> \<open>ProbeHeader\<close>, \<open>Resources\<close>, \<open>ProbeTargets\<close>: the probe header, the construction of a route
    (\<open>pkg/reconciler/ingress/resources\<close>), the listing of targets (\<open>lister.go\<close>).
  \<^item> \<open>RouteReconcile\<close>, \<open>IngressReconcile\<close>: \<open>reconcile_resources.go\<close> and \<open>ingress.go\<close>.
  \<^item> \<open>Prober\<close>, \<open>ProberInv\<close>, \<open>ProberLaws\<close>: the status prober as a step relation in which workers,
    goroutines, callers and cancellations interleave, its invariant, and what it promises.
  \<^item> \<open>Controller\<close>, \<open>ControllerSetup\<close>: \<open>controller.go\<close>, the class filter, the work queue, the
    guards of \<open>Reconcile\<close>, and \<open>NewController\<close> over an injected context; \<open>Worker\<close>: what a worker does with a key,
    from the generated \<open>Reconcile\<close> with its status update (\<open>vendor/knative.dev/networking\<close>) to \<open>handleErr\<close>.
  \<^item> \<open>ProbedReconcile\<close>: the reconciler with the status prober as its status manager; \<open>Cluster\<close>: the whole
    controller in its cluster, a step relation over the API server, the work queue and the prober, whose
    actors are the worker, the prober with its callback, the informers of routes and Ingresses, the gateways
    that write the status of routes, and the users; \<open>ClusterLive\<close>: runs of it that lead to a ready Ingress.
  \<^item> \<open>RestClient\<close>, \<open>TypedClients\<close>, \<open>RestLaws\<close>, \<open>Clientset\<close>: the REST client, the seven typed clients
    (\<open>pkg/client/gatewayapi/clientset/versioned\<close>), what they send, and how the clientset is built.
  \<^item> \<open>Tracker\<close>, \<open>FakeTesting\<close>, \<open>FakeClients\<close>, \<open>FakeClientset\<close>: the fake clientset over an object tracker;
    \<open>Scheme\<close>, \<open>FakeDiscovery\<close>: the registry of types and kinds both clientsets register the Gateway API in, and
    the discovery client of the fake one.
  \<^item> \<open>Listers\<close>, \<open>Informers\<close>, \<open>Injection\<close>: the generated packages of these names.
  \<^item> \<open>Samples\<close>: concrete inputs for the witnesses.

  \<^bold>\<open>State and effects.\<close> Sequential code is state passing: a world of type \<open>'w\<close> that the services act on (the
  tracker in the refinement lemmas, a log of requests in \<open>RestLaws\<close>, the routes and the prober in \<open>ProbedReconcile\<close>). Pointers that
  are shared and written (configurations, informers, the loop variable a closure captures, the states of the
  prober) are positions in an explicit heap. A panic is \<open>None\<close>, an error \<open>Inl\<close>. Integers that can overflow are
  words. The order in which Go ranges over a map is an argument of each function that depends on it.

  \<^bold>\<open>What the lemmas show.\<close> For a reconciliation: when an Ingress becomes ready, that it does not when
  something fails, that routes carry the probe hash, serve the requests of their rule, and converge; and for the worker around it, that the status it computed,
  with the generation and honest times, is what is stored (\<open>worker_records_status\<close>). For the
  prober: an invariant of all interleavings, that ready means probed, that the callback comes exactly once per
  version, that counters do not overflow, and that probing terminates. For the controller as a whole: every
  reachable state of the cluster is well formed (\<open>cluster_well_formed\<close>), an Ingress whose stored status says ready
  has had every listed target probed with the hash of its spec (\<open>ready_status_honest\<close>), and from every reachable state an Ingress whose rules are complete can be
  brought to ready by steps of the controller, the prober and its gateways alone (\<open>ingress_becomes_ready\<close>). For configurations: which are accepted, that the store keeps the last good one, that
  copies are separate, and that an update resyncs. For the clients: what is sent, how often, and where to. For
  the tests' side: that the fake clients and listers are interchangeable with the store the reconciler is proved
  over, and that types and kinds registered in a scheme are inverse to each other. For informers: that they are shared, run once, set up completely, and, when filtered, all use the last
  selector. The locales \<open>object_store\<close>, \<open>ingress_store\<close>, \<open>route_client\<close>, \<open>conditions_accessor\<close> and \<open>shared_provider\<close> state what
  a client may assume of a store, of the routes in it, of a status and of a factory; each is interpreted on
  the model of the code that provides it.

  \<^bold>\<open>Termination.\<close> Every function is total: recursion is structural or over an explicit count. The retry loop
  of a request runs over the number of retries left, ten as in the source, so no fuel is guessed. The prober may
  retry for ever when a gateway never serves an Ingress; when the gateways do, every run of its workers and
  goroutines ends, within a bound, and ends with everything ready (\<open>probing_terminates\<close>). What holds of it
  otherwise is stated of all reachable states.

  \<^bold>\<open>Arguments of the model.\<close> The YAML decoder, JSON marshalling, SHA-256, the clock, the cluster domain, the
  transport, codecs and rate limiter of the REST client, the constructors of REST and discovery clients, the
  parser of label selectors, the patch libraries of the tracker, the answers of the gateway to probes, the
  election of a leader and the parsing of the network configuration.

  \<^bold>\<open>Not modelled.\<close> Logging, metrics and tracing have no effect on what is stated. The reflector of an informer
  and its cache, and the rate limiting of the work queue belong to libraries; listers take the cache as an
  argument instead. The finalizers of the generated reconciler are left out, because the reconciler here has none.
  The real discovery client is named but opaque, and the conversion functions of a scheme are left out. The
  entry point \<open>cmd/controller/main.go\<close>, the test helpers and the tools only call libraries.
\<close>

section \<open>Properties of a reconciliation\<close>

text \<open>C1. After a reconciliation without an error the Ingress is Ready exactly if the prober said so and
  either the network was already configured or the HTTPRoute of at least one rule has been
  admitted by all its gateways. One route is reconciled per rule.\<close>

theorem ingress_ready_iff:
  assumes "reconcileIngress sv ctx n ing0 w = Some (None, n', ing', w', evs)"
    and "status_inv (ing_Status ing0)"
  shows "\<exists>prior w1 ready. Ingress_SetDefaults ing0 = Some prior \<and> sv_IsReady sv prior w1 = (Inr ready, w') \<and>
    (let ing1 = probed sv n prior;
         routes = loop_routes sv ctx ing1 (is_Rules (ing_Spec ing1)) w;
         configured = cstat ''NetworkConfigured'' (Ingress_InitializeConditions (sv_clock sv) (n, ing_Status ing0))
     in length routes = length (is_Rules (ing_Spec ing0)) \<and>
        (IsTrue (GetCondition ConditionReady (st_Conditions (ing_Status ing'))) \<longleftrightarrow>
           ready \<and> (configured = Some ConditionTrue \<or> (\<exists>r \<in> set routes. route_ready r))))"
proof (rule reconcile_conditions [OF assms], goal_cases)
  case (1 prior st0 w1 ready)
  then show ?case by (intro exI [of _ prior] exI [of _ w1] exI [of _ ready]) (auto simp: Let_def)
qed

theorem ingress_ready_iff_witness:
  "\<exists>n' ing' w' evs. reconcileIngress (sample_services True) sample_ctx 0 sample_ingress NewObjectTracker =
     Some (None, n', ing', w', evs) \<and>
   (\<exists>prior w1 ready. Ingress_SetDefaults sample_ingress = Some prior \<and>
      sv_IsReady (sample_services True) prior w1 = (Inr ready, w'))"
proof -
  have "map_option fst (reconcileIngress (sample_services True) sample_ctx 0 sample_ingress NewObjectTracker) = Some None"
    by code_simp
  then obtain n' ing' w' evs where run:
    "reconcileIngress (sample_services True) sample_ctx 0 sample_ingress NewObjectTracker = Some (None, n', ing', w', evs)"
    by auto
  have "status_inv (ing_Status sample_ingress)" by (simp add: sample_ingress_def)
  from ingress_ready_iff [OF run this] run show ?thesis by blast
qed





text \<open>C17. A reconciliation does not panic when the context has a gateway configuration and every rule
  has hosts and an HTTP block.\<close>

theorem reconcile_no_panic:
  assumes "gateway_of ctx \<noteq> None" and "list_all rule_complete (is_Rules (ing_Spec ing0))"
  shows "ReconcileKind sv ctx n ing0 w \<noteq> None"
  using reconcileIngress_no_panic [OF assms] by (simp add: ReconcileKind_def)

theorem reconcile_no_panic_witness:
  "ReconcileKind (sample_services False) sample_ctx 0 sample_ingress NewObjectTracker \<noteq> None"
proof (rule reconcile_no_panic)
  show "gateway_of sample_ctx \<noteq> None" by (simp add: gateway_of_def sample_ctx_def FromContext_def)
  show "list_all rule_complete (is_Rules (ing_Spec sample_ingress))" by code_simp
qed

end
